(* ===== verification/Go_Prelude.thy ===== *)
theory Go_Prelude
  imports Main "HOL-Library.Word" "HOL-Library.Signed_Division" "HOL-Library.Char_ord"
    "HOL-Library.List_Lexorder" "HOL-Library.Multiset"
begin

text \<open>
  The part of Go and of its standard library that the operator's code uses, and the
  generic lemmas the component theories share.

  \<^item> Integers: \<open>int32\<close> and \<open>int64\<close> values are \<open>int\<close>s, and every arithmetic operator of the
    source is the exact result brought back into range by \<open>wrap32\<close> or \<open>wrap64\<close>;
    \<open>wrap32_word\<close> and \<open>wrap64_word\<close> say that this is two's complement. Go's \<open>/\<close> and \<open>%\<close> round
    towards zero: \<open>sdiv\<close> and \<open>smod\<close>.
  \<^item> Time: \<open>time.Duration\<close> is a number of nanoseconds, \<open>time.Time\<close> a number of nanoseconds
    since the Unix epoch.
  \<^item> Strings are byte lists, compared and sorted bytewise as Go does.
  \<^item> The two-valued results \<open>(v, err)\<close> of the source are sums, the error on the left.
\<close>

named_theorems go_arith "the operators of the source, unfolded to wrapped integer arithmetic"

section \<open>Fixed-width integers\<close>

type_synonym int32 = int
type_synonym int64 = int

definition wrap32 :: "int \<Rightarrow> int" where
  "wrap32 x = (x + 2 ^ 31) mod 2 ^ 32 - 2 ^ 31"

definition wrap64 :: "int \<Rightarrow> int" where
  "wrap64 x = (x + 2 ^ 63) mod 2 ^ 64 - 2 ^ 63"

abbreviation in_int32 :: "int \<Rightarrow> bool" where
  "in_int32 x \<equiv> - (2 ^ 31) \<le> x \<and> x < 2 ^ 31"

abbreviation in_int64 :: "int \<Rightarrow> bool" where
  "in_int64 x \<equiv> - (2 ^ 63) \<le> x \<and> x < 2 ^ 63"

lemma wrap32_id [simp]: "- 2147483648 \<le> x \<Longrightarrow> x < 2147483648 \<Longrightarrow> wrap32 x = x"
  by (simp add: wrap32_def)

lemma wrap64_id [simp]:
  "- 9223372036854775808 \<le> x \<Longrightarrow> x < 9223372036854775808 \<Longrightarrow> wrap64 x = x"
  by (simp add: wrap64_def)

lemma wrap32_range: "in_int32 (wrap32 x)"
  unfolding wrap32_def
  using pos_mod_bound [of "2 ^ 32" "x + 2 ^ 31"] pos_mod_sign [of "2 ^ 32" "x + 2 ^ 31"] by simp

lemma wrap64_range: "in_int64 (wrap64 x)"
  unfolding wrap64_def
  using pos_mod_bound [of "2 ^ 64" "x + 2 ^ 63"] pos_mod_sign [of "2 ^ 64" "x + 2 ^ 63"] by simp

lemma wrap32_word: "wrap32 x = sint (word_of_int x :: 32 word)"
  by (simp add: sint_sbintrunc' wrap32_def signed_take_bit_eq_take_bit_shift take_bit_eq_mod)

lemma wrap64_word: "wrap64 x = sint (word_of_int x :: 64 word)"
  by (simp add: sint_sbintrunc' wrap64_def signed_take_bit_eq_take_bit_shift take_bit_eq_mod)

definition i32_add :: "int32 \<Rightarrow> int32 \<Rightarrow> int32" where
  [go_arith]: "i32_add a b = wrap32 (a + b)"

definition i32_sub :: "int32 \<Rightarrow> int32 \<Rightarrow> int32" where
  [go_arith]: "i32_sub a b = wrap32 (a - b)"

definition i32_mul :: "int32 \<Rightarrow> int32 \<Rightarrow> int32" where
  [go_arith]: "i32_mul a b = wrap32 (a * b)"

definition i32_div :: "int32 \<Rightarrow> int32 \<Rightarrow> int32" where
  [go_arith]: "i32_div a b = wrap32 (a sdiv b)"

definition i32_mod :: "int32 \<Rightarrow> int32 \<Rightarrow> int32" where
  [go_arith]: "i32_mod a b = a smod b"

definition i64_add :: "int64 \<Rightarrow> int64 \<Rightarrow> int64" where
  [go_arith]: "i64_add a b = wrap64 (a + b)"

definition i64_sub :: "int64 \<Rightarrow> int64 \<Rightarrow> int64" where
  [go_arith]: "i64_sub a b = wrap64 (a - b)"

definition i64_mul :: "int64 \<Rightarrow> int64 \<Rightarrow> int64" where
  [go_arith]: "i64_mul a b = wrap64 (a * b)"

definition i64_div :: "int64 \<Rightarrow> int64 \<Rightarrow> int64" where
  [go_arith]: "i64_div a b = wrap64 (a sdiv b)"

definition i64_mod :: "int64 \<Rightarrow> int64 \<Rightarrow> int64" where
  [go_arith]: "i64_mod a b = a smod b"

lemma sdiv_nonneg [simp]: "0 \<le> a \<Longrightarrow> 0 < b \<Longrightarrow> (a :: int) sdiv b = a div b"
  by (cases "a = 0") (simp_all add: signed_divide_int_def)

lemma smod_nonneg [simp]: "0 \<le> a \<Longrightarrow> 0 < b \<Longrightarrow> (a :: int) smod b = a mod b"
  by (cases "a = 0") (simp_all add: signed_modulo_int_def)

lemma smod_bounds: "0 < b \<Longrightarrow> - b < (a :: int) smod b \<and> a smod b < b"
proof -
  assume b: "0 < b"
  define m where "m = \<bar>a\<bar> mod \<bar>b\<bar>"
  have "0 \<le> m" and "m < b" using b by (simp_all add: m_def)
  moreover have "a smod b = sgn a * m" by (simp add: signed_modulo_int_def m_def)
  ultimately show ?thesis
    using b by (simp add: sgn_if)
qed

lemma int_div_mult_le: "0 < (b :: int) \<Longrightarrow> a div b * b \<le> a"
  using div_mult_mod_eq [of a b] pos_mod_sign [of b a] by linarith

lemma int_div_le_self: "0 < (b :: int) \<Longrightarrow> 0 \<le> a \<Longrightarrow> a div b \<le> a"
  using int_div_mult_le [of b a] mult_left_mono [of 1 b "a div b"]
  by (simp add: pos_imp_zdiv_nonneg_iff)

lemma int_div_lessI: "0 < (b :: int) \<Longrightarrow> a < c * b \<Longrightarrow> a div b < c"
  using int_div_mult_le [of b a] mult_right_mono [of c "a div b" b] by linarith

lemma int_div_eq_iff: "0 < (t :: int) \<Longrightarrow> x div t = m \<longleftrightarrow> m * t \<le> x \<and> x < m * t + t"
proof
  assume t: "0 < t" and m: "m * t \<le> x \<and> x < m * t + t"
  show "x div t = m" by (rule int_div_pos_eq [of x t m "x - m * t"]) (use m in \<open>simp_all add: mult.commute\<close>)
next
  assume t: "0 < t" and m: "x div t = m"
  have "0 \<le> x mod t" "x mod t < t" using t by simp_all
  moreover have "x = m * t + x mod t" using div_mult_mod_eq [of x t] m by simp
  ultimately show "m * t \<le> x \<and> x < m * t + t" by linarith
qed

text \<open>Go's idiom \<open>(x % n + n) % n\<close> is the mathematical remainder.\<close>

lemma go_mod_idiom: "0 < n \<Longrightarrow> ((x :: int) smod n + n) smod n = x mod n"
proof -
  assume n: "0 < n"
  have "(x smod n + n) smod n = (x smod n + n) mod n"
    using n smod_bounds [OF n, of x] by simp
  also have "\<dots> = x mod n"
    using n by (simp add: signed_modulo_int_eq_modulo_int mod_simps algebra_simps)
  finally show ?thesis .
qed

text \<open>Go's floor division written over truncation, as the rotation grid does it.\<close>

lemma go_floor_idiom:
  "0 < d \<Longrightarrow> (if x < 0 \<and> x smod d \<noteq> 0 then x sdiv d - 1 else x sdiv d) = (x :: int) div d"
proof -
  assume d: "0 < d"
  have zero: "x smod d = 0 \<longleftrightarrow> d dvd x"
    using d by (cases "x = 0") (simp_all add: signed_modulo_int_def sgn_0_0 dvd_eq_mod_eq_0 [symmetric])
  show ?thesis
    using d by (cases "x < 0"; cases "x = 0") (simp_all add: zero signed_divide_int_eq_divide_int)
qed

section \<open>Time\<close>

type_synonym duration = int64
type_synonym time = int

definition Second :: duration where
  "Second = 1000000000"

definition unix_sec :: "time \<Rightarrow> int64" where
  "unix_sec t = t div 1000000000"

definition nanosecond :: "time \<Rightarrow> int" where
  "nanosecond t = t mod 1000000000"

definition zero_time :: time where
  "zero_time = - 62135596800000000000"

definition time_add :: "time \<Rightarrow> duration \<Rightarrow> time" where
  "time_add t d = t + d"

text \<open>\<open>Time.Sub\<close> saturates at the ends of the \<open>int64\<close> range.\<close>

definition time_sub :: "time \<Rightarrow> time \<Rightarrow> duration" where
  "time_sub t u = max (- (2 ^ 63)) (min (2 ^ 63 - 1) (t - u))"

lemma time_sub_nonneg: "u \<le> t \<Longrightarrow> 0 \<le> time_sub t u"
  by (simp add: time_sub_def)

lemma time_sub_pos_iff: "0 < time_sub t u \<longleftrightarrow> u < t"
  by (auto simp: time_sub_def)

lemma unix_split: "t = unix_sec t * 1000000000 + nanosecond t"
  by (simp add: unix_sec_def nanosecond_def)

lemma nanosecond_bounds: "0 \<le> nanosecond t \<and> nanosecond t < 1000000000"
  by (simp add: nanosecond_def)

section \<open>Strings\<close>

text \<open>Decimal rendering: \<open>strconv.Itoa\<close>, \<open>%d\<close> and \<open>%02d\<close>.\<close>

definition digit_char :: "nat \<Rightarrow> char" where
  "digit_char d = char_of (48 + d)"

definition is_digit :: "char \<Rightarrow> bool" where
  "is_digit c \<longleftrightarrow> 48 \<le> (of_char c :: nat) \<and> (of_char c :: nat) \<le> 57"

definition digit_val :: "char \<Rightarrow> nat" where
  "digit_val c = of_char c - 48"

fun dec :: "nat \<Rightarrow> string" where
  "dec n = (if n < 10 then [digit_char n] else dec (n div 10) @ [digit_char (n mod 10)])"

declare dec.simps [simp del]

definition itoa :: "int \<Rightarrow> string" where
  "itoa x = (if x < 0 then CHR ''-'' # dec (nat (- x)) else dec (nat x))"

definition pad2 :: "nat \<Rightarrow> string" where
  "pad2 n = (if n < 10 then CHR ''0'' # dec n else dec n)"

text \<open>Reading decimal digits back.\<close>

fun dec_val :: "nat \<Rightarrow> string \<Rightarrow> nat" where
  "dec_val acc [] = acc"
| "dec_val acc (c # cs) = dec_val (10 * acc + digit_val c) cs"

lemma of_char_digit_char [simp]: "d < 10 \<Longrightarrow> of_char (digit_char d) = 48 + d"
  by (simp add: digit_char_def of_char_of)

lemma digit_val_char [simp]: "d < 10 \<Longrightarrow> digit_val (digit_char d) = d"
  by (simp add: digit_val_def)

lemma is_digit_char [simp]: "d < 10 \<Longrightarrow> is_digit (digit_char d)"
  by (simp add: is_digit_def)

lemma dec_val_append: "dec_val acc (xs @ ys) = dec_val (dec_val acc xs) ys"
  by (induction xs arbitrary: acc) auto

lemma dec_digits: "\<forall>c \<in> set (dec n). is_digit c"
proof (induction n rule: dec.induct)
  case (1 n)
  then show ?case by (subst dec.simps) (auto simp: Let_def)
qed

lemma dec_nonempty [simp]: "dec n \<noteq> []"
  by (subst dec.simps) simp

lemma dec_val_dec [simp]: "dec_val 0 (dec n) = n"
proof (induction n rule: dec.induct)
  case (1 n)
  show ?case
  proof (cases "n < 10")
    case True
    then show ?thesis by (subst dec.simps) simp
  next
    case False
    with "1.IH" have "dec_val 0 (dec (n div 10)) = n div 10" by simp
    with False show ?thesis by (subst dec.simps) (simp add: dec_val_append)
  qed
qed

lemma dec_val_zeros: "dec_val 0 (replicate m CHR ''0'' @ d) = dec_val 0 d"
  by (induction m) (simp_all add: digit_val_def)

lemma dec_inj: "dec m = dec n \<Longrightarrow> m = n"
  by (metis dec_val_dec)

lemma dec_no_char: "\<not> is_digit c \<Longrightarrow> c \<notin> set (dec n)"
  using dec_digits by blast

lemma not_digit_chars [simp]:
  "\<not> is_digit CHR ''-''" "\<not> is_digit CHR ''+''" "\<not> is_digit CHR '':''" "\<not> is_digit CHR '' ''"
  by (simp_all add: is_digit_def)

lemma itoa_nonempty [simp]: "itoa x \<noteq> []"
  by (simp add: itoa_def)

lemma hd_dec_digit: "is_digit (hd (dec n))"
  using dec_digits [of n] dec_nonempty [of n] by (meson list.set_sel(1))

lemma itoa_inj: "itoa x = itoa y \<Longrightarrow> x = y"
proof -
  assume eq: "itoa x = itoa y"
  have hd: "\<And>n. hd (dec n) \<noteq> CHR ''-''"
    using hd_dec_digit not_digit_chars(1) by metis
  show ?thesis
  proof (cases "x < 0"; cases "y < 0")
    assume "x < 0" "\<not> y < 0"
    with eq hd [of "nat y"] show ?thesis by (metis itoa_def list.sel(1))
  next
    assume "\<not> x < 0" "y < 0"
    with eq hd [of "nat x"] show ?thesis by (metis itoa_def list.sel(1))
  qed (use eq in \<open>auto simp: itoa_def dest: dec_inj\<close>)
qed

text \<open>
  \<open>strconv.ParseInt(s, base, bits)\<close> for a base of 2 to 36: an optional sign, then at least one
  digit, all below the base; \<open>None\<close> is a syntax or a range error.
\<close>

definition char_digit :: "char \<Rightarrow> nat option" where
  "char_digit c =
     (let x = (of_char c :: nat) in
      if 48 \<le> x \<and> x \<le> 57 then Some (x - 48)
      else if 97 \<le> x \<and> x \<le> 122 then Some (x - 87)
      else if 65 \<le> x \<and> x \<le> 90 then Some (x - 55)
      else None)"

fun parse_digits :: "nat \<Rightarrow> nat \<Rightarrow> string \<Rightarrow> nat option" where
  "parse_digits base acc [] = Some acc"
| "parse_digits base acc (c # cs) =
     (case char_digit c of
        None \<Rightarrow> None
      | Some d \<Rightarrow> if d < base then parse_digits base (base * acc + d) cs else None)"

definition parse_int :: "nat \<Rightarrow> nat \<Rightarrow> string \<Rightarrow> int option" where
  "parse_int base bits s =
     (let neg = (s \<noteq> [] \<and> hd s = CHR ''-'');
          body = (if s \<noteq> [] \<and> (hd s = CHR ''-'' \<or> hd s = CHR ''+'') then tl s else s) in
      if body = [] then None
      else (case parse_digits base 0 body of
          None \<Rightarrow> None
        | Some n \<Rightarrow>
            if neg then (if int n \<le> 2 ^ (bits - 1) then Some (- int n) else None)
            else (if int n < 2 ^ (bits - 1) then Some (int n) else None)))"

lemma char_digit_dec: "is_digit c \<Longrightarrow> char_digit c = Some (digit_val c) \<and> digit_val c < 10"
  by (auto simp: char_digit_def is_digit_def digit_val_def Let_def)

lemma parse_digits_dec:
  "\<forall>c \<in> set s. is_digit c \<Longrightarrow> parse_digits 10 acc s = Some (dec_val acc s)"
  by (induction s arbitrary: acc) (auto simp: char_digit_dec)

lemma parse_int_dec: "int n < 2 ^ (bits - 1) \<Longrightarrow> parse_int 10 bits (dec n) = Some (int n)"
proof -
  assume n: "int n < 2 ^ (bits - 1)"
  have "hd (dec n) \<noteq> CHR ''-''" and "hd (dec n) \<noteq> CHR ''+''"
    using hd_dec_digit not_digit_chars by metis+
  with n show ?thesis
    by (simp add: parse_int_def parse_digits_dec dec_digits)
qed

text \<open>\<open>strings.Join\<close>.\<close>

fun join :: "string \<Rightarrow> string list \<Rightarrow> string" where
  "join sep [] = []"
| "join sep [x] = x"
| "join sep (x # y # ys) = x @ sep @ join sep (y # ys)"

text \<open>\<open>strings.Split\<close> on a separator of one byte: always at least one part.\<close>

fun split_on :: "char \<Rightarrow> string \<Rightarrow> string list" where
  "split_on sep [] = [[]]"
| "split_on sep (c # cs) =
     (if c = sep then [] # split_on sep cs
      else (case split_on sep cs of [] \<Rightarrow> [[c]] | p # ps \<Rightarrow> (c # p) # ps))"

lemma split_on_nonempty [simp]: "split_on sep s \<noteq> []"
  by (induction s) (auto split: list.splits)

lemma split_on_free: "sep \<notin> set s \<Longrightarrow> split_on sep s = [s]"
  by (induction s) auto

lemma split_on_append:
  "sep \<notin> set x \<Longrightarrow> split_on sep (x @ sep # rest) = x # split_on sep rest"
  by (induction x) auto

lemma split_join:
  "xs \<noteq> [] \<Longrightarrow> \<forall>x \<in> set xs. sep \<notin> set x \<Longrightarrow> split_on sep (join [sep] xs) = xs"
  by (induction "[sep]" xs rule: join.induct) (auto simp: split_on_free split_on_append)

text \<open>
  \<open>strings.TrimSpace\<close>: the byte sequences (UTF-8) of the runes \<open>unicode.IsSpace\<close> accepts are
  removed from both ends.
\<close>

definition space_seqs :: "string list" where
  "space_seqs =
    [[CHR 0x09], [CHR 0x0A], [CHR 0x0B], [CHR 0x0C], [CHR 0x0D], [CHR 0x20],
     [CHR 0xC2, CHR 0x85], [CHR 0xC2, CHR 0xA0], [CHR 0xE1, CHR 0x9A, CHR 0x80],
     [CHR 0xE2, CHR 0x80, CHR 0x80], [CHR 0xE2, CHR 0x80, CHR 0x81],
     [CHR 0xE2, CHR 0x80, CHR 0x82], [CHR 0xE2, CHR 0x80, CHR 0x83],
     [CHR 0xE2, CHR 0x80, CHR 0x84], [CHR 0xE2, CHR 0x80, CHR 0x85],
     [CHR 0xE2, CHR 0x80, CHR 0x86], [CHR 0xE2, CHR 0x80, CHR 0x87],
     [CHR 0xE2, CHR 0x80, CHR 0x88], [CHR 0xE2, CHR 0x80, CHR 0x89],
     [CHR 0xE2, CHR 0x80, CHR 0x8A], [CHR 0xE2, CHR 0x80, CHR 0xA8],
     [CHR 0xE2, CHR 0x80, CHR 0xA9], [CHR 0xE2, CHR 0x80, CHR 0xAF],
     [CHR 0xE2, CHR 0x81, CHR 0x9F], [CHR 0xE3, CHR 0x80, CHR 0x80]]"

fun strip_prefix :: "string \<Rightarrow> string \<Rightarrow> string option" where
  "strip_prefix [] s = Some s"
| "strip_prefix (p # ps) [] = None"
| "strip_prefix (p # ps) (c # cs) = (if p = c then strip_prefix ps cs else None)"

fun strip_any :: "string list \<Rightarrow> string \<Rightarrow> string option" where
  "strip_any [] s = None"
| "strip_any (p # ps) s =
     (case (if p = [] then None else strip_prefix p s) of None \<Rightarrow> strip_any ps s | Some r \<Rightarrow> Some r)"

lemma strip_prefix_iff: "strip_prefix p s = Some r \<longleftrightarrow> s = p @ r"
  by (induction p s rule: strip_prefix.induct) auto

lemma strip_any_SomeD: "strip_any ps s = Some r \<Longrightarrow> \<exists>p \<in> set ps. p \<noteq> [] \<and> s = p @ r"
  by (induction ps) (auto simp: strip_prefix_iff split: option.splits if_splits)

lemma strip_any_None_iff: "strip_any ps s = None \<longleftrightarrow> (\<forall>p \<in> set ps. p \<noteq> [] \<longrightarrow> (\<forall>r. s \<noteq> p @ r))"
proof -
  have "strip_prefix p s = None \<longleftrightarrow> (\<forall>r. s \<noteq> p @ r)" for p
    by (metis not_Some_eq strip_prefix_iff)
  then show ?thesis
    by (induction ps) (auto simp: strip_prefix_iff split: option.splits if_splits)
qed

function trim_left :: "string list \<Rightarrow> string \<Rightarrow> string" where
  "trim_left ps s = (case strip_any ps s of None \<Rightarrow> s | Some r \<Rightarrow> trim_left ps r)"
  by pat_completeness auto
termination
  by (relation "measure (\<lambda>(ps, s). length s)") (auto dest!: strip_any_SomeD)

declare trim_left.simps [simp del]

definition trim_space :: "string \<Rightarrow> string" where
  "trim_space s = rev (trim_left (map rev space_seqs) (rev (trim_left space_seqs s)))"

lemma trim_left_stable: "strip_any ps (trim_left ps s) = None"
proof (induction ps s rule: trim_left.induct)
  case (1 ps s)
  then show ?case by (subst trim_left.simps) (auto split: option.splits)
qed

lemma trim_left_suffix: "\<exists>u. s = u @ trim_left ps s"
proof (induction ps s rule: trim_left.induct)
  case (1 ps s)
  show ?case
  proof (cases "strip_any ps s")
    case None
    then show ?thesis by (subst trim_left.simps) simp
  next
    case (Some r)
    then obtain p where "s = p @ r" by (auto dest: strip_any_SomeD)
    moreover from 1 [OF Some] obtain u where "r = u @ trim_left ps r" by blast
    ultimately have "s = (p @ u) @ trim_left ps r" by simp
    moreover have "trim_left ps s = trim_left ps r" using Some by (subst trim_left.simps) simp
    ultimately show ?thesis by metis
  qed
qed

lemma trim_left_id: "strip_any ps s = None \<Longrightarrow> trim_left ps s = s"
  by (subst trim_left.simps) simp

lemma trim_space_idem [simp]: "trim_space (trim_space s) = trim_space s"
proof -
  let ?a = "trim_left space_seqs s"
  let ?b = "trim_left (map rev space_seqs) (rev ?a)"
  obtain u where "rev ?a = u @ ?b" using trim_left_suffix by blast
  then have a: "?a = rev ?b @ rev u" by (metis rev_append rev_rev_ident)
  have "strip_any space_seqs ?a = None" by (rule trim_left_stable)
  then have "strip_any space_seqs (rev ?b) = None"
    by (subst (asm) a) (auto simp: strip_any_None_iff)
  then have "trim_left space_seqs (rev ?b) = rev ?b" by (rule trim_left_id)
  moreover have "trim_left (map rev space_seqs) ?b = ?b"
    by (rule trim_left_id, rule trim_left_stable)
  ultimately show ?thesis by (simp add: trim_space_def)
qed

text \<open>
  Letter case. \<open>strings.ToLower\<close> and \<open>strings.EqualFold\<close> work on runes; these functions map the
  ASCII letters and the non-ASCII runes whose result is an ASCII letter (the dotted capital I and
  the Kelvin sign for \<open>ToLower\<close>; the long s and the Kelvin sign for \<open>EqualFold\<close>) and leave every other
  byte alone, which is exact wherever the result is compared with an ASCII constant.
\<close>

definition lower_char :: "char \<Rightarrow> char" where
  "lower_char c = (let x = (of_char c :: nat) in if 65 \<le> x \<and> x \<le> 90 then char_of (x + 32) else c)"

fun strip_table :: "(string \<times> char) list \<Rightarrow> string \<Rightarrow> (char \<times> string) option" where
  "strip_table [] s = None"
| "strip_table ((p, c) # tbl) s =
     (case (if p = [] then None else strip_prefix p s) of
        Some r \<Rightarrow> Some (c, r)
      | None \<Rightarrow> strip_table tbl s)"

lemma strip_table_shorter: "strip_table tbl s = Some (c, r) \<Longrightarrow> length r < length s"
  by (induction tbl) (auto simp: strip_prefix_iff split: option.splits if_splits)

function map_case :: "(string \<times> char) list \<Rightarrow> string \<Rightarrow> string" where
  "map_case tbl s =
     (case strip_table tbl s of
        Some (c, r) \<Rightarrow> c # map_case tbl r
      | None \<Rightarrow> (case s of [] \<Rightarrow> [] | c # cs \<Rightarrow> lower_char c # map_case tbl cs))"
  by pat_completeness auto
termination
  by (relation "measure (\<lambda>(tbl, s). length s)") (auto dest: strip_table_shorter)

declare map_case.simps [simp del]

definition to_lower :: "string \<Rightarrow> string" where
  "to_lower s = map_case [([CHR 0xC4, CHR 0xB0], CHR ''i''), ([CHR 0xE2, CHR 0x84, CHR 0xAA], CHR ''k'')] s"

definition fold_case :: "string \<Rightarrow> string" where
  "fold_case s = map_case [([CHR 0xC5, CHR 0xBF], CHR ''s''), ([CHR 0xE2, CHR 0x84, CHR 0xAA], CHR ''k'')] s"

definition equal_fold :: "string \<Rightarrow> string \<Rightarrow> bool" where
  "equal_fold s t \<longleftrightarrow> fold_case s = fold_case t"

text \<open>\<open>strings.Fields\<close>: the maximal runs without white space.\<close>

function fields_from :: "string \<Rightarrow> string \<Rightarrow> string list" where
  "fields_from cur s =
     (case strip_any space_seqs s of
        Some r \<Rightarrow> (if cur = [] then [] else [cur]) @ fields_from [] r
      | None \<Rightarrow>
          (case s of [] \<Rightarrow> (if cur = [] then [] else [cur]) | c # cs \<Rightarrow> fields_from (cur @ [c]) cs))"
  by pat_completeness auto
termination
  by (relation "measure (\<lambda>(cur, s). length s)") (auto dest!: strip_any_SomeD)

declare fields_from.simps [simp del]

definition str_fields :: "string \<Rightarrow> string list" where
  "str_fields s = fields_from [] s"

text \<open>\<open>strings.Cut\<close> at the first occurrence of a byte.\<close>

fun cut :: "char \<Rightarrow> string \<Rightarrow> (string \<times> string) option" where
  "cut sep [] = None"
| "cut sep (c # cs) =
     (if c = sep then Some ([], cs) else map_option (\<lambda>(p, r). (c # p, r)) (cut sep cs))"

lemma cut_append: "sep \<notin> set p \<Longrightarrow> cut sep (p @ sep # r) = Some (p, r)"
  by (induction p) auto

section \<open>Sorting strings\<close>

text \<open>
  \<open>sort.Strings\<close> on byte strings is \<open>sort\<close> for the lexicographic order of bytes: two lists have
  the same sorted list exactly when they hold the same strings equally often.
\<close>

lemma sort_eq_iff_mset: "sort xs = sort ys \<longleftrightarrow> mset xs = mset (ys :: 'a :: linorder list)"
  by (metis mset_sort properties_for_sort sorted_sort)

lemma Min_insert_min:
  "finite A \<Longrightarrow> Min (insert (min a b) A) = Min (insert a (insert b A))" for a :: "'a :: linorder"
  by (cases "A = {}") (simp_all add: min.assoc)

lemma Max_insert_le:
  "finite A \<Longrightarrow> u \<le> t \<Longrightarrow> Max (insert t (insert u A)) = Max (insert t A)" for t :: "'a :: linorder"
  by (cases "A = {}") (simp_all add: max.assoc [symmetric] max.absorb1)

lemma count_list_distinct: "distinct xs \<Longrightarrow> x \<in> set xs \<Longrightarrow> count_list xs x = 1"
  by (induction xs) auto

section \<open>Errors and finite search\<close>

lemma find_Some_in: "find P xs = Some x \<Longrightarrow> x \<in> set xs \<and> P x"
  by (induction xs) (auto split: if_splits)

lemma find_None_all: "find P xs = None \<longleftrightarrow> (\<forall>x \<in> set xs. \<not> P x)"
  by (induction xs) auto

end
