(* ===== verification/Rid_Coord.thy ===== *)
theory Rid_Coord
  imports Go_Prelude
begin

text \<open>
  The RID matrix of \<open>operator/internal/ridcoord/ridcoord.go\<close>: a syncrepl replica ID is the
  coordinate \<open>rid = 1 + segment * M + offset\<close> with \<open>M = P + S\<close>, and \<open>Local\<close>, \<open>Remote\<close> and
  \<open>Decode\<close> are the only three readers of the formula. The \<open>int32\<close> arithmetic is the wrapped one
  of \<open>Go_Prelude\<close>: that no wrap is ever taken is proved, not assumed.

  The locale \<open>rid_scheme\<close> is what the stanza builders rely on: two partial encoders and a decoder
  that inverts both. It is interpreted on the operations of this file (\<open>rid\<close>).
\<close>

section \<open>Data\<close>

definition MaxRID :: int32 where
  "MaxRID = 999"

record Layout =
  PodsPerSite :: int32
  MaxSites :: int32

text \<open>The refusals, each with the values its message carries.\<close>

datatype layout_fault =
    AxesNotPositive int32 int32
  | PodsPerSitePastBand int32
  | MaxSitesPastBand int32
  | WidthPastBand int32 int32 int32

datatype rid_error =
    ErrInvalidLayout layout_fault
  | ErrSegmentOutOfRange int32 int32
  | ErrOrdinalOutOfRange int32 int32
  | ErrSiteIndexOutOfRange int32 int32
  | ErrRIDOutOfRange int32 int32

datatype Kind = KindLocal | KindRemote

record Coordinate =
  CoordSegment :: int32
  CoordKind :: Kind
  CoordOrdinal :: int32
  CoordSiteIndex :: int32

section \<open>Operations\<close>

definition DefaultLayout :: Layout where
  "DefaultLayout = \<lparr>PodsPerSite = 8, MaxSites = 12\<rparr>"

definition Validate :: "Layout \<Rightarrow> rid_error option" where
  "Validate l =
     (if PodsPerSite l < 1 \<or> MaxSites l < 1
      then Some (ErrInvalidLayout (AxesNotPositive (PodsPerSite l) (MaxSites l)))
      else if PodsPerSite l > MaxRID
      then Some (ErrInvalidLayout (PodsPerSitePastBand (PodsPerSite l)))
      else if MaxSites l > MaxRID
      then Some (ErrInvalidLayout (MaxSitesPastBand (MaxSites l)))
      else let m = i32_add (PodsPerSite l) (MaxSites l) in
        if m > MaxRID
        then Some (ErrInvalidLayout (WidthPastBand m (PodsPerSite l) (MaxSites l)))
        else None)"

definition SegmentWidth :: "Layout \<Rightarrow> int32" where
  "SegmentWidth l = (if Validate l \<noteq> None then 0 else i32_add (PodsPerSite l) (MaxSites l))"

definition MaxSegments :: "Layout \<Rightarrow> int32" where
  "MaxSegments l =
     (let m = SegmentWidth l in if m = 0 then 0 else i32_div MaxRID m)"

definition checkSegment :: "Layout \<Rightarrow> int32 \<Rightarrow> rid_error option" where
  "checkSegment l segment =
     (case Validate l of
        Some err \<Rightarrow> Some err
      | None \<Rightarrow>
          (let c = MaxSegments l in
           if segment < 0 \<or> segment \<ge> c then Some (ErrSegmentOutOfRange segment c) else None))"

definition Local :: "Layout \<Rightarrow> int32 \<Rightarrow> int32 \<Rightarrow> rid_error + int32" where
  "Local l segment ordinal =
     (case checkSegment l segment of
        Some err \<Rightarrow> Inl err
      | None \<Rightarrow>
          if ordinal < 0 \<or> ordinal \<ge> PodsPerSite l
          then Inl (ErrOrdinalOutOfRange ordinal (PodsPerSite l))
          else Inr (i32_add (i32_add 1 (i32_mul segment (SegmentWidth l))) ordinal))"

definition Remote :: "Layout \<Rightarrow> int32 \<Rightarrow> int32 \<Rightarrow> rid_error + int32" where
  "Remote l segment siteIndex =
     (case checkSegment l segment of
        Some err \<Rightarrow> Inl err
      | None \<Rightarrow>
          if siteIndex < 0 \<or> siteIndex \<ge> MaxSites l
          then Inl (ErrSiteIndexOutOfRange siteIndex (MaxSites l))
          else Inr (i32_add (i32_add (i32_add 1 (i32_mul segment (SegmentWidth l)))
                 (PodsPerSite l)) siteIndex))"

definition Decode :: "Layout \<Rightarrow> int32 \<Rightarrow> rid_error + Coordinate" where
  "Decode l rid =
     (case Validate l of
        Some err \<Rightarrow> Inl err
      | None \<Rightarrow>
          (let m = SegmentWidth l; last = i32_mul (MaxSegments l) m in
           if rid < 1 \<or> rid > last then Inl (ErrRIDOutOfRange rid last)
           else
             (let offset = i32_mod (i32_sub rid 1) m; segment = i32_div (i32_sub rid 1) m in
              if offset < PodsPerSite l
              then Inr \<lparr>CoordSegment = segment, CoordKind = KindLocal,
                        CoordOrdinal = offset, CoordSiteIndex = 0\<rparr>
              else Inr \<lparr>CoordSegment = segment, CoordKind = KindRemote,
                        CoordOrdinal = 0, CoordSiteIndex = i32_sub offset (PodsPerSite l)\<rparr>)))"

section \<open>What a usable layout is\<close>

lemma Validate_None_iff:
  "Validate l = None \<longleftrightarrow> 1 \<le> PodsPerSite l \<and> 1 \<le> MaxSites l \<and> PodsPerSite l + MaxSites l \<le> 999"
  by (auto simp: Validate_def MaxRID_def Let_def go_arith)

lemma Validate_Some_kind: "Validate l = Some e \<Longrightarrow> \<exists>f. e = ErrInvalidLayout f"
  by (auto simp: Validate_def Let_def split: if_splits)

lemma SegmentWidth_valid:
  "Validate l = None \<Longrightarrow> SegmentWidth l = PodsPerSite l + MaxSites l"
  by (auto simp: SegmentWidth_def Validate_None_iff go_arith)

lemma SegmentWidth_bounds: "Validate l = None \<Longrightarrow> 2 \<le> SegmentWidth l \<and> SegmentWidth l \<le> 999"
  by (auto simp: SegmentWidth_valid Validate_None_iff)

lemma MaxSegments_valid: "Validate l = None \<Longrightarrow> MaxSegments l = 999 div SegmentWidth l"
proof -
  assume v: "Validate l = None"
  have b: "2 \<le> SegmentWidth l" using SegmentWidth_bounds [OF v] by simp
  then have "999 div SegmentWidth l \<le> 999" and "0 \<le> 999 div SegmentWidth l"
    by (simp_all add: int_div_le_self pos_imp_zdiv_nonneg_iff)
  with b show ?thesis by (simp add: MaxSegments_def MaxRID_def go_arith)
qed

lemma matrix_fits: "Validate l = None \<Longrightarrow> MaxSegments l * SegmentWidth l \<le> 999"
  using SegmentWidth_bounds [of l] int_div_mult_le [of "SegmentWidth l" 999]
  by (simp add: MaxSegments_valid)

lemma MaxSegments_bounds: "Validate l = None \<Longrightarrow> 1 \<le> MaxSegments l \<and> MaxSegments l \<le> 499"
proof -
  assume v: "Validate l = None"
  note b = SegmentWidth_bounds [OF v]
  have "MaxSegments l * 2 \<le> MaxSegments l * SegmentWidth l"
    using b v by (intro mult_left_mono) (simp_all add: MaxSegments_valid pos_imp_zdiv_nonneg_iff)
  with matrix_fits [OF v] have "MaxSegments l \<le> 499" by linarith
  moreover have "1 \<le> 999 div SegmentWidth l"
    using b by (simp add: int_one_le_iff_zero_less pos_imp_zdiv_pos_iff)
  ultimately show ?thesis using v by (simp add: MaxSegments_valid)
qed

lemma checkSegment_None_iff:
  "checkSegment l s = None \<longleftrightarrow> Validate l = None \<and> 0 \<le> s \<and> s < MaxSegments l"
  by (auto simp: checkSegment_def Let_def split: option.splits)

lemma matrix_end:
  "Validate l = None \<Longrightarrow> i32_mul (MaxSegments l) (SegmentWidth l) = MaxSegments l * SegmentWidth l"
proof -
  assume v: "Validate l = None"
  have "0 \<le> MaxSegments l * SegmentWidth l"
    using MaxSegments_bounds [OF v] SegmentWidth_bounds [OF v] by simp
  with matrix_fits [OF v] show ?thesis by (simp add: go_arith)
qed

text \<open>A segment's run of the matrix stays below the end of the matrix.\<close>

lemma segment_run:
  assumes "checkSegment l s = None" and "0 \<le> off" and "off < SegmentWidth l"
  shows "0 \<le> s * SegmentWidth l" and "s * SegmentWidth l + off < MaxSegments l * SegmentWidth l"
    and "s * SegmentWidth l + off < 999"
proof -
  note c = assms(1) [unfolded checkSegment_None_iff]
  then have v: "Validate l = None" and s: "0 \<le> s" "s + 1 \<le> MaxSegments l" by auto
  have w: "2 \<le> SegmentWidth l" using SegmentWidth_bounds [OF v] by simp
  show "0 \<le> s * SegmentWidth l" using s w by simp
  have "(s + 1) * SegmentWidth l \<le> MaxSegments l * SegmentWidth l"
    using s w by (intro mult_right_mono) auto
  then show lt: "s * SegmentWidth l + off < MaxSegments l * SegmentWidth l"
    using assms(3) by (simp add: algebra_simps)
  with matrix_fits [OF v] show "s * SegmentWidth l + off < 999" by linarith
qed

section \<open>The encoders without the wrap\<close>

lemma Local_Inr_iff:
  "Local l s k = Inr r \<longleftrightarrow>
     checkSegment l s = None \<and> 0 \<le> k \<and> k < PodsPerSite l \<and> r = 1 + s * SegmentWidth l + k"
proof (cases "checkSegment l s")
  case (Some e)
  then show ?thesis by (simp add: Local_def)
next
  case None
  then have v: "Validate l = None" by (simp add: checkSegment_None_iff)
  show ?thesis
  proof (cases "0 \<le> k \<and> k < PodsPerSite l")
    case True
    then have "k < SegmentWidth l"
      using v by (simp add: SegmentWidth_valid Validate_None_iff)
    note run = segment_run [OF None _ this]
    show ?thesis using True None run by (auto simp: Local_def go_arith)
  next
    case False
    then show ?thesis using None by (auto simp: Local_def)
  qed
qed

lemma Remote_Inr_iff:
  "Remote l s i = Inr r \<longleftrightarrow>
     checkSegment l s = None \<and> 0 \<le> i \<and> i < MaxSites l \<and>
     r = 1 + s * SegmentWidth l + PodsPerSite l + i"
proof (cases "checkSegment l s")
  case (Some e)
  then show ?thesis by (simp add: Remote_def)
next
  case None
  then have v: "Validate l = None" by (simp add: checkSegment_None_iff)
  show ?thesis
  proof (cases "0 \<le> i \<and> i < MaxSites l")
    case True
    then have "PodsPerSite l + i < SegmentWidth l" and "0 \<le> PodsPerSite l + i"
      using v by (simp_all add: SegmentWidth_valid Validate_None_iff)
    note run = segment_run [OF None this(2,1)]
    show ?thesis
      using True None run v by (auto simp: Remote_def go_arith Validate_None_iff)
  next
    case False
    then show ?thesis using None by (auto simp: Remote_def)
  qed
qed

text \<open>Which refusal is reported, in the order the code asks its questions.\<close>

lemma Local_refusal:
  "Local l s k =
     (if Validate l \<noteq> None then Inl (the (Validate l))
      else if \<not> (0 \<le> s \<and> s < MaxSegments l) then Inl (ErrSegmentOutOfRange s (MaxSegments l))
      else if \<not> (0 \<le> k \<and> k < PodsPerSite l) then Inl (ErrOrdinalOutOfRange k (PodsPerSite l))
      else Inr (1 + s * SegmentWidth l + k))"
  using Local_Inr_iff [of l s k]
  by (auto simp: Local_def checkSegment_def Let_def split: option.splits)

lemma Remote_refusal:
  "Remote l s i =
     (if Validate l \<noteq> None then Inl (the (Validate l))
      else if \<not> (0 \<le> s \<and> s < MaxSegments l) then Inl (ErrSegmentOutOfRange s (MaxSegments l))
      else if \<not> (0 \<le> i \<and> i < MaxSites l) then Inl (ErrSiteIndexOutOfRange i (MaxSites l))
      else Inr (1 + s * SegmentWidth l + PodsPerSite l + i))"
  using Remote_Inr_iff [of l s i]
  by (auto simp: Remote_def checkSegment_def Let_def split: option.splits)

section \<open>Decoding inverts the encoders\<close>

lemma Decode_run:
  assumes "checkSegment l s = None" and "0 \<le> off" and "off < SegmentWidth l"
  shows "Decode l (1 + s * SegmentWidth l + off) =
     (if off < PodsPerSite l
      then Inr \<lparr>CoordSegment = s, CoordKind = KindLocal, CoordOrdinal = off, CoordSiteIndex = 0\<rparr>
      else Inr \<lparr>CoordSegment = s, CoordKind = KindRemote, CoordOrdinal = 0,
                CoordSiteIndex = off - PodsPerSite l\<rparr>)"
proof -
  note run = segment_run [OF assms]
  have v: "Validate l = None" and s: "0 \<le> s" "s < MaxSegments l"
    using assms(1) by (simp_all add: checkSegment_None_iff)
  let ?w = "SegmentWidth l"
  note last = matrix_end [OF v]
  have q: "i32_sub (1 + s * ?w + off) 1 = s * ?w + off"
    using run assms(2) by (simp add: go_arith)
  have d: "(s * ?w + off) div ?w = s" and m: "(s * ?w + off) mod ?w = off"
    using assms(2,3) by simp_all
  have "i32_div (s * ?w + off) ?w = s" and "i32_mod (s * ?w + off) ?w = off"
    using run assms s MaxSegments_bounds [OF v] d m by (simp_all add: go_arith)
  moreover have "off - PodsPerSite l < 999" and "- 999 \<le> off - PodsPerSite l"
    using v assms(2,3) SegmentWidth_bounds [OF v] by (simp_all add: Validate_None_iff)
  ultimately show ?thesis
    unfolding Decode_def Let_def last q using v run assms(2) by (simp add: i32_sub_def)
qed

lemma Decode_in_range:
  assumes "Validate l = None" and "1 \<le> r" and "r \<le> MaxSegments l * SegmentWidth l"
  obtains s off where "checkSegment l s = None" and "0 \<le> off" and "off < SegmentWidth l"
    and "r = 1 + s * SegmentWidth l + off"
proof
  let ?w = "SegmentWidth l"
  have w: "2 \<le> ?w" using SegmentWidth_bounds [OF assms(1)] by simp
  show "0 \<le> (r - 1) mod ?w" and "(r - 1) mod ?w < ?w" using w by simp_all
  show "r = 1 + (r - 1) div ?w * ?w + (r - 1) mod ?w" by simp
  have "(r - 1) div ?w < MaxSegments l"
    using w assms(3) by (intro int_div_lessI) simp_all
  moreover have "0 \<le> (r - 1) div ?w" using w assms(2) by (simp add: pos_imp_zdiv_nonneg_iff)
  ultimately show "checkSegment l ((r - 1) div ?w) = None"
    using assms(1) by (simp add: checkSegment_None_iff)
qed

lemma Decode_Inl_iff:
  "(\<exists>e. Decode l r = Inl e) \<longleftrightarrow>
     Validate l \<noteq> None \<or> r < 1 \<or> r > MaxSegments l * SegmentWidth l"
proof (cases "Validate l")
  case (Some e)
  then show ?thesis by (simp add: Decode_def)
next
  case None
  then show ?thesis by (auto simp: Decode_def Let_def matrix_end [OF None])
qed

lemma Decode_Local:
  "Local l s k = Inr r \<Longrightarrow>
     Decode l r = Inr \<lparr>CoordSegment = s, CoordKind = KindLocal, CoordOrdinal = k, CoordSiteIndex = 0\<rparr>"
  using Decode_run [of l s k]
  by (auto simp: Local_Inr_iff checkSegment_None_iff SegmentWidth_valid Validate_None_iff)

lemma Decode_Remote:
  "Remote l s i = Inr r \<Longrightarrow>
     Decode l r = Inr \<lparr>CoordSegment = s, CoordKind = KindRemote, CoordOrdinal = 0, CoordSiteIndex = i\<rparr>"
  using Decode_run [of l s "PodsPerSite l + i"]
  by (auto simp: Remote_Inr_iff checkSegment_None_iff SegmentWidth_valid Validate_None_iff add.assoc)

text \<open>The two blocks of a segment, as one encoder.\<close>

definition encode :: "Layout \<Rightarrow> Coordinate \<Rightarrow> rid_error + int32" where
  "encode l c =
     (case CoordKind c of
        KindLocal \<Rightarrow> Local l (CoordSegment c) (CoordOrdinal c)
      | KindRemote \<Rightarrow> Remote l (CoordSegment c) (CoordSiteIndex c))"

definition canonical :: "Coordinate \<Rightarrow> bool" where
  "canonical c \<longleftrightarrow>
     (case CoordKind c of KindLocal \<Rightarrow> CoordSiteIndex c = 0 | KindRemote \<Rightarrow> CoordOrdinal c = 0)"

lemma Decode_encode: "canonical c \<Longrightarrow> encode l c = Inr r \<Longrightarrow> Decode l r = Inr c"
  by (cases c) (auto simp: encode_def canonical_def split: Kind.splits dest: Decode_Local Decode_Remote)

lemma encode_Decode:
  assumes "Decode l r = Inr c"
  shows "canonical c \<and> encode l c = Inr r"
proof -
  have v: "Validate l = None" and "1 \<le> r" and "r \<le> MaxSegments l * SegmentWidth l"
    using assms Decode_Inl_iff [of l r] by auto
  then obtain s off where so: "checkSegment l s = None" "0 \<le> off" "off < SegmentWidth l"
    and r: "r = 1 + s * SegmentWidth l + off"
    by (rule Decode_in_range)
  then show ?thesis
    using assms Decode_run [OF so] v
    by (auto simp: canonical_def encode_def Local_Inr_iff Remote_Inr_iff SegmentWidth_valid
        split: if_splits)
qed

section \<open>The contract the stanza builders use\<close>

locale rid_scheme =
  fixes loc :: "'l \<Rightarrow> int32 \<Rightarrow> int32 \<Rightarrow> 'e + int32"
    and rem :: "'l \<Rightarrow> int32 \<Rightarrow> int32 \<Rightarrow> 'e + int32"
    and dec :: "'l \<Rightarrow> int32 \<Rightarrow> 'e + Coordinate"
  assumes dec_loc: "loc l s k = Inr r \<Longrightarrow>
      dec l r = Inr \<lparr>CoordSegment = s, CoordKind = KindLocal, CoordOrdinal = k, CoordSiteIndex = 0\<rparr>"
    and dec_rem: "rem l s i = Inr r \<Longrightarrow>
      dec l r = Inr \<lparr>CoordSegment = s, CoordKind = KindRemote, CoordOrdinal = 0, CoordSiteIndex = i\<rparr>"
begin

lemma loc_inj: "loc l s k = Inr r \<Longrightarrow> loc l s' k' = Inr r \<Longrightarrow> s = s' \<and> k = k'"
  by (drule dec_loc, drule dec_loc) simp

lemma rem_inj: "rem l s i = Inr r \<Longrightarrow> rem l s' i' = Inr r \<Longrightarrow> s = s' \<and> i = i'"
  by (drule dec_rem, drule dec_rem) simp

lemma loc_rem: "loc l s k = Inr r \<Longrightarrow> rem l s' i = Inr r' \<Longrightarrow> r \<noteq> r'"
  by (drule dec_loc, drule dec_rem) auto

text \<open>All the numbers one segment hands out: a local block and a set of links.\<close>

definition issued :: "'l \<Rightarrow> int32 \<Rightarrow> int32 set" where
  "issued l s = {r. (\<exists>k. loc l s k = Inr r) \<or> (\<exists>i. rem l s i = Inr r)}"

lemma issued_segment: "r \<in> issued l s \<Longrightarrow> \<exists>c. dec l r = Inr c \<and> CoordSegment c = s"
  by (auto simp: issued_def dest: dec_loc dec_rem)

lemma issued_disjoint: "s \<noteq> s' \<Longrightarrow> issued l s \<inter> issued l s' = {}"
  by (auto dest!: issued_segment)

end

interpretation rid: rid_scheme Local Remote Decode
  by unfold_locales (fact Decode_Local, fact Decode_Remote)

section \<open>Properties\<close>

text \<open>
  C31. Decode is the exact inverse of Local and Remote: a number decodes to a coordinate if and only
  if that coordinate (with the field that does not apply left zero) encodes to the number.
\<close>

theorem decode_inverts_encode:
  "Decode l r = Inr c \<longleftrightarrow> canonical c \<and> encode l c = Inr r"
  using Decode_encode encode_Decode by blast

text \<open>
  C34. Validate accepts a layout exactly when both axes are positive and the true (unwrapped) width
  is at most 999, although the sum it compares is an \<open>int32\<close> sum: no pair of axes, however large,
  gets past it by wrapping around.
\<close>

theorem validate_no_wrap:
  "Validate l = None \<longleftrightarrow>
     1 \<le> PodsPerSite l \<and> 1 \<le> MaxSites l \<and> PodsPerSite l + MaxSites l \<le> 999"
  by (rule Validate_None_iff)

text \<open>
  Every number the matrix issues lies in 1..999 (slapd's ceiling, with zero never produced),
  and conversely every number from 1 to the end of the matrix decodes.
\<close>

theorem rid_bounds:
  "(encode l c = Inr r \<longrightarrow> 1 \<le> r \<and> r \<le> MaxSegments l * SegmentWidth l \<and> r \<le> MaxRID) \<and>
   ((\<exists>c. Decode l r = Inr c) \<longleftrightarrow>
      Validate l = None \<and> 1 \<le> r \<and> r \<le> MaxSegments l * SegmentWidth l)"
proof -
  have dec: "(\<exists>c. Decode l r = Inr c) \<longleftrightarrow>
      Validate l = None \<and> 1 \<le> r \<and> r \<le> MaxSegments l * SegmentWidth l"
    using Decode_Inl_iff [of l r] by (cases "Decode l r") auto
  have "encode l c = Inr r \<Longrightarrow> \<exists>c. Decode l r = Inr c"
    by (cases "CoordKind c") (auto simp: encode_def dest: Decode_Local Decode_Remote)
  with dec show ?thesis
    using matrix_fits [of l] by (auto simp: MaxRID_def)
qed

theorem rid_bounds_witness:
  "encode DefaultLayout \<lparr>CoordSegment = 48, CoordKind = KindRemote, CoordOrdinal = 0, CoordSiteIndex = 11\<rparr>
     = Inr 980 \<and> (1 :: int) \<le> 980 \<and> 980 \<le> MaxSegments DefaultLayout * SegmentWidth DefaultLayout"
proof -
  let ?c = "\<lparr>CoordSegment = 48, CoordKind = KindRemote, CoordOrdinal = 0, CoordSiteIndex = 11\<rparr>"
  have e: "encode DefaultLayout ?c = Inr 980" by code_simp
  from rid_bounds [of DefaultLayout ?c 980] e show ?thesis by blast
qed

end
