(* ===== verification/Api_Types.thy ===== *)
theory Api_Types
  imports Go_Prelude
begin

text \<open>
  The custom resources of \<open>operator/api/v1alpha1\<close> that the modelled controllers read, and the small
  helpers every controller uses: conditions (\<open>setCondition\<close>), the accessor methods of the
  types, pod selector labels, the per-pod serverID and the cross-site fan-out.

  A Go struct is a record with the struct's fields, a pointer field is an option, a map a list of
  pairs or a map. Of the two large spec structs (\<open>SlapdClusterSpec\<close>, \<open>SlapdDatabaseSpec\<close>), of the
  status structs and of \<open>SlapdMeshSpec\<close> the records keep the fields the modelled code reads.

  A condition's message is the format it is built from and the values put into it: \<open>Msg\<close> with the
  format's short name and its arguments. The reason strings are the source's.
\<close>

section \<open>Conditions\<close>

datatype message = Msg string "msg_arg list"
  and msg_arg = MStr string | MInt int | MStrs "string list" | MMsg message

datatype ConditionStatus = ConditionTrue | ConditionFalse | ConditionUnknown

record Condition =
  cond_Type :: string
  cond_Status :: ConditionStatus
  cond_Reason :: string
  cond_Message :: message
  cond_LastTransitionTime :: time
  cond_ObservedGeneration :: int64

fun setCondition :: "Condition list \<Rightarrow> Condition \<Rightarrow> Condition list" where
  "setCondition [] newCond = [newCond]"
| "setCondition (c # cs) newCond =
     (if cond_Type c = cond_Type newCond
      then (if cond_Status c = cond_Status newCond
            then newCond\<lparr>cond_LastTransitionTime := cond_LastTransitionTime c\<rparr>
            else newCond) # cs
      else c # setCondition cs newCond)"

definition condition_of :: "Condition list \<Rightarrow> string \<Rightarrow> Condition option" where
  "condition_of cs t = find (\<lambda>c. cond_Type c = t) cs"

text \<open>
  What a read through the Kubernetes client answers when it fails. The reads themselves are
  arguments of the definitions that perform them.
\<close>

datatype api_error = ApiNotFound | ApiError message

abbreviation noMsg :: message where
  "noMsg \<equiv> Msg [] []"

section \<open>SlapdCluster\<close>

record KubeconfigSecretRef =
  kc_Name :: string
  kc_Key :: string

record ExternalPeerDiscovery =
  disc_KubeconfigSecret :: KubeconfigSecretRef
  disc_Namespace :: string
  disc_ClusterName :: string

record ExternalPeer =
  peer_Name :: string
  peer_SiteIndex :: "int32 option"
  peer_URI :: string
  peer_PodAddresses :: "string list"
  peer_Discovery :: "ExternalPeerDiscovery option"
  peer_ReplicasPerPeer :: "int32 option"
  peer_Port :: int32
  peer_TLSSecretName :: string
  peer_BindDN :: string
  peer_BindPasswordSecretName :: string
  peer_SyncMode :: string

record ReplicationNetworkConfig =
  net_Mode :: string
  net_MultusNetwork :: string
  net_UseForInCluster :: bool

record SlapdReplicationConfig =
  repl_Enabled :: bool
  repl_Mode :: string
  repl_AccesslogEnabled :: "bool option"
  repl_ExternalPeers :: "ExternalPeer list"
  repl_ReplicasPerPeer :: "int32 option"
  repl_Network :: "ReplicationNetworkConfig option"
  repl_Keepalive :: string
  repl_Retry :: string
  repl_ServerIDBase :: int32

record SlapdServiceConfig =
  svc_Type :: string
  svc_LDAPPort :: int32
  svc_LDAPSPort :: int32
  svc_Annotations :: "(string \<times> string) list"
  svc_LoadBalancerIP :: string
  svc_LoadBalancerSourceRanges :: "string list"
  svc_ExternalTrafficPolicy :: string

record SlapdAccesslogPurgeConfig =
  purge_Interval :: "duration option"

record SlapdRotationConfig =
  rot_Enabled :: "bool option"
  rot_Mode :: string
  rot_SlotLength :: "duration option"
  rot_SlotsFromWriteToPurge :: "int32 option"
  rot_LeadTime :: "duration option"

record SlapdImageConfig =
  img_Repository :: string
  img_Tag :: string

record SlapdImageSelector =
  sel_StorageFormat :: string
  sel_Flavour :: string

record SlapdImagesConfig =
  imgs_Select :: "SlapdImageSelector option"
  imgs_Slapd :: SlapdImageConfig
  imgs_Init :: SlapdImageConfig

record SlapdClusterSpec =
  spec_Suspend :: bool
  spec_MeshRef :: string
  spec_Sites :: "string list"
  spec_Replicas :: int32
  spec_ReadReplicas :: int32
  spec_Images :: SlapdImagesConfig
  spec_TLSEnabled :: bool
  spec_TLSSecretName :: string
  spec_TLSProtocolMin :: "string option"
  spec_TLSCipherSuite :: "string option"
  spec_PasswordHash :: "string option"
  spec_CnConfigSecretName :: string
  spec_TuningNoSync :: "bool option"
  spec_ToolThreads :: "int32 option"
  spec_Service :: SlapdServiceConfig
  spec_Replication :: SlapdReplicationConfig
  spec_AccesslogPurge :: "SlapdAccesslogPurgeConfig option"
  spec_Rotation :: SlapdRotationConfig

record DiscoveredProvider =
  prov_Ordinal :: int32
  prov_Address :: string

datatype ExternalPeerReplicationState =
    ReplicationSynced
  | ReplicationLagging
  | ReplicationPartiallyVerified
  | ReplicationUnreachable

record ExternalPeerStatus =
  eps_Name :: string
  eps_Connected :: bool
  eps_LastError :: message
  eps_DiscoveredProviders :: "DiscoveredProvider list"
  eps_ReplicationState :: "ExternalPeerReplicationState option"
  eps_LagSeconds :: "duration option"
  eps_LastChecked :: "time option"

datatype SlapdClusterRestorePhase =
    RestorePreflight
  | RestoreScalingDown
  | RestoreInProgress
  | RestoreScalingUp
  | RestoreFailed

record SlapdClusterRestoreStatus =
  rst_Phase :: SlapdClusterRestorePhase
  rst_ID :: string
  rst_OriginalReplicas :: int32
  rst_OriginalReadReplicas :: int32
  rst_Databases :: "string list"
  rst_RequestRef :: string
  rst_StartedAt :: "time option"
  rst_Message :: message

record SlapdClusterStatus =
  scs_Phase :: string
  scs_ReadyReplicas :: int32
  scs_Replicas :: int32
  scs_ObservedGeneration :: int64
  scs_Restore :: "SlapdClusterRestoreStatus option"
  scs_ReplicationNetworkIPs :: "(string \<times> string) list"
  scs_ExternalPeerStatuses :: "ExternalPeerStatus list"
  scs_Conditions :: "Condition list"

record SlapdCluster =
  sc_Name :: string
  sc_Namespace :: string
  sc_Generation :: int64
  sc_Spec :: SlapdClusterSpec
  sc_Status :: SlapdClusterStatus

abbreviation sc_Replication :: "SlapdCluster \<Rightarrow> SlapdReplicationConfig" where
  "sc_Replication sc \<equiv> spec_Replication (sc_Spec sc)"

definition IsConsumerOnly :: "SlapdCluster \<Rightarrow> bool" where
  "IsConsumerOnly sc \<longleftrightarrow>
     repl_Enabled (sc_Replication sc) \<and> repl_Mode (sc_Replication sc) = ''consumer-only''"

definition NeedsAccesslog :: "SlapdCluster \<Rightarrow> bool" where
  "NeedsAccesslog sc =
     (if \<not> repl_Enabled (sc_Replication sc) then False
      else if IsConsumerOnly sc then False
      else (case repl_AccesslogEnabled (sc_Replication sc) of
          Some b \<Rightarrow> b
        | None \<Rightarrow> spec_Replicas (sc_Spec sc) > 1 \<or> repl_ExternalPeers (sc_Replication sc) \<noteq> []))"

definition NeedsAccesslogVolume :: "SlapdCluster \<Rightarrow> bool" where
  "NeedsAccesslogVolume sc =
     (if \<not> repl_Enabled (sc_Replication sc) then False
      else (case repl_AccesslogEnabled (sc_Replication sc) of
          Some b \<Rightarrow> b
        | None \<Rightarrow> spec_Replicas (sc_Spec sc) > 1 \<or> repl_ExternalPeers (sc_Replication sc) \<noteq> []))"

definition RestoreHoldsDown :: "SlapdCluster \<Rightarrow> bool" where
  "RestoreHoldsDown sc \<longleftrightarrow>
     (case scs_Restore (sc_Status sc) of
        None \<Rightarrow> False
      | Some r \<Rightarrow> rst_Phase r = RestoreScalingDown \<or> rst_Phase r = RestoreInProgress \<or>
          rst_Phase r = RestoreFailed)"

section \<open>SlapdSchema\<close>

record SlapdSchema =
  ss_Name :: string
  ss_Namespace :: string
  ss_Generation :: int64
  ss_Suspend :: bool
  ss_ClusterRef :: string
  ss_Priority :: int32
  ss_AttributeTypes :: "string list"
  ss_ObjectClasses :: "string list"
  ss_Applied :: bool
  ss_AppliedToPods :: "string list"
  ss_FailedPods :: "string list"
  ss_ObservedGeneration :: int64
  ss_Conditions :: "Condition list"

section \<open>SlapdBackup and SlapdRestore\<close>

record S3StorageSpec =
  s3_Bucket :: string
  s3_Prefix :: string
  s3_Endpoint :: string
  s3_Region :: string
  s3_CredentialsSecretName :: string
  s3_InsecureTLS :: bool

record BootstrapS3Source =
  bs3_Storage :: S3StorageSpec
  bs3_Key :: string

record BootstrapSource =
  boot_BackupRef :: string
  boot_S3 :: "BootstrapS3Source option"
  boot_SkipReplicationPasswordCheck :: bool

text \<open>The phase is the source's string, empty before the first pass.\<close>

record SlapdBackup =
  sb_Name :: string
  sb_Labels :: "(string \<times> string) list"
  sb_CreationTimestamp :: time
  sb_Generation :: int64
  sb_DatabaseRef :: string
  sb_Storage :: S3StorageSpec
  sb_Compression :: string
  sb_PodAffinity :: "bool option"
  sb_Phase :: string
  sb_JobName :: string
  sb_StartedAt :: "time option"
  sb_CompletedAt :: "time option"
  sb_Path :: string
  sb_SizeBytes :: int64
  sb_SourcePod :: string
  sb_SourceContextCSN :: "string list"
  sb_ObservedGeneration :: int64
  sb_Conditions :: "Condition list"

definition PodAffinityEnabled :: "SlapdBackup \<Rightarrow> bool" where
  "PodAffinityEnabled sb = (case sb_PodAffinity sb of None \<Rightarrow> True | Some b \<Rightarrow> b)"

record ScheduledBackupRetention =
  ret_MaxCount :: int32
  ret_MaxAge :: string

record SlapdScheduledBackup =
  ssb_Name :: string
  ssb_CreationTimestamp :: time
  ssb_Generation :: int64
  ssb_DatabaseRef :: string
  ssb_Schedule :: string
  ssb_Suspend :: bool
  ssb_Immediate :: bool
  ssb_Storage :: S3StorageSpec
  ssb_Retention :: ScheduledBackupRetention
  ssb_Compression :: string
  ssb_PodAffinity :: "bool option"
  ssb_LastScheduleTime :: "time option"
  ssb_NextScheduleTime :: "time option"
  ssb_LastBackupRef :: string
  ssb_ObservedGeneration :: int64
  ssb_Conditions :: "Condition list"

record SlapdRestore =
  sr_Name :: string
  sr_CreationTimestamp :: time
  sr_Generation :: int64
  sr_DatabaseRef :: string
  sr_SourceBackupRef :: string
  sr_SourceS3 :: "BootstrapS3Source option"
  sr_SkipReplicationPasswordCheck :: bool
  sr_Phase :: string
  sr_Message :: message
  sr_StartedAt :: "time option"
  sr_CompletedAt :: "time option"
  sr_ObservedGeneration :: int64

definition IsTerminal :: "SlapdRestore \<Rightarrow> bool" where
  "IsTerminal sr \<longleftrightarrow> sr_Phase sr = ''Completed'' \<or> sr_Phase sr = ''Failed''"

section \<open>SlapdDatabase\<close>

record AccesslogPurgeConfig =
  alp_Enabled :: "bool option"
  alp_Retention :: "duration option"

record DatabaseReplicationConfig =
  dbr_Enabled :: "bool option"
  dbr_RIDSegment :: "int32 option"
  dbr_DeltaSync :: "bool option"
  dbr_SyncprovCheckpoint :: string
  dbr_AccesslogSyncprovCheckpoint :: string
  dbr_SyncprovSessionlog :: "int32 option"
  dbr_SyncprovSessionlogSource :: string
  dbr_AccesslogPurge :: "AccesslogPurgeConfig option"
  dbr_ExternalAccesslogSuffix :: string

record DatabaseSeedConfig =
  seed_Entries :: "string list"
  seed_ConfigMapRef :: string
  seed_Site :: string

record SlapdDatabaseSpec =
  sds_Suspend :: bool
  sds_CleanupPolicy :: string
  sds_ClusterRef :: string
  sds_Suffix :: string
  sds_RootDN :: string
  sds_DataDirectory :: string
  sds_CredentialsSecretName :: string
  sds_MaxSize :: string
  sds_SizeLimit :: "string option"
  sds_TimeLimit :: "string option"
  sds_Limits :: "string list"
  sds_ACLs :: "string list"
  sds_Indices :: "string list"
  sds_NoSync :: "bool option"
  sds_Checkpoint :: "string option"
  sds_RtxnSize :: "int32 option"
  sds_EnvFlags :: "string list"
  sds_Replication :: DatabaseReplicationConfig
  sds_Seed :: "DatabaseSeedConfig option"
  sds_BootstrapFrom :: "BootstrapSource option"

record SlapdDatabaseStatus =
  sdst_Phase :: string
  sdst_AppliedToPods :: "string list"
  sdst_FailedPods :: "string list"
  sdst_ObservedGeneration :: int64
  sdst_SeedApplied :: bool
  sdst_RestoreApplied :: bool
  sdst_DataObserved :: bool
  sdst_Conditions :: "Condition list"

record SlapdDatabase =
  sd_Name :: string
  sd_Namespace :: string
  sd_Generation :: int64
  sd_Deleting :: bool
  sd_Finalizers :: "string list"
  sd_Spec :: SlapdDatabaseSpec
  sd_Status :: SlapdDatabaseStatus

abbreviation sd_RIDSegment :: "SlapdDatabase \<Rightarrow> int32 option" where
  "sd_RIDSegment sd \<equiv> dbr_RIDSegment (sds_Replication (sd_Spec sd))"

abbreviation sd_ClusterRef :: "SlapdDatabase \<Rightarrow> string" where
  "sd_ClusterRef sd \<equiv> sds_ClusterRef (sd_Spec sd)"

abbreviation sd_Conditions :: "SlapdDatabase \<Rightarrow> Condition list" where
  "sd_Conditions sd \<equiv> sdst_Conditions (sd_Status sd)"

definition set_sd_Conditions :: "Condition list \<Rightarrow> SlapdDatabase \<Rightarrow> SlapdDatabase" where
  "set_sd_Conditions cs sd = sd\<lparr>sd_Status := (sd_Status sd)\<lparr>sdst_Conditions := cs\<rparr>\<rparr>"

definition set_sc_Conditions :: "Condition list \<Rightarrow> SlapdCluster \<Rightarrow> SlapdCluster" where
  "set_sc_Conditions cs sc = sc\<lparr>sc_Status := (sc_Status sc)\<lparr>scs_Conditions := cs\<rparr>\<rparr>"

definition ReplicationEnabled :: "SlapdDatabase \<Rightarrow> bool" where
  "ReplicationEnabled sd =
     (case dbr_Enabled (sds_Replication (sd_Spec sd)) of None \<Rightarrow> True | Some b \<Rightarrow> b)"

definition DeltaSyncEnabled :: "SlapdDatabase \<Rightarrow> bool" where
  "DeltaSyncEnabled sd =
     (if \<not> ReplicationEnabled sd then False
      else (case dbr_DeltaSync (sds_Replication (sd_Spec sd)) of None \<Rightarrow> True | Some b \<Rightarrow> b))"

section \<open>SlapdMesh\<close>

record MeshSite =
  site_Name :: string
  site_ServerIDIndex :: "int32 option"
  site_Endpoint :: string
  site_KubeconfigSecret :: "KubeconfigSecretRef option"
  site_CASecretName :: string

record RIDLayout =
  rl_PodsPerSite :: int32
  rl_MaxSites :: int32

record SlapdMeshSpec =
  mesh_Sites :: "MeshSite list"
  mesh_Network :: "ReplicationNetworkConfig option"
  mesh_RIDLayout :: "RIDLayout option"

definition KubeconfigSecretFor :: "MeshSite \<Rightarrow> KubeconfigSecretRef" where
  "KubeconfigSecretFor s =
     (let ref = (case site_KubeconfigSecret s of None \<Rightarrow> \<lparr>kc_Name = [], kc_Key = []\<rparr> | Some r \<Rightarrow> r) in
      if kc_Name ref = [] then ref\<lparr>kc_Name := site_Name s @ ''-kubeconfig''\<rparr> else ref)"

definition CASecretNameFor :: "MeshSite \<Rightarrow> string" where
  "CASecretNameFor s = (if site_CASecretName s \<noteq> [] then site_CASecretName s else site_Name s @ ''-ca'')"

section \<open>Helpers the controllers share\<close>

text \<open>\<open>siteidentity.go\<close>: the comparison form of a site name.\<close>

definition normalizeSiteName :: "string \<Rightarrow> string" where
  "normalizeSiteName raw = trim_space raw"

text \<open>\<open>replidentity.go\<close>: the loop takes the first of the two pointers that is set above one.\<close>

definition resolveReplicasPerPeer :: "int32 option \<Rightarrow> int32 option \<Rightarrow> int32" where
  "resolveReplicasPerPeer clusterDefault peerOverride =
     (case find (\<lambda>v. case v of None \<Rightarrow> False | Some x \<Rightarrow> x > 1) [peerOverride, clusterDefault] of
        Some (Some x) \<Rightarrow> x
      | _ \<Rightarrow> 1)"

definition statefulSetPodName :: "string \<Rightarrow> int32 \<Rightarrow> string" where
  "statefulSetPodName cluster ordinal = cluster @ ''-'' @ itoa ordinal"

text \<open>\<open>rotation_gate.go\<close>: n, the declared fleet.\<close>

definition declaredReplicas :: "SlapdCluster \<Rightarrow> int32" where
  "declaredReplicas sc = (if spec_Replicas (sc_Spec sc) \<le> 0 then 1 else spec_Replicas (sc_Spec sc))"

definition desiredServerID :: "SlapdCluster \<Rightarrow> int32 \<Rightarrow> string" where
  "desiredServerID sc ordinal =
     itoa (i32_add (i32_add (repl_ServerIDBase (sc_Replication sc)) ordinal) 1)"

section \<open>Conditions: upsert\<close>

lemma condition_of_set [simp]:
  "condition_of (setCondition cs c) t =
     (if t = cond_Type c
      then Some (case condition_of cs t of
          Some old \<Rightarrow> if cond_Status old = cond_Status c
            then c\<lparr>cond_LastTransitionTime := cond_LastTransitionTime old\<rparr> else c
        | None \<Rightarrow> c)
      else condition_of cs t)"
  by (induction cs) (auto simp: condition_of_def)

lemma setCondition_types:
  "set (map cond_Type (setCondition cs c)) = insert (cond_Type c) (set (map cond_Type cs))"
  by (induction cs) auto

lemma setCondition_distinct:
  "distinct (map cond_Type cs) \<Longrightarrow> distinct (map cond_Type (setCondition cs c))"
proof (induction cs)
  case (Cons d cs)
  then show ?case using setCondition_types [of cs c] by auto
qed simp

lemma statefulSetPodName_inj:
  "statefulSetPodName c i = statefulSetPodName c j \<longleftrightarrow> i = j"
  by (auto simp: statefulSetPodName_def dest: itoa_inj)

lemma normalizeSiteName_idem [simp]:
  "normalizeSiteName (normalizeSiteName s) = normalizeSiteName s"
  by (simp add: normalizeSiteName_def)

lemma resolveReplicasPerPeer_ge_1: "1 \<le> resolveReplicasPerPeer d ov"
  by (auto simp: resolveReplicasPerPeer_def split: option.splits if_splits)

lemma resolveReplicasPerPeer_eq_1:
  "resolveReplicasPerPeer d ov = 1 \<longleftrightarrow>
     (case ov of None \<Rightarrow> True | Some x \<Rightarrow> x \<le> 1) \<and> (case d of None \<Rightarrow> True | Some x \<Rightarrow> x \<le> 1)"
  by (auto simp: resolveReplicasPerPeer_def split: option.splits if_splits)

section \<open>Concrete objects\<close>

text \<open>A plain cluster, database and mesh site, the start of every evaluated example.\<close>

definition base_repl :: SlapdReplicationConfig where
  "base_repl = \<lparr>repl_Enabled = True, repl_Mode = [], repl_AccesslogEnabled = None,
     repl_ExternalPeers = [], repl_ReplicasPerPeer = None, repl_Network = None,
     repl_Keepalive = [], repl_Retry = [], repl_ServerIDBase = 0\<rparr>"

definition base_cluster :: SlapdCluster where
  "base_cluster = \<lparr>sc_Name = ''slapd'', sc_Namespace = ''ns'', sc_Generation = 1,
     sc_Spec = \<lparr>spec_Suspend = False, spec_MeshRef = [], spec_Sites = [], spec_Replicas = 3, spec_ReadReplicas = 0,
       spec_Images = \<lparr>imgs_Select = None, imgs_Slapd = \<lparr>img_Repository = [], img_Tag = []\<rparr>,
         imgs_Init = \<lparr>img_Repository = [], img_Tag = []\<rparr>\<rparr>,
       spec_TLSEnabled = True, spec_TLSSecretName = ''slapd-tls'', spec_TLSProtocolMin = None, spec_TLSCipherSuite = None,
       spec_PasswordHash = None, spec_CnConfigSecretName = [], spec_TuningNoSync = None, spec_ToolThreads = None,
       spec_Service = \<lparr>svc_Type = [], svc_LDAPPort = 0, svc_LDAPSPort = 0, svc_Annotations = [],
         svc_LoadBalancerIP = [], svc_LoadBalancerSourceRanges = [], svc_ExternalTrafficPolicy = []\<rparr>,
       spec_Replication = base_repl, spec_AccesslogPurge = None,
       spec_Rotation = \<lparr>rot_Enabled = None, rot_Mode = [], rot_SlotLength = None,
         rot_SlotsFromWriteToPurge = None, rot_LeadTime = None\<rparr>\<rparr>,
     sc_Status = \<lparr>scs_Phase = ''Running'', scs_ReadyReplicas = 0, scs_Replicas = 0, scs_ObservedGeneration = 0, scs_Restore = None, scs_ReplicationNetworkIPs = [],
       scs_ExternalPeerStatuses = [], scs_Conditions = []\<rparr>\<rparr>"

definition base_database :: "string \<Rightarrow> int32 option \<Rightarrow> SlapdDatabase" where
  "base_database name segment = \<lparr>sd_Name = name, sd_Namespace = ''ns'', sd_Generation = 1,
     sd_Deleting = False, sd_Finalizers = [],
     sd_Spec = \<lparr>sds_Suspend = False, sds_CleanupPolicy = ''Retain'', sds_ClusterRef = ''slapd'', sds_Suffix = ''dc=example'', sds_RootDN = [], sds_DataDirectory = [],
       sds_CredentialsSecretName = [], sds_MaxSize = [], sds_SizeLimit = None, sds_TimeLimit = None,
       sds_Limits = [], sds_ACLs = [], sds_Indices = [], sds_NoSync = None,
       sds_Checkpoint = None, sds_RtxnSize = None, sds_EnvFlags = [],
       sds_Replication = \<lparr>dbr_Enabled = None, dbr_RIDSegment = segment, dbr_DeltaSync = None,
         dbr_SyncprovCheckpoint = [], dbr_AccesslogSyncprovCheckpoint = [],
         dbr_SyncprovSessionlog = None, dbr_SyncprovSessionlogSource = [],
         dbr_AccesslogPurge = None, dbr_ExternalAccesslogSuffix = []\<rparr>,
       sds_Seed = None, sds_BootstrapFrom = None\<rparr>,
     sd_Status = \<lparr>sdst_Phase = [], sdst_AppliedToPods = [], sdst_FailedPods = [], sdst_ObservedGeneration = 0, sdst_SeedApplied = False, sdst_RestoreApplied = False,
       sdst_DataObserved = False, sdst_Conditions = []\<rparr>\<rparr>"

definition base_site :: "string \<Rightarrow> int32 \<Rightarrow> MeshSite" where
  "base_site name idx = \<lparr>site_Name = name, site_ServerIDIndex = Some idx, site_Endpoint = [],
     site_KubeconfigSecret = None, site_CASecretName = []\<rparr>"

definition base_peer :: "string \<Rightarrow> int32 option \<Rightarrow> ExternalPeer" where
  "base_peer name idx = \<lparr>peer_Name = name, peer_SiteIndex = idx, peer_URI = [],
     peer_PodAddresses = [], peer_Discovery = None, peer_ReplicasPerPeer = None, peer_Port = 0,
     peer_TLSSecretName = [], peer_BindDN = [], peer_BindPasswordSecretName = [],
     peer_SyncMode = []\<rparr>"

end
