(* ===== verification/Rid_Stanza.thy ===== *)
theory Rid_Stanza
  imports Rid_Coord Api_Types
begin

text \<open>
  \<open>ridstanza.go\<close>: from coordinates to the numbers on syncrepl stanzas, and the judgements that
  must hold before any stanza set is built. Everything is pure but \<open>ridLayoutFor\<close>, whose one read
  is the argument \<open>getMesh\<close>.

  A resolved RID set (the source's \<open>map[int32]int32\<close>) is an association list in the order the loop
  inserts, with distinct keys.
\<close>

type_synonym rid_set = "(int32 \<times> int32) list"

section \<open>Verdicts\<close>

record ridSegmentVerdict =
  v_OK :: bool
  v_Reason :: string
  v_Message :: message
  v_Segment :: int32

abbreviation "reasonRIDSegmentOK \<equiv> ''RIDSegmentUnique''"
abbreviation "reasonRIDLayoutInvalid \<equiv> ''RIDLayoutInvalid''"
abbreviation "reasonPeerSiteIndexMissing \<equiv> ''PeerSiteIndexMissing''"
abbreviation "reasonPeerSiteIndexCollision \<equiv> ''PeerSiteIndexCollision''"
abbreviation "reasonPeerSiteIndexOutOfRange \<equiv> ''PeerSiteIndexOutOfRange''"
abbreviation "reasonReplicasPerPeerUnsupported \<equiv> ''ReplicasPerPeerUnsupported''"
abbreviation "reasonRIDPodsPerSiteExceeded \<equiv> ''PodsPerSiteExceeded''"
abbreviation "reasonConsumerOnlyReadReplicas \<equiv> ''ConsumerOnlyReadReplicasUnsupported''"
abbreviation "reasonRIDLayoutUnresolved \<equiv> ''RIDLayoutUnresolved''"

definition refuse :: "string \<Rightarrow> msg_arg list \<Rightarrow> ridSegmentVerdict" where
  "refuse reason args =
     \<lparr>v_OK = False, v_Reason = reason, v_Message = Msg reason args, v_Segment = 0\<rparr>"

definition accept :: "int32 \<Rightarrow> ridSegmentVerdict" where
  "accept segment =
     \<lparr>v_OK = True, v_Reason = reasonRIDSegmentOK, v_Message = noMsg, v_Segment = segment\<rparr>"

lemma refuse_accept_simps [simp]:
  "\<not> v_OK (refuse r a)" "v_OK (accept s)" "v_Reason (refuse r a) = r" "v_Segment (accept s) = s"
  by (simp_all add: refuse_def accept_def)

fun layout_fault_msg :: "layout_fault \<Rightarrow> message" where
  "layout_fault_msg (AxesNotPositive p s) = Msg ''both must be at least 1'' [MInt p, MInt s]"
| "layout_fault_msg (PodsPerSitePastBand p) = Msg ''podsPerSite exceeds the band'' [MInt p]"
| "layout_fault_msg (MaxSitesPastBand s) = Msg ''maxSites exceeds the band'' [MInt s]"
| "layout_fault_msg (WidthPastBand m p s) = Msg ''segment width leaves no segment'' [MInt m, MInt p, MInt s]"

fun rid_error_msg :: "rid_error \<Rightarrow> message" where
  "rid_error_msg (ErrInvalidLayout f) = Msg ''invalid RID layout'' [MMsg (layout_fault_msg f)]"
| "rid_error_msg (ErrSegmentOutOfRange s c) = Msg ''RID segment out of range'' [MInt s, MInt c]"
| "rid_error_msg (ErrOrdinalOutOfRange k p) = Msg ''RID pod ordinal out of range'' [MInt k, MInt p]"
| "rid_error_msg (ErrSiteIndexOutOfRange i s) = Msg ''RID site index out of range'' [MInt i, MInt s]"
| "rid_error_msg (ErrRIDOutOfRange r l) = Msg ''RID out of range'' [MInt r, MInt l]"

section \<open>Stanza RIDs\<close>

fun inClusterLoop ::
  "Layout \<Rightarrow> int32 \<Rightarrow> int32 option \<Rightarrow> int32 list \<Rightarrow> rid_set \<Rightarrow> rid_error + rid_set" where
  "inClusterLoop l segment selfOrdinal [] rids = Inr rids"
| "inClusterLoop l segment selfOrdinal (ordinal # rest) rids =
     (if selfOrdinal = Some ordinal then inClusterLoop l segment selfOrdinal rest rids
      else (case Local l segment ordinal of
          Inl err \<Rightarrow> Inl err
        | Inr rid \<Rightarrow> inClusterLoop l segment selfOrdinal rest (rids @ [(ordinal, rid)])))"

definition inClusterStanzaRIDs ::
  "Layout \<Rightarrow> int32 \<Rightarrow> int32 \<Rightarrow> int32 option \<Rightarrow> rid_error + rid_set" where
  "inClusterStanzaRIDs l segment replicas selfOrdinal =
     (case Local l segment 0 of
        Inl err \<Rightarrow> Inl err
      | Inr _ \<Rightarrow> inClusterLoop l segment selfOrdinal [0..replicas - 1] [])"

definition externalStanzaRID :: "Layout \<Rightarrow> int32 \<Rightarrow> int32 \<Rightarrow> rid_error + int32" where
  "externalStanzaRID l segment peerSiteIndex =
     (case Remote l segment peerSiteIndex of Inl err \<Rightarrow> Inl err | Inr rid \<Rightarrow> Inr rid)"

definition sortedOrdinals :: "rid_set \<Rightarrow> int32 list" where
  "sortedOrdinals rids = sort (map fst rids)"

definition stanzaRIDFor :: "rid_set \<Rightarrow> int32 \<Rightarrow> message + int32" where
  "stanzaRIDFor rids ordinal =
     (case map_of rids ordinal of
        None \<Rightarrow> Inl (Msg ''no RID for provider ordinal''
          (MInt ordinal # MInt (int (length rids)) # map MInt (sortedOrdinals rids)))
      | Some rid \<Rightarrow> Inr rid)"

section \<open>The layout in force\<close>

text \<open>
  The zero \<open>Layout\<close> a failed read is returned with is part of the contract, so the result is the
  source's pair: the layout and the error, if any.
\<close>

definition ridLayoutFor ::
  "(string \<Rightarrow> string \<Rightarrow> api_error + SlapdMeshSpec) \<Rightarrow> SlapdCluster \<Rightarrow> Layout \<times> api_error option" where
  "ridLayoutFor getMesh sc =
     (if spec_MeshRef (sc_Spec sc) = [] then (DefaultLayout, None)
      else (case getMesh (sc_Namespace sc) (spec_MeshRef (sc_Spec sc)) of
          Inl err \<Rightarrow> (\<lparr>PodsPerSite = 0, MaxSites = 0\<rparr>, Some err)
        | Inr mesh \<Rightarrow>
            (let layout = DefaultLayout in
             case mesh_RIDLayout mesh of
               None \<Rightarrow> (layout, None)
             | Some rl \<Rightarrow>
                 (let layout = (if rl_PodsPerSite rl \<noteq> 0
                        then layout\<lparr>PodsPerSite := rl_PodsPerSite rl\<rparr> else layout);
                      layout = (if rl_MaxSites rl \<noteq> 0
                        then layout\<lparr>MaxSites := rl_MaxSites rl\<rparr> else layout)
                  in (layout, None)))))"

definition judgeRIDLayout ::
  "SlapdCluster \<Rightarrow> Layout \<Rightarrow> api_error option \<Rightarrow> ridSegmentVerdict option" where
  "judgeRIDLayout sc l err =
     (case err of
        Some e \<Rightarrow> Some (refuse reasonRIDLayoutUnresolved
          [MStr (spec_MeshRef (sc_Spec sc)),
           MMsg (case e of ApiNotFound \<Rightarrow> Msg ''not found'' [] | ApiError m \<Rightarrow> m)])
      | None \<Rightarrow>
          (case Validate l of
             Some verr \<Rightarrow> Some (refuse reasonRIDLayoutInvalid [MMsg (rid_error_msg verr), MInt MaxRID])
           | None \<Rightarrow> None))"

section \<open>The peer list and the fleet\<close>

text \<open>
  The fourth check: the first peer whose index an earlier peer took, with both names. A peer
  without an index does not reach it (the second check has refused the list), and is skipped.
\<close>

fun siteIndexClash ::
  "(int32 \<times> string) list \<Rightarrow> ExternalPeer list \<Rightarrow> (string \<times> string \<times> int32) option" where
  "siteIndexClash byIndex [] = None"
| "siteIndexClash byIndex (p # ps) =
     (case peer_SiteIndex p of
        None \<Rightarrow> siteIndexClash byIndex ps
      | Some idx \<Rightarrow>
          (case map_of byIndex idx of
             Some first \<Rightarrow> Some (first, peer_Name p, idx)
           | None \<Rightarrow> siteIndexClash ((idx, peer_Name p) # byIndex) ps))"

definition judgeExternalPeers :: "SlapdCluster \<Rightarrow> Layout \<Rightarrow> ridSegmentVerdict" where
  "judgeExternalPeers sc l =
     (let peers = repl_ExternalPeers (sc_Replication sc);
          rpp = (\<lambda>p. resolveReplicasPerPeer (repl_ReplicasPerPeer (sc_Replication sc))
                       (peer_ReplicasPerPeer p)) in
      case find (\<lambda>p. rpp p \<ge> 2) peers of
        Some p \<Rightarrow> refuse reasonReplicasPerPeerUnsupported [MInt (rpp p), MStr (peer_Name p)]
      | None \<Rightarrow>
      case find (\<lambda>p. peer_SiteIndex p = None) peers of
        Some p \<Rightarrow> refuse reasonPeerSiteIndexMissing [MStr (peer_Name p), MInt (i32_sub (MaxSites l) 1)]
      | None \<Rightarrow>
      case find (\<lambda>p. case peer_SiteIndex p of None \<Rightarrow> False
                      | Some idx \<Rightarrow> idx < 0 \<or> idx \<ge> MaxSites l) peers of
        Some p \<Rightarrow> refuse reasonPeerSiteIndexOutOfRange
          [MStr (peer_Name p), MInt (the (peer_SiteIndex p)), MInt (PodsPerSite l), MInt (MaxSites l)]
      | None \<Rightarrow>
      case siteIndexClash [] peers of
        Some (first, second, idx) \<Rightarrow>
          refuse reasonPeerSiteIndexCollision [MStr first, MStr second, MInt idx]
      | None \<Rightarrow> accept 0)"

definition judgeClusterFleet :: "SlapdCluster \<Rightarrow> Layout \<Rightarrow> ridSegmentVerdict" where
  "judgeClusterFleet sc l =
     (let replicas = (if spec_Replicas (sc_Spec sc) = 0 then 1 else spec_Replicas (sc_Spec sc)) in
      if replicas > PodsPerSite l
      then refuse reasonRIDPodsPerSiteExceeded [MInt replicas, MInt (PodsPerSite l)]
      else if IsConsumerOnly sc \<and> spec_ReadReplicas (sc_Spec sc) > 0
      then refuse reasonConsumerOnlyReadReplicas [MInt (spec_ReadReplicas (sc_Spec sc))]
      else accept 0)"

section \<open>What the operations compute\<close>

lemma inClusterLoop_Inr:
  "inClusterLoop l s self ks acc = Inr m \<longleftrightarrow>
     (\<forall>k \<in> set ks. self \<noteq> Some k \<longrightarrow> (\<exists>r. Local l s k = Inr r)) \<and>
     m = acc @ map (\<lambda>k. (k, projr (Local l s k))) (filter (\<lambda>k. self \<noteq> Some k) ks)"
  by (induction ks arbitrary: acc) (auto split: sum.splits)

lemma inClusterStanzaRIDs_Inr:
  "inClusterStanzaRIDs l s n self = Inr m \<longleftrightarrow>
     checkSegment l s = None \<and> (\<forall>k. 0 \<le> k \<and> k < n \<and> self \<noteq> Some k \<longrightarrow> k < PodsPerSite l) \<and>
     m = map (\<lambda>k. (k, 1 + s * SegmentWidth l + k)) (filter (\<lambda>k. self \<noteq> Some k) [0..n - 1])"
    (is "_ \<longleftrightarrow> ?R")
proof (cases "checkSegment l s = None")
  case False
  then show ?thesis by (auto simp: inClusterStanzaRIDs_def Local_def split: option.splits)
next
  case True
  then have l0: "Local l s 0 = Inr (1 + s * SegmentWidth l)"
    by (auto simp: Local_Inr_iff checkSegment_None_iff Validate_None_iff)
  have "inClusterStanzaRIDs l s n self = Inr m \<longleftrightarrow>
      (\<forall>k \<in> {0..n - 1}. self \<noteq> Some k \<longrightarrow> k < PodsPerSite l) \<and>
      m = map (\<lambda>k. (k, projr (Local l s k))) (filter (\<lambda>k. self \<noteq> Some k) [0..n - 1])"
    unfolding inClusterStanzaRIDs_def l0 using True by (auto simp: inClusterLoop_Inr Local_Inr_iff)
  moreover have "map (\<lambda>k. (k, projr (Local l s k))) (filter (\<lambda>k. self \<noteq> Some k) [0..n - 1]) =
      map (\<lambda>k. (k, 1 + s * SegmentWidth l + k)) (filter (\<lambda>k. self \<noteq> Some k) [0..n - 1])"
    if "\<forall>k \<in> {0..n - 1}. self \<noteq> Some k \<longrightarrow> k < PodsPerSite l"
  proof -
    have "projr (Local l s k) = 1 + s * SegmentWidth l + k"
      if "0 \<le> k" "k < PodsPerSite l" for k
    proof -
      have "Local l s k = Inr (1 + s * SegmentWidth l + k)"
        using True that by (simp add: Local_Inr_iff)
      then show ?thesis by simp
    qed
    with that show ?thesis by (intro map_cong) auto
  qed
  ultimately show ?thesis using True by auto
qed

lemma judgeClusterFleet_OK_iff:
  "v_OK (judgeClusterFleet sc l) \<longleftrightarrow>
     (if spec_Replicas (sc_Spec sc) = 0 then 1 else spec_Replicas (sc_Spec sc)) \<le> PodsPerSite l \<and>
     \<not> (IsConsumerOnly sc \<and> spec_ReadReplicas (sc_Spec sc) > 0)"
  by (auto simp: judgeClusterFleet_def Let_def)

lemma siteIndexClash_None_iff:
  assumes "\<forall>p \<in> set ps. peer_SiteIndex p \<noteq> None"
  shows "siteIndexClash seen ps = None \<longleftrightarrow>
     distinct (map peer_SiteIndex ps) \<and>
     (\<forall>p \<in> set ps. the (peer_SiteIndex p) \<notin> fst ` set seen)"
  using assms
proof (induction ps arbitrary: seen)
  case (Cons p ps)
  then obtain idx where idx: "peer_SiteIndex p = Some idx" by auto
  show ?case
  proof (cases "map_of seen idx")
    case None
    have "siteIndexClash seen (p # ps) = None \<longleftrightarrow>
        siteIndexClash ((idx, peer_Name p) # seen) ps = None"
      using idx None by simp
    also have "\<dots> \<longleftrightarrow> distinct (map peer_SiteIndex ps) \<and>
        (\<forall>q \<in> set ps. the (peer_SiteIndex q) \<notin> insert idx (fst ` set seen))"
      using Cons by simp
    also have "\<dots> \<longleftrightarrow> distinct (map peer_SiteIndex (p # ps)) \<and>
        (\<forall>q \<in> set (p # ps). the (peer_SiteIndex q) \<notin> fst ` set seen)"
    proof -
      have "peer_SiteIndex p \<notin> peer_SiteIndex ` set ps \<longleftrightarrow>
          (\<forall>q \<in> set ps. the (peer_SiteIndex q) \<noteq> idx)"
        using idx Cons.prems by fastforce
      moreover have "idx \<notin> fst ` set seen" using None by (simp add: map_of_eq_None_iff)
      ultimately show ?thesis using idx by auto
    qed
    finally show ?thesis .
  next
    case (Some f)
    then have "idx \<in> fst ` set seen" by (metis domI dom_map_of_conv_image_fst)
    with Some idx show ?thesis by auto
  qed
qed simp

definition peers_ok :: "SlapdCluster \<Rightarrow> Layout \<Rightarrow> bool" where
  "peers_ok sc l \<longleftrightarrow>
     (\<forall>p \<in> set (repl_ExternalPeers (sc_Replication sc)).
        resolveReplicasPerPeer (repl_ReplicasPerPeer (sc_Replication sc)) (peer_ReplicasPerPeer p) = 1 \<and>
        (\<exists>i. peer_SiteIndex p = Some i \<and> 0 \<le> i \<and> i < MaxSites l)) \<and>
     distinct (map peer_SiteIndex (repl_ExternalPeers (sc_Replication sc)))"

lemma judgeExternalPeers_OK_iff: "v_OK (judgeExternalPeers sc l) \<longleftrightarrow> peers_ok sc l"
proof -
  let ?ps = "repl_ExternalPeers (sc_Replication sc)"
  let ?rpp = "\<lambda>p. resolveReplicasPerPeer (repl_ReplicasPerPeer (sc_Replication sc))
                       (peer_ReplicasPerPeer p)"
  have rpp: "?rpp p = 1 \<longleftrightarrow> \<not> 2 \<le> ?rpp p" for p
    using resolveReplicasPerPeer_ge_1 [of "repl_ReplicasPerPeer (sc_Replication sc)" "peer_ReplicasPerPeer p"]
    by linarith
  show ?thesis
  proof (cases "(\<forall>p \<in> set ?ps. \<not> 2 \<le> ?rpp p) \<and> (\<forall>p \<in> set ?ps. peer_SiteIndex p \<noteq> None) \<and>
      (\<forall>p \<in> set ?ps. \<not> (case peer_SiteIndex p of None \<Rightarrow> False | Some i \<Rightarrow> i < 0 \<or> i \<ge> MaxSites l))")
    case True
    then have "v_OK (judgeExternalPeers sc l) \<longleftrightarrow> siteIndexClash [] ?ps = None"
      unfolding judgeExternalPeers_def Let_def
      by (subst find_None_all [THEN iffD2], simp)+ (auto split: option.splits)
    also have "\<dots> \<longleftrightarrow> distinct (map peer_SiteIndex ?ps)"
      using True by (subst siteIndexClash_None_iff) auto
    finally show ?thesis
      using True rpp by (fastforce simp: peers_ok_def split: option.splits)
  next
    case False
    then have "\<not> v_OK (judgeExternalPeers sc l)"
      unfolding judgeExternalPeers_def Let_def
      by (auto simp: find_None_all split: option.splits)
    moreover have "\<not> peers_ok sc l"
      using False rpp by (fastforce simp: peers_ok_def split: option.splits)
    ultimately show ?thesis by simp
  qed
qed

lemma judgeRIDLayout_None_iff: "judgeRIDLayout sc l err = None \<longleftrightarrow> err = None \<and> Validate l = None"
  by (auto simp: judgeRIDLayout_def split: option.splits)

lemma stanzaRIDFor_Inr_iff: "stanzaRIDFor rids k = Inr r \<longleftrightarrow> map_of rids k = Some r"
  by (auto simp: stanzaRIDFor_def split: option.splits)

end
