(* ===== verification/Providers.thy ===== *)
theory Providers
  imports Api_Types
begin

text \<open>
  \<open>providers.go\<close>: provider identity from pod names. A pod is the record of what the code reads of a
  \<open>corev1.Pod\<close>; its Multus network status is the decoded annotation (\<open>None\<close>: absent, empty or not
  JSON), which \<open>extractMultusIP\<close> of \<open>slapdcluster_controller.go\<close> searches.
\<close>

record Pod =
  pod_Name :: string
  pod_Phase :: string
  pod_PodIP :: string
  pod_NetworkStatus :: "(string \<times> string list) list option"
  pod_Deleting :: bool
  pod_Conditions :: "(string \<times> ConditionStatus) list"

datatype ordinal_error =
    NoSeparator string
  | NotAStatefulSetName string string
  | NotCanonical string string

datatype provider_error =
    CannotIdentify ordinal_error
  | DuplicateOrdinal string string int32

text \<open>The name split at its last dash: what precedes it and what follows it.\<close>

fun cutLastDash :: "string \<Rightarrow> (string \<times> string) option" where
  "cutLastDash [] = None"
| "cutLastDash (c # cs) =
     (case cutLastDash cs of
        Some (p, t) \<Rightarrow> Some (c # p, t)
      | None \<Rightarrow> if c = CHR ''-'' then Some ([], cs) else None)"

definition podOrdinal :: "string \<Rightarrow> ordinal_error + int32" where
  "podOrdinal podName =
     (case cutLastDash podName of
        None \<Rightarrow> Inl (NoSeparator podName)
      | Some (prefix, tail) \<Rightarrow>
          if prefix = [] \<or> last prefix = CHR ''-'' then Inl (NotAStatefulSetName podName prefix)
          else (case parse_int 10 32 tail of
              None \<Rightarrow> Inl (NotCanonical podName tail)
            | Some n \<Rightarrow>
                if n < 0 \<or> itoa n \<noteq> tail then Inl (NotCanonical podName tail) else Inr n))"

definition extractMultusIP :: "Pod \<Rightarrow> string \<Rightarrow> string" where
  "extractMultusIP pod nadName =
     (case pod_NetworkStatus pod of
        None \<Rightarrow> []
      | Some statuses \<Rightarrow>
          (case find (\<lambda>(name, ips). name = nadName \<and> ips \<noteq> []) statuses of
             None \<Rightarrow> []
           | Some (name, ips) \<Rightarrow> hd ips))"

definition providerAddr :: "bool \<Rightarrow> string \<Rightarrow> Pod \<Rightarrow> string" where
  "providerAddr podRouted nadName pod =
     (if \<not> podRouted then extractMultusIP pod nadName else pod_PodIP pod)"

fun providersLoop ::
  "bool \<Rightarrow> string \<Rightarrow> Pod list \<Rightarrow> (int32 \<times> string) list \<Rightarrow> DiscoveredProvider list \<Rightarrow>
   provider_error + DiscoveredProvider list" where
  "providersLoop podRouted nadName [] seen providers = Inr providers"
| "providersLoop podRouted nadName (pod # pods) seen providers =
     (if pod_Phase pod \<noteq> ''Running'' then providersLoop podRouted nadName pods seen providers
      else let addr = providerAddr podRouted nadName pod in
        if addr = [] then providersLoop podRouted nadName pods seen providers
        else (case podOrdinal (pod_Name pod) of
            Inl err \<Rightarrow> Inl (CannotIdentify err)
          | Inr ordinal \<Rightarrow>
              (case map_of seen ordinal of
                 Some other \<Rightarrow> Inl (DuplicateOrdinal other (pod_Name pod) ordinal)
               | None \<Rightarrow> providersLoop podRouted nadName pods ((ordinal, pod_Name pod) # seen)
                   (providers @ [\<lparr>prov_Ordinal = ordinal, prov_Address = addr\<rparr>]))))"

definition providersFromPods ::
  "Pod list \<Rightarrow> bool \<Rightarrow> string \<Rightarrow> provider_error + DiscoveredProvider list" where
  "providersFromPods pods podRouted nadName =
     (case providersLoop podRouted nadName pods [] [] of
        Inl err \<Rightarrow> Inl err
      | Inr providers \<Rightarrow> Inr (sort_key prov_Ordinal providers))"

definition providersFromPodAddresses :: "string list \<Rightarrow> DiscoveredProvider list" where
  "providersFromPodAddresses addrs =
     map (\<lambda>(i, addr). \<lparr>prov_Ordinal = int i, prov_Address = addr\<rparr>) (enumerate 0 addrs)"

definition providersFromURI :: "string \<Rightarrow> DiscoveredProvider list" where
  "providersFromURI uri = (if uri = [] then [] else [\<lparr>prov_Ordinal = 0, prov_Address = uri\<rparr>])"

definition providerAddresses :: "DiscoveredProvider list \<Rightarrow> string list" where
  "providerAddresses providers = map prov_Address providers"

section \<open>The ordinal of a pod name\<close>

lemma cutLastDash_None: "CHR ''-'' \<notin> set t \<Longrightarrow> cutLastDash t = None"
  by (induction t) auto

lemma cutLastDash_append:
  "CHR ''-'' \<notin> set t \<Longrightarrow> cutLastDash (p @ CHR ''-'' # t) = Some (p, t)"
  by (induction p) (auto simp: cutLastDash_None)

lemma cutLastDash_SomeD: "cutLastDash s = Some (p, t) \<Longrightarrow> s = p @ CHR ''-'' # t"
  by (induction s arbitrary: p) (auto split: option.splits if_splits)

lemma podOrdinal_Inr_iff:
  "podOrdinal name = Inr k \<longleftrightarrow>
     0 \<le> k \<and> k < 2 ^ 31 \<and>
     (\<exists>c. c \<noteq> [] \<and> last c \<noteq> CHR ''-'' \<and> name = statefulSetPodName c k)"
proof
  assume "podOrdinal name = Inr k"
  then obtain p where cut: "cutLastDash name = Some (p, itoa k)" and p: "p \<noteq> []" "last p \<noteq> CHR ''-''"
    and k: "parse_int 10 32 (itoa k) = Some k" "0 \<le> k"
    by (auto simp: podOrdinal_def split: option.splits if_splits prod.splits)
  have "k < 2 ^ 31"
    using k by (auto simp: parse_int_def Let_def split: if_splits option.splits)
  with p k cutLastDash_SomeD [OF cut]
  show "0 \<le> k \<and> k < 2 ^ 31 \<and> (\<exists>c. c \<noteq> [] \<and> last c \<noteq> CHR ''-'' \<and> name = statefulSetPodName c k)"
    by (auto simp: statefulSetPodName_def)
next
  assume "0 \<le> k \<and> k < 2 ^ 31 \<and> (\<exists>c. c \<noteq> [] \<and> last c \<noteq> CHR ''-'' \<and> name = statefulSetPodName c k)"
  then obtain c where k: "0 \<le> k" "k < 2 ^ 31" and c: "c \<noteq> []" "last c \<noteq> CHR ''-''"
    and name: "name = c @ CHR ''-'' # itoa k"
    by (auto simp: statefulSetPodName_def)
  have i: "itoa k = dec (nat k)" using k by (simp add: itoa_def)
  have "CHR ''-'' \<notin> set (itoa k)" unfolding i by (rule dec_no_char) simp
  then have "cutLastDash name = Some (c, itoa k)" unfolding name by (rule cutLastDash_append)
  moreover have "parse_int 10 32 (itoa k) = Some k"
    using k parse_int_dec [of "nat k" 32] by (simp add: i nat_less_iff)
  ultimately show "podOrdinal name = Inr k" using c k by (simp add: podOrdinal_def)
qed

section \<open>The providers of a pod list\<close>

definition offering :: "bool \<Rightarrow> string \<Rightarrow> Pod \<Rightarrow> bool" where
  "offering podRouted nadName pod \<longleftrightarrow>
     pod_Phase pod = ''Running'' \<and> providerAddr podRouted nadName pod \<noteq> []"

definition ordinalOf :: "Pod \<Rightarrow> int32" where
  "ordinalOf pod = projr (podOrdinal (pod_Name pod))"

definition providerOf :: "bool \<Rightarrow> string \<Rightarrow> Pod \<Rightarrow> DiscoveredProvider" where
  "providerOf podRouted nadName pod =
     \<lparr>prov_Ordinal = ordinalOf pod, prov_Address = providerAddr podRouted nadName pod\<rparr>"

lemma providersLoop_Inr_iff:
  "providersLoop pr nad pods seen acc = Inr ps \<longleftrightarrow>
     (let sv = filter (offering pr nad) pods in
      (\<forall>p \<in> set sv. \<exists>k. podOrdinal (pod_Name p) = Inr k) \<and> distinct (map ordinalOf sv) \<and>
      (\<forall>p \<in> set sv. ordinalOf p \<notin> fst ` set seen) \<and> ps = acc @ map (providerOf pr nad) sv)"
proof (induction pods arbitrary: seen acc)
  case (Cons pod pods)
  show ?case
  proof (cases "offering pr nad pod")
    case False
    then have "providersLoop pr nad (pod # pods) seen acc = providersLoop pr nad pods seen acc"
      by (auto simp: offering_def)
    with False Cons.IH show ?thesis by simp
  next
    case True
    then have r: "pod_Phase pod = ''Running''" "providerAddr pr nad pod \<noteq> []"
      by (simp_all add: offering_def)
    show ?thesis
    proof (cases "podOrdinal (pod_Name pod)")
      case (Inl e)
      with r True show ?thesis by (auto simp: Let_def)
    next
      case (Inr k)
      then have o: "ordinalOf pod = k" by (simp add: ordinalOf_def)
      show ?thesis
      proof (cases "map_of seen k")
        case None
        then have "k \<notin> fst ` set seen" by (simp add: map_of_eq_None_iff)
        have step: "providersLoop pr nad (pod # pods) seen acc =
            providersLoop pr nad pods ((k, pod_Name pod) # seen) (acc @ [providerOf pr nad pod])"
          using None r Inr o by (simp add: Let_def providerOf_def)
        show ?thesis
          unfolding step Cons.IH Let_def using True Inr o \<open>k \<notin> fst ` set seen\<close>
          by (fastforce simp: image_iff)
      next
        case (Some other)
        then have "k \<in> fst ` set seen" by (metis domI dom_map_of_conv_image_fst)
        with Some r True Inr o show ?thesis by (auto simp: Let_def)
      qed
    qed
  qed
qed auto

lemma providersFromPods_Inr_iff:
  "providersFromPods pods pr nad = Inr ps \<longleftrightarrow>
     (let sv = filter (offering pr nad) pods in
      (\<forall>p \<in> set sv. \<exists>k. podOrdinal (pod_Name p) = Inr k) \<and> distinct (map ordinalOf sv) \<and>
      ps = sort_key prov_Ordinal (map (providerOf pr nad) sv))"
proof (cases "providersLoop pr nad pods [] []")
  case (Inl e)
  then have "\<nexists>x. providersLoop pr nad pods [] [] = Inr x" by simp
  with Inl show ?thesis
    unfolding providersLoop_Inr_iff by (auto simp: providersFromPods_def Let_def)
next
  case (Inr x)
  then show ?thesis
    using providersLoop_Inr_iff [of pr nad pods "[]" "[]" x]
    by (auto simp: providersFromPods_def Let_def)
qed

section \<open>Properties\<close>

text \<open>
  The ordinal parse is exact: a pod name yields ordinal k if and only if it is what a
  StatefulSet with a legal name would call its pod k, so no other name is ever guessed into an
  ordinal and every real pod name is read back.
\<close>

theorem pod_ordinal_exact:
  "podOrdinal name = Inr k \<longleftrightarrow>
     0 \<le> k \<and> k < 2 ^ 31 \<and> (\<exists>c. c \<noteq> [] \<and> last c \<noteq> CHR ''-'' \<and> name = statefulSetPodName c k)"
  by (rule podOrdinal_Inr_iff)

text \<open>
  Discovered providers are identified by ordinal and by nothing else: the list is strictly
  ascending in the ordinal, and a pod list that merely arrives in another order yields the same
  list.
\<close>

theorem providers_stable:
  assumes "providersFromPods pods pr nad = Inr ps" and "mset pods' = mset pods"
  shows "sorted_wrt (<) (map prov_Ordinal ps) \<and> providersFromPods pods' pr nad = Inr ps"
proof -
  let ?sv = "filter (offering pr nad) pods" and ?sv' = "filter (offering pr nad) pods'"
  have ok: "\<forall>p \<in> set ?sv. \<exists>k. podOrdinal (pod_Name p) = Inr k" "distinct (map ordinalOf ?sv)"
    and ps: "ps = sort_key prov_Ordinal (map (providerOf pr nad) ?sv)"
    using assms(1) by (simp_all add: providersFromPods_Inr_iff Let_def)
  have m: "mset ?sv' = mset ?sv" using assms(2) by (simp add: mset_filter)
  have ords: "map prov_Ordinal (map (providerOf pr nad) ?sv) = map ordinalOf ?sv"
    by (simp add: providerOf_def)
  have inj: "inj_on prov_Ordinal (set (map (providerOf pr nad) ?sv))"
    using ok(2) ords by (metis distinct_map)
  have "sort_key prov_Ordinal (map (providerOf pr nad) ?sv') = ps"
  proof (rule sort_key_inj_key_eq)
    show "mset (map (providerOf pr nad) ?sv') = mset ps" using m by (simp add: ps)
    show "inj_on prov_Ordinal (set (map (providerOf pr nad) ?sv'))"
      using inj m by (metis mset_map set_mset_mset)
    show "sorted (map prov_Ordinal ps)" by (simp add: ps)
  qed
  moreover have "set ?sv' = set ?sv" using m by (metis set_mset_mset)
  moreover have "distinct (map ordinalOf ?sv')"
    using ok(2) m by (metis mset_eq_imp_distinct_iff mset_map)
  ultimately have "providersFromPods pods' pr nad = Inr ps"
    using ok(1) by (simp only: providersFromPods_Inr_iff Let_def)
  moreover have "mset (map prov_Ordinal ps) = mset (map ordinalOf ?sv)"
    unfolding ords [symmetric] ps by (simp del: map_map)
  then have "distinct (map prov_Ordinal ps)"
    using ok(2) by (metis mset_eq_imp_distinct_iff)
  moreover have "sorted (map prov_Ordinal ps)" by (simp add: ps)
  ultimately show ?thesis by (simp add: strict_sorted_iff)
qed

definition example_pod :: "string \<Rightarrow> string \<Rightarrow> Pod" where
  "example_pod name ip = \<lparr>pod_Name = name, pod_Phase = ''Running'', pod_PodIP = ip,
     pod_NetworkStatus = None, pod_Deleting = False, pod_Conditions = []\<rparr>"

theorem providers_stable_witness:
  "providersFromPods [example_pod ''s-1'' ''b'', example_pod ''s-0'' ''a''] True [] =
     Inr [\<lparr>prov_Ordinal = 0, prov_Address = ''a''\<rparr>, \<lparr>prov_Ordinal = 1, prov_Address = ''b''\<rparr>] \<and>
   providersFromPods [example_pod ''s-0'' ''a'', example_pod ''s-1'' ''b''] True [] =
     Inr [\<lparr>prov_Ordinal = 0, prov_Address = ''a''\<rparr>, \<lparr>prov_Ordinal = 1, prov_Address = ''b''\<rparr>]"
proof -
  let ?a = "example_pod ''s-0'' ''a''" and ?b = "example_pod ''s-1'' ''b''"
  let ?ps = "[\<lparr>prov_Ordinal = 0, prov_Address = ''a''\<rparr>, \<lparr>prov_Ordinal = 1, prov_Address = ''b''\<rparr>]"
  have h: "providersFromPods [?b, ?a] True [] = Inr ?ps" by code_simp
  have m: "mset [?a, ?b] = mset [?b, ?a]" by simp
  from providers_stable [OF h m] h show ?thesis by blast
qed

end
