(* ===== verification/Syncrepl_Build.thy ===== *)
theory Syncrepl_Build
  imports Rid_Stanza Providers
begin

text \<open>
  The two stanza builders of \<open>slapddatabase_controller.go\<close> (\<open>buildDatabaseSyncRepl\<close>,
  \<open>buildDatabaseSyncReplRO\<close>), the per-peer helpers that resolve what a stanza carries, and the
  comparison of the stanzas a pod has with those it should have (\<open>syncreplMatch\<close>). The builders'
  long argument list is the record \<open>stanza_args\<close>; a stanza is the string that is written.
\<close>

section \<open>Names and formats\<close>

definition AccesslogSuffix :: "string \<Rightarrow> string" where
  "AccesslogSuffix dbName = ''cn=accesslog-'' @ dbName"

definition ExternalLogBase :: "SlapdDatabase \<Rightarrow> string" where
  "ExternalLogBase sd =
     (let s = dbr_ExternalAccesslogSuffix (sds_Replication (sd_Spec sd)) in
      if s \<noteq> [] then s else AccesslogSuffix (sd_Name sd))"

definition AuthIdentityCN :: "string \<Rightarrow> string" where
  "AuthIdentityCN dbName = ''repl-'' @ dbName"

definition AuthIdentityDN :: "string \<Rightarrow> string" where
  "AuthIdentityDN dbName = ''cn='' @ AuthIdentityCN dbName @ '','' @ ''cn=slaptain-auth''"

definition replicationBindDN :: "string \<Rightarrow> string" where
  "replicationBindDN dbName = AuthIdentityDN dbName"

text \<open>\<open>%03d\<close>.\<close>

definition fmt03d :: "int \<Rightarrow> string" where
  "fmt03d x =
     (let d = dec (nat \<bar>x\<bar>); w = (if x < 0 then 2 else 3);
          padded = replicate (w - length d) CHR ''0'' @ d
      in if x < 0 then CHR ''-'' # padded else padded)"

definition quoted :: "string \<Rightarrow> string" where
  "quoted s = [CHR 0x22] @ s @ [CHR 0x22]"

abbreviation "syncreplTimeoutOpts \<equiv> '' network-timeout=10''"
abbreviation "tlsReqcertAllow \<equiv> '' tls_reqcert=allow''"
abbreviation "defaultKeepalive \<equiv> ''240:3:30''"

definition desiredKeepalive :: "SlapdCluster \<Rightarrow> string" where
  "desiredKeepalive sc =
     (let v = trim_space (repl_Keepalive (sc_Replication sc)) in
      if v = [] then defaultKeepalive else if equal_fold v ''none'' then [] else v)"

section \<open>Stanzas\<close>

type_synonym uri = string
type_synonym dn = string
type_synonym options = string

record resolvedExternalPeer =
  rep_Name :: string
  rep_RID :: int32
  rep_URIs :: "string list"
  rep_ReplicasPerPeer :: int32
  rep_BindDN :: string
  rep_Password :: string
  rep_TLSCACertPath :: string
  rep_PlainSyncRepl :: bool

record stanza_args =
  sa_clusterName :: string
  sa_headlessSvc :: string
  sa_namespace :: string
  sa_clusterDomain :: string
  sa_suffix :: string
  sa_dbName :: string
  sa_replicas :: int32
  sa_replPassword :: string
  sa_tlsEnabled :: bool
  sa_inClusterRIDs :: rid_set
  sa_retryInterval :: string
  sa_keepalive :: string
  sa_deltaSync :: bool
  sa_replNetIPs :: "(string \<times> string) list"

datatype build_error =
    MissingRID string int32 message
  | NoProviderURI string
  | IndexOutOfRange

definition deltaOpts :: "bool \<Rightarrow> string \<Rightarrow> string" where
  "deltaOpts deltaSync logSuffix =
     (if deltaSync
      then '' logbase='' @ quoted logSuffix @
        '' logfilter='' @ quoted ''(&(objectClass=auditWriteObject)(reqResult=0))'' @ '' syncdata=accesslog''
      else [])"

definition keepaliveOpt :: "string \<Rightarrow> string" where
  "keepaliveOpt keepalive = (if keepalive \<noteq> [] then '' keepalive='' @ keepalive else [])"

text \<open>The format every stanza is rendered with.\<close>

definition stanzaText ::
  "string \<Rightarrow> uri \<Rightarrow> dn \<Rightarrow> dn \<Rightarrow> string \<Rightarrow> options \<Rightarrow> options \<Rightarrow> options \<Rightarrow> string \<Rightarrow> string" where
  "stanzaText rid provider suffix bindDN password delta tlsOpt keepalive retry =
     ''rid='' @ rid @ '' provider='' @ provider @ '' type=refreshAndPersist'' @
     '' searchbase='' @ quoted suffix @ '' scope=sub'' @ '' schemachecking=off'' @ '' bindmethod=simple'' @
     '' binddn='' @ quoted bindDN @ '' credentials='' @ password @
     delta @ tlsOpt @ keepalive @ syncreplTimeoutOpts @ '' retry='' @ quoted retry"

definition inClusterStanza :: "stanza_args \<Rightarrow> int32 \<Rightarrow> int32 \<Rightarrow> string" where
  "inClusterStanza a i coord =
     (let peerScheme = (if sa_tlsEnabled a then ''ldaps'' else ''ldap'');
          peerPort = (if sa_tlsEnabled a then 1025 else 1024);
          tlsOpt = (if sa_tlsEnabled a then '' tls_cacert=/etc/openldap/tls/ca.crt'' else []);
          peerPodName = sa_clusterName a @ ''-'' @ itoa i;
          dnsHost = peerPodName @ ''.'' @ sa_headlessSvc a @ ''.'' @ sa_namespace a @ ''.svc.'' @ sa_clusterDomain a;
          (peerHost, peerTLSOpt) =
            (case map_of (sa_replNetIPs a) peerPodName of
               Some ip \<Rightarrow> (ip, if sa_tlsEnabled a then tlsOpt @ tlsReqcertAllow else tlsOpt)
             | None \<Rightarrow> (dnsHost, tlsOpt));
          providerURI = peerScheme @ ''://'' @ peerHost @ '':'' @ itoa peerPort
      in stanzaText (fmt03d coord) providerURI (sa_suffix a) (replicationBindDN (sa_dbName a))
           (sa_replPassword a) (deltaOpts (sa_deltaSync a) (AccesslogSuffix (sa_dbName a))) peerTLSOpt
           (keepaliveOpt (sa_keepalive a)) (sa_retryInterval a))"

fun inClusterStanzas ::
  "stanza_args \<Rightarrow> int32 option \<Rightarrow> int32 list \<Rightarrow> string list \<Rightarrow> build_error + string list" where
  "inClusterStanzas a self [] stanzas = Inr stanzas"
| "inClusterStanzas a self (i # rest) stanzas =
     (if self = Some i then inClusterStanzas a self rest stanzas
      else (case stanzaRIDFor (sa_inClusterRIDs a) i of
          Inl err \<Rightarrow> Inl (MissingRID (sa_clusterName a) (case self of None \<Rightarrow> i | Some k \<Rightarrow> k) err)
        | Inr coord \<Rightarrow> inClusterStanzas a self rest (stanzas @ [inClusterStanza a i coord])))"

text \<open>
  \<open>net.ParseIP\<close> on what precedes the first colon, which therefore holds none: only a dotted-decimal
  IPv4 address parses, four fields of one to three digits up to 255 without leading zeros.
\<close>

definition ipv4_field :: "string \<Rightarrow> bool" where
  "ipv4_field f \<longleftrightarrow>
     f \<noteq> [] \<and> (\<forall>c \<in> set f. is_digit c) \<and> length f \<le> 3 \<and> dec_val 0 f \<le> 255 \<and>
     (length f = 1 \<or> hd f \<noteq> CHR ''0'')"

definition parses_as_ipv4 :: "string \<Rightarrow> bool" where
  "parses_as_ipv4 s \<longleftrightarrow> length (split_on CHR ''.'' s) = 4 \<and> (\<forall>f \<in> set (split_on CHR ''.'' s). ipv4_field f)"

definition trim_prefix :: "string \<Rightarrow> string \<Rightarrow> string" where
  "trim_prefix p s = (case strip_prefix p s of None \<Rightarrow> s | Some r \<Rightarrow> r)"

definition uriHostIsIP :: "string \<Rightarrow> bool" where
  "uriHostIsIP uri =
     parses_as_ipv4 (hd (split_on CHR '':'' (trim_prefix ''ldap://'' (trim_prefix ''ldaps://'' uri))))"

definition externalStanza ::
  "stanza_args \<Rightarrow> int32 \<Rightarrow> string \<Rightarrow> resolvedExternalPeer \<Rightarrow> build_error + string" where
  "externalStanza a ordinal externalLogSuffix ep =
     (let baseTLSOpt =
            (if rep_TLSCACertPath ep \<noteq> []
             then '' tls_cacert='' @ rep_TLSCACertPath ep @
               (if sa_tlsEnabled a
                then '' tls_cert=/etc/openldap/tls/tls.crt tls_key=/etc/openldap/tls/tls.key'' else [])
             else []);
          n = wrap32 (int (length (rep_URIs ep)))
      in if n = 0 then Inl (NoProviderURI (rep_Name ep))
         else let epDeltaOpts =
                    (if rep_PlainSyncRepl ep then [] else deltaOpts (sa_deltaSync a) externalLogSuffix);
                  idx = i32_mod ordinal n
              in if idx < 0 \<or> idx \<ge> int (length (rep_URIs ep)) then Inl IndexOutOfRange
                 else let uri = rep_URIs ep ! nat idx;
                          epTLSOpt = (if uriHostIsIP uri then baseTLSOpt @ tlsReqcertAllow else baseTLSOpt)
                      in Inr (stanzaText (fmt03d (rep_RID ep)) uri (sa_suffix a) (rep_BindDN ep) (rep_Password ep)
                           epDeltaOpts epTLSOpt (keepaliveOpt (sa_keepalive a)) (sa_retryInterval a)))"

fun externalStanzas ::
  "stanza_args \<Rightarrow> int32 \<Rightarrow> string \<Rightarrow> resolvedExternalPeer list \<Rightarrow> string list \<Rightarrow> build_error + string list" where
  "externalStanzas a ordinal els [] stanzas = Inr stanzas"
| "externalStanzas a ordinal els (ep # eps) stanzas =
     (case externalStanza a ordinal els ep of
        Inl err \<Rightarrow> Inl err
      | Inr st \<Rightarrow> externalStanzas a ordinal els eps (stanzas @ [st]))"

definition buildDatabaseSyncRepl ::
  "stanza_args \<Rightarrow> int32 \<Rightarrow> string \<Rightarrow> resolvedExternalPeer list \<Rightarrow> bool \<Rightarrow> build_error + string list" where
  "buildDatabaseSyncRepl a ordinal externalLogSuffix externalPeers consumerOnly =
     (let inClusterReplicas = (if consumerOnly then 0 else sa_replicas a) in
      case inClusterStanzas a (Some ordinal) [0..inClusterReplicas - 1] [] of
        Inl err \<Rightarrow> Inl err
      | Inr stanzas \<Rightarrow> externalStanzas a ordinal externalLogSuffix externalPeers stanzas)"

definition buildDatabaseSyncReplRO :: "stanza_args \<Rightarrow> build_error + string list" where
  "buildDatabaseSyncReplRO a = inClusterStanzas a None [0..sa_replicas a - 1] []"

section \<open>Resolving a peer\<close>

text \<open>A Secret is its data; a missing key reads as the empty value. \<open>getSecret\<close> is the client's Get.\<close>

type_synonym secret = "(string \<times> string) list"
type_synonym get_secret = "string \<Rightarrow> string \<Rightarrow> api_error + secret"

definition secret_value :: "secret \<Rightarrow> string \<Rightarrow> string" where
  "secret_value s key = (case map_of s key of None \<Rightarrow> [] | Some v \<Rightarrow> v)"

abbreviation "secretKeyReplicationPassword \<equiv> ''replication-password''"

definition credentialsSecretName :: "SlapdDatabase \<Rightarrow> string" where
  "credentialsSecretName sd =
     (if sds_CredentialsSecretName (sd_Spec sd) \<noteq> [] then sds_CredentialsSecretName (sd_Spec sd)
      else sd_Name sd @ ''-credentials'')"

definition getDatabaseReplPassword :: "get_secret \<Rightarrow> SlapdDatabase \<Rightarrow> api_error + string" where
  "getDatabaseReplPassword getSecret sd =
     (case getSecret (sd_Namespace sd) (credentialsSecretName sd) of
        Inl err \<Rightarrow> Inl err
      | Inr secret \<Rightarrow> Inr (secret_value secret secretKeyReplicationPassword))"

definition externalPeerPassword :: "get_secret \<Rightarrow> string \<Rightarrow> string \<Rightarrow> api_error + string" where
  "externalPeerPassword getSecret ns secretName =
     (if secretName = [] then Inr []
      else (case getSecret ns secretName of
          Inl err \<Rightarrow> Inl err
        | Inr secret \<Rightarrow>
            (let password = secret_value secret ''password'' in
             Inr (if password = [] then secret_value secret secretKeyReplicationPassword else password))))"

definition externalPeerProviders :: "SlapdCluster \<Rightarrow> ExternalPeer \<Rightarrow> DiscoveredProvider list" where
  "externalPeerProviders sc ep =
     (case peer_Discovery ep of
        None \<Rightarrow> providersFromPodAddresses (peer_PodAddresses ep)
      | Some _ \<Rightarrow>
          (case find (\<lambda>ps. eps_Name ps = peer_Name ep) (scs_ExternalPeerStatuses (sc_Status sc)) of
             Some ps \<Rightarrow> eps_DiscoveredProviders ps
           | None \<Rightarrow> []))"

definition externalPeerURIs :: "ExternalPeer \<Rightarrow> string list \<Rightarrow> bool \<Rightarrow> string list" where
  "externalPeerURIs ep podAddrs tlsEnabled =
     (if podAddrs = [] then providerAddresses (providersFromURI (peer_URI ep))
      else let port = (if peer_Port ep = 0 then 1025 else peer_Port ep);
               scheme = (if \<not> tlsEnabled then ''ldap'' else ''ldaps'');
               port = (if \<not> tlsEnabled \<and> port = 1025 then 1024 else port)
           in map (\<lambda>addr. scheme @ ''://'' @ addr @ '':'' @ itoa port) podAddrs)"

definition externalPeerCACertPath :: "ExternalPeer \<Rightarrow> string" where
  "externalPeerCACertPath ep =
     (if peer_TLSSecretName ep = [] then []
      else ''/etc/openldap/tls/peers/'' @ peer_Name ep @ ''/ca.crt'')"

definition externalBindIdentity ::
  "dn \<Rightarrow> string \<Rightarrow> string \<Rightarrow> string \<Rightarrow> string \<Rightarrow> dn \<times> string" where
  "externalBindIdentity overrideBindDN overrideSecretName overridePassword dbName dbReplPassword =
     ((if overrideBindDN = [] then replicationBindDN dbName else overrideBindDN),
      (if overrideSecretName = [] then dbReplPassword else overridePassword))"

section \<open>Comparing with what a pod has\<close>

definition bareStanza :: "string \<Rightarrow> string" where
  "bareStanza s =
     trim_space (if s \<noteq> [] \<and> hd s = CHR ''{''
       then (case cut CHR ''}'' s of Some (_, after) \<Rightarrow> after | None \<Rightarrow> s) else s)"

definition stanzaRIDText :: "string \<Rightarrow> string" where
  "stanzaRIDText bare = trim_prefix ''rid='' (takeWhile (\<lambda>c. c \<noteq> CHR '' '') bare)"

definition parseSyncreplByRID :: "string list \<Rightarrow> (string \<rightharpoonup> string)" where
  "parseSyncreplByRID stanzas =
     fold (\<lambda>s m. let bare = bareStanza s in
       if take 4 bare = ''rid='' then m(stanzaRIDText bare \<mapsto> bare) else m) stanzas Map.empty"

definition normalizeSyncreplStanza :: "string \<Rightarrow> string" where
  "normalizeSyncreplStanza s = join '' '' (sort (str_fields s))"

text \<open>The keys a stanza list gives the map, for the size and the walk over the desired map.\<close>

definition syncreplKeys :: "string list \<Rightarrow> string list" where
  "syncreplKeys stanzas =
     remdups (map stanzaRIDText (filter (\<lambda>b. take 4 b = ''rid='') (map bareStanza stanzas)))"

definition syncreplMatch :: "string list \<Rightarrow> string list \<Rightarrow> bool" where
  "syncreplMatch current desired =
     (if length current \<noteq> length desired then False
      else let currentByRID = parseSyncreplByRID current; desiredByRID = parseSyncreplByRID desired in
        if length (syncreplKeys current) \<noteq> length (syncreplKeys desired) then False
        else \<forall>rid \<in> set (syncreplKeys desired).
          (case currentByRID rid of
             None \<Rightarrow> False
           | Some c \<Rightarrow> normalizeSyncreplStanza c = normalizeSyncreplStanza (the (desiredByRID rid))))"

section \<open>What the builders emit\<close>

lemma inClusterStanzas_Inr_iff:
  "inClusterStanzas a self is acc = Inr st \<longleftrightarrow>
     (\<forall>i \<in> set is. self \<noteq> Some i \<longrightarrow> (\<exists>c. map_of (sa_inClusterRIDs a) i = Some c)) \<and>
     st = acc @ map (\<lambda>i. inClusterStanza a i (the (map_of (sa_inClusterRIDs a) i)))
       (filter (\<lambda>i. self \<noteq> Some i) is)"
proof (induction "is" arbitrary: acc)
  case (Cons i "is")
  show ?case
  proof (cases "self = Some i")
    case False
    then show ?thesis
      by (cases "map_of (sa_inClusterRIDs a) i") (auto simp: stanzaRIDFor_def Cons.IH)
  qed (use Cons.IH in auto)
qed auto

lemma externalStanzas_Inr_iff:
  "externalStanzas a k els eps acc = Inr st \<longleftrightarrow>
     (\<forall>ep \<in> set eps. \<exists>s. externalStanza a k els ep = Inr s) \<and>
     st = acc @ map (\<lambda>ep. projr (externalStanza a k els ep)) eps"
  by (induction eps arbitrary: acc) (auto split: sum.splits)

text \<open>The RID a stanza text carries.\<close>

definition stanza_rid :: "string \<Rightarrow> string" where
  "stanza_rid s = takeWhile (\<lambda>c. c \<noteq> CHR '' '') (drop 4 s)"

lemma fmt03d_no_space: "CHR '' '' \<notin> set (fmt03d x)"
  using dec_no_char [OF not_digit_chars(4)] by (simp add: fmt03d_def Let_def)

lemma stanza_rid_text [simp]: "stanza_rid (stanzaText (fmt03d r) p s b w d t k y) = fmt03d r"
proof -
  have "takeWhile (\<lambda>c. c \<noteq> CHR '' '') (fmt03d r @ CHR '' '' # rest) = fmt03d r" for rest
    using fmt03d_no_space [of r] by (simp add: takeWhile_append)
  then show ?thesis by (simp add: stanza_rid_def stanzaText_def)
qed

lemma stanza_rid_inCluster [simp]: "stanza_rid (inClusterStanza a i c) = fmt03d c"
  by (simp add: inClusterStanza_def Let_def split: option.splits)

lemma stanza_rid_external: "externalStanza a k els ep = Inr s \<Longrightarrow> stanza_rid s = fmt03d (rep_RID ep)"
  by (auto simp: externalStanza_def Let_def split: if_splits)

lemma externalStanza_Inr_iff:
  "0 \<le> k \<Longrightarrow> length (rep_URIs ep) < 2 ^ 31 \<Longrightarrow>
     (\<exists>s. externalStanza a k els ep = Inr s) \<longleftrightarrow> rep_URIs ep \<noteq> []"
proof -
  assume k: "0 \<le> k" and len: "length (rep_URIs ep) < 2 ^ 31"
  have w: "wrap32 (int (length (rep_URIs ep))) = int (length (rep_URIs ep))" using len by simp
  show ?thesis
  proof (cases "rep_URIs ep = []")
    case False
    then have "0 < int (length (rep_URIs ep))" by simp
    then have "0 \<le> k smod int (length (rep_URIs ep))"
      and "k smod int (length (rep_URIs ep)) < int (length (rep_URIs ep))"
      using k by (simp_all add: smod_nonneg)
    with False w show ?thesis by (simp add: externalStanza_def Let_def i32_mod_def)
  qed (simp add: externalStanza_def wrap32_def)
qed

lemma dec_length_le:
  assumes "n < 1000" shows "length (dec n) \<le> 3"
  using assms by (subst dec.simps, simp, subst dec.simps, simp, subst dec.simps, simp)

lemma fmt03d_inj: "0 \<le> x \<Longrightarrow> 0 \<le> y \<Longrightarrow> fmt03d x = fmt03d y \<Longrightarrow> x = y"
proof -
  assume x: "0 \<le> x" and y: "0 \<le> y" and eq: "fmt03d x = fmt03d y"
  have "dec_val 0 (fmt03d z) = nat z" if "0 \<le> z" for z
    using that by (simp add: fmt03d_def dec_val_zeros Let_def)
  from this [OF x] this [OF y] eq x y show ?thesis by simp
qed

lemma fmt03d_three: "0 \<le> x \<Longrightarrow> x \<le> 999 \<Longrightarrow> length (fmt03d x) = 3"
  using dec_length_le [of "nat x"] by (simp add: fmt03d_def Let_def)

section \<open>The comparison\<close>

definition stanza_wf :: "string list \<Rightarrow> bool" where
  "stanza_wf xs \<longleftrightarrow> (\<forall>s \<in> set xs. take 4 (bareStanza s) = ''rid='') \<and>
     distinct (map (\<lambda>s. stanzaRIDText (bareStanza s)) xs)"

lemma parse_fold:
  "stanza_wf xs \<Longrightarrow>
     fold (\<lambda>s m. let bare = bareStanza s in
       if take 4 bare = ''rid='' then m(stanzaRIDText bare \<mapsto> bare) else m) xs m rid =
     (case find (\<lambda>s. stanzaRIDText (bareStanza s) = rid) xs of
        Some s \<Rightarrow> Some (bareStanza s) | None \<Rightarrow> m rid)"
proof (induction xs arbitrary: m)
  case (Cons x xs)
  then have wf: "stanza_wf xs" and x: "take 4 (bareStanza x) = ''rid=''"
    and fresh: "stanzaRIDText (bareStanza x) \<notin> set (map (\<lambda>s. stanzaRIDText (bareStanza s)) xs)"
    by (auto simp: stanza_wf_def)
  have "find (\<lambda>s. stanzaRIDText (bareStanza s) = stanzaRIDText (bareStanza x)) xs = None"
    using fresh unfolding find_None_all set_map by (metis image_eqI)
  then show ?case using x Cons.IH [OF wf] by (auto simp: Let_def split: option.splits)
qed simp

lemma parse_Some_iff:
  assumes "stanza_wf xs"
  shows "parseSyncreplByRID xs rid = Some b \<longleftrightarrow>
    (\<exists>s \<in> set xs. stanzaRIDText (bareStanza s) = rid \<and> bareStanza s = b)"
proof -
  have p: "parseSyncreplByRID xs rid =
      map_option bareStanza (find (\<lambda>s. stanzaRIDText (bareStanza s) = rid) xs)"
    unfolding parseSyncreplByRID_def using parse_fold [OF assms, of Map.empty rid]
    by (simp split: option.splits)
  have inj: "inj_on (\<lambda>s. stanzaRIDText (bareStanza s)) (set xs)"
    using assms by (simp add: stanza_wf_def distinct_map)
  show ?thesis
  proof
    assume "parseSyncreplByRID xs rid = Some b"
    then show "\<exists>s \<in> set xs. stanzaRIDText (bareStanza s) = rid \<and> bareStanza s = b"
      unfolding p by (auto dest: find_Some_in)
  next
    assume "\<exists>s \<in> set xs. stanzaRIDText (bareStanza s) = rid \<and> bareStanza s = b"
    then obtain s where s: "s \<in> set xs" "stanzaRIDText (bareStanza s) = rid" "bareStanza s = b" by blast
    then have "find (\<lambda>s. stanzaRIDText (bareStanza s) = rid) xs \<noteq> None"
      unfolding find_None_all by blast
    then obtain t where t: "find (\<lambda>s. stanzaRIDText (bareStanza s) = rid) xs = Some t" by blast
    have "t = s" using find_Some_in [OF t] s inj_onD [OF inj, of t s] by simp
    with t s show "parseSyncreplByRID xs rid = Some b" unfolding p by simp
  qed
qed

lemma keys_wf: "stanza_wf xs \<Longrightarrow> syncreplKeys xs = map (\<lambda>s. stanzaRIDText (bareStanza s)) xs"
  unfolding syncreplKeys_def stanza_wf_def
  by (subst filter_True) (auto simp: distinct_remdups_id comp_def)

definition stanza_view :: "string \<Rightarrow> string \<times> string" where
  "stanza_view s = (stanzaRIDText (bareStanza s), normalizeSyncreplStanza (bareStanza s))"

lemma syncreplMatch_iff:
  assumes c: "stanza_wf current" and d: "stanza_wf desired"
  shows "syncreplMatch current desired \<longleftrightarrow> stanza_view ` set current = stanza_view ` set desired"
proof -
  let ?k = "\<lambda>s. stanzaRIDText (bareStanza s)"
  have card: "card (stanza_view ` set xs) = length xs" if "stanza_wf xs" for xs
  proof -
    have "inj_on ?k (set xs)" and "distinct xs" using that by (auto simp: stanza_wf_def distinct_map)
    then show ?thesis
      by (subst card_image) (auto simp: inj_on_def stanza_view_def distinct_card)
  qed
  have look: "(case parseSyncreplByRID current (?k s) of None \<Rightarrow> False
      | Some b \<Rightarrow> normalizeSyncreplStanza b = normalizeSyncreplStanza (the (parseSyncreplByRID desired (?k s))))
      \<longleftrightarrow> stanza_view s \<in> stanza_view ` set current" if "s \<in> set desired" for s
  proof -
    have "parseSyncreplByRID desired (?k s) = Some (bareStanza s)"
      using that by (auto simp: parse_Some_iff [OF d])
    then show ?thesis
      using parse_Some_iff [OF c, of "?k s"]
      by (auto simp: stanza_view_def image_iff split: option.splits) (metis option.inject)+
  qed
  have "syncreplMatch current desired \<longleftrightarrow>
      length current = length desired \<and> stanza_view ` set desired \<subseteq> stanza_view ` set current"
    using look by (auto simp: syncreplMatch_def Let_def keys_wf [OF c] keys_wf [OF d])
  also have "\<dots> \<longleftrightarrow> stanza_view ` set current = stanza_view ` set desired"
    using card [OF c] card [OF d] card_subset_eq [of "stanza_view ` set current" "stanza_view ` set desired"]
    by auto
  finally show ?thesis .
qed

text \<open>The form in which a server returns ordered values.\<close>

definition numbered :: "nat \<Rightarrow> string \<Rightarrow> string" where
  "numbered i s = CHR ''{'' # dec i @ CHR ''}'' # s"

lemma bareStanza_numbered: "s = [] \<or> hd s \<noteq> CHR ''{'' \<Longrightarrow> bareStanza (numbered i s) = bareStanza s"
proof -
  assume "s = [] \<or> hd s \<noteq> CHR ''{''"
  then have "bareStanza s = trim_space s" by (auto simp: bareStanza_def)
  moreover have "CHR ''}'' \<notin> set (CHR ''{'' # dec i)"
    using dec_no_char [of "CHR ''}''" i] by (simp add: is_digit_def)
  then have "cut CHR ''}'' ((CHR ''{'' # dec i) @ CHR ''}'' # s) = Some (CHR ''{'' # dec i, s)"
    by (rule cut_append)
  ultimately show ?thesis by (simp add: bareStanza_def numbered_def)
qed

lemma bare_numbered_list:
  "\<forall>s \<in> set xs. s = [] \<or> hd s \<noteq> CHR ''{'' \<Longrightarrow>
     map bareStanza (map (\<lambda>(i, s). numbered i s) (enumerate n xs)) = map bareStanza xs"
  by (induction xs arbitrary: n) (auto simp: bareStanza_numbered)

lemma stanza_wf_bare: "map bareStanza xs = map bareStanza ys \<Longrightarrow> stanza_wf xs \<longleftrightarrow> stanza_wf ys"
proof -
  assume eq: "map bareStanza xs = map bareStanza ys"
  have w: "stanza_wf zs \<longleftrightarrow> (\<forall>b \<in> set (map bareStanza zs). take 4 b = ''rid='') \<and>
      distinct (map stanzaRIDText (map bareStanza zs))" for zs
    by (simp add: stanza_wf_def comp_def)
  show ?thesis unfolding w eq ..
qed

lemma stanza_view_bare: "map bareStanza xs = map bareStanza ys \<Longrightarrow> stanza_view ` set xs = stanza_view ` set ys"
proof -
  assume eq: "map bareStanza xs = map bareStanza ys"
  have v: "stanza_view ` set zs = (\<lambda>b. (stanzaRIDText b, normalizeSyncreplStanza b)) ` set (map bareStanza zs)" for zs
    by (simp add: stanza_view_def image_image)
  show ?thesis unfolding v eq ..
qed

section \<open>Properties\<close>



end
