(* ===== verification/Peer_Resolve.thy ===== *)
theory Peer_Resolve
  imports Rid_Stanza
begin

text \<open>
  \<open>ridpeerresolve.go\<close>: one outcome per declared external peer, and the judgement that every peer
  resolved before any stanza set is built, because a set short of one peer deletes that peer's
  links under the atomic Replace.
\<close>

abbreviation "reasonPeerBindPasswordUnreadable \<equiv> ''PeerBindPasswordUnreadable''"
abbreviation "reasonPeerProvidersUndiscovered \<equiv> ''PeerProvidersUndiscovered''"
abbreviation "reasonPeerAddressesEmpty \<equiv> ''PeerAddressesEmpty''"
abbreviation "reasonPeerResolutionIncomplete \<equiv> ''PeerResolutionIncomplete''"

record peerResolution =
  pr_Name :: string
  pr_Discovery :: bool
  pr_BindPasswordSecret :: string
  pr_SecretErr :: "api_error option"
  pr_Addresses :: nat

text \<open>The per-peer half: the reason and the clause, or \<open>None\<close> when the peer resolved.\<close>

definition judgeOnePeerResolution ::
  "ExternalPeer \<Rightarrow> peerResolution option \<Rightarrow> (string \<times> message) option" where
  "judgeOnePeerResolution peer outcome =
     (case outcome of
        None \<Rightarrow> Some (reasonPeerResolutionIncomplete,
          Msg ''produced no resolution outcome'' [MStr (peer_Name peer)])
      | Some oc \<Rightarrow>
          (case pr_SecretErr oc of
             Some err \<Rightarrow> Some (reasonPeerBindPasswordUnreadable,
               Msg ''bind-password Secret could not be read'' [MStr (pr_Name oc), MStr (pr_BindPasswordSecret oc)])
           | None \<Rightarrow>
               if pr_Addresses oc > 0 then None
               else if pr_Discovery oc
               then Some (reasonPeerProvidersUndiscovered,
                 Msg ''has discovered no provider'' [MStr (pr_Name oc)])
               else Some (reasonPeerAddressesEmpty,
                 Msg ''resolved to no address'' [MStr (pr_Name oc)])))"

text \<open>Outcomes are matched by name and the first outcome of a name wins: \<open>map_of\<close>.\<close>

definition outcomesByName :: "peerResolution list \<Rightarrow> string \<Rightarrow> peerResolution option" where
  "outcomesByName outcomes = map_of (map (\<lambda>oc. (pr_Name oc, oc)) outcomes)"

definition judgePeerResolutions ::
  "ExternalPeer list \<Rightarrow> peerResolution list \<Rightarrow> ridSegmentVerdict" where
  "judgePeerResolutions peers outcomes =
     (let faults = List.map_filter
            (\<lambda>p. judgeOnePeerResolution p (outcomesByName outcomes (peer_Name p))) peers in
      case faults of
        [] \<Rightarrow> accept 0
      | (reason, _) # _ \<Rightarrow> refuse reason (map (\<lambda>f. MMsg (snd f)) faults))"

definition resolved :: "peerResolution list \<Rightarrow> ExternalPeer \<Rightarrow> bool" where
  "resolved outcomes p \<longleftrightarrow>
     (\<exists>oc. outcomesByName outcomes (peer_Name p) = Some oc \<and> pr_SecretErr oc = None \<and> 0 < pr_Addresses oc)"

lemma judgeOnePeerResolution_None_iff:
  "judgeOnePeerResolution p (outcomesByName outcomes (peer_Name p)) = None \<longleftrightarrow> resolved outcomes p"
  by (auto simp: judgeOnePeerResolution_def resolved_def split: option.splits if_splits)

lemma map_filter_Nil_iff: "List.map_filter f xs = [] \<longleftrightarrow> (\<forall>x \<in> set xs. f x = None)"
  by (induction xs) (auto simp: List.map_filter_simps split: option.splits)

lemma judgePeerResolutions_OK_iff:
  "v_OK (judgePeerResolutions peers outcomes) \<longleftrightarrow> (\<forall>p \<in> set peers. resolved outcomes p)"
proof -
  have "v_OK (judgePeerResolutions peers outcomes) \<longleftrightarrow>
      List.map_filter (\<lambda>p. judgeOnePeerResolution p (outcomesByName outcomes (peer_Name p))) peers = []"
    by (auto simp: judgePeerResolutions_def Let_def split: list.splits prod.splits)
  then show ?thesis by (simp add: map_filter_Nil_iff judgeOnePeerResolution_None_iff)
qed

end
