(* ===== verification/Rid_Segment.thy ===== *)
theory Rid_Segment
  imports Rid_Stanza
begin

text \<open>
  \<open>ridsegment.go\<close>: whether a database's declared RID segment may be used, and the gate
  \<open>reconcileRIDSegment\<close> every pass of the SlapdDatabase controller goes through before it may write
  a syncrepl stanza. Its reads and the two library calls are arguments: the List of sibling
  databases (\<open>listDbs\<close>), the current time (\<open>now\<close>) and \<open>meta.RemoveStatusCondition\<close>
  (\<open>removeCond\<close>).
\<close>

abbreviation "reasonRIDSegmentMissing \<equiv> ''RIDSegmentMissing''"
abbreviation "reasonRIDSegmentOutOfRange \<equiv> ''RIDSegmentOutOfRange''"
abbreviation "reasonRIDSegmentCollision \<equiv> ''RIDSegmentCollision''"
abbreviation "reasonRIDSegmentUnverified \<equiv> ''RIDSegmentUnverified''"
abbreviation "ridSegmentConditionType \<equiv> ''SyncreplStanzasReady''"

section \<open>The judgement\<close>

definition collides :: "SlapdDatabase \<Rightarrow> int32 \<Rightarrow> SlapdDatabase \<Rightarrow> bool" where
  "collides sd segment other \<longleftrightarrow>
     \<not> (sd_Name other = sd_Name sd \<and> sd_Namespace other = sd_Namespace sd) \<and>
     \<not> (sd_ClusterRef other \<noteq> sd_ClusterRef sd) \<and>
     \<not> (sd_RIDSegment other = None \<or> sd_RIDSegment other \<noteq> Some segment)"

fun collidingLoop :: "SlapdDatabase \<Rightarrow> int32 \<Rightarrow> SlapdDatabase list \<Rightarrow> string \<Rightarrow> string" where
  "collidingLoop sd segment [] found = found"
| "collidingLoop sd segment (other # rest) found =
     (if collides sd segment other
      then collidingLoop sd segment rest
        (if found = [] \<or> sd_Name other < found then sd_Name other else found)
      else collidingLoop sd segment rest found)"

definition collidingSibling :: "SlapdDatabase \<Rightarrow> SlapdDatabase list \<Rightarrow> int32 \<Rightarrow> string" where
  "collidingSibling sd siblings segment = collidingLoop sd segment siblings []"

definition judgeRIDSegment :: "SlapdDatabase \<Rightarrow> SlapdDatabase list \<Rightarrow> Layout \<Rightarrow> ridSegmentVerdict" where
  "judgeRIDSegment sd siblings l =
     (case Validate l of
        Some err \<Rightarrow> refuse reasonRIDLayoutInvalid [MMsg (rid_error_msg err), MInt MaxRID]
      | None \<Rightarrow>
     let maxSegments = MaxSegments l in
     case sd_RIDSegment sd of
        None \<Rightarrow> refuse reasonRIDSegmentMissing [MInt (i32_sub maxSegments 1)]
      | Some segment \<Rightarrow>
     if segment < 0 \<or> segment \<ge> maxSegments
     then refuse reasonRIDSegmentOutOfRange
       [MInt segment, MInt (i32_sub maxSegments 1), MInt (PodsPerSite l), MInt (MaxSites l), MInt maxSegments]
     else let other = collidingSibling sd siblings segment in
       if other \<noteq> []
       then refuse reasonRIDSegmentCollision [MInt segment, MStr other, MStr (sd_ClusterRef sd)]
       else accept segment)"

section \<open>Wiring\<close>

definition resolveRIDSegment ::
  "(string \<Rightarrow> api_error + SlapdDatabase list) \<Rightarrow> SlapdDatabase \<Rightarrow> Layout \<Rightarrow> ridSegmentVerdict" where
  "resolveRIDSegment listDbs sd l =
     (case listDbs (sd_Namespace sd) of
        Inl err \<Rightarrow> refuse reasonRIDSegmentUnverified
          [MStr (sd_Namespace sd),
           MMsg (case err of ApiNotFound \<Rightarrow> Msg ''not found'' [] | ApiError m \<Rightarrow> m)]
      | Inr siblings \<Rightarrow> judgeRIDSegment sd siblings l)"

definition ridSegmentCondition :: "time \<Rightarrow> SlapdDatabase \<Rightarrow> ridSegmentVerdict \<Rightarrow> Condition" where
  "ridSegmentCondition now sd v =
     \<lparr>cond_Type = ridSegmentConditionType,
      cond_Status = (if v_OK v then ConditionTrue else ConditionFalse),
      cond_Reason = v_Reason v,
      cond_Message = (if v_OK v
        then Msg ''ridSegment is in range'' [MInt (v_Segment v), MStr (sd_ClusterRef sd)]
        else v_Message v),
      cond_LastTransitionTime = now,
      cond_ObservedGeneration = sd_Generation sd\<rparr>"

text \<open>The verdict of the three judgements, each asked only when the one before it accepted.\<close>

definition reconcileRIDSegment ::
  "(Condition list \<Rightarrow> string \<Rightarrow> Condition list) \<Rightarrow> (string \<Rightarrow> api_error + SlapdDatabase list) \<Rightarrow> time \<Rightarrow>
   SlapdCluster \<Rightarrow> SlapdDatabase \<Rightarrow> Layout \<Rightarrow> api_error option \<Rightarrow>
   (int32 \<times> ridSegmentVerdict option) \<times> SlapdDatabase" where
  "reconcileRIDSegment removeCond listDbs now sc sd l layoutErr =
     (if \<not> repl_Enabled (sc_Replication sc) \<or> \<not> ReplicationEnabled sd
      then ((0, None), set_sd_Conditions (removeCond (sd_Conditions sd) ridSegmentConditionType) sd)
      else (case judgeRIDLayout sc l layoutErr of
          Some lv \<Rightarrow> ((0, Some lv),
            set_sd_Conditions (setCondition (sd_Conditions sd) (ridSegmentCondition now sd lv)) sd)
        | None \<Rightarrow>
            (let v = resolveRIDSegment listDbs sd l;
                 v = (if v_OK v then (let fv = judgeClusterFleet sc l in if \<not> v_OK fv then fv else v) else v);
                 v = (if v_OK v then (let pv = judgeExternalPeers sc l in if \<not> v_OK pv then pv else v) else v);
                 sd' = set_sd_Conditions (setCondition (sd_Conditions sd) (ridSegmentCondition now sd v)) sd
             in if \<not> v_OK v then ((0, Some v), sd') else ((v_Segment v, None), sd'))))"

section \<open>The scan for a colliding sibling\<close>

definition collider_names :: "SlapdDatabase \<Rightarrow> int32 \<Rightarrow> SlapdDatabase list \<Rightarrow> string list" where
  "collider_names sd segment sibs = map sd_Name (filter (collides sd segment) sibs)"

text \<open>An API object always has a name.\<close>

definition named :: "SlapdDatabase list \<Rightarrow> bool" where
  "named sibs \<longleftrightarrow> (\<forall>d \<in> set sibs. sd_Name d \<noteq> [])"

lemma collidingLoop_Min:
  "named sibs \<Longrightarrow>
     collidingLoop sd seg sibs found =
       (let ns = (if found = [] then [] else [found]) @ collider_names sd seg sibs in
        if ns = [] then [] else Min (set ns))"
proof (induction sibs arbitrary: found)
  case Nil
  then show ?case by (simp add: collider_names_def)
next
  case (Cons d sibs)
  then have n: "named sibs" "sd_Name d \<noteq> []" by (simp_all add: named_def)
  show ?case
  proof (cases "collides sd seg d")
    case False
    then show ?thesis using Cons.IH [OF n(1)] by (simp add: collider_names_def)
  next
    case True
    let ?f = "if found = [] \<or> sd_Name d < found then sd_Name d else found"
    have "?f \<noteq> []" using n by simp
    then have "collidingLoop sd seg (d # sibs) found = Min (insert ?f (set (collider_names sd seg sibs)))"
      using True Cons.IH [OF n(1), of ?f] by (simp add: Let_def)
    also have "\<dots> = Min (set ((if found = [] then [] else [found]) @ collider_names sd seg (d # sibs)))"
    proof (cases "found = []")
      case True
      then show ?thesis using \<open>collides sd seg d\<close> by (simp add: collider_names_def)
    next
      case False
      then have "?f = min found (sd_Name d)" by (auto simp: min_def)
      with False \<open>collides sd seg d\<close> show ?thesis
        by (simp add: collider_names_def Min_insert_min)
    qed
    finally show ?thesis using True by (simp add: collider_names_def Let_def)
  qed
qed

lemma collidingSibling_Min:
  "named sibs \<Longrightarrow>
     collidingSibling sd sibs seg =
       (if \<exists>d \<in> set sibs. collides sd seg d
        then Min (sd_Name ` {d \<in> set sibs. collides sd seg d}) else [])"
  unfolding collidingSibling_def
  by (subst collidingLoop_Min) (auto simp: collider_names_def filter_empty_conv Let_def)

lemma collidingSibling_empty_iff:
  assumes "named sibs"
  shows "collidingSibling sd sibs seg = [] \<longleftrightarrow> (\<forall>d \<in> set sibs. \<not> collides sd seg d)"
proof (cases "\<exists>d \<in> set sibs. collides sd seg d")
  case True
  let ?N = "sd_Name ` {d \<in> set sibs. collides sd seg d}"
  have "Min ?N \<in> ?N" using True by (intro Min_in) auto
  then have "Min ?N \<noteq> []" using assms by (auto simp: named_def)
  with True assms show ?thesis by (simp add: collidingSibling_Min)
qed (use assms in \<open>auto simp: collidingSibling_Min\<close>)

section \<open>When the judgement accepts\<close>

lemma judgeRIDSegment_OK_iff:
  "named sibs \<Longrightarrow>
     v_OK (judgeRIDSegment sd sibs l) \<longleftrightarrow>
       (\<exists>s. sd_RIDSegment sd = Some s \<and> checkSegment l s = None \<and>
            (\<forall>d \<in> set sibs. \<not> collides sd s d))"
  by (auto simp: judgeRIDSegment_def Let_def checkSegment_None_iff collidingSibling_empty_iff
      split: option.splits)

lemma judgeRIDSegment_segment:
  "v_OK (judgeRIDSegment sd sibs l) \<Longrightarrow>
     sd_RIDSegment sd = Some (v_Segment (judgeRIDSegment sd sibs l)) \<and>
     checkSegment l (v_Segment (judgeRIDSegment sd sibs l)) = None"
  by (auto simp: judgeRIDSegment_def Let_def checkSegment_None_iff split: option.splits if_splits)

lemma reconcileRIDSegment_proceeds:
  assumes "reconcileRIDSegment rm listDbs now sc sd l lerr = ((s, None), sd')"
    and "repl_Enabled (sc_Replication sc)" and "ReplicationEnabled sd"
  shows "\<exists>sibs. listDbs (sd_Namespace sd) = Inr sibs \<and> v_OK (judgeRIDSegment sd sibs l) \<and>
           s = v_Segment (judgeRIDSegment sd sibs l)"
    and "v_OK (judgeClusterFleet sc l)" and "peers_ok sc l" and "Validate l = None" and "lerr = None"
proof -
  have j: "judgeRIDLayout sc l lerr = None"
    using assms by (cases "judgeRIDLayout sc l lerr") (auto simp: reconcileRIDSegment_def)
  then show "Validate l = None" and "lerr = None" by (auto simp: judgeRIDLayout_None_iff)
  let ?v = "resolveRIDSegment listDbs sd l"
  have v: "v_OK ?v \<and> v_OK (judgeClusterFleet sc l) \<and> v_OK (judgeExternalPeers sc l) \<and> s = v_Segment ?v"
    using assms j by (auto simp: reconcileRIDSegment_def Let_def split: if_splits)
  then show "v_OK (judgeClusterFleet sc l)" and "peers_ok sc l"
    by (simp_all add: judgeExternalPeers_OK_iff)
  from v show "\<exists>sibs. listDbs (sd_Namespace sd) = Inr sibs \<and> v_OK (judgeRIDSegment sd sibs l) \<and>
           s = v_Segment (judgeRIDSegment sd sibs l)"
    by (auto simp: resolveRIDSegment_def split: sum.splits)
qed

section \<open>Properties\<close>

text \<open>
  A segment is accepted exactly when it is declared, fits the layout in force and no other
  database of the cluster declares it; the accepted segment is the declared one.
\<close>

theorem segment_accepted_iff:
  assumes "named sibs"
  shows "judgeRIDSegment sd sibs l = accept s \<longleftrightarrow>
     sd_RIDSegment sd = Some s \<and> Validate l = None \<and> 0 \<le> s \<and> s < MaxSegments l \<and>
     (\<forall>d \<in> set sibs. sd_ClusterRef d = sd_ClusterRef sd \<and> sd_RIDSegment d = Some s \<longrightarrow>
        sd_Name d = sd_Name sd \<and> sd_Namespace d = sd_Namespace sd)"
proof -
  have "judgeRIDSegment sd sibs l = accept s \<longleftrightarrow>
      v_OK (judgeRIDSegment sd sibs l) \<and> sd_RIDSegment sd = Some s"
  proof
    assume "judgeRIDSegment sd sibs l = accept s"
    then show "v_OK (judgeRIDSegment sd sibs l) \<and> sd_RIDSegment sd = Some s"
      using judgeRIDSegment_segment [of sd sibs l] by simp
  next
    assume "v_OK (judgeRIDSegment sd sibs l) \<and> sd_RIDSegment sd = Some s"
    then show "judgeRIDSegment sd sibs l = accept s"
      by (auto simp: judgeRIDSegment_def Let_def split: option.splits if_splits)
  qed
  also have "\<dots> \<longleftrightarrow> sd_RIDSegment sd = Some s \<and> checkSegment l s = None \<and>
      (\<forall>d \<in> set sibs. \<not> collides sd s d)"
    by (auto simp: judgeRIDSegment_OK_iff [OF assms])
  finally show ?thesis
    by (auto simp: checkSegment_None_iff collides_def)
qed

theorem segment_accepted_witness:
  "named [base_database ''a'' (Some 1), base_database ''b'' (Some 2)] \<and>
   judgeRIDSegment (base_database ''a'' (Some 1))
     [base_database ''a'' (Some 1), base_database ''b'' (Some 2)] DefaultLayout = accept 1"
proof -
  let ?a = "base_database ''a'' (Some 1)" and ?b = "base_database ''b'' (Some 2)"
  have n: "named [?a, ?b]" by (simp add: named_def base_database_def)
  have "Validate DefaultLayout = None" and "1 < MaxSegments DefaultLayout" by code_simp+
  then show ?thesis
    using n segment_accepted_iff [OF n, of ?a DefaultLayout 1] by (simp add: base_database_def)
qed

text \<open>
  A collision has no winner: two databases of one cluster that declare one segment are both
  refused, whatever the layout and whichever is judged first.
\<close>

theorem collision_refuses_both:
  assumes "named sibs" and "a \<in> set sibs" and "b \<in> set sibs"
    and "sd_ClusterRef a = sd_ClusterRef b" and "sd_RIDSegment a = sd_RIDSegment b"
    and "(sd_Name a, sd_Namespace a) \<noteq> (sd_Name b, sd_Namespace b)"
  shows "\<not> v_OK (judgeRIDSegment a sibs l) \<and> \<not> v_OK (judgeRIDSegment b sibs l)"
  using assms by (auto simp: judgeRIDSegment_OK_iff collides_def)

theorem collision_refuses_both_witness:
  "\<not> v_OK (judgeRIDSegment (base_database ''a'' (Some 1))
       [base_database ''a'' (Some 1), base_database ''b'' (Some 1)] DefaultLayout) \<and>
   \<not> v_OK (judgeRIDSegment (base_database ''b'' (Some 1))
       [base_database ''a'' (Some 1), base_database ''b'' (Some 1)] DefaultLayout)"
  by (rule collision_refuses_both) (simp_all add: named_def base_database_def)

text \<open>
  The verdict, its message included, does not depend on the order the API server lists the
  databases in: two listings with the same databases give the same verdict.
\<close>

theorem verdict_order_independent:
  assumes "named sibs" and "mset sibs = mset sibs'"
  shows "judgeRIDSegment sd sibs l = judgeRIDSegment sd sibs' l"
proof -
  have s: "set sibs = set sibs'" using assms(2) by (metis set_mset_mset)
  moreover have "named sibs'" using assms(1) s by (simp add: named_def)
  ultimately have "collidingSibling sd sibs seg = collidingSibling sd sibs' seg" for seg
    using assms(1) by (simp add: collidingSibling_Min)
  then have eq: "collidingSibling sd sibs = collidingSibling sd sibs'" by (rule ext)
  show ?thesis unfolding judgeRIDSegment_def eq by (rule refl)
qed

theorem verdict_order_independent_witness:
  "judgeRIDSegment (base_database ''a'' (Some 1))
     [base_database ''c'' (Some 1), base_database ''b'' (Some 1)] DefaultLayout =
   judgeRIDSegment (base_database ''a'' (Some 1))
     [base_database ''b'' (Some 1), base_database ''c'' (Some 1)] DefaultLayout"
  by (rule verdict_order_independent) (simp_all add: named_def base_database_def)

end
