(* ===== verification/Go_Text.thy ===== *)
theory Go_Text
  imports Go_Prelude
begin

text \<open>
  More of Go's \<open>strings\<close> package: \<open>Contains\<close>, \<open>Index\<close>, \<open>LastIndex\<close>, and the laws of \<open>Fields\<close>, \<open>TrimSpace\<close> and
  \<open>EqualFold\<close> that the comparisons of cn=config values rest on.
\<close>

section \<open>Substrings\<close>

fun str_contains :: "string \<Rightarrow> string \<Rightarrow> bool" where
  "str_contains [] sub \<longleftrightarrow> sub = []"
| "str_contains (c # cs) sub \<longleftrightarrow> strip_prefix sub (c # cs) \<noteq> None \<or> str_contains cs sub"

lemma str_contains_iff: "str_contains s sub \<longleftrightarrow> (\<exists>a b. s = a @ sub @ b)"
proof (induction s)
  case (Cons c cs)
  have "strip_prefix sub (c # cs) \<noteq> None \<longleftrightarrow> (\<exists>b. c # cs = sub @ b)"
    using strip_prefix_iff [of sub "c # cs"] by auto
  then have "str_contains (c # cs) sub \<longleftrightarrow> (\<exists>b. c # cs = [] @ sub @ b) \<or> (\<exists>a b. c # cs = (c # a) @ sub @ b)"
    using Cons.IH by simp
  also have "\<dots> \<longleftrightarrow> (\<exists>a b. c # cs = a @ sub @ b)"
    by (metis append_Cons list.sel(1) neq_Nil_conv append_Nil)
  finally show ?case .
qed auto

text \<open>The text before the first occurrence, when there is one; \<open>Index\<close> is its length.\<close>

fun before_first :: "string \<Rightarrow> string \<Rightarrow> string option" where
  "before_first sub [] = (if sub = [] then Some [] else None)"
| "before_first sub (c # cs) =
     (if strip_prefix sub (c # cs) \<noteq> None then Some [] else map_option ((#) c) (before_first sub cs))"

fun after_last :: "char \<Rightarrow> string \<Rightarrow> string option" where
  "after_last sep [] = None"
| "after_last sep (c # cs) =
     (case after_last sep cs of Some r \<Rightarrow> Some r | None \<Rightarrow> if c = sep then Some cs else None)"

text \<open>\<open>IndexByte\<close> and \<open>LastIndexByte\<close>: -1 when the byte does not occur.\<close>

fun index_byte :: "char \<Rightarrow> string \<Rightarrow> int" where
  "index_byte sep [] = - 1"
| "index_byte sep (c # cs) =
     (if c = sep then 0 else let i = index_byte sep cs in if i < 0 then - 1 else i + 1)"

fun last_index_byte :: "char \<Rightarrow> string \<Rightarrow> int" where
  "last_index_byte sep [] = - 1"
| "last_index_byte sep (c # cs) =
     (let i = last_index_byte sep cs in if i \<ge> 0 then i + 1 else if c = sep then 0 else - 1)"

lemma index_byte_none [simp]: "index_byte sep s < 0 \<longleftrightarrow> sep \<notin> set s"
  by (induction s) (auto simp: Let_def)

lemma last_index_byte_none [simp]: "last_index_byte sep s < 0 \<longleftrightarrow> sep \<notin> set s"
  by (induction s) (auto simp: Let_def not_less)

lemma last_index_byte_free: "sep \<notin> set s \<Longrightarrow> last_index_byte sep s = - 1"
  by (induction s) (auto simp: Let_def)

lemma index_byte_append: "sep \<notin> set a \<Longrightarrow> index_byte sep (a @ sep # b) = int (length a)"
  by (induction a) (auto simp: Let_def)

lemma last_index_byte_append: "sep \<notin> set b \<Longrightarrow> last_index_byte sep (a @ sep # b) = int (length a)"
  by (induction a) (auto simp: Let_def last_index_byte_free)

lemma last_index_byte_less: "last_index_byte sep s < int (length s)"
  by (induction s) (auto simp: Let_def)

lemma last_index_byte_left: "sep \<notin> set b \<Longrightarrow> last_index_byte sep (a @ b) = last_index_byte sep a"
  by (induction a) (auto simp: Let_def last_index_byte_free)

section \<open>Words and white space\<close>

definition no_space :: "string \<Rightarrow> bool" where
  "no_space s \<longleftrightarrow> (\<forall>a b. s = a @ b \<longrightarrow> strip_any space_seqs b = None)"

lemma space_seqs_blank: "p \<in> set space_seqs \<Longrightarrow> CHR '' '' \<in> set p \<Longrightarrow> p = '' ''"
  by (auto simp: space_seqs_def)

lemma no_space_Nil [simp]: "no_space []"
  by (simp add: no_space_def) code_simp

lemma no_space_suffix: "no_space (a @ b) \<Longrightarrow> no_space b"
  unfolding no_space_def by (metis append.assoc)

lemma no_space_strip: "no_space s \<Longrightarrow> strip_any space_seqs s = None"
  unfolding no_space_def by (metis append_Nil)

lemma strip_any_none_prefix: "strip_any ps (b @ r) = None \<Longrightarrow> strip_any ps b = None"
  unfolding strip_any_None_iff by (metis append.assoc)

text \<open>A word keeps being a word in front of a blank.\<close>

lemma strip_before_blank:
  assumes "strip_any space_seqs b = None" and "b \<noteq> []"
  shows "strip_any space_seqs (b @ CHR '' '' # r) = None"
  unfolding strip_any_None_iff
proof (intro ballI impI allI notI)
  fix p q assume p: "p \<in> set space_seqs" "p \<noteq> []" and eq: "b @ CHR '' '' # r = p @ q"
  show False
  proof (cases "length p \<le> length b")
    case True
    then have "take (length b) (p @ q) = p @ take (length b - length p) q" by simp
    then have "b = p @ take (length b - length p) q" using eq by (metis append_eq_conv_conj)
    then show False using assms(1) p unfolding strip_any_None_iff by blast
  next
    case False
    have "take (Suc (length b)) (b @ CHR '' '' # r) = b @ '' ''" by simp
    moreover have "take (Suc (length b)) (p @ q) = take (Suc (length b)) p" using False by simp
    ultimately have "take (Suc (length b)) p = b @ '' ''" using eq by simp
    then have "CHR '' '' \<in> set (take (Suc (length b)) p)" by simp
    then have "CHR '' '' \<in> set p" by (rule in_set_takeD)
    with p(1) have "p = '' ''" by (rule space_seqs_blank)
    with False assms(2) show False by (simp add: Suc_le_eq)
  qed
qed

lemma fields_word:
  assumes "no_space w" and "strip_any space_seqs r \<noteq> None \<or> r = []" and "\<And>b. b \<noteq> [] \<Longrightarrow> no_space b \<Longrightarrow> strip_any space_seqs (b @ r) = None"
  shows "fields_from cur (w @ r) = fields_from (cur @ w) r"
  using assms(1)
proof (induction w arbitrary: cur)
  case (Cons c w)
  have "strip_any space_seqs ((c # w) @ r) = None" using assms(3) Cons.prems by blast
  moreover have "no_space w" using Cons.prems no_space_suffix [of "[c]" w] by simp
  ultimately show ?case using Cons.IH [of "cur @ [c]"] by (subst fields_from.simps) simp
qed simp

lemma fields_word_end: "no_space w \<Longrightarrow> fields_from cur w = (if cur @ w = [] then [] else [cur @ w])"
proof -
  assume w: "no_space w"
  have n: "strip_any space_seqs [] = None" by code_simp
  have "fields_from cur (w @ []) = fields_from (cur @ w) []"
    using w by (rule fields_word) (simp_all add: no_space_strip)
  also have "\<dots> = (if cur @ w = [] then [] else [cur @ w])" by (subst fields_from.simps) (simp add: n)
  finally show ?thesis by simp
qed

lemma fields_word_blank:
  "no_space w \<Longrightarrow> fields_from cur (w @ CHR '' '' # r) = (if cur @ w = [] then [] else [cur @ w]) @ fields_from [] r"
proof -
  assume w: "no_space w"
  have b: "strip_any space_seqs (CHR '' '' # r) = Some r"
    by (simp add: space_seqs_def)
  have "fields_from cur (w @ CHR '' '' # r) = fields_from (cur @ w) (CHR '' '' # r)"
    using w by (rule fields_word) (simp_all add: b no_space_strip strip_before_blank)
  also have "\<dots> = (if cur @ w = [] then [] else [cur @ w]) @ fields_from [] r"
    by (subst fields_from.simps) (simp add: b)
  finally show ?thesis .
qed

lemma fields_join:
  "\<forall>w \<in> set ws. w \<noteq> [] \<and> no_space w \<Longrightarrow> str_fields (join '' '' ws) = ws"
proof (induction ws rule: induct_list012)
  case (2 w)
  then show ?case using fields_word_end [of w "[]"] by (simp add: str_fields_def)
next
  case (3 w w' ws)
  then have "str_fields (join '' '' (w' # ws)) = w' # ws" by simp
  then show ?case using 3 fields_word_blank [of w "[]" "join '' '' (w' # ws)"] by (simp add: str_fields_def)
qed (simp add: str_fields_def fields_word_end)

text \<open>What \<open>Fields\<close> returns are words.\<close>

lemma fields_from_words:
  "(\<And>a b. cur = a @ b \<Longrightarrow> strip_any space_seqs (b @ s) = None \<or> b = []) \<Longrightarrow>
     w \<in> set (fields_from cur s) \<Longrightarrow> w \<noteq> [] \<and> no_space w"
proof (induction cur s rule: fields_from.induct)
  case (1 cur s)
  have cur_ok: "no_space cur" if "\<And>a b. cur = a @ b \<Longrightarrow> b \<noteq> [] \<Longrightarrow> strip_any space_seqs (b @ s) = None"
  proof -
    have n: "strip_any space_seqs [] = None" by code_simp
    show ?thesis unfolding no_space_def
      by (metis n strip_any_none_prefix that)
  qed
  have c: "cur \<noteq> [] \<Longrightarrow> no_space cur" using "1.prems"(1) cur_ok by blast
  show ?case
  proof (cases "strip_any space_seqs s")
    case (Some r)
    then have "fields_from cur s = (if cur = [] then [] else [cur]) @ fields_from [] r" by (subst fields_from.simps) simp
    then have "w \<in> set ((if cur = [] then [] else [cur]) @ fields_from [] r)" using "1.prems"(2) by simp
    then show ?thesis using "1.IH"(2) [OF Some] c by (auto split: if_splits)
  next
    case None
    show ?thesis
    proof (cases s)
      case Nil
      then have "fields_from cur s = (if cur = [] then [] else [cur])" using None by (subst fields_from.simps) simp
      then show ?thesis using "1.prems"(2) c by (auto split: if_splits)
    next
      case (Cons x xs)
      have "fields_from cur s = fields_from (cur @ [x]) xs" using None Cons by (subst fields_from.simps) simp
      then have "w \<in> set (fields_from (cur @ [x]) xs)" using "1.prems"(2) by simp
      moreover have "strip_any space_seqs (b @ xs) = None \<or> b = []" if "cur @ [x] = a @ b" for a b
      proof (cases b rule: rev_cases)
        case (snoc b' y)
        then have "y = x" "cur = a @ b'" using that by auto
        then show ?thesis using "1.prems"(1) [of a b'] None Cons snoc by auto
      qed simp
      ultimately show ?thesis using "1.IH"(1) [OF None Cons] by blast
    qed
  qed
qed

lemma str_fields_words: "w \<in> set (str_fields s) \<Longrightarrow> w \<noteq> [] \<and> no_space w"
  unfolding str_fields_def by (rule fields_from_words [of "[]" s w]) auto

lemma fields_idem: "str_fields (join '' '' (str_fields s)) = str_fields s"
  by (rule fields_join) (use str_fields_words in blast)

lemma strip_table_Nil [simp]: "strip_table tbl [] = None"
  using strip_table_shorter [of tbl "[]"] by (cases "strip_table tbl []") auto

lemma map_case_Nil_iff [simp]: "map_case tbl s = [] \<longleftrightarrow> s = []"
  by (subst map_case.simps) (auto split: option.splits list.splits)

lemma map_case_Nil [simp]: "map_case tbl [] = []"
  by simp

lemma equal_fold_Nil [simp]: "equal_fold [] s \<longleftrightarrow> s = []"
  using map_case_Nil_iff by (fastforce simp: equal_fold_def fold_case_def dest: sym)

lemma equal_fold_refl [simp]: "equal_fold s s"
  by (simp add: equal_fold_def)

section \<open>Words of plain characters\<close>

text \<open>A byte that neither starts nor continues a white-space rune.\<close>

definition plain :: "char \<Rightarrow> bool" where
  "plain c \<longleftrightarrow> (\<forall>p \<in> set space_seqs. c \<notin> set p)"

lemma plain_digit: "is_digit c \<Longrightarrow> plain c"
proof -
  have "\<forall>p \<in> set space_seqs. \<forall>c \<in> set p. \<not> is_digit c" by code_simp
  then show "is_digit c \<Longrightarrow> plain c" by (auto simp: plain_def)
qed

lemma plain_chars [simp]: "plain CHR '','' " "plain CHR ''-''" by code_simp+

lemma strip_any_plain: "plain c \<Longrightarrow> strip_any space_seqs (c # r) = None"
  unfolding strip_any_None_iff plain_def by (auto simp: Cons_eq_append_conv)

lemma no_space_plain: "\<forall>c \<in> set s. plain c \<Longrightarrow> no_space s"
  unfolding no_space_def
proof (intro allI impI)
  fix a b assume "\<forall>c \<in> set s. plain c" and "s = a @ b"
  then show "strip_any space_seqs b = None"
    by (cases b) (auto simp: strip_any_plain intro: no_space_strip)
qed

lemma strip_before_plain:
  assumes "strip_any space_seqs b = None" and "b \<noteq> []" and "plain c"
  shows "strip_any space_seqs (b @ c # r) = None"
  unfolding strip_any_None_iff
proof (intro ballI impI allI notI)
  fix p q assume p: "p \<in> set space_seqs" "p \<noteq> []" and eq: "b @ c # r = p @ q"
  from eq consider x where "b = p @ x" | x where "p = b @ c # x"
    by (auto simp: append_eq_append_conv2 Cons_eq_append_conv)
  then show False
  proof cases
    case 1
    then show False using assms(1) p unfolding strip_any_None_iff by blast
  next
    case 2
    then show False using assms(3) p(1) unfolding plain_def by auto
  qed
qed

lemma no_space_glue: "no_space a \<Longrightarrow> plain c \<Longrightarrow> no_space b \<Longrightarrow> no_space (a @ c # b)"
  unfolding no_space_def
proof (intro allI impI)
  fix x y
  assume A: "\<forall>u v. a = u @ v \<longrightarrow> strip_any space_seqs v = None" and c: "plain c"
    and B: "\<forall>u v. b = u @ v \<longrightarrow> strip_any space_seqs v = None" and eq: "a @ c # b = x @ y"
  from eq consider v where "a = x @ v" "y = v @ c # b" | u where "b = u @ y"
    by (auto simp: append_eq_append_conv2 Cons_eq_append_conv)
  then show "strip_any space_seqs y = None"
  proof cases
    case 1
    then show ?thesis using A c strip_before_plain strip_any_plain by (cases "v = []") auto
  qed (use B in blast)
qed

lemma no_space_join:
  "\<forall>w \<in> set ws. no_space w \<Longrightarrow> no_space (join '','' ws)"
  by (induction ws rule: induct_list012) (auto intro: no_space_glue)

lemma no_space_trim [simp]: "no_space s \<Longrightarrow> trim_space s = s"
proof -
  assume s: "no_space s"
  have "strip_any (map rev space_seqs) (rev s) = None"
    unfolding strip_any_None_iff
  proof (intro ballI impI allI notI)
    fix p r assume p: "p \<in> set (map rev space_seqs)" "p \<noteq> []" and eq: "rev s = p @ r"
    then obtain q where q: "q \<in> set space_seqs" "p = rev q" by auto
    with eq have "s = rev r @ q" by (metis rev_append rev_rev_ident)
    with s have "strip_any space_seqs q = None" unfolding no_space_def by blast
    then show False using q p(2) unfolding strip_any_None_iff by (metis append_Nil2 rev_is_Nil_conv)
  qed
  then show ?thesis using no_space_strip [OF s] by (simp add: trim_space_def trim_left_id)
qed

lemma no_space_itoa [simp]: "no_space (itoa n)"
proof -
  have "\<forall>c \<in> set (dec m). plain c" for m using dec_digits [of m] plain_digit by blast
  then show ?thesis by (intro no_space_plain) (auto simp: itoa_def)
qed

lemma fields_from_chars: "w \<in> set (fields_from cur s) \<Longrightarrow> set w \<subseteq> set cur \<union> set s"
proof (induction cur s rule: fields_from.induct)
  case (1 cur s)
  show ?case
  proof (cases "strip_any space_seqs s")
    case (Some r)
    then have "fields_from cur s = (if cur = [] then [] else [cur]) @ fields_from [] r" by (subst fields_from.simps) simp
    moreover obtain p where "s = p @ r" using strip_any_SomeD [OF Some] by blast
    ultimately show ?thesis using "1.IH"(2) [OF Some] "1.prems" by (fastforce split: if_splits)
  next
    case None
    show ?thesis
    proof (cases s)
      case Nil
      then have "fields_from cur s = (if cur = [] then [] else [cur])" using None by (subst fields_from.simps) simp
      then show ?thesis using "1.prems" by (auto split: if_splits)
    next
      case (Cons x xs)
      have "fields_from cur s = fields_from (cur @ [x]) xs" using None Cons by (subst fields_from.simps) simp
      then show ?thesis using "1.IH"(1) [OF None Cons] "1.prems" Cons by auto
    qed
  qed
qed

lemma str_fields_chars: "w \<in> set (str_fields s) \<Longrightarrow> set w \<subseteq> set s"
  using fields_from_chars [of w "[]" s] by (simp add: str_fields_def)

definition ascii :: "string \<Rightarrow> bool" where
  "ascii s \<longleftrightarrow> (\<forall>c \<in> set s. (of_char c :: nat) < 128)"

lemma ascii_word_plain:
  assumes "ascii w" and "no_space w" and "c \<in> set w"
  shows "plain c"
proof -
  have seqs: "\<forall>p \<in> set space_seqs. (\<exists>d. p = [d]) \<or> (\<forall>d \<in> set p. 128 \<le> (of_char d :: nat))"
    by (simp add: space_seqs_def)
  have "c \<notin> set p" if p: "p \<in> set space_seqs" for p
  proof
    assume c: "c \<in> set p"
    have "(of_char c :: nat) < 128" using assms(1,3) by (simp add: ascii_def)
    with seqs p c have "p = [c]" by (metis empty_iff list.set(1) not_less set_ConsD)
    moreover obtain a b where "w = a @ c # b" using assms(3) by (metis split_list)
    ultimately show False using assms(2) p unfolding no_space_def strip_any_None_iff
      by (metis append_Cons append_Nil list.distinct(1))
  qed
  then show ?thesis by (simp add: plain_def)
qed

section \<open>Lowering text around ASCII\<close>

definition wide :: "(string \<times> char) list \<Rightarrow> bool" where
  "wide tbl \<longleftrightarrow> (\<forall>(p, c) \<in> set tbl. \<forall>x \<in> set p. 128 \<le> (of_char x :: nat))"

lemma strip_table_ascii:
  assumes "wide tbl" and "(of_char c :: nat) < 128"
  shows "strip_table tbl (a @ c # s) = map_option (\<lambda>(d, r). (d, r @ c # s)) (strip_table tbl a)"
  using assms(1)
proof (induction tbl)
  case (Cons e tbl)
  obtain p d where e: "e = (p, d)" by (cases e)
  have p: "\<forall>x \<in> set p. 128 \<le> (of_char x :: nat)" and t: "wide tbl" using Cons.prems e by (auto simp: wide_def)
  have "strip_prefix p (a @ c # s) = map_option (\<lambda>r. r @ c # s) (strip_prefix p a)"
  proof (cases "\<exists>r. a = p @ r")
    case True
    then obtain r where r: "a = p @ r" ..
    then have "strip_prefix p a = Some r" "strip_prefix p (a @ c # s) = Some (r @ c # s)" by (simp_all add: strip_prefix_iff)
    then show ?thesis by simp
  next
    case False
    then have "strip_prefix p a = None" by (metis not_None_eq strip_prefix_iff)
    moreover have "strip_prefix p (a @ c # s) = None"
    proof (rule ccontr)
      assume "strip_prefix p (a @ c # s) \<noteq> None"
      then obtain r where "a @ c # s = p @ r" by (auto simp: strip_prefix_iff)
      then obtain us where "a @ us = p \<and> c # s = us @ r \<or> a = p @ us \<and> us @ c # s = r" by (auto simp: append_eq_append_conv2)
      with False have "a @ us = p" "c # s = us @ r" "us \<noteq> []" by auto
      then have "c \<in> set p" by (cases us) auto
      then show False using p assms(2) by auto
    qed
    ultimately show ?thesis by simp
  qed
  then show ?case using Cons.IH [OF t] e by (cases "strip_prefix p a") auto
qed simp

lemma map_case_ascii:
  assumes "wide tbl" and "(of_char c :: nat) < 128"
  shows "map_case tbl (a @ c # s) = map_case tbl a @ lower_char c # map_case tbl s"
proof (induction "length a" arbitrary: a rule: less_induct)
  case less
  note st = strip_table_ascii [OF assms, of a s]
  show ?case
  proof (cases "strip_table tbl a")
    case None
    show ?thesis
    proof (cases a)
      case Nil
      have "map_case tbl (c # s) = lower_char c # map_case tbl s" using st Nil by (subst map_case.simps) simp
      then show ?thesis using Nil by simp
    next
      case (Cons x xs)
      have "map_case tbl (a @ c # s) = lower_char x # map_case tbl (xs @ c # s)" using st None Cons by (subst map_case.simps) simp
      moreover have "map_case tbl a = lower_char x # map_case tbl xs" using None Cons by (subst map_case.simps) simp
      ultimately show ?thesis using less [of xs] Cons by simp
    qed
  next
    case (Some dr)
    obtain d r where dr: "dr = (d, r)" by (cases dr)
    have "map_case tbl (a @ c # s) = d # map_case tbl (r @ c # s)" using st Some dr by (subst map_case.simps) simp
    moreover have "map_case tbl a = d # map_case tbl r" using Some dr by (subst map_case.simps) simp
    ultimately show ?thesis using less [of r] strip_table_shorter [of tbl a d r] Some dr by simp
  qed
qed

lemma map_case_word:
  assumes "wide tbl"
  shows "ascii w \<Longrightarrow> w \<noteq> [] \<Longrightarrow> map_case tbl (a @ w @ s) = map_case tbl a @ map lower_char w @ map_case tbl s"
proof (induction w arbitrary: a)
  case (Cons c w)
  then have c: "(of_char c :: nat) < 128" by (simp add: ascii_def)
  show ?case
  proof (cases "w = []")
    case True
    then show ?thesis using map_case_ascii [OF assms(1) c, of a s] by simp
  next
    case False
    have "map_case tbl (a @ (c # w) @ s) = map_case tbl a @ lower_char c # map_case tbl ([] @ w @ s)"
      using map_case_ascii [OF assms(1) c, of a "w @ s"] by simp
    also have "map_case tbl ([] @ w @ s) = map lower_char w @ map_case tbl s"
      using Cons.IH [OF _ False, of "[]"] Cons.prems(1) by (simp add: ascii_def)
    finally show ?thesis by simp
  qed
qed simp

text \<open>A lower-case ASCII phrase of a text is a phrase of the lowered text.\<close>

lemma to_lower_contains:
  assumes "ascii w" and "map lower_char w = w" and "w \<noteq> []"
  shows "str_contains (to_lower (a @ w @ s)) w"
proof -
  have "wide [([CHR 0xC4, CHR 0xB0], CHR ''i''), ([CHR 0xE2, CHR 0x84, CHR 0xAA], CHR ''k'')]" by (simp add: wide_def)
  from map_case_word [OF this assms(1,3), of a s] show ?thesis unfolding to_lower_def str_contains_iff assms(2) by blast
qed

end
