(* ===== verification/Ldap_Write.thy ===== *)
theory Ldap_Write
  imports Api_Types Go_Text
begin

text \<open>
  \<open>startup_only_guard.go\<close> and the connection it interposes on. Every cn=config write of the operator
  is a request; the state of the outside world is the history of the requests sent so far, and an
  LDAP server (\<open>ldap_srv\<close>, an argument everywhere) is what the pods' servers answer after such a
  history. A request that reaches the connection is appended whether or not the server accepts it,
  so a statement about the history is a statement about what was sent.
\<close>

datatype mod_op = OpAdd | OpDelete | OpReplace

datatype cfg_request =
    ModifyReq (req_Addr: string) (req_DN: string) (req_Changes: "(mod_op \<times> string \<times> string list) list")
  | AddReq (req_Addr: string) (req_DN: string) (req_Attrs: "(string \<times> string list) list")
  | DelReq (req_Addr: string) (req_DN: string)

type_synonym history = "cfg_request list"

text \<open>
  The answers of the servers: to dialling an address, to a bind, to the search of cn=config for a
  suffix (the DNs found), to reading an entry (its attribute values by name, per entry found) and to
  a write.
\<close>

record ldap_srv =
  srv_Dial :: "history \<Rightarrow> string \<Rightarrow> message option"
  srv_Bind :: "history \<Rightarrow> string \<Rightarrow> string \<Rightarrow> string \<Rightarrow> message option"
  srv_SearchSuffix :: "history \<Rightarrow> string \<Rightarrow> string \<Rightarrow> message + string list"
  srv_Read :: "history \<Rightarrow> string \<Rightarrow> string \<Rightarrow> message + (string \<Rightarrow> string list) list"
  srv_Write :: "history \<Rightarrow> cfg_request \<Rightarrow> message option"

abbreviation "startupAttrSessionlogSource \<equiv> ''olcSpSessionlogSource''"

definition startupOnlyAttributes :: "string list" where
  "startupOnlyAttributes = [to_lower startupAttrSessionlogSource]"

definition normalizeAttrName :: "string \<Rightarrow> string" where
  "normalizeAttrName name = to_lower (takeWhile (\<lambda>c. c \<noteq> CHR '';'') (trim_space name))"

fun startupOnlyAttrViolation :: "string list \<Rightarrow> string" where
  "startupOnlyAttrViolation [] = []"
| "startupOnlyAttrViolation (name # names) =
     (if normalizeAttrName name \<in> set startupOnlyAttributes then name
      else startupOnlyAttrViolation names)"

definition startupOnlyError :: "string \<Rightarrow> string \<Rightarrow> message" where
  "startupOnlyError attr dn = Msg ''refusing to write startup-only attribute'' [MStr attr, MStr dn]"

fun req_names :: "cfg_request \<Rightarrow> string list" where
  "req_names (ModifyReq a dn changes) = map (\<lambda>(op, attr, vals). attr) changes"
| "req_names (AddReq a dn attrs) = map fst attrs"
| "req_names (DelReq a dn) = []"

definition send :: "ldap_srv \<Rightarrow> history \<Rightarrow> cfg_request \<Rightarrow> message option \<times> history" where
  "send srv hist req = (srv_Write srv hist req, hist @ [req])"

definition guardedModify ::
  "ldap_srv \<Rightarrow> history \<Rightarrow> string \<Rightarrow> string \<Rightarrow> (mod_op \<times> string \<times> string list) list \<Rightarrow>
   message option \<times> history" where
  "guardedModify srv hist addr dn changes =
     (let attr = startupOnlyAttrViolation (map (\<lambda>(op, attr, vals). attr) changes) in
      if attr \<noteq> [] then (Some (startupOnlyError attr dn), hist)
      else send srv hist (ModifyReq addr dn changes))"

definition guardedAdd ::
  "ldap_srv \<Rightarrow> history \<Rightarrow> string \<Rightarrow> string \<Rightarrow> (string \<times> string list) list \<Rightarrow>
   message option \<times> history" where
  "guardedAdd srv hist addr dn attrs =
     (let attr = startupOnlyAttrViolation (map fst attrs) in
      if attr \<noteq> [] then (Some (startupOnlyError attr dn), hist)
      else send srv hist (AddReq addr dn attrs))"

section \<open>What gets through\<close>

definition denied :: "string \<Rightarrow> bool" where
  "denied name \<longleftrightarrow> normalizeAttrName name \<in> set startupOnlyAttributes"

definition clean :: "cfg_request \<Rightarrow> bool" where
  "clean req \<longleftrightarrow> (\<forall>name \<in> set (req_names req). \<not> denied name)"

lemma normalizeAttrName_empty: "\<not> denied []"
  by code_simp

lemma violation_Nil_iff: "startupOnlyAttrViolation names = [] \<longleftrightarrow> (\<forall>n \<in> set names. \<not> denied n)"
  using normalizeAttrName_empty by (induction names) (auto simp: denied_def)

lemma violation_first:
  "startupOnlyAttrViolation names = n \<Longrightarrow> n \<noteq> [] \<Longrightarrow>
     \<exists>pre post. names = pre @ n # post \<and> denied n \<and> (\<forall>m \<in> set pre. \<not> denied m)"
proof (induction names)
  case (Cons a names)
  show ?case
  proof (cases "denied a")
    case True
    then have "a = n" using Cons.prems by (simp add: denied_def)
    with True show ?thesis by (metis append_Nil empty_iff list.set(1))
  next
    case False
    then have "startupOnlyAttrViolation names = n" using Cons.prems by (simp add: denied_def)
    from Cons.IH [OF this Cons.prems(2)] obtain pre post
      where "names = pre @ n # post" "denied n" "\<forall>m \<in> set pre. \<not> denied m" by blast
    with False show ?thesis by (intro exI [of _ "a # pre"] exI [of _ post]) simp
  qed
qed simp

lemma violation_cases:
  "if \<forall>n \<in> set names. \<not> denied n then startupOnlyAttrViolation names = []
   else \<exists>pre n post. names = pre @ n # post \<and> denied n \<and> (\<forall>m \<in> set pre. \<not> denied m) \<and>
     startupOnlyAttrViolation names = n \<and> n \<noteq> []"
  using violation_Nil_iff [of names] violation_first [of names] by (cases "\<forall>n \<in> set names. \<not> denied n") auto

section \<open>Which names are meant\<close>

text \<open>
  RFC 4512: an attribute description is a name, compared without case, and options behind a semicolon. The one attribute that may
  only be set at startup, in any of its spellings, and any blanks around it.
\<close>

definition startup_only :: "string \<Rightarrow> bool" where
  "startup_only name \<longleftrightarrow> (\<exists>spelled opts. trim_space name = spelled @ opts \<and> CHR '';'' \<notin> set spelled \<and>
     (opts = [] \<or> hd opts = CHR '';'') \<and> to_lower spelled = ''olcspsessionlogsource'')"

lemma startup_only_denied: "denied name \<longleftrightarrow> startup_only name"
proof -
  let ?t = "trim_space name" and ?b = "takeWhile (\<lambda>c. c \<noteq> CHR '';'') (trim_space name)"
  have attrs: "startupOnlyAttributes = [''olcspsessionlogsource'']" by code_simp
  have split: "spelled = ?b" if "?t = spelled @ opts" "CHR '';'' \<notin> set spelled" "opts = [] \<or> hd opts = CHR '';''" for spelled opts
  proof -
    have "takeWhile (\<lambda>c. c \<noteq> CHR '';'') (spelled @ opts) = spelled @ takeWhile (\<lambda>c. c \<noteq> CHR '';'') opts"
      using that(2) by (intro takeWhile_append2) auto
    moreover have "takeWhile (\<lambda>c. c \<noteq> CHR '';'') opts = []" using that(3) by (cases opts) simp_all
    ultimately show ?thesis unfolding that(1) by (simp only: append_Nil2)
  qed
  have parts: "?t = ?b @ dropWhile (\<lambda>c. c \<noteq> CHR '';'') ?t" "CHR '';'' \<notin> set ?b"
    "dropWhile (\<lambda>c. c \<noteq> CHR '';'') ?t = [] \<or> hd (dropWhile (\<lambda>c. c \<noteq> CHR '';'') ?t) = CHR '';''"
    using hd_dropWhile [of "\<lambda>c. c \<noteq> CHR '';''" ?t] set_takeWhileD [of "CHR '';''" "\<lambda>c. c \<noteq> CHR '';''" ?t]
    by (simp only: takeWhile_dropWhile_id, metis (mono_tags, lifting), metis (mono_tags, lifting))
  show ?thesis
  proof
    assume "denied name"
    then have "to_lower ?b = ''olcspsessionlogsource''" by (simp only: denied_def normalizeAttrName_def attrs list.set insert_iff empty_iff simp_thms)
    then show "startup_only name" unfolding startup_only_def
      by (intro exI [of _ ?b] exI [of _ "dropWhile (\<lambda>c. c \<noteq> CHR '';'') ?t"] conjI) (rule parts | assumption)+
  next
    assume "startup_only name"
    then obtain spelled opts where d: "?t = spelled @ opts" "CHR '';'' \<notin> set spelled" "opts = [] \<or> hd opts = CHR '';''"
      and l: "to_lower spelled = ''olcspsessionlogsource''" unfolding startup_only_def by blast
    have "spelled = ?b" by (rule split [OF d])
    then show "denied name" using l by (simp only: denied_def normalizeAttrName_def attrs list.set insert_iff simp_thms)
  qed
qed

lemma ascii_spelling:
  assumes "map lower_char spelled = ''olcspsessionlogsource''" and "opts = [] \<or> hd opts = CHR '';''" and "no_space (spelled @ opts)"
  shows "startup_only (spelled @ opts)"
proof -
  have low: "lower_char c \<in> set ''olcspsessionlogsource''" if "c \<in> set spelled" for c
    using that unfolding assms(1) [symmetric] by simp
  have "(of_char c :: nat) < 128" "c \<noteq> CHR '';''" if "c \<in> set spelled" for c
  proof -
    have "lower_char c = c" if "\<not> (of_char c :: nat) < 128" using that by (simp add: lower_char_def Let_def)
    then show "(of_char c :: nat) < 128" using low [OF that] by fastforce
    have "lower_char CHR '';'' \<notin> set ''olcspsessionlogsource''" by code_simp
    then show "c \<noteq> CHR '';''" using low [OF that] by blast
  qed
  then have a: "ascii spelled" "CHR '';'' \<notin> set spelled" by (auto simp: ascii_def)
  have ne: "spelled \<noteq> []" using assms(1) by auto
  have "wide [([CHR 0xC4, CHR 0xB0], CHR ''i''), ([CHR 0xE2, CHR 0x84, CHR 0xAA], CHR ''k'')]" by (simp add: wide_def)
  from map_case_word [OF this a(1) ne, of "[]" "[]"] have "to_lower spelled = ''olcspsessionlogsource''"
    using assms(1) by (simp add: to_lower_def)
  then show ?thesis using a(2) assms(2,3) unfolding startup_only_def by (intro exI [of _ spelled] exI [of _ opts]) simp
qed

section \<open>Properties\<close>

text \<open>
  C32. The guard is exact on both verbs: a request naming a startup-only attribute is refused with the first such name
  as the caller spelled it and nothing is sent; every other request is sent unchanged and the server's own answer is
  returned. The names meant are \<open>olcSpSessionlogSource\<close> in any case, with any options and with blanks around it, so in particular
  every spelling in ASCII that LDAP takes for this attribute.
\<close>

theorem guard_exact:
  "(if \<forall>n \<in> set (map (\<lambda>(op, attr, vals). attr) changes). \<not> startup_only n
    then guardedModify srv hist addr dn changes =
      (srv_Write srv hist (ModifyReq addr dn changes), hist @ [ModifyReq addr dn changes])
    else \<exists>pre n post. map (\<lambda>(op, attr, vals). attr) changes = pre @ n # post \<and> startup_only n \<and>
      (\<forall>m \<in> set pre. \<not> startup_only m) \<and>
      guardedModify srv hist addr dn changes = (Some (startupOnlyError n dn), hist)) \<and>
   (if \<forall>n \<in> set (map fst attrs). \<not> startup_only n
    then guardedAdd srv hist addr dn attrs =
      (srv_Write srv hist (AddReq addr dn attrs), hist @ [AddReq addr dn attrs])
    else \<exists>pre n post. map fst attrs = pre @ n # post \<and> startup_only n \<and> (\<forall>m \<in> set pre. \<not> startup_only m) \<and>
      guardedAdd srv hist addr dn attrs = (Some (startupOnlyError n dn), hist)) \<and>
   (\<forall>spelled opts. map lower_char spelled = ''olcspsessionlogsource'' \<and> (opts = [] \<or> hd opts = CHR '';'') \<and> no_space (spelled @ opts) \<longrightarrow>
      startup_only (spelled @ opts))"
proof -
  let ?n = "map (\<lambda>(op, attr, vals). attr) changes" and ?m = "map fst attrs"
  note c = violation_cases [of ?n, unfolded startup_only_denied] violation_cases [of ?m, unfolded startup_only_denied]
  have "guardedModify srv hist addr dn changes = (Some (startupOnlyError n dn), hist)"
    if "startupOnlyAttrViolation ?n = n" "n \<noteq> []" for n
    using that by (simp add: guardedModify_def)
  moreover have "guardedAdd srv hist addr dn attrs = (Some (startupOnlyError n dn), hist)"
    if "startupOnlyAttrViolation ?m = n" "n \<noteq> []" for n
    using that by (simp add: guardedAdd_def)
  moreover have "startupOnlyAttrViolation ?n = [] \<Longrightarrow> guardedModify srv hist addr dn changes =
      (srv_Write srv hist (ModifyReq addr dn changes), hist @ [ModifyReq addr dn changes])"
    by (simp add: guardedModify_def send_def)
  moreover have "startupOnlyAttrViolation ?m = [] \<Longrightarrow> guardedAdd srv hist addr dn attrs =
      (srv_Write srv hist (AddReq addr dn attrs), hist @ [AddReq addr dn attrs])"
    by (simp add: guardedAdd_def send_def)
  ultimately have guards: "(if \<forall>n \<in> set (map (\<lambda>(op, attr, vals). attr) changes). \<not> startup_only n
        then guardedModify srv hist addr dn changes =
          (srv_Write srv hist (ModifyReq addr dn changes), hist @ [ModifyReq addr dn changes])
        else \<exists>pre n post. map (\<lambda>(op, attr, vals). attr) changes = pre @ n # post \<and> startup_only n \<and>
          (\<forall>m \<in> set pre. \<not> startup_only m) \<and>
          guardedModify srv hist addr dn changes = (Some (startupOnlyError n dn), hist)) \<and>
       (if \<forall>n \<in> set (map fst attrs). \<not> startup_only n
        then guardedAdd srv hist addr dn attrs =
          (srv_Write srv hist (AddReq addr dn attrs), hist @ [AddReq addr dn attrs])
        else \<exists>pre n post. map fst attrs = pre @ n # post \<and> startup_only n \<and> (\<forall>m \<in> set pre. \<not> startup_only m) \<and>
          guardedAdd srv hist addr dn attrs = (Some (startupOnlyError n dn), hist))"
    using c by meson
  show ?thesis
    by (intro conjI guards [THEN conjunct1] guards [THEN conjunct2] allI impI, elim conjE, rule ascii_spelling)
qed

theorem guard_exact_witness:
  "startup_only ''OLCSPSESSIONLOGSOURCE;x-opt'' \<and>
   guardedModify \<lparr>srv_Dial = (\<lambda>_ _. None), srv_Bind = (\<lambda>_ _ _ _. None), srv_SearchSuffix = (\<lambda>_ _ _. Inr []),
     srv_Read = (\<lambda>_ _ _. Inr []), srv_Write = (\<lambda>_ _. None)\<rparr> [] ''a:1024'' ''olcDatabase={1}mdb''
     [(OpReplace, ''olcLimits'', []), (OpDelete, ''OLCSPSESSIONLOGSOURCE;x-opt'', [])] =
   (Some (startupOnlyError ''OLCSPSESSIONLOGSOURCE;x-opt'' ''olcDatabase={1}mdb''), [])"
proof -
  let ?a = "''OLCSPSESSIONLOGSOURCE'' @ '';x-opt''"
  have l: "map lower_char ''OLCSPSESSIONLOGSOURCE'' = ''olcspsessionlogsource''" by code_simp
  have "no_space ?a" by (rule no_space_plain) code_simp
  then have d: "startup_only ?a" using guard_exact [THEN conjunct2, THEN conjunct2] l by (metis list.sel(1))
  have n: "\<not> startup_only ''olcLimits''" unfolding startup_only_denied [symmetric] by code_simp
  have "[''olcLimits'', ?a] = pre @ m # post \<and> startup_only m \<Longrightarrow> m = ?a" for pre m post
    using n by (auto simp: Cons_eq_append_conv append_eq_Cons_conv)
  with d n guard_exact [of "[(OpReplace, ''olcLimits'', []), (OpDelete, ?a, [])]"
      _ "[]" "''a:1024''" "''olcDatabase={1}mdb''" "[]"] show ?thesis
    by (simp split: if_splits) blast
qed

end
