(* ===== verification/Syncrepl.thy ===== *)
theory Syncrepl
  imports Syncrepl_Build Peer_Resolve Rid_Segment Ldap_Write
begin

text \<open>
  \<open>reconcileReplication\<close> and \<open>applySyncreplToPod\<close> of \<open>slapddatabase_controller.go\<close>: one pass that
  brings every pod's \<open>olcSyncRepl\<close> to its desired set. The pass reads Secrets (\<open>getSecret\<close>) and
  talks to the pods' servers (\<open>srv\<close>); it returns the source's three results as one outcome, with
  the history of the writes it sent.
\<close>

abbreviation "configAdminDN \<equiv> ''cn=admin,cn=config''"

definition ldapContainerPort :: int32 where
  "ldapContainerPort = 1024"

section \<open>One pod\<close>

definition findDataDBDNOptional :: "ldap_srv \<Rightarrow> history \<Rightarrow> string \<Rightarrow> string \<Rightarrow> message + string" where
  "findDataDBDNOptional srv hist addr suffix =
     (case srv_SearchSuffix srv hist addr suffix of
        Inl err \<Rightarrow> Inl (Msg ''search cn=config for olcSuffix'' [MStr suffix, MMsg err])
      | Inr [] \<Rightarrow> Inr []
      | Inr (dn # _) \<Rightarrow> Inr dn)"

definition findDataDBDN :: "ldap_srv \<Rightarrow> history \<Rightarrow> string \<Rightarrow> string \<Rightarrow> message + string" where
  "findDataDBDN srv hist addr suffix =
     (case findDataDBDNOptional srv hist addr suffix of
        Inl err \<Rightarrow> Inl err
      | Inr dn \<Rightarrow>
          if dn = [] then Inl (Msg ''no database entry with olcSuffix'' [MStr suffix]) else Inr dn)"

definition syncreplChanges ::
  "string list \<Rightarrow> string \<Rightarrow> string list \<Rightarrow> string \<Rightarrow> (mod_op \<times> string \<times> string list) list" where
  "syncreplChanges currentSyncRepl currentMM desired mirrorMode =
     (if \<not> syncreplMatch currentSyncRepl desired then [(OpReplace, ''olcSyncRepl'', desired)] else []) @
     (if mirrorMode \<noteq> [] \<and> \<not> equal_fold currentMM mirrorMode
      then [(OpReplace, ''olcMultiProvider'', [mirrorMode])] else [])"

definition applySyncreplToPod ::
  "ldap_srv \<Rightarrow> history \<Rightarrow> string \<Rightarrow> string \<Rightarrow> string \<Rightarrow> string list \<Rightarrow> string \<Rightarrow> message option \<times> history" where
  "applySyncreplToPod srv hist host configPW suffix desired mirrorMode =
     (let addr = host @ '':'' @ itoa ldapContainerPort in
      case srv_Dial srv hist addr of Some err \<Rightarrow> (Some (Msg ''dial'' [MStr addr, MMsg err]), hist)
      | None \<Rightarrow>
      case srv_Bind srv hist addr configAdminDN configPW of
        Some err \<Rightarrow> (Some (Msg ''bind'' [MStr host, MMsg err]), hist)
      | None \<Rightarrow>
      case findDataDBDN srv hist addr suffix of Inl err \<Rightarrow> (Some err, hist)
      | Inr dataDN \<Rightarrow>
      case srv_Read srv hist addr dataDN of
        Inl err \<Rightarrow> (Some (Msg ''read syncrepl'' [MStr host, MMsg err]), hist)
      | Inr [] \<Rightarrow> (Some (Msg ''no entry'' [MStr dataDN]), hist)
      | Inr (entry # _) \<Rightarrow>
          (let currentSyncRepl = entry ''olcSyncRepl'';
               currentMM = (case entry ''olcMultiProvider'' of [] \<Rightarrow> [] | v # _ \<Rightarrow> v);
               changes = syncreplChanges currentSyncRepl currentMM desired mirrorMode
           in if changes = [] then (None, hist)
              else guardedModify srv hist addr dataDN changes))"

section \<open>Resolving the peers\<close>

text \<open>The body of the loop for one peer: \<open>None\<close> is the early return that withholds the pass.\<close>

definition resolvePeer ::
  "get_secret \<Rightarrow> SlapdCluster \<Rightarrow> SlapdDatabase \<Rightarrow> string \<Rightarrow> Layout \<Rightarrow> int32 \<Rightarrow> ExternalPeer \<Rightarrow>
   (peerResolution \<times> resolvedExternalPeer list) option" where
  "resolvePeer getSecret sc sd replPassword layout segment ep =
     (let outcome = \<lparr>pr_Name = peer_Name ep, pr_Discovery = (peer_Discovery ep \<noteq> None),
            pr_BindPasswordSecret = peer_BindPasswordSecretName ep, pr_SecretErr = None, pr_Addresses = 0\<rparr> in
      case peer_SiteIndex ep of None \<Rightarrow> None
      | Some siteIndex \<Rightarrow>
      case externalStanzaRID layout segment siteIndex of Inl _ \<Rightarrow> None
      | Inr peerRID \<Rightarrow>
      case externalPeerPassword getSecret (sc_Namespace sc) (peer_BindPasswordSecretName ep) of
        Inl err \<Rightarrow> Some (outcome\<lparr>pr_SecretErr := Some err\<rparr>, [])
      | Inr password \<Rightarrow>
          (let podAddrs = providerAddresses (externalPeerProviders sc ep);
               rpp = resolveReplicasPerPeer (repl_ReplicasPerPeer (sc_Replication sc)) (peer_ReplicasPerPeer ep);
               (bindDN, bindPassword) = externalBindIdentity (peer_BindDN ep) (peer_BindPasswordSecretName ep)
                 password (sd_Name sd) replPassword;
               uris = externalPeerURIs ep podAddrs (spec_TLSEnabled (sc_Spec sc));
               rpp = (if podAddrs = [] then 1 else rpp);
               outcome = outcome\<lparr>pr_Addresses := length uris\<rparr>
           in if uris = [] then Some (outcome, [])
              else Some (outcome, [\<lparr>rep_Name = peer_Name ep, rep_RID = peerRID, rep_URIs = uris,
                rep_ReplicasPerPeer = rpp, rep_BindDN = bindDN, rep_Password = bindPassword,
                rep_TLSCACertPath = externalPeerCACertPath ep,
                rep_PlainSyncRepl = (peer_SyncMode ep = ''plain'')\<rparr>])))"

fun resolvePeers ::
  "(ExternalPeer \<Rightarrow> (peerResolution \<times> resolvedExternalPeer list) option) \<Rightarrow> ExternalPeer list \<Rightarrow>
   peerResolution list \<Rightarrow> resolvedExternalPeer list \<Rightarrow>
   (peerResolution list \<times> resolvedExternalPeer list) option" where
  "resolvePeers f [] outcomes peers = Some (outcomes, peers)"
| "resolvePeers f (ep # eps) outcomes peers =
     (case f ep of
        None \<Rightarrow> None
      | Some (outcome, ps) \<Rightarrow> resolvePeers f eps (outcomes @ [outcome]) (peers @ ps))"

section \<open>The pass\<close>

datatype repl_outcome =
    ReplReturn bool "ridSegmentVerdict option"
  | ReplError api_error
  | ReplPanic

datatype pod_step = PodApplied | PodSkipped | PodWithheld | PodPanic

text \<open>A loop over ordinals: a withheld or panicking pod ends the pass, a skipped one is remembered.\<close>

fun podsLoop ::
  "(int32 \<Rightarrow> history \<Rightarrow> pod_step \<times> history) \<Rightarrow> int32 list \<Rightarrow> history \<Rightarrow> bool \<Rightarrow>
   (repl_outcome + bool) \<times> history" where
  "podsLoop step [] hist skipped = (Inr skipped, hist)"
| "podsLoop step (i # rest) hist skipped =
     (case step i hist of
        (PodApplied, h) \<Rightarrow> podsLoop step rest h skipped
      | (PodSkipped, h) \<Rightarrow> podsLoop step rest h True
      | (PodWithheld, h) \<Rightarrow> (Inl (ReplReturn True None), h)
      | (PodPanic, h) \<Rightarrow> (Inl ReplPanic, h))"

definition podStep ::
  "ldap_srv \<Rightarrow> string \<Rightarrow> string \<Rightarrow> string \<Rightarrow> string \<Rightarrow> rid_error + rid_set \<Rightarrow>
   (rid_set \<Rightarrow> build_error + string list) \<Rightarrow> bool \<Rightarrow> history \<Rightarrow> pod_step \<times> history" where
  "podStep srv host configPW suffix mirrorMode rids build healthy hist =
     (if \<not> healthy then (PodSkipped, hist)
      else (case rids of
          Inl _ \<Rightarrow> (PodWithheld, hist)
        | Inr inClusterRIDs \<Rightarrow>
            (case build inClusterRIDs of
               Inl IndexOutOfRange \<Rightarrow> (PodPanic, hist)
             | Inl _ \<Rightarrow> (PodWithheld, hist)
             | Inr desired \<Rightarrow>
                 (case applySyncreplToPod srv hist host configPW suffix desired mirrorMode of
                    (Some _, h) \<Rightarrow> (PodSkipped, h)
                  | (None, h) \<Rightarrow> (PodApplied, h)))))"

definition rwHost :: "SlapdCluster \<Rightarrow> string \<Rightarrow> int32 \<Rightarrow> string" where
  "rwHost sc clusterDomain i =
     sc_Name sc @ ''-'' @ itoa i @ ''.'' @ (sc_Name sc @ ''-headless'') @ ''.'' @ sc_Namespace sc @
       ''.svc.'' @ clusterDomain"

definition roHost :: "SlapdCluster \<Rightarrow> string \<Rightarrow> int32 \<Rightarrow> string" where
  "roHost sc clusterDomain i =
     sc_Name sc @ ''-readonly-'' @ itoa i @ ''.'' @ (sc_Name sc @ ''-readonly-headless'') @ ''.'' @
       sc_Namespace sc @ ''.svc.'' @ clusterDomain"

definition stanzaArgs ::
  "SlapdCluster \<Rightarrow> SlapdDatabase \<Rightarrow> string \<Rightarrow> string \<Rightarrow> rid_set \<Rightarrow> stanza_args" where
  "stanzaArgs sc sd clusterDomain replPassword rids =
     \<lparr>sa_clusterName = sc_Name sc, sa_headlessSvc = sc_Name sc @ ''-headless'',
      sa_namespace = sc_Namespace sc, sa_clusterDomain = clusterDomain,
      sa_suffix = sds_Suffix (sd_Spec sd), sa_dbName = sd_Name sd, sa_replicas = declaredReplicas sc,
      sa_replPassword = replPassword, sa_tlsEnabled = spec_TLSEnabled (sc_Spec sc),
      sa_inClusterRIDs = rids,
      sa_retryInterval = (if repl_Retry (sc_Replication sc) = [] then ''10 +'' else repl_Retry (sc_Replication sc)),
      sa_keepalive = desiredKeepalive sc, sa_deltaSync = DeltaSyncEnabled sd,
      sa_replNetIPs = (case repl_Network (sc_Replication sc) of
          Some n \<Rightarrow> if net_UseForInCluster n then scs_ReplicationNetworkIPs (sc_Status sc) else []
        | None \<Rightarrow> [])\<rparr>"

definition inClusterCount :: "SlapdCluster \<Rightarrow> int32" where
  "inClusterCount sc = (if IsConsumerOnly sc then 0 else declaredReplicas sc)"

definition rwStep ::
  "ldap_srv \<Rightarrow> SlapdCluster \<Rightarrow> SlapdDatabase \<Rightarrow> string \<Rightarrow> string \<Rightarrow> string list \<Rightarrow> Layout \<Rightarrow> int32 \<Rightarrow>
   string \<Rightarrow> resolvedExternalPeer list \<Rightarrow> int32 \<Rightarrow> history \<Rightarrow> pod_step \<times> history" where
  "rwStep srv sc sd clusterDomain configPW healthyPods layout segment replPassword externalPeers i hist =
     podStep srv (rwHost sc clusterDomain i) configPW (sds_Suffix (sd_Spec sd))
       (if IsConsumerOnly sc then ''FALSE'' else ''TRUE'')
       (inClusterStanzaRIDs layout segment (inClusterCount sc) (Some i))
       (\<lambda>rids. buildDatabaseSyncRepl (stanzaArgs sc sd clusterDomain replPassword rids) i
          (ExternalLogBase sd) externalPeers (IsConsumerOnly sc))
       (sc_Name sc @ ''-'' @ itoa i \<in> set healthyPods) hist"

definition roStep ::
  "ldap_srv \<Rightarrow> SlapdCluster \<Rightarrow> SlapdDatabase \<Rightarrow> string \<Rightarrow> string \<Rightarrow> string list \<Rightarrow> Layout \<Rightarrow> int32 \<Rightarrow>
   string \<Rightarrow> int32 \<Rightarrow> history \<Rightarrow> pod_step \<times> history" where
  "roStep srv sc sd clusterDomain configPW healthyPods layout segment replPassword i hist =
     podStep srv (roHost sc clusterDomain i) configPW (sds_Suffix (sd_Spec sd)) []
       (inClusterStanzaRIDs layout segment (inClusterCount sc) None)
       (\<lambda>rids. buildDatabaseSyncReplRO (stanzaArgs sc sd clusterDomain replPassword rids))
       (sc_Name sc @ ''-readonly-'' @ itoa i \<in> set healthyPods) hist"

definition reconcileReplication ::
  "get_secret \<Rightarrow> ldap_srv \<Rightarrow> string \<Rightarrow> SlapdCluster \<Rightarrow> SlapdDatabase \<Rightarrow> string \<Rightarrow> string list \<Rightarrow> Layout \<Rightarrow>
   int32 \<Rightarrow> history \<Rightarrow> repl_outcome \<times> history" where
  "reconcileReplication getSecret srv clusterDomain sc sd configPW healthyPods layout segment hist =
     (let replicas = declaredReplicas sc;
          peers = repl_ExternalPeers (sc_Replication sc) in
      if \<not> repl_Enabled (sc_Replication sc) \<or> (\<not> replicas > 1 \<and> peers = [])
      then (ReplReturn False None, hist)
      else case getDatabaseReplPassword getSecret sd of
        Inl err \<Rightarrow> (ReplError err, hist)
      | Inr replPassword \<Rightarrow>
      case resolvePeers (resolvePeer getSecret sc sd replPassword layout segment) peers [] [] of
        None \<Rightarrow> (ReplReturn True None, hist)
      | Some (outcomes, externalPeers) \<Rightarrow>
          (let v = judgePeerResolutions peers outcomes in
           if \<not> v_OK v then (ReplReturn True (Some v), hist)
           else case podsLoop (rwStep srv sc sd clusterDomain configPW healthyPods layout segment replPassword
                       externalPeers) [0..replicas - 1] hist False of
               (Inl oc, h) \<Rightarrow> (oc, h)
             | (Inr skipped, h) \<Rightarrow>
                 (case podsLoop (roStep srv sc sd clusterDomain configPW healthyPods layout segment replPassword)
                         [0..spec_ReadReplicas (sc_Spec sc) - 1] h skipped of
                    (Inl oc, h') \<Rightarrow> (oc, h')
                  | (Inr skipped', h') \<Rightarrow> (ReplReturn skipped' None, h'))))"

section \<open>What one pod is sent\<close>

definition podAddr :: "string \<Rightarrow> string" where
  "podAddr host = host @ '':'' @ itoa ldapContainerPort"

text \<open>
  A write that only touches the two replication attributes and whose stanza set, if it replaces
  one, carries exactly the given RIDs in order.
\<close>

definition carries :: "int32 list \<Rightarrow> cfg_request \<Rightarrow> bool" where
  "carries rids q \<longleftrightarrow>
     (\<exists>addr dn changes. q = ModifyReq addr dn changes \<and> changes \<noteq> [] \<and>
        (\<forall>(op, attr, vals) \<in> set changes.
           op = OpReplace \<and>
           (attr = ''olcSyncRepl'' \<and> map stanza_rid vals = map fmt03d rids \<or>
            attr = ''olcMultiProvider'' \<and> (vals = [''TRUE''] \<or> vals = [''FALSE'']))))"

lemma syncreplChanges_carries:
  assumes "map stanza_rid desired = map fmt03d rids" and "mm = [] \<or> mm = ''TRUE'' \<or> mm = ''FALSE''"
    and "syncreplChanges cur cm desired mm \<noteq> []"
  shows "carries rids (ModifyReq addr dn (syncreplChanges cur cm desired mm))"
  using assms by (auto simp: carries_def syncreplChanges_def split: if_splits)

lemma guardedModify_hist:
  "snd (guardedModify srv hist addr dn ch) = hist \<or>
   snd (guardedModify srv hist addr dn ch) = hist @ [ModifyReq addr dn ch]"
  by (simp add: guardedModify_def send_def Let_def)

lemma applySyncrepl_hist:
  assumes "map stanza_rid desired = map fmt03d rids" and "mm = [] \<or> mm = ''TRUE'' \<or> mm = ''FALSE''"
  shows "\<exists>new. snd (applySyncreplToPod srv hist host pw suffix desired mm) = hist @ new \<and>
    (\<forall>q \<in> set new. req_Addr q = podAddr host \<and> carries rids q)"
proof -
  let ?ap = "applySyncreplToPod srv hist host pw suffix desired mm"
  have "snd ?ap = hist \<or> (\<exists>dn cur cm. syncreplChanges cur cm desired mm \<noteq> [] \<and>
      snd ?ap = snd (guardedModify srv hist (podAddr host) dn (syncreplChanges cur cm desired mm)))"
    unfolding applySyncreplToPod_def Let_def podAddr_def
    by (auto split: option.splits sum.splits list.splits)
  then show ?thesis
  proof
    assume "\<exists>dn cur cm. syncreplChanges cur cm desired mm \<noteq> [] \<and>
      snd ?ap = snd (guardedModify srv hist (podAddr host) dn (syncreplChanges cur cm desired mm))"
    then obtain dn cur cm where ne: "syncreplChanges cur cm desired mm \<noteq> []"
      and h: "snd ?ap = snd (guardedModify srv hist (podAddr host) dn (syncreplChanges cur cm desired mm))"
      by blast
    let ?q = "ModifyReq (podAddr host) dn (syncreplChanges cur cm desired mm)"
    have "carries rids ?q" by (rule syncreplChanges_carries [OF assms ne])
    moreover have "snd ?ap = hist @ [] \<or> snd ?ap = hist @ [?q]"
      using guardedModify_hist [of srv hist "podAddr host" dn "syncreplChanges cur cm desired mm"] h by simp
    ultimately show ?thesis by (metis cfg_request.sel(1) empty_iff list.set(1) set_ConsD)
  qed (simp add: exI [of _ "[]"])
qed

section \<open>The loop over pods\<close>

text \<open>
  The contract of a pod step: whatever it does, it only appends requests, each allowed for that
  pod. The loop keeps the contract; its two instances are the read-write and the read-only step.
\<close>

locale pod_writer =
  fixes pstep :: "int32 \<Rightarrow> history \<Rightarrow> pod_step \<times> history"
    and allowed :: "int32 \<Rightarrow> cfg_request \<Rightarrow> bool"
  assumes appends: "\<exists>new. snd (pstep i h) = h @ new \<and> (\<forall>q \<in> set new. allowed i q)"
begin

lemma loop_appends:
  "\<exists>new. snd (podsLoop pstep ks h sk) = h @ new \<and> (\<forall>q \<in> set new. \<exists>i \<in> set ks. allowed i q)"
proof (induction ks arbitrary: h sk)
  case (Cons i ks)
  obtain st h1 where step: "pstep i h = (st, h1)" by fastforce
  obtain new1 where h1: "h1 = h @ new1" "\<forall>q \<in> set new1. allowed i q"
    using appends [of i h] step by auto
  obtain new2 new3 where "snd (podsLoop pstep ks h1 sk) = h1 @ new2" "\<forall>q \<in> set new2. \<exists>j \<in> set ks. allowed j q"
    "snd (podsLoop pstep ks h1 True) = h1 @ new3" "\<forall>q \<in> set new3. \<exists>j \<in> set ks. allowed j q"
    using Cons.IH by meson
  with step h1 show ?case by (cases st) (auto intro!: exI [of _ "new1 @ _"])
qed simp

end

lemma loop_completes:
  "(\<And>i h. i \<in> set ks \<Longrightarrow> fst (step i h) = PodApplied) \<Longrightarrow> fst (podsLoop step ks h sk) = Inr sk"
proof (induction ks arbitrary: h)
  case (Cons i ks)
  obtain h1 where "step i h = (PodApplied, h1)" using Cons.prems [of i h] by (cases "step i h") auto
  with Cons show ?case by simp
qed simp

lemma podStep_appends:
  assumes "\<And>rs desired. rids = Inr rs \<Longrightarrow> build rs = Inr desired \<Longrightarrow> map stanza_rid desired = map fmt03d expected"
    and "mm = [] \<or> mm = ''TRUE'' \<or> mm = ''FALSE''"
  shows "\<exists>new. snd (podStep srv host pw suffix mm rids build healthy h) = h @ new \<and>
    (\<forall>q \<in> set new. healthy \<and> req_Addr q = podAddr host \<and> carries expected q)"
proof (cases "healthy \<and> (\<exists>rs desired. rids = Inr rs \<and> build rs = Inr desired)")
  case True
  then obtain rs desired where b: "rids = Inr rs" "build rs = Inr desired" by blast
  have "snd (podStep srv host pw suffix mm rids build healthy h) =
      snd (applySyncreplToPod srv h host pw suffix desired mm)"
    using True b by (auto simp: podStep_def split: prod.splits option.splits)
  with applySyncrepl_hist [OF assms(1) [OF b] assms(2), of srv h host pw suffix] True show ?thesis by auto
next
  case False
  then have "snd (podStep srv host pw suffix mm rids build healthy h) = h"
    by (auto simp: podStep_def split: sum.splits build_error.splits)
  then show ?thesis by simp
qed

section \<open>The RIDs of a pod\<close>

definition localRIDs :: "Layout \<Rightarrow> int32 \<Rightarrow> int32 \<Rightarrow> int32 option \<Rightarrow> int32 list" where
  "localRIDs l segment n self =
     map (\<lambda>k. projr (Local l segment k)) (filter (\<lambda>k. self \<noteq> Some k) [0..n - 1])"

lemma rids_map_of:
  "inClusterStanzaRIDs l s n self = Inr m \<Longrightarrow> 0 \<le> k \<Longrightarrow> k < n \<Longrightarrow> self \<noteq> Some k \<Longrightarrow>
     map_of m k = Some (projr (Local l s k))"
proof -
  assume m: "inClusterStanzaRIDs l s n self = Inr m" and k: "0 \<le> k" "k < n" "self \<noteq> Some k"
  have "m = map (\<lambda>k. (k, projr (Local l s k))) (filter (\<lambda>k. self \<noteq> Some k) [0..n - 1])"
    using m by (auto simp: inClusterStanzaRIDs_def inClusterLoop_Inr split: sum.splits)
  then show ?thesis using k by (simp add: map_of_map_restrict)
qed

lemma inClusterStanzas_rids:
  assumes "inClusterStanzaRIDs l s n self = Inr (sa_inClusterRIDs a)"
    and "inClusterStanzas a self [0..n - 1] [] = Inr st"
  shows "map stanza_rid st = map fmt03d (localRIDs l s n self)"
proof -
  have st: "st = map (\<lambda>i. inClusterStanza a i (the (map_of (sa_inClusterRIDs a) i)))
      (filter (\<lambda>i. self \<noteq> Some i) [0..n - 1])"
    using assms(2) by (simp add: inClusterStanzas_Inr_iff)
  have "map_of (sa_inClusterRIDs a) i = Some (projr (Local l s i))"
    if "i \<in> set (filter (\<lambda>i. self \<noteq> Some i) [0..n - 1])" for i
    using that by (intro rids_map_of [OF assms(1)]) auto
  then show ?thesis unfolding st localRIDs_def by simp
qed

lemma buildRW_rids:
  assumes "inClusterStanzaRIDs l s (if co then 0 else sa_replicas a) (Some i) = Inr (sa_inClusterRIDs a)"
    and "buildDatabaseSyncRepl a i els eps co = Inr st"
  shows "map stanza_rid st =
    map fmt03d (localRIDs l s (if co then 0 else sa_replicas a) (Some i) @ map rep_RID eps)"
proof -
  obtain loc where loc: "inClusterStanzas a (Some i) [0..(if co then 0 else sa_replicas a) - 1] [] = Inr loc"
    and ext: "externalStanzas a i els eps loc = Inr st"
    using assms(2) by (auto simp: buildDatabaseSyncRepl_def Let_def split: sum.splits)
  have e: "\<forall>ep \<in> set eps. \<exists>x. externalStanza a i els ep = Inr x"
    and st: "st = loc @ map (\<lambda>ep. projr (externalStanza a i els ep)) eps"
    using ext by (simp_all add: externalStanzas_Inr_iff)
  have "stanza_rid (projr (externalStanza a i els ep)) = fmt03d (rep_RID ep)" if "ep \<in> set eps" for ep
    using e that stanza_rid_external [of a i els ep] by fastforce
  with inClusterStanzas_rids [OF assms(1) loc] show ?thesis unfolding st by simp
qed

lemma stanzaArgs_sel [simp]:
  "sa_replicas (stanzaArgs sc sd d rp rs) = declaredReplicas sc"
  "sa_inClusterRIDs (stanzaArgs sc sd d rp rs) = rs"
  by (simp_all add: stanzaArgs_def)

definition rwAllowed ::
  "SlapdCluster \<Rightarrow> string \<Rightarrow> string list \<Rightarrow> Layout \<Rightarrow> int32 \<Rightarrow> resolvedExternalPeer list \<Rightarrow> int32 \<Rightarrow> cfg_request \<Rightarrow> bool" where
  "rwAllowed sc domain healthyPods l segment eps i q \<longleftrightarrow>
     sc_Name sc @ ''-'' @ itoa i \<in> set healthyPods \<and> req_Addr q = podAddr (rwHost sc domain i) \<and>
     carries (localRIDs l segment (inClusterCount sc) (Some i) @ map rep_RID eps) q"

definition roAllowed ::
  "SlapdCluster \<Rightarrow> string \<Rightarrow> string list \<Rightarrow> Layout \<Rightarrow> int32 \<Rightarrow> int32 \<Rightarrow> cfg_request \<Rightarrow> bool" where
  "roAllowed sc domain healthyPods l segment i q \<longleftrightarrow>
     sc_Name sc @ ''-readonly-'' @ itoa i \<in> set healthyPods \<and> req_Addr q = podAddr (roHost sc domain i) \<and>
     carries (localRIDs l segment (declaredReplicas sc) None) q"

interpretation rw: pod_writer "rwStep srv sc sd domain pw healthyPods l segment rp eps"
    "rwAllowed sc domain healthyPods l segment eps"
  for srv sc sd domain pw healthyPods l segment rp eps
proof
  fix i h
  let ?a = "\<lambda>rs. stanzaArgs sc sd domain rp rs"
  have "map stanza_rid desired = map fmt03d (localRIDs l segment (inClusterCount sc) (Some i) @ map rep_RID eps)"
    if "inClusterStanzaRIDs l segment (inClusterCount sc) (Some i) = Inr rs"
      "buildDatabaseSyncRepl (?a rs) i (ExternalLogBase sd) eps (IsConsumerOnly sc) = Inr desired" for rs desired
    using buildRW_rids [of l segment "IsConsumerOnly sc" "?a rs" i "ExternalLogBase sd" eps desired] that
    unfolding inClusterCount_def stanzaArgs_sel by blast
  then show "\<exists>new. snd (rwStep srv sc sd domain pw healthyPods l segment rp eps i h) = h @ new \<and>
      (\<forall>q \<in> set new. rwAllowed sc domain healthyPods l segment eps i q)"
    unfolding rwStep_def rwAllowed_def by (rule podStep_appends) auto
qed

interpretation ro: pod_writer "roStep srv sc sd domain pw healthyPods l segment rp"
    "roAllowed sc domain healthyPods l segment"
  for srv sc sd domain pw healthyPods l segment rp
proof
  fix i h
  let ?a = "\<lambda>rs. stanzaArgs sc sd domain rp rs"
  have "map stanza_rid desired = map fmt03d (localRIDs l segment (declaredReplicas sc) None)"
    if rs: "inClusterStanzaRIDs l segment (inClusterCount sc) None = Inr rs"
      and b: "buildDatabaseSyncReplRO (?a rs) = Inr desired" for rs desired
  proof -
    have full: "\<exists>c. map_of rs k = Some c" if "0 \<le> k" "k < declaredReplicas sc" for k
      using b that by (auto simp: buildDatabaseSyncReplRO_def inClusterStanzas_Inr_iff)
    have "map_of rs 0 = None" if "IsConsumerOnly sc"
      using rs that by (auto simp: inClusterCount_def inClusterStanzaRIDs_def split: sum.splits)
    then have "\<not> IsConsumerOnly sc"
      using full [of 0] by (force simp: declaredReplicas_def split: if_splits)
    then show ?thesis
      using inClusterStanzas_rids [of l segment "declaredReplicas sc" None "?a rs" desired] rs b
      by (simp add: inClusterCount_def buildDatabaseSyncReplRO_def)
  qed
  then show "\<exists>new. snd (roStep srv sc sd domain pw healthyPods l segment rp i h) = h @ new \<and>
      (\<forall>q \<in> set new. roAllowed sc domain healthyPods l segment i q)"
    unfolding roStep_def roAllowed_def by (rule podStep_appends) auto
qed

section \<open>The resolved peers\<close>

definition peerRID :: "Layout \<Rightarrow> int32 \<Rightarrow> ExternalPeer \<Rightarrow> int32" where
  "peerRID l segment p = projr (Remote l segment (the (peer_SiteIndex p)))"

text \<open>Everything a stanza for the peer needs could be read and is there.\<close>

definition resolvable :: "get_secret \<Rightarrow> SlapdCluster \<Rightarrow> ExternalPeer \<Rightarrow> bool" where
  "resolvable getSecret sc p \<longleftrightarrow>
     (\<exists>pw. externalPeerPassword getSecret (sc_Namespace sc) (peer_BindPasswordSecretName p) = Inr pw) \<and>
     externalPeerURIs p (providerAddresses (externalPeerProviders sc p)) (spec_TLSEnabled (sc_Spec sc)) \<noteq> []"

lemma resolvePeers_Some_iff:
  "resolvePeers f ps oc rs = Some (oc', rs') \<longleftrightarrow>
     (\<forall>p \<in> set ps. f p \<noteq> None) \<and> oc' = oc @ map (\<lambda>p. fst (the (f p))) ps \<and>
     rs' = rs @ concat (map (\<lambda>p. snd (the (f p))) ps)"
  by (induction ps arbitrary: oc rs) (auto split: option.splits prod.splits)

lemma resolvePeer_Some:
  assumes "resolvePeer gs sc sd rp l segment p = Some (oc, rs)"
  shows "pr_Name oc = peer_Name p \<and>
    (pr_SecretErr oc = None \<and> 0 < pr_Addresses oc \<longleftrightarrow> resolvable gs sc p) \<and>
    (resolvable gs sc p \<longrightarrow> (\<exists>r. rs = [r] \<and> rep_RID r = peerRID l segment p \<and> rep_Name r = peer_Name p \<and>
       rep_URIs r = externalPeerURIs p (providerAddresses (externalPeerProviders sc p)) (spec_TLSEnabled (sc_Spec sc)))) \<and>
    (\<exists>idx. peer_SiteIndex p = Some idx \<and> Remote l segment idx = Inr (peerRID l segment p))"
  using assms
  by (auto simp: resolvePeer_def resolvable_def peerRID_def externalStanzaRID_def Let_def split_beta
      split: option.splits sum.splits if_splits)

lemma outcomesByName_first:
  assumes "\<forall>p \<in> set ps. pr_Name (g p) = peer_Name p" and "outcomesByName (map g ps) n = Some oc"
  shows "\<exists>p \<in> set ps. peer_Name p = n \<and> oc = g p"
  using assms by (induction ps) (auto simp: outcomesByName_def split: if_splits)

lemma outcomesByName_peers:
  assumes "distinct (map peer_Name ps)" and "\<forall>p \<in> set ps. pr_Name (g p) = peer_Name p" and "p \<in> set ps"
  shows "outcomesByName (map g ps) (peer_Name p) = Some (g p)"
  using assms by (induction ps) (auto simp: outcomesByName_def image_iff)

text \<open>A peer that does not resolve contributes no link; the others contribute one each.\<close>

lemma resolvePeer_links:
  assumes "resolvePeer gs sc sd rp l segment p = Some (oc, rs)"
  shows "map rep_RID rs = (if resolvable gs sc p then [peerRID l segment p] else [])"
proof (cases "resolvable gs sc p")
  case True
  then show ?thesis using resolvePeer_Some [OF assms] by auto
next
  case False
  then have "rs = []" using assms
    by (auto simp: resolvePeer_def resolvable_def Let_def split_beta split: option.splits sum.splits if_splits)
  then show ?thesis using False by simp
qed

lemma resolved_pass:
  assumes res: "resolvePeers (resolvePeer gs sc sd rp l segment) ps [] [] = Some (ocs, eps)"
    and ok: "v_OK (judgePeerResolutions ps ocs)"
  shows "map rep_RID eps = map (peerRID l segment) (filter (resolvable gs sc) ps) \<and>
    (\<forall>p \<in> set ps. \<exists>q \<in> set (filter (resolvable gs sc) ps). peer_Name q = peer_Name p)"
proof -
  let ?f = "resolvePeer gs sc sd rp l segment"
  have some: "\<forall>p \<in> set ps. ?f p \<noteq> None" and ocs: "ocs = map (\<lambda>p. fst (the (?f p))) ps"
    and eps: "eps = concat (map (\<lambda>p. snd (the (?f p))) ps)"
    using res by (simp_all add: resolvePeers_Some_iff)
  have one: "?f p = Some (fst (the (?f p)), snd (the (?f p)))" if "p \<in> set ps" for p
    using some that by force
  note facts = resolvePeer_Some [OF one]
  have "\<exists>q \<in> set (filter (resolvable gs sc) ps). peer_Name q = peer_Name p" if "p \<in> set ps" for p
  proof -
    have "resolved ocs p" using ok that by (simp only: judgePeerResolutions_OK_iff)
    then obtain oc where oc: "outcomesByName ocs (peer_Name p) = Some oc" "pr_SecretErr oc = None" "0 < pr_Addresses oc"
      unfolding resolved_def by (elim exE conjE)
    then obtain q where q: "q \<in> set ps" "peer_Name q = peer_Name p" "oc = fst (the (?f q))"
      unfolding ocs using outcomesByName_first [of ps "\<lambda>p. fst (the (?f p))"] facts by blast
    then have "resolvable gs sc q" using facts [OF q(1)] oc(2,3) by simp
    then show ?thesis using q by auto
  qed
  moreover have "concat (map (\<lambda>p. map rep_RID (snd (the (?f p)))) qs) = map (peerRID l segment) (filter (resolvable gs sc) qs)"
    if "set qs \<subseteq> set ps" for qs
    using that resolvePeer_links [OF one] by (induction qs) auto
  then have "map rep_RID eps = map (peerRID l segment) (filter (resolvable gs sc) ps)" by (simp add: eps map_concat comp_def)
  ultimately show ?thesis by blast
qed

section \<open>The whole pass\<close>

definition podRIDs :: "Layout \<Rightarrow> int32 \<Rightarrow> SlapdCluster \<Rightarrow> int32 \<Rightarrow> int32 list" where
  "podRIDs l segment sc i =
     localRIDs l segment (inClusterCount sc) (Some i) @
     map (peerRID l segment) (repl_ExternalPeers (sc_Replication sc))"

definition readOnlyRIDs :: "Layout \<Rightarrow> int32 \<Rightarrow> SlapdCluster \<Rightarrow> int32 list" where
  "readOnlyRIDs l segment sc = localRIDs l segment (declaredReplicas sc) None"

text \<open>
  What a pass may send: to a read-write pod whose database reconcile completed, a set with one stanza for every other replica and for
  every one of \<open>peers\<close>; to a read-only one, one stanza for every replica.
\<close>

definition passWrites :: "SlapdCluster \<Rightarrow> ExternalPeer list \<Rightarrow> string \<Rightarrow> string list \<Rightarrow> Layout \<Rightarrow> int32 \<Rightarrow> cfg_request \<Rightarrow> bool" where
  "passWrites sc peers domain healthyPods l segment q \<longleftrightarrow>
     (\<exists>i. 0 \<le> i \<and> i < declaredReplicas sc \<and> sc_Name sc @ ''-'' @ itoa i \<in> set healthyPods \<and>
        req_Addr q = podAddr (rwHost sc domain i) \<and> carries (localRIDs l segment (inClusterCount sc) (Some i) @ map (peerRID l segment) peers) q) \<or>
     (\<exists>i. 0 \<le> i \<and> i < spec_ReadReplicas (sc_Spec sc) \<and> sc_Name sc @ ''-readonly-'' @ itoa i \<in> set healthyPods \<and>
        req_Addr q = podAddr (roHost sc domain i) \<and> carries (readOnlyRIDs l segment sc) q)"

lemma pass_loops:
  assumes eps: "map rep_RID eps = map (peerRID l segment) peers"
  shows "\<exists>new. snd (podsLoop (rwStep srv sc sd domain pw healthyPods l segment rp eps) [0..declaredReplicas sc - 1] h sk)
      = h @ new \<and> (\<forall>q \<in> set new. passWrites sc peers domain healthyPods l segment q)"
    and "\<exists>new. snd (podsLoop (roStep srv sc sd domain pw healthyPods l segment rp) [0..spec_ReadReplicas (sc_Spec sc) - 1] h sk)
      = h @ new \<and> (\<forall>q \<in> set new. passWrites sc peers domain healthyPods l segment q)"
proof -
  obtain new where "snd (podsLoop (rwStep srv sc sd domain pw healthyPods l segment rp eps) [0..declaredReplicas sc - 1] h sk)
      = h @ new" and n: "\<forall>q \<in> set new. \<exists>i \<in> set [0..declaredReplicas sc - 1]. rwAllowed sc domain healthyPods l segment eps i q"
    using rw.loop_appends by blast
  moreover from n have "\<forall>q \<in> set new. passWrites sc peers domain healthyPods l segment q"
    by (fastforce simp: passWrites_def rwAllowed_def eps)
  ultimately show "\<exists>new. snd (podsLoop (rwStep srv sc sd domain pw healthyPods l segment rp eps) [0..declaredReplicas sc - 1] h sk)
      = h @ new \<and> (\<forall>q \<in> set new. passWrites sc peers domain healthyPods l segment q)" by blast
next
  obtain new where "snd (podsLoop (roStep srv sc sd domain pw healthyPods l segment rp) [0..spec_ReadReplicas (sc_Spec sc) - 1] h sk)
      = h @ new" and n: "\<forall>q \<in> set new. \<exists>i \<in> set [0..spec_ReadReplicas (sc_Spec sc) - 1]. roAllowed sc domain healthyPods l segment i q"
    using ro.loop_appends by blast
  moreover from n have "\<forall>q \<in> set new. passWrites sc peers domain healthyPods l segment q"
    by (fastforce simp: passWrites_def roAllowed_def readOnlyRIDs_def)
  ultimately show "\<exists>new. snd (podsLoop (roStep srv sc sd domain pw healthyPods l segment rp) [0..spec_ReadReplicas (sc_Spec sc) - 1] h sk)
      = h @ new \<and> (\<forall>q \<in> set new. passWrites sc peers domain healthyPods l segment q)" by blast
qed

lemma reconcileReplication_ready:
  assumes "repl_Enabled (sc_Replication sc)"
    and "\<not> (\<not> declaredReplicas sc > 1 \<and> repl_ExternalPeers (sc_Replication sc) = [])"
    and rp: "getDatabaseReplPassword gs sd = Inr rp"
    and r: "resolvePeers (resolvePeer gs sc sd rp l segment) (repl_ExternalPeers (sc_Replication sc)) [] [] = Some (ocs, eps)"
    and "v_OK (judgePeerResolutions (repl_ExternalPeers (sc_Replication sc)) ocs)"
  shows "reconcileReplication gs srv domain sc sd pw healthyPods l segment h =
    (case podsLoop (rwStep srv sc sd domain pw healthyPods l segment rp eps) [0..declaredReplicas sc - 1] h False of
       (Inl oc, h1) \<Rightarrow> (oc, h1)
     | (Inr sk, h1) \<Rightarrow>
         (case podsLoop (roStep srv sc sd domain pw healthyPods l segment rp) [0..spec_ReadReplicas (sc_Spec sc) - 1] h1 sk of
            (Inl oc, h2) \<Rightarrow> (oc, h2)
          | (Inr sk', h2) \<Rightarrow> (ReplReturn sk' None, h2)))"
  using assms(1,2,5)
  unfolding reconcileReplication_def Let_def rp sum.case r option.case prod.case by (simp only: simp_thms if_False)

lemma reconcileReplication_hist:
  fixes gs sc defines "linked \<equiv> filter (resolvable gs sc) (repl_ExternalPeers (sc_Replication sc))"
  shows "\<exists>new. snd (reconcileReplication gs srv domain sc sd pw healthyPods l segment h) = h @ new \<and>
    (\<forall>q \<in> set new. passWrites sc linked domain healthyPods l segment q) \<and>
    (new \<noteq> [] \<longrightarrow> repl_Enabled (sc_Replication sc) \<and>
       (\<forall>p \<in> set (repl_ExternalPeers (sc_Replication sc)). \<exists>q \<in> set linked. peer_Name q = peer_Name p))"
proof -
  let ?ps = "repl_ExternalPeers (sc_Replication sc)"
  let ?R = "reconcileReplication gs srv domain sc sd pw healthyPods l segment h"
  show ?thesis
  proof (cases "\<exists>rp ocs eps. repl_Enabled (sc_Replication sc) \<and> \<not> (\<not> declaredReplicas sc > 1 \<and> ?ps = []) \<and>
      getDatabaseReplPassword gs sd = Inr rp \<and>
      resolvePeers (resolvePeer gs sc sd rp l segment) ?ps [] [] = Some (ocs, eps) \<and>
      v_OK (judgePeerResolutions ?ps ocs)")
    case False
    then have "snd ?R = h"
      unfolding reconcileReplication_def Let_def by (auto split: sum.splits option.splits)
    then show ?thesis by simp
  next
    case True
    then obtain rp ocs eps where en: "repl_Enabled (sc_Replication sc)" "\<not> (\<not> declaredReplicas sc > 1 \<and> ?ps = [])"
      and rp: "getDatabaseReplPassword gs sd = Inr rp"
      and r: "resolvePeers (resolvePeer gs sc sd rp l segment) ?ps [] [] = Some (ocs, eps)"
      and ok: "v_OK (judgePeerResolutions ?ps ocs)" by blast
    note res = resolved_pass [OF r ok, folded linked_def]
    let ?L1 = "podsLoop (rwStep srv sc sd domain pw healthyPods l segment rp eps) [0..declaredReplicas sc - 1] h False"
    let ?L2 = "\<lambda>h1 sk. podsLoop (roStep srv sc sd domain pw healthyPods l segment rp) [0..spec_ReadReplicas (sc_Spec sc) - 1] h1 sk"
    have R: "snd ?R = (case ?L1 of (Inl oc, h1) \<Rightarrow> h1 | (Inr sk, h1) \<Rightarrow> snd (?L2 h1 sk))"
      unfolding reconcileReplication_ready [OF en rp r ok] by (auto split: prod.splits sum.splits)
    obtain res1 h1 where L1: "?L1 = (res1, h1)" by fastforce
    then obtain n1 where n1: "h1 = h @ n1" "\<forall>q \<in> set n1. passWrites sc linked domain healthyPods l segment q"
      using pass_loops(1) [of eps l segment linked srv sc sd domain pw healthyPods rp h False] res by auto
    have "\<exists>n2. snd ?R = h1 @ n2 \<and> (\<forall>q \<in> set n2. passWrites sc linked domain healthyPods l segment q)"
    proof (cases res1)
      case (Inr sk)
      then show ?thesis
        unfolding R L1 using pass_loops(2) [of eps l segment linked srv sc sd domain pw healthyPods rp h1 sk] res by simp
    qed (simp add: R L1)
    then obtain n2 where "snd ?R = h @ n1 @ n2" "\<forall>q \<in> set (n1 @ n2). passWrites sc linked domain healthyPods l segment q"
      using n1 by auto
    with en res show ?thesis by blast
  qed
qed

section \<open>Properties\<close>

text \<open>
  C1. Which stanza sets are written: whatever the servers answer and wherever the pass stops, every request it sends goes to a pod whose
  database reconcile completed, and a request that replaces olcSyncRepl carries exactly one stanza for every other replica of the
  cluster and one for every external peer that resolved - its Secret readable, its addresses known; for a read-only pod one for every
  replica. And nothing is sent at all unless every declared peer name has a peer that resolved: with distinct names, unless every peer
  did, so that no declared link is missing. Names are not checked anywhere: two peers may share one, and then the set can be short.
\<close>

theorem no_short_stanza_set:
  assumes "snd (reconcileReplication gs srv domain sc sd pw healthyPods l segment h) \<noteq> h"
  shows "let peers = repl_ExternalPeers (sc_Replication sc); linked = filter (resolvable gs sc) peers in
    (\<forall>p \<in> set peers. \<exists>q \<in> set linked. peer_Name q = peer_Name p) \<and>
    (distinct (map peer_Name peers) \<longrightarrow> linked = peers) \<and>
    (\<exists>new. snd (reconcileReplication gs srv domain sc sd pw healthyPods l segment h) = h @ new \<and>
      (\<forall>q \<in> set new. passWrites sc linked domain healthyPods l segment q))"
proof -
  let ?peers = "repl_ExternalPeers (sc_Replication sc)"
  let ?linked = "filter (resolvable gs sc) ?peers"
  obtain new where new: "snd (reconcileReplication gs srv domain sc sd pw healthyPods l segment h) = h @ new"
    "\<forall>q \<in> set new. passWrites sc ?linked domain healthyPods l segment q"
    and named: "\<forall>p \<in> set ?peers. \<exists>q \<in> set ?linked. peer_Name q = peer_Name p"
    using reconcileReplication_hist [of gs srv domain sc sd pw healthyPods l segment h] assms by auto
  have "?linked = ?peers" if "distinct (map peer_Name ?peers)"
  proof -
    have "resolvable gs sc p" if "p \<in> set ?peers" for p
      using named that \<open>distinct (map peer_Name ?peers)\<close> by (auto simp: distinct_map dest: inj_onD)
    then show ?thesis by (simp add: filter_id_conv)
  qed
  then show ?thesis using new named unfolding Let_def by blast
qed

definition accepting_srv :: ldap_srv where
  "accepting_srv = \<lparr>srv_Dial = (\<lambda>_ _. None), srv_Bind = (\<lambda>_ _ _ _. None),
     srv_SearchSuffix = (\<lambda>_ _ _. Inr [''olcDatabase={1}mdb,cn=config'']),
     srv_Read = (\<lambda>_ _ _. Inr [\<lambda>_. []]), srv_Write = (\<lambda>_ _. None)\<rparr>"

definition example_cluster :: "int32 \<Rightarrow> ExternalPeer list \<Rightarrow> SlapdCluster" where
  "example_cluster replicas peers = base_cluster\<lparr>sc_Spec := (sc_Spec base_cluster)
     \<lparr>spec_Replicas := replicas, spec_Replication := base_repl\<lparr>repl_ExternalPeers := peers\<rparr>\<rparr>\<rparr>"

definition example_pass :: "get_secret \<Rightarrow> SlapdCluster \<Rightarrow> string list \<Rightarrow> repl_outcome \<times> history" where
  "example_pass gs sc healthyPods =
     reconcileReplication gs accepting_srv ''cluster.local'' sc (base_database ''a'' (Some 0)) ''pw'' healthyPods
       DefaultLayout 0 []"

text \<open>The attributes of each request sent, a stanza set as the RIDs it carries.\<close>

definition sent_rids :: "history \<Rightarrow> (string \<times> string list) list list" where
  "sent_rids hist =
     map (\<lambda>q. map (\<lambda>(op, attr, vals). (attr, if attr = ''olcSyncRepl'' then map stanza_rid vals else vals))
       (req_Changes q)) hist"

text \<open>Two replicas, a peer that resolves, and a second peer of another name.\<close>

definition linked_cluster :: "SlapdCluster" where
  "linked_cluster = example_cluster 2
     [(base_peer ''p'' (Some 1))\<lparr>peer_URI := ''ldaps://x:1''\<rparr>, (base_peer ''q'' (Some 2))\<lparr>peer_URI := ''ldaps://y:1''\<rparr>]"

theorem no_short_stanza_set_witness:
  "let sc = linked_cluster; peers = repl_ExternalPeers (sc_Replication sc); pass = example_pass (\<lambda>_ _. Inr []) sc [''slapd-0'', ''slapd-1''] in
   sent_rids (snd pass) =
     [[(''olcSyncRepl'', [''002'', ''010'', ''011'']), (''olcMultiProvider'', [''TRUE''])],
      [(''olcSyncRepl'', [''001'', ''010'', ''011'']), (''olcMultiProvider'', [''TRUE''])]] \<and>
   length peers = 2 \<and> filter (resolvable (\<lambda>_ _. Inr []) sc) peers = peers \<and>
   (\<exists>new. snd pass = new \<and> (\<forall>q \<in> set new. passWrites sc peers ''cluster.local'' [''slapd-0'', ''slapd-1''] DefaultLayout 0 q))"
proof -
  let ?pass = "example_pass (\<lambda>_ _. Inr []) linked_cluster [''slapd-0'', ''slapd-1'']"
  have d: "distinct (map peer_Name (repl_ExternalPeers (sc_Replication linked_cluster)))"
    "length (repl_ExternalPeers (sc_Replication linked_cluster)) = 2"
    by (simp_all add: linked_cluster_def example_cluster_def base_peer_def)
  have e: "sent_rids (snd ?pass) =
     [[(''olcSyncRepl'', [''002'', ''010'', ''011'']), (''olcMultiProvider'', [''TRUE''])],
      [(''olcSyncRepl'', [''001'', ''010'', ''011'']), (''olcMultiProvider'', [''TRUE''])]]"
    by code_simp
  then have "snd ?pass \<noteq> []" by (auto simp: sent_rids_def)
  then have ne: "snd (reconcileReplication (\<lambda>_ _. Inr []) accepting_srv ''cluster.local'' linked_cluster
      (base_database ''a'' (Some 0)) ''pw'' [''slapd-0'', ''slapd-1''] DefaultLayout 0 []) \<noteq> []"
    unfolding example_pass_def .
  show ?thesis
    using no_short_stanza_set [OF ne] d e unfolding example_pass_def Let_def by (simp only: simp_thms append_Nil) metis
qed

text \<open>
  The short set: of two peers with one name only the first one's outcome is ever judged, so its success accepts the pass whatever
  became of the second; and in such a pass, where the second one's Secret cannot be read, the pod is
  sent a stanza set without the second peer's link.
\<close>

theorem shared_peer_name_short_set:
  "v_OK (judgePeerResolutions
     [base_peer name i, base_peer name j]
     [\<lparr>pr_Name = name, pr_Discovery = d, pr_BindPasswordSecret = s, pr_SecretErr = None, pr_Addresses = Suc n\<rparr>,
      \<lparr>pr_Name = name, pr_Discovery = d', pr_BindPasswordSecret = s', pr_SecretErr = err, pr_Addresses = m\<rparr>]) \<and>
   sent_rids (snd (example_pass (\<lambda>_ n. if n = ''s'' then Inl ApiNotFound else Inr [])
     (example_cluster 1
        [(base_peer ''p'' (Some 1))\<lparr>peer_URI := ''ldaps://x:1''\<rparr>,
         (base_peer ''p'' (Some 2))\<lparr>peer_URI := ''ldaps://y:1'', peer_BindPasswordSecretName := ''s''\<rparr>])
     [''slapd-0''])) =
   [[(''olcSyncRepl'', [''010'']), (''olcMultiProvider'', [''TRUE''])]]"
proof
  show "sent_rids (snd (example_pass (\<lambda>_ n. if n = ''s'' then Inl ApiNotFound else Inr [])
     (example_cluster 1
        [(base_peer ''p'' (Some 1))\<lparr>peer_URI := ''ldaps://x:1''\<rparr>,
         (base_peer ''p'' (Some 2))\<lparr>peer_URI := ''ldaps://y:1'', peer_BindPasswordSecretName := ''s''\<rparr>])
     [''slapd-0''])) =
   [[(''olcSyncRepl'', [''010'']), (''olcMultiProvider'', [''TRUE''])]]"
    by code_simp
qed (simp add: judgePeerResolutions_OK_iff resolved_def outcomesByName_def base_peer_def)

section \<open>Progress\<close>

definition accepting :: "ldap_srv \<Rightarrow> bool" where
  "accepting srv \<longleftrightarrow>
     (\<forall>h a. srv_Dial srv h a = None) \<and> (\<forall>h a d w. srv_Bind srv h a d w = None) \<and>
     (\<forall>h a x. \<exists>dn rest. srv_SearchSuffix srv h a x = Inr (dn # rest) \<and> dn \<noteq> []) \<and>
     (\<forall>h a d. \<exists>e rest. srv_Read srv h a d = Inr (e # rest)) \<and> (\<forall>h q. srv_Write srv h q = None)"

lemma changes_not_denied: "startupOnlyAttrViolation (map (\<lambda>(op, attr, vals). attr) (syncreplChanges c m d mm)) = []"
proof -
  have "\<not> denied ''olcSyncRepl''" "\<not> denied ''olcMultiProvider''" by code_simp+
  then show ?thesis unfolding violation_Nil_iff by (auto simp: syncreplChanges_def)
qed

lemma apply_accepted:
  assumes "accepting srv" shows "fst (applySyncreplToPod srv h host pw suffix desired mm) = None"
proof -
  let ?addr = "host @ '':'' @ itoa ldapContainerPort"
  obtain dn rest e rest' where f: "srv_SearchSuffix srv h ?addr suffix = Inr (dn # rest)" "dn \<noteq> []"
    and e: "srv_Read srv h ?addr dn = Inr (e # rest')"
    using assms unfolding accepting_def by meson
  then have "findDataDBDN srv h ?addr suffix = Inr dn"
    by (simp add: findDataDBDN_def findDataDBDNOptional_def)
  with e assms show ?thesis
    by (simp add: applySyncreplToPod_def accepting_def guardedModify_def changes_not_denied send_def Let_def)
qed

lemma podStep_applied:
  assumes "accepting srv" and "rids = Inr rs" and "build rs = Inr desired"
  shows "fst (podStep srv host pw suffix mm rids build True h) = PodApplied"
  using apply_accepted [OF assms(1), of h host pw suffix desired mm] assms(2,3)
  by (cases "applySyncreplToPod srv h host pw suffix desired mm") (simp add: podStep_def)

lemma inCluster_total:
  assumes "checkSegment l s = None" and "n \<le> PodsPerSite l"
  shows "\<exists>m. inClusterStanzaRIDs l s n self = Inr m \<and>
    (\<forall>k. 0 \<le> k \<and> k < n \<and> self \<noteq> Some k \<longrightarrow> map_of m k \<noteq> None)"
proof -
  obtain m where m: "inClusterStanzaRIDs l s n self = Inr m"
    using assms by (simp add: inClusterStanzaRIDs_Inr)
  with rids_map_of [OF m] show ?thesis by blast
qed

lemma rwStep_applied:
  assumes "accepting srv" and "checkSegment l s = None" and "inClusterCount sc \<le> PodsPerSite l"
    and "sc_Name sc @ ''-'' @ itoa i \<in> set healthyPods" and "0 \<le> i"
    and "\<forall>ep \<in> set eps. rep_URIs ep \<noteq> [] \<and> length (rep_URIs ep) < 2 ^ 31"
  shows "fst (rwStep srv sc sd domain pw healthyPods l s rp eps i h) = PodApplied"
proof -
  obtain m where m: "inClusterStanzaRIDs l s (inClusterCount sc) (Some i) = Inr m"
    and full: "\<forall>k. 0 \<le> k \<and> k < inClusterCount sc \<and> Some i \<noteq> Some k \<longrightarrow> map_of m k \<noteq> None"
    using inCluster_total [OF assms(2,3), of "Some i"] by blast
  let ?a = "stanzaArgs sc sd domain rp m"
  have "\<exists>loc. inClusterStanzas ?a (Some i) [0..inClusterCount sc - 1] [] = Inr loc"
    using full by (auto simp: inClusterStanzas_Inr_iff)
  moreover have "\<exists>st. externalStanzas ?a i (ExternalLogBase sd) eps loc = Inr st" for loc
    using assms(5,6) by (auto simp: externalStanzas_Inr_iff externalStanza_Inr_iff)
  ultimately obtain desired where "buildDatabaseSyncRepl ?a i (ExternalLogBase sd) eps (IsConsumerOnly sc) = Inr desired"
    by (auto simp: buildDatabaseSyncRepl_def inClusterCount_def Let_def split: sum.splits) fastforce+
  with m assms(1,4) show ?thesis unfolding rwStep_def by (simp add: podStep_applied)
qed

lemma roStep_applied:
  assumes "accepting srv" and "checkSegment l s = None" and "declaredReplicas sc \<le> PodsPerSite l"
    and "sc_Name sc @ ''-readonly-'' @ itoa i \<in> set healthyPods" and "\<not> IsConsumerOnly sc"
  shows "fst (roStep srv sc sd domain pw healthyPods l s rp i h) = PodApplied"
proof -
  have n: "inClusterCount sc = declaredReplicas sc" using assms(5) by (simp add: inClusterCount_def)
  obtain m where m: "inClusterStanzaRIDs l s (declaredReplicas sc) None = Inr m"
    and full: "\<forall>k. 0 \<le> k \<and> k < declaredReplicas sc \<and> None \<noteq> Some k \<longrightarrow> map_of m k \<noteq> None"
    using inCluster_total [OF assms(2,3), of None] by blast
  have "\<exists>desired. buildDatabaseSyncReplRO (stanzaArgs sc sd domain rp m) = Inr desired"
    using full by (auto simp: buildDatabaseSyncReplRO_def inClusterStanzas_Inr_iff)
  with m n assms(1,4) show ?thesis unfolding roStep_def by (auto simp: podStep_applied)
qed

end
