(* ===== verification/Mesh_Derive.thy ===== *)
theory Mesh_Derive
  imports Rid_Stanza
begin

text \<open>
  \<open>mesh_derive.go\<close>: what a site derives from the shared list of mesh sites - its position, the
  base of its serverID range and its external peers. All functions are pure. An error value is the
  source's sentinel with the values its message names; \<open>SelectorError\<close> is the wrapping
  \<open>fmt.Errorf("site selector: %w", err)\<close>.
\<close>

datatype mesh_sites_fault =
    NoSites
  | EmptySiteName int
  | SiteDeclaredTwice string
  | NoServerIDIndex string
  | NegativeServerIDIndex string int32
  | SharedServerIDIndex string string int32

datatype mesh_error =
    ErrSiteUnknown string
  | ErrSiteNotSelected string "string list"
  | ErrSiteIdentity
  | ErrMeshSites mesh_sites_fault
  | ErrServerIDCeiling string int32
  | ErrSiteIndexPastLayout string int32 int32
  | ErrPodsPerSitePastStride int32
  | SelectorError mesh_error

definition serverIDStride :: int32 where
  "serverIDStride = 16"

definition maxSiteIndex :: int32 where
  "maxSiteIndex = 4094 div serverIDStride"

definition maxPodsPerSite :: int32 where
  "maxPodsPerSite = serverIDStride - 1"

definition externalPeerLDAPSPort :: int32 where
  "externalPeerLDAPSPort = 1025"

section \<open>The position of a site\<close>

fun meshSiteLoop ::
  "string \<Rightarrow> MeshSite list \<Rightarrow> int \<Rightarrow> string list \<Rightarrow> (int32 \<times> string) list \<Rightarrow> int \<Rightarrow> mesh_error + int" where
  "meshSiteLoop want [] i seen seenIdx idx = Inr idx"
| "meshSiteLoop want (s # sites) i seen seenIdx idx =
     (let n = normalizeSiteName (site_Name s) in
      if n = [] then Inl (ErrMeshSites (EmptySiteName i))
      else if n \<in> set seen then Inl (ErrMeshSites (SiteDeclaredTwice n))
      else (case site_ServerIDIndex s of
          None \<Rightarrow> Inl (ErrMeshSites (NoServerIDIndex n))
        | Some si \<Rightarrow>
            if si < 0 then Inl (ErrMeshSites (NegativeServerIDIndex n si))
            else (case map_of seenIdx si of
                Some other \<Rightarrow> Inl (ErrMeshSites (SharedServerIDIndex other n si))
              | None \<Rightarrow> meshSiteLoop want sites (i + 1) (n # seen) ((si, n) # seenIdx)
                  (if n = want \<and> idx < 0 then i else idx))))"

definition meshSiteIndex :: "MeshSite list \<Rightarrow> string \<Rightarrow> mesh_error + int" where
  "meshSiteIndex sites name =
     (if sites = [] then Inl (ErrMeshSites NoSites)
      else let want = normalizeSiteName name in
        (case meshSiteLoop want sites 0 [] [] (- 1) of
           Inl err \<Rightarrow> Inl err
         | Inr idx \<Rightarrow>
             if want = [] then Inl ErrSiteIdentity
             else if idx < 0 then Inl (ErrSiteUnknown want)
             else Inr idx))"

definition validateSelfSite :: "MeshSite list \<Rightarrow> string \<Rightarrow> mesh_error option" where
  "validateSelfSite sites identity =
     (case meshSiteIndex sites identity of Inl err \<Rightarrow> Some err | Inr _ \<Rightarrow> None)"

section \<open>ServerIDs and layout checks\<close>

text \<open>\<open>meshSiteIndex\<close> has refused a list with a missing index, so the dereference is safe.\<close>

definition serverIDBaseForSite :: "MeshSite list \<Rightarrow> string \<Rightarrow> mesh_error + int32" where
  "serverIDBaseForSite sites identity =
     (case meshSiteIndex sites identity of
        Inl err \<Rightarrow> Inl err
      | Inr pos \<Rightarrow>
          (let idx = the (site_ServerIDIndex (sites ! nat pos)) in
           if idx > maxSiteIndex then Inl (ErrServerIDCeiling (normalizeSiteName identity) idx)
           else Inr (i32_mul idx serverIDStride)))"

fun validateSiteIndicesAgainstLayout :: "MeshSite list \<Rightarrow> Layout \<Rightarrow> mesh_error option" where
  "validateSiteIndicesAgainstLayout [] layout = None"
| "validateSiteIndicesAgainstLayout (s # sites) layout =
     (case site_ServerIDIndex s of
        None \<Rightarrow> validateSiteIndicesAgainstLayout sites layout
      | Some idx \<Rightarrow>
          if idx > maxSiteIndex then Some (ErrServerIDCeiling (normalizeSiteName (site_Name s)) idx)
          else if idx \<ge> MaxSites layout
          then Some (ErrSiteIndexPastLayout (normalizeSiteName (site_Name s)) idx (MaxSites layout))
          else validateSiteIndicesAgainstLayout sites layout)"

definition meshRIDLayout :: "SlapdMeshSpec \<Rightarrow> Layout" where
  "meshRIDLayout mesh =
     (let layout = DefaultLayout in
      case mesh_RIDLayout mesh of
        None \<Rightarrow> layout
      | Some rl \<Rightarrow>
          (let layout = (if rl_PodsPerSite rl \<noteq> 0
                 then layout\<lparr>PodsPerSite := rl_PodsPerSite rl\<rparr> else layout)
           in if rl_MaxSites rl \<noteq> 0 then layout\<lparr>MaxSites := rl_MaxSites rl\<rparr> else layout))"

definition validateLayoutAgainstServerIDStride :: "Layout \<Rightarrow> mesh_error option" where
  "validateLayoutAgainstServerIDStride layout =
     (if PodsPerSite layout > maxPodsPerSite then Some (ErrPodsPerSitePastStride (PodsPerSite layout))
      else None)"

section \<open>The peers of a site\<close>

fun selectLoop :: "MeshSite list \<Rightarrow> string list \<Rightarrow> int list \<Rightarrow> mesh_error + int list" where
  "selectLoop sites [] selected = Inr selected"
| "selectLoop sites (name # names) selected =
     (case meshSiteIndex sites name of
        Inl err \<Rightarrow> Inl (SelectorError err)
      | Inr idx \<Rightarrow> selectLoop sites names (idx # selected))"

definition derivedPeer :: "int32 option \<Rightarrow> MeshSite \<Rightarrow> ExternalPeer" where
  "derivedPeer replicasPerPeer s =
     \<lparr>peer_Name = normalizeSiteName (site_Name s), peer_SiteIndex = site_ServerIDIndex s,
      peer_URI = [], peer_PodAddresses = [],
      peer_Discovery = Some \<lparr>disc_KubeconfigSecret = KubeconfigSecretFor s,
        disc_Namespace = [], disc_ClusterName = []\<rparr>,
      peer_ReplicasPerPeer = replicasPerPeer, peer_Port = externalPeerLDAPSPort,
      peer_TLSSecretName = CASecretNameFor s, peer_BindDN = [], peer_BindPasswordSecretName = [],
      peer_SyncMode = []\<rparr>"

text \<open>The loop over the sites; \<open>selected = None\<close> is the source's nil map, every site.\<close>

fun peersLoop ::
  "int32 option \<Rightarrow> int \<Rightarrow> int list option \<Rightarrow> MeshSite list \<Rightarrow> int \<Rightarrow> ExternalPeer list \<Rightarrow> ExternalPeer list" where
  "peersLoop rpp selfIdx selected [] i peers = peers"
| "peersLoop rpp selfIdx selected (s # sites) i peers =
     (if i = selfIdx then peersLoop rpp selfIdx selected sites (i + 1) peers
      else if (case selected of None \<Rightarrow> False | Some sel \<Rightarrow> i \<notin> set sel)
      then peersLoop rpp selfIdx selected sites (i + 1) peers
      else peersLoop rpp selfIdx selected sites (i + 1) (peers @ [derivedPeer rpp s]))"

definition externalPeersForSite ::
  "MeshSite list \<Rightarrow> string list \<Rightarrow> string \<Rightarrow> int32 option \<Rightarrow> mesh_error + ExternalPeer list" where
  "externalPeersForSite sites selector identity replicasPerPeer =
     (case meshSiteIndex sites identity of
        Inl err \<Rightarrow> Inl err
      | Inr selfIdx \<Rightarrow>
          if selector = [] then Inr (peersLoop replicasPerPeer selfIdx None sites 0 [])
          else (case selectLoop sites selector [] of
              Inl err \<Rightarrow> Inl err
            | Inr selected \<Rightarrow>
                if selfIdx \<notin> set selected
                then Inl (ErrSiteNotSelected (normalizeSiteName identity) selector)
                else Inr (peersLoop replicasPerPeer selfIdx (Some selected) sites 0 [])))"

section \<open>A well-formed site list\<close>

abbreviation siteNames :: "MeshSite list \<Rightarrow> string list" where
  "siteNames sites \<equiv> map (\<lambda>s. normalizeSiteName (site_Name s)) sites"

definition sites_wf :: "MeshSite list \<Rightarrow> bool" where
  "sites_wf sites \<longleftrightarrow>
     sites \<noteq> [] \<and> distinct (siteNames sites) \<and> [] \<notin> set (siteNames sites) \<and>
     distinct (map site_ServerIDIndex sites) \<and>
     (\<forall>s \<in> set sites. \<exists>i. site_ServerIDIndex s = Some i \<and> 0 \<le> i)"

text \<open>The position the loop finds: of the first site with the wanted name, unless one was found.\<close>

fun first_pos :: "string \<Rightarrow> MeshSite list \<Rightarrow> int \<Rightarrow> int \<Rightarrow> int" where
  "first_pos want [] i idx = idx"
| "first_pos want (s # sites) i idx =
     first_pos want sites (i + 1) (if normalizeSiteName (site_Name s) = want \<and> idx < 0 then i else idx)"

lemma meshSiteLoop_Inr_iff:
  "meshSiteLoop want sites i seen seenIdx idx = Inr p \<longleftrightarrow>
     distinct (siteNames sites) \<and> [] \<notin> set (siteNames sites) \<and> set (siteNames sites) \<inter> set seen = {} \<and>
     distinct (map site_ServerIDIndex sites) \<and>
     (\<forall>s \<in> set sites. \<exists>j. site_ServerIDIndex s = Some j \<and> 0 \<le> j \<and> j \<notin> fst ` set seenIdx) \<and>
     p = first_pos want sites i idx"
proof (induction sites arbitrary: i seen seenIdx idx)
  case (Cons s sites)
  let ?n = "normalizeSiteName (site_Name s)"
  show ?case
  proof (cases "?n = [] \<or> ?n \<in> set seen")
    case True
    then show ?thesis by (auto simp: Let_def)
  next
    case fresh: False
    show ?thesis
    proof (cases "site_ServerIDIndex s")
      case None
      with fresh show ?thesis by (auto simp: Let_def)
    next
      case (Some j)
      show ?thesis
      proof (cases "j < 0 \<or> j \<in> fst ` set seenIdx")
        case True
        then have "\<exists>y. map_of seenIdx j = Some y \<or> j < 0"
          by (metis map_of_eq_None_iff not_Some_eq)
        with fresh Some True show ?thesis by (auto simp: Let_def)
      next
        case False
        then have "map_of seenIdx j = None" by (simp add: map_of_eq_None_iff)
        with fresh Some False have step: "meshSiteLoop want (s # sites) i seen seenIdx idx =
            meshSiteLoop want sites (i + 1) (?n # seen) ((j, ?n) # seenIdx)
              (if ?n = want \<and> idx < 0 then i else idx)"
          by (simp add: Let_def)
        show ?thesis unfolding step Cons.IH using fresh Some False
          by (auto simp: image_iff) (metis option.inject)+
      qed
    qed
  qed
qed auto

lemma first_pos_found: "0 \<le> idx \<Longrightarrow> first_pos want sites i idx = idx"
  by (induction sites arbitrary: i) auto

lemma first_pos_absent: "want \<notin> set (siteNames sites) \<Longrightarrow> first_pos want sites i idx = idx"
  by (induction sites arbitrary: i idx) auto

lemma first_pos_nth:
  "distinct (siteNames sites) \<Longrightarrow> k < length sites \<Longrightarrow> want = siteNames sites ! k \<Longrightarrow> 0 \<le> i \<Longrightarrow>
     first_pos want sites i (- 1) = i + int k"
proof (induction sites arbitrary: i k)
  case (Cons s sites)
  show ?case
  proof (cases k)
    case 0
    with Cons.prems show ?thesis by (simp add: first_pos_found)
  next
    case (Suc k')
    with Cons.prems have "normalizeSiteName (site_Name s) \<noteq> want" by auto
    with Suc Cons.prems Cons.IH [of k' "i + 1"] show ?thesis by simp
  qed
qed simp

lemma meshSiteIndex_Inr_iff:
  "meshSiteIndex sites name = Inr p \<longleftrightarrow>
     sites_wf sites \<and> normalizeSiteName name \<noteq> [] \<and> 0 \<le> p \<and> p < int (length sites) \<and>
     normalizeSiteName (site_Name (sites ! nat p)) = normalizeSiteName name"
    (is "_ \<longleftrightarrow> ?R")
proof (cases "sites_wf sites")
  case False
  then show ?thesis
    by (auto simp: meshSiteIndex_def sites_wf_def meshSiteLoop_Inr_iff Let_def split: sum.splits)
next
  case True
  let ?w = "normalizeSiteName name"
  have ne: "sites \<noteq> []" and d: "distinct (siteNames sites)" and nn: "[] \<notin> set (siteNames sites)"
    using True by (simp_all add: sites_wf_def)
  have "meshSiteLoop ?w sites 0 [] [] (- 1) = Inr (first_pos ?w sites 0 (- 1))"
    unfolding meshSiteLoop_Inr_iff using True by (auto simp: sites_wf_def)
  then have m: "meshSiteIndex sites name = Inr p \<longleftrightarrow>
      ?w \<noteq> [] \<and> first_pos ?w sites 0 (- 1) = p \<and> 0 \<le> p"
    using ne by (auto simp: meshSiteIndex_def Let_def)
  show ?thesis
  proof (cases "?w \<in> set (siteNames sites)")
    case False
    then have "first_pos ?w sites 0 (- 1) = - 1" by (rule first_pos_absent)
    moreover have "0 \<le> p \<Longrightarrow> p < int (length sites) \<Longrightarrow>
        normalizeSiteName (site_Name (sites ! nat p)) \<noteq> ?w"
      using False by (auto simp: image_iff) (metis nat_less_iff nth_mem)
    ultimately show ?thesis using m by auto
  next
    case True
    then obtain k where k: "k < length sites" "siteNames sites ! k = ?w"
      by (metis in_set_conv_nth length_map)
    then have pos: "first_pos ?w sites 0 (- 1) = int k"
      using first_pos_nth [OF d, of k ?w 0] by simp
    have "p = int k" if "0 \<le> p" "p < int (length sites)" "normalizeSiteName (site_Name (sites ! nat p)) = ?w"
    proof -
      have "nat p < length sites" using that by linarith
      with that k d have "nat p = k" by (metis length_map nth_eq_iff_index_eq nth_map)
      with that show ?thesis by simp
    qed
    with k pos m \<open>sites_wf sites\<close> show ?thesis by auto
  qed
qed

lemma meshSiteIndex_member:
  "(\<exists>p. meshSiteIndex sites name = Inr p) \<longleftrightarrow>
     sites_wf sites \<and> normalizeSiteName name \<in> set (siteNames sites)"
proof
  assume "sites_wf sites \<and> normalizeSiteName name \<in> set (siteNames sites)"
  then obtain k where "sites_wf sites" "k < length sites"
    "siteNames sites ! k = normalizeSiteName name" "[] \<notin> set (siteNames sites)"
    by (metis in_set_conv_nth length_map sites_wf_def)
  then have "meshSiteIndex sites name = Inr (int k)"
    unfolding meshSiteIndex_Inr_iff by (metis length_map nat_int nth_map nth_mem of_nat_0_le_iff of_nat_less_iff)
  then show "\<exists>p. meshSiteIndex sites name = Inr p" ..
qed (auto simp: meshSiteIndex_Inr_iff image_iff, metis nat_less_iff nth_mem)

lemma site_by_name:
  "sites_wf sites \<Longrightarrow> s \<in> set sites \<Longrightarrow> t \<in> set sites \<Longrightarrow>
     normalizeSiteName (site_Name s) = normalizeSiteName (site_Name t) \<Longrightarrow> s = t"
  by (auto simp: sites_wf_def distinct_map inj_on_def)

lemma site_by_index:
  "sites_wf sites \<Longrightarrow> s \<in> set sites \<Longrightarrow> t \<in> set sites \<Longrightarrow>
     site_ServerIDIndex s = site_ServerIDIndex t \<Longrightarrow> s = t"
  by (auto simp: sites_wf_def distinct_map inj_on_def)

lemma serverIDBaseForSite_Inr_iff:
  "serverIDBaseForSite sites identity = Inr b \<longleftrightarrow>
     sites_wf sites \<and>
     (\<exists>s \<in> set sites. \<exists>i. normalizeSiteName (site_Name s) = normalizeSiteName identity \<and>
        site_ServerIDIndex s = Some i \<and> i \<le> 255 \<and> b = 16 * i)"
proof (cases "meshSiteIndex sites identity")
  case (Inl e)
  then have "\<not> (sites_wf sites \<and> normalizeSiteName identity \<in> set (siteNames sites))"
    using meshSiteIndex_member [of sites identity] by simp
  with Inl show ?thesis by (fastforce simp: serverIDBaseForSite_def image_iff)
next
  case (Inr p)
  then have wf: "sites_wf sites" and p: "nat p < length sites"
    and name: "normalizeSiteName (site_Name (sites ! nat p)) = normalizeSiteName identity"
    by (auto simp: meshSiteIndex_Inr_iff)
  let ?s = "sites ! nat p"
  have s: "?s \<in> set sites" using p by simp
  then obtain i where i: "site_ServerIDIndex ?s = Some i" "0 \<le> i"
    using wf by (auto simp: sites_wf_def)
  have uniq: "t = ?s" if "t \<in> set sites" "normalizeSiteName (site_Name t) = normalizeSiteName identity" for t
    using site_by_name [OF wf that(1) s] that(2) name by simp
  have "serverIDBaseForSite sites identity = Inr b \<longleftrightarrow> i \<le> 255 \<and> b = 16 * i"
    using Inr i by (auto simp: serverIDBaseForSite_def maxSiteIndex_def serverIDStride_def go_arith)
  also have "\<dots> \<longleftrightarrow> (\<exists>t \<in> set sites. \<exists>i. normalizeSiteName (site_Name t) = normalizeSiteName identity \<and>
        site_ServerIDIndex t = Some i \<and> i \<le> 255 \<and> b = 16 * i)"
    using s name i uniq by (metis option.inject)
  finally show ?thesis using wf by simp
qed

lemma validateSiteIndices_None_iff:
  "validateSiteIndicesAgainstLayout sites l = None \<longleftrightarrow>
     (\<forall>s \<in> set sites. \<forall>i. site_ServerIDIndex s = Some i \<longrightarrow> i \<le> 255 \<and> i < MaxSites l)"
  by (induction sites) (auto simp: maxSiteIndex_def serverIDStride_def split: option.splits)

section \<open>The derived peers\<close>

definition is_selected :: "string list \<Rightarrow> MeshSite \<Rightarrow> bool" where
  "is_selected selector s \<longleftrightarrow>
     selector = [] \<or> normalizeSiteName (site_Name s) \<in> normalizeSiteName ` set selector"

definition is_peer :: "string list \<Rightarrow> string \<Rightarrow> MeshSite \<Rightarrow> bool" where
  "is_peer selector identity s \<longleftrightarrow>
     normalizeSiteName (site_Name s) \<noteq> normalizeSiteName identity \<and> is_selected selector s"

lemma selectLoop_Inr:
  "selectLoop sites names acc = Inr sel \<Longrightarrow>
     (\<forall>n \<in> set names. \<exists>p. meshSiteIndex sites n = Inr p) \<and>
     set sel = set acc \<union> {p. \<exists>n \<in> set names. meshSiteIndex sites n = Inr p}"
proof (induction names arbitrary: acc)
  case (Cons n names)
  then obtain p where "meshSiteIndex sites n = Inr p" "selectLoop sites names (p # acc) = Inr sel"
    by (auto split: sum.splits)
  with Cons.IH [OF this(2)] show ?case by auto
qed simp

lemma peersLoop_filter:
  "peersLoop rpp self sel sites i acc =
     acc @ map (derivedPeer rpp \<circ> snd)
       (filter (\<lambda>(k, s). k \<noteq> self \<and> (case sel of None \<Rightarrow> True | Some ks \<Rightarrow> k \<in> set ks))
         (zip [i..i + int (length sites) - 1] sites))"
proof (induction sites arbitrary: i acc)
  case (Cons s sites)
  have "[i..i + int (length (s # sites)) - 1] = i # [i + 1..i + 1 + int (length sites) - 1]"
    by (simp add: upto.simps)
  then show ?case by (auto simp: Cons.IH split: option.splits)
qed simp

lemma filter_zip_upto:
  assumes "\<And>k. k < length sites \<Longrightarrow> P (int k, sites ! k) \<longleftrightarrow> Q (sites ! k)"
  shows "map (f \<circ> snd) (filter P (zip [0..int (length sites) - 1] sites)) = map f (filter Q sites)"
proof -
  let ?z = "zip [0..int (length sites) - 1] sites"
  have "P z \<longleftrightarrow> Q (snd z)" if "z \<in> set ?z" for z
    using that assms by (auto simp: set_zip)
  then have "filter P ?z = filter (Q \<circ> snd) ?z" by (intro filter_cong) auto
  then have "map (f \<circ> snd) (filter P ?z) = map f (filter Q (map snd ?z))"
    by (simp add: filter_map del: map_snd_zip)
  then show ?thesis by simp
qed

lemma externalPeers_Inr:
  assumes "externalPeersForSite sites selector identity rpp = Inr ps"
  shows "sites_wf sites \<and> normalizeSiteName identity \<in> set (siteNames sites) \<and>
    (selector = [] \<or> normalizeSiteName identity \<in> normalizeSiteName ` set selector) \<and>
    ps = map (derivedPeer rpp) (filter (is_peer selector identity) sites)"
proof -
  from assms obtain self where self: "meshSiteIndex sites identity = Inr self"
    by (auto simp: externalPeersForSite_def split: sum.splits)
  then have wf: "sites_wf sites" and nm: "normalizeSiteName identity \<in> set (siteNames sites)"
    using meshSiteIndex_member by blast+
  have dn: "distinct (siteNames sites)" using wf by (simp add: sites_wf_def)
  have at: "meshSiteIndex sites n = Inr (int k) \<longleftrightarrow> normalizeSiteName (site_Name (sites ! k)) = normalizeSiteName n"
    if "k < length sites" for k n
    using that wf meshSiteIndex_Inr_iff [of sites n "int k"]
    by (auto simp: sites_wf_def image_iff) (metis nth_mem)
  have nself: "int k \<noteq> self \<longleftrightarrow> normalizeSiteName (site_Name (sites ! k)) \<noteq> normalizeSiteName identity"
    if "k < length sites" for k using at [OF that, of identity] self by auto
  show ?thesis
  proof (cases "selector = []")
    case True
    then have "ps = peersLoop rpp self None sites 0 []"
      using assms self by (simp add: externalPeersForSite_def)
    also have "\<dots> = map (derivedPeer rpp) (filter (is_peer selector identity) sites)"
      unfolding peersLoop_filter append_Nil add_0
      by (rule filter_zip_upto) (auto simp: nself is_peer_def is_selected_def True)
    finally show ?thesis using True wf nm by simp
  next
    case False
    then obtain sel where sel: "selectLoop sites selector [] = Inr sel" and mem: "self \<in> set sel"
      and ps: "ps = peersLoop rpp self (Some sel) sites 0 []"
      using assms self by (auto simp: externalPeersForSite_def split: sum.splits if_splits)
    have S: "set sel = {p. \<exists>n \<in> set selector. meshSiteIndex sites n = Inr p}"
      using selectLoop_Inr [OF sel] by simp
    have insel: "int k \<in> set sel \<longleftrightarrow> is_selected selector (sites ! k)" if "k < length sites" for k
      using at [OF that] S False by (auto simp: is_selected_def)
    have "ps = map (derivedPeer rpp) (filter (is_peer selector identity) sites)"
      unfolding ps peersLoop_filter append_Nil add_0
      by (rule filter_zip_upto) (auto simp: nself insel is_peer_def)
    moreover from mem S obtain n where "n \<in> set selector" "meshSiteIndex sites n = Inr self" by auto
    then have "normalizeSiteName identity \<in> normalizeSiteName ` set selector"
      using self by (metis image_eqI meshSiteIndex_Inr_iff)
    ultimately show ?thesis using wf nm by simp
  qed
qed

section \<open>Properties\<close>

text \<open>
  The serverID base is a function of the site and not of its place in the list: two mesh
  objects that list the same sites in different orders give every site the same base, and refuse
  the same sites.
\<close>

theorem serverid_base_order_independent:
  assumes "mset sites = mset sites'"
  shows "serverIDBaseForSite sites identity = Inr b \<longleftrightarrow> serverIDBaseForSite sites' identity = Inr b"
proof -
  have "set sites = set sites'" using assms by (metis set_mset_mset)
  moreover have "sites_wf sites \<longleftrightarrow> sites_wf sites'"
    using assms calculation mset_eq_imp_distinct_iff [of "siteNames sites" "siteNames sites'"]
      mset_eq_imp_distinct_iff [of "map site_ServerIDIndex sites" "map site_ServerIDIndex sites'"]
    by (auto simp: sites_wf_def)
  ultimately show ?thesis by (simp add: serverIDBaseForSite_Inr_iff)
qed

theorem serverid_base_order_independent_witness:
  "serverIDBaseForSite [base_site ''a'' 3, base_site ''b'' 0] ''a'' = Inr 48 \<and>
   serverIDBaseForSite [base_site ''b'' 0, base_site ''a'' 3] ''a'' = Inr 48"
proof -
  have m: "mset [base_site ''a'' 3, base_site ''b'' 0] = mset [base_site ''b'' 0, base_site ''a'' 3]"
    by simp
  have "serverIDBaseForSite [base_site ''a'' 3, base_site ''b'' 0] ''a'' = Inr 48" by code_simp
  with serverid_base_order_independent [OF m, of "''a''" 48] show ?thesis by simp
qed

text \<open>
  Peering is symmetric and total over the selected sites: when two different sites derive
  their peers from one mesh with one selector, each lists the other exactly once, under the other's
  own index, and neither lists itself.
\<close>

theorem peering_symmetric:
  assumes "externalPeersForSite sites selector a rpp = Inr pa"
    and "externalPeersForSite sites selector b rpp' = Inr pb"
    and "normalizeSiteName a \<noteq> normalizeSiteName b"
  shows "count_list (map peer_Name pa) (normalizeSiteName b) = 1 \<and>
         count_list (map peer_Name pb) (normalizeSiteName a) = 1 \<and>
         normalizeSiteName a \<notin> set (map peer_Name pa) \<and>
         normalizeSiteName b \<notin> set (map peer_Name pb) \<and>
         (\<forall>p \<in> set pa. \<exists>s \<in> set sites. peer_Name p = normalizeSiteName (site_Name s) \<and>
            peer_SiteIndex p = site_ServerIDIndex s)"
proof -
  note A = externalPeers_Inr [OF assms(1)] and B = externalPeers_Inr [OF assms(2)]
  have once: "count_list (map peer_Name (map (derivedPeer r) (filter (is_peer selector x) sites)))
      (normalizeSiteName y) = 1"
    if "sites_wf sites" "normalizeSiteName y \<in> set (siteNames sites)"
      "selector = [] \<or> normalizeSiteName y \<in> normalizeSiteName ` set selector"
      "normalizeSiteName x \<noteq> normalizeSiteName y" for r x y
  proof -
    let ?ns = "siteNames (filter (is_peer selector x) sites)"
    have "distinct ?ns" using that(1) by (simp add: sites_wf_def distinct_map_filter)
    moreover have "normalizeSiteName y \<in> set ?ns"
      using that by (auto simp: is_peer_def is_selected_def image_iff) metis+
    moreover have "map peer_Name (map (derivedPeer r) (filter (is_peer selector x) sites)) = ?ns"
      by (simp add: derivedPeer_def)
    ultimately show ?thesis by (simp only: count_list_distinct)
  qed
  show ?thesis
    using once [of b a rpp] once [of a b rpp'] A B assms(3)
    by (auto simp: is_peer_def derivedPeer_def)
qed

theorem peering_symmetric_witness:
  "externalPeersForSite [base_site ''a'' 3, base_site ''b'' 0, base_site ''c'' 1] [''a'', ''b''] ''a'' None =
     Inr [derivedPeer None (base_site ''b'' 0)] \<and>
   externalPeersForSite [base_site ''a'' 3, base_site ''b'' 0, base_site ''c'' 1] [''a'', ''b''] ''b'' None =
     Inr [derivedPeer None (base_site ''a'' 3)] \<and>
   count_list (map peer_Name [derivedPeer None (base_site ''b'' 0)]) (normalizeSiteName ''b'') = 1"
proof -
  let ?sites = "[base_site ''a'' 3, base_site ''b'' 0, base_site ''c'' 1]"
  have a: "externalPeersForSite ?sites [''a'', ''b''] ''a'' None = Inr [derivedPeer None (base_site ''b'' 0)]"
    by code_simp
  have b: "externalPeersForSite ?sites [''a'', ''b''] ''b'' None = Inr [derivedPeer None (base_site ''a'' 3)]"
    by code_simp
  have "normalizeSiteName ''a'' \<noteq> normalizeSiteName ''b''" by code_simp
  from peering_symmetric [OF a b this] a b show ?thesis by blast
qed

end
