(* ===== verification/Mesh_Resolve.thy ===== *)
theory Mesh_Resolve
  imports Mesh_Derive
begin

text \<open>
  \<open>mesh_resolve.go\<close>: a cluster's cross-site wiring resolved from the mesh its \<open>spec.meshRef\<close>
  names, the check that nothing derived is also set by hand, and the \<open>MeshResolved\<close> condition. The
  Get of the mesh object (\<open>getMesh\<close>) and the clock are arguments.
\<close>

abbreviation "condMeshResolved \<equiv> ''MeshResolved''"
abbreviation "reasonMeshDerived \<equiv> ''Derived''"
abbreviation "reasonNoMeshRef \<equiv> ''NoMeshRef''"
abbreviation "reasonMeshNotFound \<equiv> ''MeshNotFound''"
abbreviation "reasonMeshUnreadable \<equiv> ''MeshUnreadable''"
abbreviation "reasonSpecConflictsWithMesh \<equiv> ''SpecConflictsWithMesh''"
abbreviation "reasonSiteIdentityMissing \<equiv> ''SiteIdentityMissing''"
abbreviation "reasonSiteNotInMesh \<equiv> ''SiteNotInMesh''"
abbreviation "reasonSiteNotSelected \<equiv> ''SiteNotSelected''"
abbreviation "reasonMeshSitesInvalid \<equiv> ''MeshSitesInvalid''"
abbreviation "reasonServerIDCeiling \<equiv> ''ServerIDCeilingExceeded''"
abbreviation "reasonSiteIndexPastLayout \<equiv> ''SiteIndexPastRIDLayout''"

record meshWiring =
  mw_ServerIDBase :: int32
  mw_ExternalPeers :: "ExternalPeer list"
  mw_Network :: "ReplicationNetworkConfig option"

datatype mesh_cause = CauseApi api_error | CauseMesh mesh_error

record meshResolveError =
  mre_Reason :: string
  mre_Message :: message
  mre_cause :: "mesh_cause option"

section \<open>Conflicts between the spec and the mesh\<close>

text \<open>The scan stops with an error (\<open>None\<close>) at a site without an index, with \<open>True\<close> at a match.\<close>

fun serverIDBaseForSiteOfValue :: "MeshSite list \<Rightarrow> int32 \<Rightarrow> bool option" where
  "serverIDBaseForSiteOfValue [] v = Some False"
| "serverIDBaseForSiteOfValue (s # sites) v =
     (case site_ServerIDIndex s of
        None \<Rightarrow> None
      | Some idx \<Rightarrow> if i32_mul idx serverIDStride = v then Some True
          else serverIDBaseForSiteOfValue sites v)"

definition plural :: "int \<Rightarrow> string \<Rightarrow> string \<Rightarrow> string" where
  "plural n one many = (if n = 1 then one else many)"

definition meshSpecConflicts :: "SlapdMeshSpec \<Rightarrow> SlapdClusterSpec \<Rightarrow> string list" where
  "meshSpecConflicts mesh spec =
     (let r = spec_Replication spec in
      (if repl_ExternalPeers r \<noteq> [] then [''spec.replication.externalPeers''] else []) @
      (case (mesh_Network mesh, repl_Network r) of
         (Some _, Some n) \<Rightarrow>
           if net_Mode n \<noteq> [] \<or> net_MultusNetwork n \<noteq> [] then [''spec.replication.network''] else []
       | _ \<Rightarrow> []) @
      (if repl_ServerIDBase r \<noteq> 0
       then (if serverIDBaseForSiteOfValue (mesh_Sites mesh) (repl_ServerIDBase r) \<noteq> Some True
             then [''spec.replication.serverIDBase''] else [])
       else []))"

definition checkMeshSpecConflicts ::
  "SlapdMeshSpec \<Rightarrow> SlapdClusterSpec \<Rightarrow> meshResolveError option" where
  "checkMeshSpecConflicts mesh spec =
     (let conflicts = meshSpecConflicts mesh spec in
      if conflicts = [] then None
      else Some \<lparr>mre_Reason = reasonSpecConflictsWithMesh,
        mre_Message = Msg ''meshRef derives a field also set explicitly''
          [MStr (spec_MeshRef spec), MStr (join '', '' conflicts), MStr (join '' and '' conflicts),
           MStr (plural (int (length conflicts)) ''is'' ''are'')],
        mre_cause = None\<rparr>)"

section \<open>Derivation\<close>

text \<open>\<open>errors.Is\<close> looks through the wrapping of a selector error.\<close>

fun mesh_error_reason :: "mesh_error \<Rightarrow> string" where
  "mesh_error_reason ErrSiteIdentity = reasonSiteIdentityMissing"
| "mesh_error_reason (ErrSiteNotSelected _ _) = reasonSiteNotSelected"
| "mesh_error_reason (ErrSiteUnknown _) = reasonSiteNotInMesh"
| "mesh_error_reason (ErrServerIDCeiling _ _) = reasonServerIDCeiling"
| "mesh_error_reason (ErrSiteIndexPastLayout _ _ _) = reasonSiteIndexPastLayout"
| "mesh_error_reason (ErrMeshSites _) = reasonMeshSitesInvalid"
| "mesh_error_reason (ErrPodsPerSitePastStride _) = reasonMeshSitesInvalid"
| "mesh_error_reason (SelectorError e) = mesh_error_reason e"

definition meshDerivationError :: "string \<Rightarrow> mesh_error \<Rightarrow> meshResolveError" where
  "meshDerivationError meshRef err =
     \<lparr>mre_Reason = mesh_error_reason err,
      mre_Message = Msg ''cannot derive wiring from SlapdMesh'' [MStr meshRef],
      mre_cause = Some (CauseMesh err)\<rparr>"

definition deriveClusterWiring ::
  "SlapdMeshSpec option \<Rightarrow> SlapdClusterSpec \<Rightarrow> string \<Rightarrow> meshResolveError + meshWiring option" where
  "deriveClusterWiring meshp spec identity =
     (if spec_MeshRef spec = [] then Inr None
      else (case meshp of
        None \<Rightarrow> Inl \<lparr>mre_Reason = reasonMeshUnreadable,
          mre_Message = Msg ''SlapdMesh resolved to no spec'' [MStr (spec_MeshRef spec)], mre_cause = None\<rparr>
      | Some mesh \<Rightarrow>
      (case checkMeshSpecConflicts mesh spec of
        Some err \<Rightarrow> Inl err
      | None \<Rightarrow>
      (let layout = meshRIDLayout mesh in
      case validateSiteIndicesAgainstLayout (mesh_Sites mesh) layout of
        Some err \<Rightarrow> Inl (meshDerivationError (spec_MeshRef spec) err)
      | None \<Rightarrow>
      (case validateLayoutAgainstServerIDStride layout of
        Some err \<Rightarrow> Inl (meshDerivationError (spec_MeshRef spec) err)
      | None \<Rightarrow>
      (case serverIDBaseForSite (mesh_Sites mesh) identity of
        Inl err \<Rightarrow> Inl (meshDerivationError (spec_MeshRef spec) err)
      | Inr base \<Rightarrow>
      (case externalPeersForSite (mesh_Sites mesh) (spec_Sites spec) identity
              (repl_ReplicasPerPeer (spec_Replication spec)) of
        Inl err \<Rightarrow> Inl (meshDerivationError (spec_MeshRef spec) err)
      | Inr peers \<Rightarrow>
          Inr (Some \<lparr>mw_ServerIDBase = base, mw_ExternalPeers = peers,
            mw_Network = mesh_Network mesh\<rparr>))))))))"

definition applyMeshWiring :: "SlapdCluster \<Rightarrow> meshWiring option \<Rightarrow> SlapdCluster" where
  "applyMeshWiring sc w =
     (case w of
        None \<Rightarrow> sc
      | Some w \<Rightarrow>
          (let r = sc_Replication sc;
               r = r\<lparr>repl_ServerIDBase := mw_ServerIDBase w\<rparr>;
               r = r\<lparr>repl_ExternalPeers := mw_ExternalPeers w\<rparr>;
               r = (if mw_Network w \<noteq> None then r\<lparr>repl_Network := mw_Network w\<rparr> else r)
           in sc\<lparr>sc_Spec := (sc_Spec sc)\<lparr>spec_Replication := r\<rparr>\<rparr>))"

text \<open>The cluster is updated in place: the result is the error, if any, and the cluster after.\<close>

definition resolveMeshWiring ::
  "(string \<Rightarrow> string \<Rightarrow> api_error + SlapdMeshSpec) \<Rightarrow> SlapdCluster \<Rightarrow> string \<Rightarrow>
   meshResolveError option \<times> SlapdCluster" where
  "resolveMeshWiring getMesh sc identity =
     (if spec_MeshRef (sc_Spec sc) = [] then (None, sc)
      else (case getMesh (sc_Namespace sc) (spec_MeshRef (sc_Spec sc)) of
          Inl ApiNotFound \<Rightarrow>
            (Some \<lparr>mre_Reason = reasonMeshNotFound,
               mre_Message = Msg ''SlapdMesh not found'' [MStr (spec_MeshRef (sc_Spec sc)), MStr (sc_Namespace sc)],
               mre_cause = Some (CauseApi ApiNotFound)\<rparr>, sc)
        | Inl (ApiError m) \<Rightarrow>
            (Some \<lparr>mre_Reason = reasonMeshUnreadable,
               mre_Message = Msg ''cannot read SlapdMesh'' [MStr (spec_MeshRef (sc_Spec sc)), MMsg m],
               mre_cause = Some (CauseApi (ApiError m))\<rparr>, sc)
        | Inr mesh \<Rightarrow>
            (case deriveClusterWiring (Some mesh) (sc_Spec sc) identity of
               Inl err \<Rightarrow> (Some err, sc)
             | Inr w \<Rightarrow> (None, applyMeshWiring sc w))))"

definition meshResolveCondition :: "time \<Rightarrow> SlapdCluster \<Rightarrow> meshResolveError option \<Rightarrow> SlapdCluster" where
  "meshResolveCondition now sc err =
     (let (status, reason, msg) =
        (if spec_MeshRef (sc_Spec sc) = []
         then (ConditionFalse, reasonNoMeshRef, Msg ''no spec.meshRef'' [])
         else (case err of
             Some re \<Rightarrow> (ConditionFalse, mre_Reason re, mre_Message re)
           | None \<Rightarrow> (ConditionTrue, reasonMeshDerived,
               Msg ''cross-site wiring derived from SlapdMesh'' [MStr (spec_MeshRef (sc_Spec sc))])))
      in set_sc_Conditions (setCondition (scs_Conditions (sc_Status sc))
           \<lparr>cond_Type = condMeshResolved, cond_Status = status, cond_Reason = reason,
            cond_Message = msg, cond_LastTransitionTime = now,
            cond_ObservedGeneration = sc_Generation sc\<rparr>) sc)"

section \<open>What a successful derivation holds\<close>

lemma deriveClusterWiring_Some:
  assumes "deriveClusterWiring (Some mesh) spec identity = Inr (Some w)"
  shows "spec_MeshRef spec \<noteq> [] \<and> meshSpecConflicts mesh spec = [] \<and>
    validateSiteIndicesAgainstLayout (mesh_Sites mesh) (meshRIDLayout mesh) = None \<and>
    PodsPerSite (meshRIDLayout mesh) \<le> 15 \<and>
    serverIDBaseForSite (mesh_Sites mesh) identity = Inr (mw_ServerIDBase w) \<and>
    externalPeersForSite (mesh_Sites mesh) (spec_Sites spec) identity
      (repl_ReplicasPerPeer (spec_Replication spec)) = Inr (mw_ExternalPeers w) \<and>
    mw_Network w = mesh_Network mesh"
  using assms
  by (auto simp: deriveClusterWiring_def checkMeshSpecConflicts_def Let_def
      validateLayoutAgainstServerIDStride_def maxPodsPerSite_def serverIDStride_def
      split: if_splits option.splits sum.splits)

lemma derived_base:
  assumes "deriveClusterWiring (Some mesh) spec identity = Inr (Some w)"
  shows "\<exists>s \<in> set (mesh_Sites mesh). \<exists>i. normalizeSiteName (site_Name s) = normalizeSiteName identity \<and>
     site_ServerIDIndex s = Some i \<and> 0 \<le> i \<and> i \<le> 255 \<and> mw_ServerIDBase w = 16 * i"
  using deriveClusterWiring_Some [OF assms]
  by (fastforce simp: serverIDBaseForSite_Inr_iff sites_wf_def)

text \<open>The serverID the operator gives a pod of a cluster with this wiring.\<close>

definition podServerID :: "SlapdCluster \<Rightarrow> int32 \<Rightarrow> int32" where
  "podServerID sc ordinal = i32_add (i32_add (repl_ServerIDBase (sc_Replication sc)) ordinal) 1"

lemma desiredServerID_itoa: "desiredServerID sc ordinal = itoa (podServerID sc ordinal)"
  by (simp add: desiredServerID_def podServerID_def)

lemma applyMeshWiring_base:
  "repl_ServerIDBase (sc_Replication (applyMeshWiring sc (Some w))) = mw_ServerIDBase w"
  "repl_ExternalPeers (sc_Replication (applyMeshWiring sc (Some w))) = mw_ExternalPeers w"
  "repl_ReplicasPerPeer (sc_Replication (applyMeshWiring sc (Some w))) =
     repl_ReplicasPerPeer (sc_Replication sc)"
  by (simp_all add: applyMeshWiring_def Let_def)

lemma podServerID_derived:
  assumes "deriveClusterWiring (Some mesh) (sc_Spec sc) identity = Inr (Some w)"
    and "0 \<le> k" and "k < PodsPerSite (meshRIDLayout mesh)"
  shows "podServerID (applyMeshWiring sc (Some w)) k = mw_ServerIDBase w + k + 1"
  using derived_base [OF assms(1)] deriveClusterWiring_Some [OF assms(1)] assms(2,3)
  by (auto simp: podServerID_def applyMeshWiring_base go_arith)

section \<open>Properties\<close>

text \<open>
  C6. Within the layout no two pods of a mesh write under one serverID: for clusters wired from one mesh at two
  different sites, a pod at an ordinal below the layout's PodsPerSite has a serverID in olcServerID's range
  1..4095, and the values the operator writes differ for every pair of such pods of the two sites. A pod past
  the stride takes an id of the next site - the witness shows one - and the operator writes it: the step that
  sets serverIDs runs outside the gate that refuses such a fleet, and the replica count has no maximum.
\<close>

theorem serverids_never_collide:
  assumes "deriveClusterWiring (Some mesh) (sc_Spec a) siteA = Inr (Some wa)"
    and "deriveClusterWiring (Some mesh) (sc_Spec b) siteB = Inr (Some wb)"
    and "normalizeSiteName siteA \<noteq> normalizeSiteName siteB"
    and "0 \<le> i" and "i < PodsPerSite (meshRIDLayout mesh)"
    and "0 \<le> j" and "j < PodsPerSite (meshRIDLayout mesh)"
  shows "desiredServerID (applyMeshWiring a (Some wa)) i \<noteq> desiredServerID (applyMeshWiring b (Some wb)) j \<and>
    1 \<le> podServerID (applyMeshWiring a (Some wa)) i \<and> podServerID (applyMeshWiring a (Some wa)) i \<le> 4095"
proof -
  obtain s x where s: "s \<in> set (mesh_Sites mesh)" "normalizeSiteName (site_Name s) = normalizeSiteName siteA"
    "site_ServerIDIndex s = Some x" "0 \<le> x" "x \<le> 255" "mw_ServerIDBase wa = 16 * x"
    using derived_base [OF assms(1)] by blast
  obtain t y where t: "t \<in> set (mesh_Sites mesh)" "normalizeSiteName (site_Name t) = normalizeSiteName siteB"
    "site_ServerIDIndex t = Some y" "0 \<le> y" "y \<le> 255" "mw_ServerIDBase wb = 16 * y"
    using derived_base [OF assms(2)] by blast
  have wf: "sites_wf (mesh_Sites mesh)" and pods: "PodsPerSite (meshRIDLayout mesh) \<le> 15"
    using deriveClusterWiring_Some [OF assms(1)] by (simp_all add: serverIDBaseForSite_Inr_iff)
  have "x \<noteq> y"
    using site_by_index [OF wf s(1) t(1)] s t assms(3) by auto
  moreover have "i \<le> 14" "j \<le> 14" using assms pods by auto
  ultimately have "16 * x + i + 1 \<noteq> 16 * y + j + 1" using assms(4,6) by presburger
  then show ?thesis
    using podServerID_derived [OF assms(1,4,5)] podServerID_derived [OF assms(2,6,7)] s t assms(4) \<open>i \<le> 14\<close>
    by (auto simp: desiredServerID_itoa dest: itoa_inj)
qed

text \<open>
  Whatever the mesh derives passes the judgement that guards stanza writing: with no fan-out
  above one declared, the external peers put into the cluster satisfy every rule of
  judgeExternalPeers under the mesh's own layout - a missing, shared or out-of-range site index
  cannot come from a derivation.
\<close>

theorem derived_peers_accepted:
  assumes "deriveClusterWiring (Some mesh) (sc_Spec sc) identity = Inr (Some w)"
    and "resolveReplicasPerPeer (repl_ReplicasPerPeer (sc_Replication sc)) None = 1"
  shows "judgeExternalPeers (applyMeshWiring sc (Some w)) (meshRIDLayout mesh) = accept 0"
proof -
  let ?l = "meshRIDLayout mesh" and ?sc = "applyMeshWiring sc (Some w)"
  have ext: "externalPeersForSite (mesh_Sites mesh) (spec_Sites (sc_Spec sc)) identity
      (repl_ReplicasPerPeer (sc_Replication sc)) = Inr (mw_ExternalPeers w)"
    and idx: "\<forall>s \<in> set (mesh_Sites mesh). \<forall>i. site_ServerIDIndex s = Some i \<longrightarrow> i \<le> 255 \<and> i < MaxSites ?l"
    using deriveClusterWiring_Some [OF assms(1)] by (simp_all add: validateSiteIndices_None_iff)
  note E = externalPeers_Inr [OF ext]
  have "peers_ok ?sc ?l"
    unfolding peers_ok_def applyMeshWiring_base
    using E idx assms(2)
    by (auto simp: derivedPeer_def sites_wf_def resolveReplicasPerPeer_eq_1 distinct_map_filter comp_def)
  then have "v_OK (judgeExternalPeers ?sc ?l)" by (simp add: judgeExternalPeers_OK_iff)
  then show ?thesis
    by (auto simp: judgeExternalPeers_def Let_def split: option.splits)
qed

definition example_mesh :: SlapdMeshSpec where
  "example_mesh = \<lparr>mesh_Sites = [base_site ''a'' 3, base_site ''b'' 0], mesh_Network = None,
     mesh_RIDLayout = None\<rparr>"

definition example_meshed_cluster :: SlapdCluster where
  "example_meshed_cluster =
     base_cluster\<lparr>sc_Spec := (sc_Spec base_cluster)\<lparr>spec_MeshRef := ''m''\<rparr>\<rparr>"

definition example_wiring :: "int32 \<Rightarrow> string \<Rightarrow> int32 \<Rightarrow> meshWiring" where
  "example_wiring base peer idx = \<lparr>mw_ServerIDBase = base,
     mw_ExternalPeers = [derivedPeer None (base_site peer idx)], mw_Network = None\<rparr>"

lemma example_derivations:
  "deriveClusterWiring (Some example_mesh) (sc_Spec example_meshed_cluster) ''a'' =
     Inr (Some (example_wiring 48 ''b'' 0))"
  "deriveClusterWiring (Some example_mesh) (sc_Spec example_meshed_cluster) ''b'' =
     Inr (Some (example_wiring 0 ''a'' 3))"
  by code_simp+

theorem serverids_never_collide_witness:
  "desiredServerID (applyMeshWiring example_meshed_cluster (Some (example_wiring 48 ''b'' 0))) 0 \<noteq>
     desiredServerID (applyMeshWiring example_meshed_cluster (Some (example_wiring 0 ''a'' 3))) 1 \<and>
   podServerID (applyMeshWiring example_meshed_cluster (Some (example_wiring 48 ''b'' 0))) 0 = 49 \<and>
   desiredServerID (applyMeshWiring example_meshed_cluster (Some (example_wiring 0 ''a'' 3))) 48 =
     desiredServerID (applyMeshWiring example_meshed_cluster (Some (example_wiring 48 ''b'' 0))) 0"
proof -
  have n: "normalizeSiteName ''a'' \<noteq> normalizeSiteName ''b''" by code_simp
  have p: "1 < PodsPerSite (meshRIDLayout example_mesh)" by code_simp
  have "podServerID (applyMeshWiring example_meshed_cluster (Some (example_wiring 48 ''b'' 0))) 0 = 49"
    by code_simp
  moreover have "desiredServerID (applyMeshWiring example_meshed_cluster (Some (example_wiring 0 ''a'' 3))) 48 =
     desiredServerID (applyMeshWiring example_meshed_cluster (Some (example_wiring 48 ''b'' 0))) 0"
    by code_simp
  moreover from serverids_never_collide [OF example_derivations n, of 0 1] p
  have "desiredServerID (applyMeshWiring example_meshed_cluster (Some (example_wiring 48 ''b'' 0))) 0 \<noteq>
     desiredServerID (applyMeshWiring example_meshed_cluster (Some (example_wiring 0 ''a'' 3))) 1"
    by simp
  ultimately show ?thesis by blast
qed

theorem derived_peers_accepted_witness:
  "judgeExternalPeers (applyMeshWiring example_meshed_cluster (Some (example_wiring 48 ''b'' 0)))
     (meshRIDLayout example_mesh) = accept 0"
  by (rule derived_peers_accepted [OF example_derivations(1)]) code_simp

text \<open>
  Resolution is all or nothing: an error leaves the cluster as it was, a cluster without a
  meshRef is untouched and gets no error, and a success changes the serverID base, the peer list
  and the network of the replication config and nothing else, to exactly what the derivation from
  the mesh that was read gives.
\<close>

theorem wiring_all_or_nothing:
  "case resolveMeshWiring getMesh sc identity of (e, sc') \<Rightarrow>
     (spec_MeshRef (sc_Spec sc) = [] \<longrightarrow> e = None \<and> sc' = sc) \<and>
     (e \<noteq> None \<longrightarrow> sc' = sc) \<and>
     (spec_MeshRef (sc_Spec sc) \<noteq> [] \<and> e = None \<longrightarrow>
        (\<exists>mesh w. getMesh (sc_Namespace sc) (spec_MeshRef (sc_Spec sc)) = Inr mesh \<and>
           deriveClusterWiring (Some mesh) (sc_Spec sc) identity = Inr (Some w) \<and>
           sc' = sc\<lparr>sc_Spec := (sc_Spec sc)\<lparr>spec_Replication := (sc_Replication sc)
             \<lparr>repl_ServerIDBase := mw_ServerIDBase w, repl_ExternalPeers := mw_ExternalPeers w,
              repl_Network := (if mesh_Network mesh = None then repl_Network (sc_Replication sc)
                               else mesh_Network mesh)\<rparr>\<rparr>\<rparr>))"
proof (cases "spec_MeshRef (sc_Spec sc) = []")
  case True
  then show ?thesis by (simp add: resolveMeshWiring_def)
next
  case ref: False
  show ?thesis
  proof (cases "getMesh (sc_Namespace sc) (spec_MeshRef (sc_Spec sc))")
    case (Inl e)
    with ref show ?thesis by (cases e) (simp_all add: resolveMeshWiring_def)
  next
    case (Inr mesh)
    show ?thesis
    proof (cases "deriveClusterWiring (Some mesh) (sc_Spec sc) identity")
      case (Inl e)
      with ref Inr show ?thesis by (simp add: resolveMeshWiring_def)
    next
      case w: (Inr wo)
      then obtain w' where "wo = Some w'"
        using ref by (auto simp: deriveClusterWiring_def Let_def split: option.splits sum.splits)
      with ref Inr w deriveClusterWiring_Some [of mesh "sc_Spec sc" identity w'] show ?thesis
        by (auto simp: resolveMeshWiring_def applyMeshWiring_def Let_def)
    qed
  qed
qed

theorem wiring_all_or_nothing_witness:
  "fst (resolveMeshWiring (\<lambda>ns n. Inr example_mesh) example_meshed_cluster ''zz'') \<noteq> None \<and>
   snd (resolveMeshWiring (\<lambda>ns n. Inr example_mesh) example_meshed_cluster ''zz'') = example_meshed_cluster"
proof -
  have e: "fst (resolveMeshWiring (\<lambda>ns n. Inr example_mesh) example_meshed_cluster ''zz'') \<noteq> None"
    by code_simp
  with wiring_all_or_nothing [where getMesh = "\<lambda>ns n. Inr example_mesh" and sc = example_meshed_cluster
      and identity = "''zz''"]
  show ?thesis by (simp add: split_beta)
qed

end
