(* ===== verification/Csn.thy ===== *)
theory Csn
  imports Api_Types
begin

text \<open>
  \<open>csn.go\<close>: reading contextCSN vectors, the timestamps in them and their comparison. The LDAP
  connection is a record of its answers (\<open>csn_conn\<close>), an argument of the query.

  \<open>time.Parse\<close> is modelled for the one layout the code uses, \<open>20060102150405.000000\<close>, field by
  field: a four-digit year, two-digit fields (Go's hour may have one digit), the fraction as a point
  or comma and six characters read by Go's \<open>atoi\<close>, range checks and the calendar check of the day.
\<close>

section \<open>The calendar\<close>

definition is_leap :: "int \<Rightarrow> bool" where
  "is_leap y \<longleftrightarrow> y mod 4 = 0 \<and> (y mod 100 \<noteq> 0 \<or> y mod 400 = 0)"

definition month_days :: "int list" where
  "month_days = [31, 28, 31, 30, 31, 30, 31, 31, 30, 31, 30, 31]"

definition daysIn :: "nat \<Rightarrow> int \<Rightarrow> int" where
  "daysIn m y = (if m = 2 \<and> is_leap y then 29 else month_days ! (m - 1))"

definition days_before_year :: "int \<Rightarrow> int" where
  "days_before_year y = (let p = y - 1 in 365 * p + p div 4 - p div 100 + p div 400)"

definition days_before_month :: "nat \<Rightarrow> int \<Rightarrow> int" where
  "days_before_month m y = sum_list (take (m - 1) month_days) + (if 2 < m \<and> is_leap y then 1 else 0)"

text \<open>\<open>time.Date\<close> in UTC for fields in range, from the proleptic Gregorian calendar.\<close>

definition date_time :: "int \<Rightarrow> nat \<Rightarrow> int \<Rightarrow> int \<Rightarrow> int \<Rightarrow> int \<Rightarrow> int \<Rightarrow> time" where
  "date_time y mo d h mi s ns =
     ((((days_before_year y + days_before_month mo y + (d - 1) - 719162) * 24 + h) * 60 + mi) * 60 + s)
       * 1000000000 + ns"

section \<open>Parsing\<close>

definition getnum :: "bool \<Rightarrow> string \<Rightarrow> (nat \<times> string) option" where
  "getnum fixed s =
     (case s of
        [] \<Rightarrow> None
      | a # rest \<Rightarrow>
          if \<not> is_digit a then None
          else (case rest of
              b # rest' \<Rightarrow>
                if is_digit b then Some (10 * digit_val a + digit_val b, rest')
                else if fixed then None else Some (digit_val a, rest)
            | [] \<Rightarrow> if fixed then None else Some (digit_val a, rest)))"

text \<open>The package-private \<open>atoi\<close>: an optional sign, then digits only (none at all is zero).\<close>

fun leading_int :: "int \<Rightarrow> string \<Rightarrow> int" where
  "leading_int acc [] = acc"
| "leading_int acc (c # cs) = leading_int (10 * acc + int (digit_val c)) cs"

definition time_atoi :: "string \<Rightarrow> int option" where
  "time_atoi s =
     (let neg = (s \<noteq> [] \<and> hd s = CHR ''-'');
          body = (if s \<noteq> [] \<and> (hd s = CHR ''-'' \<or> hd s = CHR ''+'') then tl s else s) in
      if (\<forall>c \<in> set body. is_digit c)
      then Some (if neg then - leading_int 0 body else leading_int 0 body) else None)"

definition parse_year :: "string \<Rightarrow> (int \<times> string) option" where
  "parse_year v =
     (if length v < 4 \<or> \<not> is_digit (hd v) then None
      else map_option (\<lambda>y. (y, drop 4 v)) (time_atoi (take 4 v)))"

definition parse_field :: "bool \<Rightarrow> nat \<Rightarrow> nat \<Rightarrow> string \<Rightarrow> (nat \<times> string) option" where
  "parse_field fixed lo hi v =
     (case getnum fixed v of
        None \<Rightarrow> None
      | Some (x, rest) \<Rightarrow> if lo \<le> x \<and> x < hi then Some (x, rest) else None)"

definition parse_frac :: "string \<Rightarrow> (int \<times> string) option" where
  "parse_frac v =
     (if length v < 7 then None
      else if hd v \<noteq> CHR ''.'' \<and> hd v \<noteq> CHR '','' then None
      else (case time_atoi (take 6 (drop 1 v)) of
          None \<Rightarrow> None
        | Some ns \<Rightarrow> if ns < 0 then None else Some (ns * 1000, drop 7 v)))"

definition parse_csn_layout :: "string \<Rightarrow> time option" where
  "parse_csn_layout v0 =
     (case parse_year v0 of None \<Rightarrow> None | Some (y, v1) \<Rightarrow>
     (case parse_field True 1 13 v1 of None \<Rightarrow> None | Some (mo, v2) \<Rightarrow>
     (case getnum True v2 of None \<Rightarrow> None | Some (d, v3) \<Rightarrow>
     (case parse_field False 0 24 v3 of None \<Rightarrow> None | Some (h, v4) \<Rightarrow>
     (case parse_field True 0 60 v4 of None \<Rightarrow> None | Some (mi, v5) \<Rightarrow>
     (case parse_field True 0 60 v5 of None \<Rightarrow> None | Some (s, v6) \<Rightarrow>
     (case parse_frac v6 of None \<Rightarrow> None | Some (ns, v7) \<Rightarrow>
        if v7 \<noteq> [] then None
        else if int d < 1 \<or> int d > daysIn mo y then None
        else Some (date_time y mo (int d) (int h) (int mi) (int s) ns))))))))"

definition trim_suffix_Z :: "string \<Rightarrow> string" where
  "trim_suffix_Z s = (if s \<noteq> [] \<and> last s = CHR ''Z'' then butlast s else s)"

text \<open>\<open>strings.SplitN(csn, "#", 2)[0]\<close> is what precedes the first \<open>#\<close>.\<close>

definition parseCSNTime :: "string \<Rightarrow> time option" where
  "parseCSNTime csn = parse_csn_layout (trim_suffix_Z (takeWhile (\<lambda>c. c \<noteq> CHR ''#'') csn))"

fun newestLoop :: "string list \<Rightarrow> time \<Rightarrow> bool \<Rightarrow> time \<times> bool" where
  "newestLoop [] newest found = (newest, found)"
| "newestLoop (csn # csns) newest found =
     (case parseCSNTime csn of
        None \<Rightarrow> newestLoop csns newest found
      | Some t \<Rightarrow> if t > newest then newestLoop csns t True else newestLoop csns newest found)"

definition newestCSN :: "string list \<Rightarrow> message + time" where
  "newestCSN csns =
     (let (newest, found) = newestLoop csns zero_time False in
      if \<not> found \<and> csns \<noteq> [] then Inl (Msg ''no parseable CSN'' [MStrs csns]) else Inr newest)"

section \<open>Comparison\<close>

definition normalizeCSNSet :: "string list \<Rightarrow> string" where
  "normalizeCSNSet csns = join ''|'' (sort csns)"

definition csnConverged :: "string list list \<Rightarrow> bool" where
  "csnConverged csnSets =
     (case csnSets of
        ref # s # rest \<Rightarrow> (\<forall>x \<in> set (s # rest). normalizeCSNSet x = normalizeCSNSet ref)
      | _ \<Rightarrow> True)"

section \<open>Queries\<close>

record csn_conn =
  cc_Dial :: "string \<Rightarrow> bool \<Rightarrow> message option"
  cc_Bind :: "string \<Rightarrow> string \<Rightarrow> message option"
  cc_Search :: "string \<Rightarrow> message + string list list"

fun bindLoop :: "csn_conn \<Rightarrow> string \<Rightarrow> string list \<Rightarrow> (string \<times> message) list \<Rightarrow> bool \<times> (string \<times> message) list" where
  "bindLoop c pw [] errs = (False, errs)"
| "bindLoop c pw (dn # dns) errs =
     (if dn = [] then bindLoop c pw dns errs
      else (case cc_Bind c dn pw of
          None \<Rightarrow> (True, errs)
        | Some e \<Rightarrow> bindLoop c pw dns (errs @ [(dn, e)])))"

definition doCSNQuery ::
  "csn_conn \<Rightarrow> string \<Rightarrow> bool \<Rightarrow> string \<Rightarrow> string list \<Rightarrow> string \<Rightarrow> message + string list" where
  "doCSNQuery c uri useTLS suffix bindDNs bindPW =
     (case cc_Dial c uri useTLS of
        Some e \<Rightarrow> Inl (Msg ''dial'' [MStr uri, MMsg e])
      | None \<Rightarrow>
          (let (bound, errs) = (if bindPW \<noteq> [] then bindLoop c bindPW bindDNs [] else (False, [])) in
           if \<not> bound \<and> errs \<noteq> []
           then Inl (Msg ''bind failed for all candidate identities''
             (MStr uri # MInt (int (length errs)) # map (\<lambda>(dn, e). MMsg (Msg dn [MMsg e])) errs))
           else (case cc_Search c suffix of
               Inl e \<Rightarrow> Inl (Msg ''search contextCSN'' [MStr uri, MMsg e])
             | Inr [] \<Rightarrow> Inr []
             | Inr (entry # _) \<Rightarrow> Inr entry)))"

definition queryContextCSN ::
  "csn_conn \<Rightarrow> string \<Rightarrow> int32 \<Rightarrow> bool \<Rightarrow> string \<Rightarrow> string list \<Rightarrow> string \<Rightarrow> message + string list" where
  "queryContextCSN c host port tlsEnabled suffix bindDNs bindPW =
     doCSNQuery c ((if tlsEnabled then ''ldaps'' else ''ldap'') @ ''://'' @ host @ '':'' @ itoa port)
       tlsEnabled suffix bindDNs bindPW"

definition queryContextCSNFromURI ::
  "csn_conn \<Rightarrow> string \<Rightarrow> string \<Rightarrow> string list \<Rightarrow> string \<Rightarrow> message + string list" where
  "queryContextCSNFromURI c uri suffix bindDNs bindPW =
     doCSNQuery c uri (take 8 uri = ''ldaps://'') suffix bindDNs bindPW"

section \<open>The newest timestamp\<close>

definition csn_times :: "string list \<Rightarrow> time set" where
  "csn_times csns = {t. \<exists>c \<in> set csns. parseCSNTime c = Some t \<and> zero_time < t}"

lemma csn_times_simps [simp]:
  "csn_times [] = {}"
  "csn_times (c # cs) =
     (case parseCSNTime c of Some t \<Rightarrow> if zero_time < t then insert t (csn_times cs) else csn_times cs
        | None \<Rightarrow> csn_times cs)"
  by (auto simp: csn_times_def split: option.splits)

lemma finite_csn_times [simp]: "finite (csn_times csns)"
  by (induction csns) (auto split: option.splits)

lemma newestLoop_Max:
  "zero_time \<le> t \<Longrightarrow>
     newestLoop csns t f = (Max (insert t (csn_times csns)), f \<or> (\<exists>u \<in> csn_times csns. t < u))"
proof (induction csns arbitrary: t f)
  case (Cons c cs)
  have le: "Max (insert t (insert u (csn_times cs))) = Max (insert t (csn_times cs))" if "u \<le> t" for u
    using that by (rule Max_insert_le [OF finite_csn_times])
  show ?case
  proof (cases "parseCSNTime c")
    case None
    with Cons show ?thesis by simp
  next
    case (Some u)
    show ?thesis
    proof (cases "t < u")
      case True
      then have "Max (insert t (insert u (csn_times cs))) = Max (insert u (csn_times cs))"
        by (subst insert_commute) (simp add: Max_insert_le del: Max_insert)
      with True Some Cons.prems Cons.IH [of u True] show ?thesis
        by (auto simp del: Max_insert)
    next
      case False
      with Some Cons.prems Cons.IH [of t f] le [of u] show ?thesis by (auto simp: not_less)
    qed
  qed
qed simp

lemma newestCSN_eq:
  "newestCSN csns =
     (if csns \<noteq> [] \<and> csn_times csns = {} then Inl (Msg ''no parseable CSN'' [MStrs csns])
      else Inr (Max (insert zero_time (csn_times csns))))"
proof -
  have "(\<exists>u \<in> csn_times csns. zero_time < u) \<longleftrightarrow> csn_times csns \<noteq> {}"
    by (auto simp: csn_times_def)
  then show ?thesis by (simp add: newestCSN_def newestLoop_Max)
qed

lemma csn_times_set: "set cs = set ds \<Longrightarrow> csn_times cs = csn_times ds"
  by (simp add: csn_times_def)

lemma newestCSN_zero_iff: "newestCSN csns = Inr zero_time \<longleftrightarrow> csns = []"
proof -
  have "Max (insert zero_time (csn_times csns)) = zero_time \<longleftrightarrow> csn_times csns = {}"
  proof
    assume "Max (insert zero_time (csn_times csns)) = zero_time"
    then have "t \<le> zero_time" if "t \<in> csn_times csns" for t
      using that Max_ge [of "insert zero_time (csn_times csns)" t] by simp
    then show "csn_times csns = {}" by (fastforce simp: csn_times_def)
  qed simp
  then show ?thesis by (auto simp: newestCSN_eq)
qed

lemma newestCSN_ge: "newestCSN csns = Inr t \<Longrightarrow> zero_time \<le> t"
  by (auto simp: newestCSN_eq split: if_splits)

section \<open>Equality of vectors\<close>

definition csn_plain :: "string list \<Rightarrow> bool" where
  "csn_plain csns \<longleftrightarrow> (\<forall>c \<in> set csns. c \<noteq> [] \<and> CHR ''|'' \<notin> set c)"

lemma join_Nil_iff: "csn_plain xs \<Longrightarrow> join sep xs = [] \<longleftrightarrow> xs = []"
  by (induction sep xs rule: join.induct) (auto simp: csn_plain_def)

lemma normalizeCSNSet_eq_iff:
  assumes "csn_plain xs" "csn_plain ys"
  shows "normalizeCSNSet xs = normalizeCSNSet ys \<longleftrightarrow> mset xs = mset ys"
proof
  assume eq: "normalizeCSNSet xs = normalizeCSNSet ys"
  have p: "csn_plain (sort xs)" "csn_plain (sort ys)" using assms by (simp_all add: csn_plain_def)
  have "sort xs = sort ys"
  proof (cases "sort xs = [] \<or> sort ys = []")
    case True
    then show ?thesis
      using eq join_Nil_iff [OF p(1)] join_Nil_iff [OF p(2)] by (metis normalizeCSNSet_def)
  next
    case False
    have split: "split_on CHR ''|'' (normalizeCSNSet zs) = sort zs"
      if "csn_plain (sort zs)" "sort zs \<noteq> []" for zs
      unfolding normalizeCSNSet_def using that by (intro split_join) (auto simp: csn_plain_def)
    show ?thesis using split [OF p(1)] split [OF p(2)] eq False by simp
  qed
  then show "mset xs = mset ys" by (simp add: sort_eq_iff_mset)
next
  assume "mset xs = mset ys"
  then have "sort xs = sort ys" by (simp add: sort_eq_iff_mset)
  then show "normalizeCSNSet xs = normalizeCSNSet ys" by (simp add: normalizeCSNSet_def)
qed

lemma converged_mset:
  assumes "\<forall>s \<in> set sets. csn_plain s"
  shows "csnConverged sets \<longleftrightarrow> (\<forall>x \<in> set sets. \<forall>y \<in> set sets. mset x = mset y)"
proof (cases sets rule: list.exhaust [case_names Nil Cons])
  case (Cons ref rest)
  show ?thesis
  proof (cases rest)
    case (Cons s rest')
    have "csnConverged sets \<longleftrightarrow> (\<forall>x \<in> set rest. normalizeCSNSet x = normalizeCSNSet ref)"
      using Cons \<open>sets = ref # rest\<close> by (simp add: csnConverged_def)
    also have "\<dots> \<longleftrightarrow> (\<forall>x \<in> set rest. mset x = mset ref)"
      using assms \<open>sets = ref # rest\<close> by (simp add: normalizeCSNSet_eq_iff)
    finally show ?thesis using \<open>sets = ref # rest\<close> by auto
  qed (use Cons in \<open>simp add: csnConverged_def\<close>)
qed (simp add: csnConverged_def)

section \<open>Properties\<close>

text \<open>
  Convergence is agreement: for CSN vectors without the separator byte and without empty
  values, csnConverged holds exactly when all vectors hold the same CSNs equally often, in whatever
  order the servers returned them.
\<close>

theorem csn_converged_iff:
  assumes "\<forall>s \<in> set sets. csn_plain s"
  shows "csnConverged sets \<longleftrightarrow> (\<forall>x \<in> set sets. \<forall>y \<in> set sets. mset x = mset y)"
  using assms by (rule converged_mset)

theorem csn_converged_witness:
  "csnConverged [[''20240101000000.000000Z#000000#001#000000'', ''b''], [''b'', ''20240101000000.000000Z#000000#001#000000'']]
   \<and> \<not> csnConverged [[''a'', ''b''], [''a'']]"
proof -
  have a: "\<forall>s \<in> set [[''20240101000000.000000Z#000000#001#000000'', ''b''],
      [''b'', ''20240101000000.000000Z#000000#001#000000'']]. csn_plain s"
    by (simp add: csn_plain_def)
  have b: "\<forall>s \<in> set [[''a'', ''b''], [''a'']]. csn_plain s" by (simp add: csn_plain_def)
  show ?thesis using csn_converged_iff [OF a] csn_converged_iff [OF b] by simp
qed

end
