(* ===== verification/Csn_Convergence.thy ===== *)
theory Csn_Convergence
  imports Csn
begin

text \<open>
  \<open>csn_convergence.go\<close>: the local and the cross-site convergence verdicts, per database suffix,
  from one pass's contextCSN readings. Go maps are HOL maps; an absent key reads as the zero time.
  A duration rendered with \<open>%.1f\<close> seconds is kept as the duration.
\<close>

abbreviation "reasonCSNsMatch \<equiv> ''CSNsMatch''"
abbreviation "reasonCSNsDiverged \<equiv> ''CSNsDiverged''"
abbreviation "reasonCSNQueriesIncomplete \<equiv> ''CSNQueriesIncomplete''"

record csnReading =
  r_Pod :: string
  r_Suffix :: string
  r_CSNs :: "string list"
  r_Err :: string
  r_Answered :: bool

record dbCSNReadout =
  ro_PodsExpected :: int
  ro_PodsRead :: int
  ro_Spread :: "duration option"

record localVerdict =
  lv_Status :: "ConditionStatus option"
  lv_Reason :: string
  lv_Message :: message
  lv_NewestBySuffix :: "string \<rightharpoonup> time"
  lv_ReadoutBySuffix :: "string \<rightharpoonup> dbCSNReadout"
  lv_Silent :: bool

record peerVerdict =
  pv_State :: ExternalPeerReplicationState
  pv_LagSeconds :: "duration option"
  pv_LastError :: message

definition time_at :: "(string \<rightharpoonup> time) \<Rightarrow> string \<Rightarrow> time" where
  "time_at m k = (case m k of None \<Rightarrow> zero_time | Some t \<Rightarrow> t)"

definition summarizeList :: "string list \<Rightarrow> nat \<Rightarrow> string" where
  "summarizeList items n =
     (if length items \<le> n then join '', '' items
      else join '', '' (take n items) @ '', and '' @ itoa (int (length items - n)) @ '' more'')"

definition sortedSuffixes :: "csnReading list \<Rightarrow> string list" where
  "sortedSuffixes readings = sort (remdups (map r_Suffix readings))"

section \<open>The measurement\<close>

definition zero_readout :: dbCSNReadout where
  "zero_readout = \<lparr>ro_PodsExpected = 0, ro_PodsRead = 0, ro_Spread = None\<rparr>"

text \<open>The loop over the readings: the counts in \<open>out\<close>, newest and oldest time in \<open>seen\<close>.\<close>

fun readoutsLoop ::
  "csnReading list \<Rightarrow> (string \<rightharpoonup> dbCSNReadout) \<Rightarrow> (string \<rightharpoonup> time \<times> time) \<Rightarrow>
   (string \<rightharpoonup> dbCSNReadout) \<times> (string \<rightharpoonup> time \<times> time)" where
  "readoutsLoop [] out seen = (out, seen)"
| "readoutsLoop (r # rs) out seen =
     (let readout = (case out (r_Suffix r) of None \<Rightarrow> zero_readout | Some ro \<Rightarrow> ro);
          readout = readout\<lparr>ro_PodsExpected := ro_PodsExpected readout + 1\<rparr>;
          out = out(r_Suffix r \<mapsto> readout) in
      if r_Err r \<noteq> [] then readoutsLoop rs out seen
      else (case newestCSN (r_CSNs r) of
          Inl _ \<Rightarrow> readoutsLoop rs out seen
        | Inr t \<Rightarrow>
            if t = zero_time then readoutsLoop rs out seen
            else (let out = out(r_Suffix r \<mapsto> readout\<lparr>ro_PodsRead := ro_PodsRead readout + 1\<rparr>);
                      (newest, oldest) = (case seen (r_Suffix r) of None \<Rightarrow> (t, t) | Some b \<Rightarrow> b);
                      newest = (if t > newest then t else newest);
                      oldest = (if t < oldest then t else oldest)
                  in readoutsLoop rs out (seen(r_Suffix r \<mapsto> (newest, oldest))))))"

definition databaseCSNReadouts :: "csnReading list \<Rightarrow> (string \<rightharpoonup> dbCSNReadout)" where
  "databaseCSNReadouts readings =
     (let (out, seen) = readoutsLoop readings Map.empty Map.empty in
      (\<lambda>suffix. case out suffix of
          None \<Rightarrow> None
        | Some readout \<Rightarrow>
            if ro_PodsRead readout < 2 then Some readout
            else (let (newest, oldest) = (case seen suffix of None \<Rightarrow> (zero_time, zero_time) | Some b \<Rightarrow> b)
                  in Some (readout\<lparr>ro_Spread := Some (time_sub newest oldest)\<rparr>))))"

section \<open>The local verdict\<close>

record local_acc =
  la_sets :: "string \<Rightarrow> string list list"
  la_newest :: "string \<rightharpoonup> time"
  la_oldest :: "string \<rightharpoonup> time"
  la_unreadable :: "string list"

fun localLoop :: "csnReading list \<Rightarrow> local_acc \<Rightarrow> local_acc" where
  "localLoop [] a = a"
| "localLoop (r # rs) a =
     (if r_Err r \<noteq> []
      then localLoop rs (a\<lparr>la_unreadable := la_unreadable a @ [r_Pod r @ ''/'' @ r_Suffix r]\<rparr>)
      else (let a = a\<lparr>la_sets := (la_sets a)(r_Suffix r := la_sets a (r_Suffix r) @ [r_CSNs r])\<rparr> in
        case newestCSN (r_CSNs r) of
          Inl _ \<Rightarrow> localLoop rs a
        | Inr t \<Rightarrow>
            (let a = (if t > time_at (la_newest a) (r_Suffix r)
                   then a\<lparr>la_newest := (la_newest a)(r_Suffix r \<mapsto> t)\<rparr> else a);
                 a = (if (case la_oldest a (r_Suffix r) of None \<Rightarrow> True | Some ol \<Rightarrow> t < ol)
                   then a\<lparr>la_oldest := (la_oldest a)(r_Suffix r \<mapsto> t)\<rparr> else a)
             in localLoop rs a)))"

definition local_start :: local_acc where
  "local_start = \<lparr>la_sets = (\<lambda>_. []), la_newest = Map.empty, la_oldest = Map.empty, la_unreadable = []\<rparr>"

definition evaluateLocalConvergence :: "csnReading list \<Rightarrow> int32 \<Rightarrow> localVerdict" where
  "evaluateLocalConvergence readings replicas =
     (let v = \<lparr>lv_Status = None, lv_Reason = [], lv_Message = noMsg, lv_NewestBySuffix = Map.empty,
            lv_ReadoutBySuffix = databaseCSNReadouts readings, lv_Silent = False\<rparr> in
      if readings = [] then v\<lparr>lv_Silent := True\<rparr>
      else (let suffixes = sortedSuffixes readings;
                a = localLoop readings local_start;
                v = v\<lparr>lv_NewestBySuffix := la_newest a\<rparr>;
                unreadable = la_unreadable a;
                diverged = filter (\<lambda>s. \<not> (length (la_sets a s) < 2 \<or> csnConverged (la_sets a s))) suffixes;
                lags = map (\<lambda>s. MMsg (Msg s [MInt (time_sub (time_at (la_newest a) s) (time_at (la_oldest a) s))])) diverged;
                elided = [MInt (int (length unreadable)), MStr (summarizeList unreadable 4)]
            in if diverged \<noteq> []
               then v\<lparr>lv_Status := Some ConditionFalse, lv_Reason := reasonCSNsDiverged,
                 lv_Message := Msg ''CSN divergence''
                   ([MInt (int (length diverged)), MInt (int (length suffixes)), MInt replicas] @ lags @
                    (if unreadable \<noteq> [] then elided else []))\<rparr>
               else if unreadable \<noteq> []
               then v\<lparr>lv_Status := Some ConditionUnknown, lv_Reason := reasonCSNQueriesIncomplete,
                 lv_Message := Msg ''could not read contextCSN'' (MInt (int (length readings)) # elided)\<rparr>
               else v\<lparr>lv_Status := Some ConditionTrue, lv_Reason := reasonCSNsMatch,
                 lv_Message := Msg ''all pods report identical contextCSN''
                   [MInt replicas, MInt (int (length suffixes))]\<rparr>))"

section \<open>The peer verdict\<close>

fun remoteLoop :: "csnReading list \<Rightarrow> (string \<rightharpoonup> time) \<Rightarrow> string list \<Rightarrow> (string \<rightharpoonup> time) \<times> string list" where
  "remoteLoop [] newest verified = (newest, verified)"
| "remoteLoop (r # rs) newest verified =
     (if r_Err r \<noteq> [] then remoteLoop rs newest verified
      else (let verified = List.insert (r_Suffix r) verified in
        case newestCSN (r_CSNs r) of
          Inl _ \<Rightarrow> remoteLoop rs newest verified
        | Inr t \<Rightarrow>
            if t > time_at newest (r_Suffix r)
            then remoteLoop rs (newest(r_Suffix r \<mapsto> t)) verified
            else remoteLoop rs newest verified))"

fun judgeSuffixes ::
  "(string \<rightharpoonup> time) \<Rightarrow> (string \<rightharpoonup> time) \<Rightarrow> string list \<Rightarrow> duration \<Rightarrow> string list \<Rightarrow>
   string list \<times> duration \<times> bool \<Rightarrow> string list \<times> duration \<times> bool" where
  "judgeSuffixes localNewest remoteNewest verified threshold [] acc = acc"
| "judgeSuffixes localNewest remoteNewest verified threshold (suffix # rest) (unverified, maxLag, lagging) =
     judgeSuffixes localNewest remoteNewest verified threshold rest
       (if suffix \<notin> set verified then (unverified @ [suffix], maxLag, lagging)
        else if time_at localNewest suffix = zero_time then (unverified @ [suffix], maxLag, lagging)
        else (let remote = time_at remoteNewest suffix in
          if remote = zero_time then (unverified, maxLag, True)
          else (let lag = max (time_sub (time_at localNewest suffix) remote) 0 in
            if lag > threshold then (unverified, (if lag > maxLag then lag else maxLag), True)
            else (unverified, maxLag, lagging))))"

definition evaluatePeerConvergence ::
  "(string \<rightharpoonup> time) \<Rightarrow> csnReading list \<Rightarrow> duration \<Rightarrow> peerVerdict" where
  "evaluatePeerConvergence localNewest readings threshold =
     (let suffixes = sortedSuffixes readings;
          (remoteNewest, verified) = remoteLoop readings Map.empty [] in
      if verified = []
      then \<lparr>pv_State = ReplicationUnreachable, pv_LagSeconds = None,
            pv_LastError = Msg ''all remote pod CSN queries failed'' []\<rparr>
      else (let (unverified, maxLag, lagging) =
                  judgeSuffixes localNewest remoteNewest verified threshold suffixes ([], 0, False);
                lastError = (if unverified \<noteq> []
                  then Msg ''no readable contextCSN'' [MInt (int (length unverified)),
                    MInt (int (length suffixes)), MStr (summarizeList unverified 4)]
                  else noMsg)
            in if lagging
               then \<lparr>pv_State = ReplicationLagging,
                 pv_LagSeconds = (if maxLag > 0 then Some maxLag else None), pv_LastError = lastError\<rparr>
               else if unverified \<noteq> []
               then \<lparr>pv_State = ReplicationPartiallyVerified, pv_LagSeconds = None, pv_LastError = lastError\<rparr>
               else \<lparr>pv_State = ReplicationSynced, pv_LagSeconds = None, pv_LastError = noMsg\<rparr>))"

section \<open>What the loops compute\<close>

lemma set_sortedSuffixes [simp]: "set (sortedSuffixes rs) = r_Suffix ` set rs"
  by (simp add: sortedSuffixes_def)

text \<open>The readable vectors of a suffix, in the order they were read.\<close>

definition readable_sets :: "csnReading list \<Rightarrow> string \<Rightarrow> string list list" where
  "readable_sets rs s = map r_CSNs (filter (\<lambda>r. r_Err r = [] \<and> r_Suffix r = s) rs)"

lemma localLoop_sets: "la_sets (localLoop rs a) s = la_sets a s @ readable_sets rs s"
proof (induction rs arbitrary: a)
  case (Cons r rs)
  show ?case
    by (cases "r_Err r = []") (simp_all add: Cons.IH readable_sets_def Let_def split: sum.splits)
qed (simp add: readable_sets_def)

lemma localLoop_unreadable:
  "la_unreadable (localLoop rs a) =
     la_unreadable a @ map (\<lambda>r. r_Pod r @ ''/'' @ r_Suffix r) (filter (\<lambda>r. r_Err r \<noteq> []) rs)"
proof (induction rs arbitrary: a)
  case (Cons r rs)
  show ?case
    by (cases "r_Err r = []") (simp_all add: Cons.IH Let_def split: sum.splits)
qed simp

lemma csnConverged_short: "length sets < 2 \<Longrightarrow> csnConverged sets"
  by (cases sets rule: list.exhaust [case_names Nil Cons]) (auto simp: csnConverged_def split: list.splits)

definition all_converged :: "csnReading list \<Rightarrow> bool" where
  "all_converged rs \<longleftrightarrow> (\<forall>s \<in> r_Suffix ` set rs. csnConverged (readable_sets rs s))"

lemma local_status:
  "rs \<noteq> [] \<Longrightarrow> lv_Status (evaluateLocalConvergence rs n) =
     Some (if \<not> all_converged rs then ConditionFalse
           else if \<exists>r \<in> set rs. r_Err r \<noteq> [] then ConditionUnknown else ConditionTrue)"
proof -
  assume ne: "rs \<noteq> []"
  let ?a = "localLoop rs local_start"
  have sets: "la_sets ?a = readable_sets rs"
    by (rule ext) (simp add: localLoop_sets local_start_def)
  have u: "la_unreadable ?a \<noteq> [] \<longleftrightarrow> (\<exists>r \<in> set rs. r_Err r \<noteq> [])"
    by (simp add: localLoop_unreadable local_start_def filter_empty_conv)
  have "filter (\<lambda>s. \<not> (length (readable_sets rs s) < 2 \<or> csnConverged (readable_sets rs s))) (sortedSuffixes rs) \<noteq> []
      \<longleftrightarrow> \<not> all_converged rs"
    using csnConverged_short by (simp add: filter_empty_conv all_converged_def) blast
  with ne u show ?thesis
    unfolding evaluateLocalConvergence_def Let_def sets by simp
qed

lemma all_converged_iff:
  assumes "\<forall>r \<in> set rs. r_Err r = [] \<longrightarrow> csn_plain (r_CSNs r)"
  shows "all_converged rs \<longleftrightarrow>
     (\<forall>x \<in> set rs. \<forall>y \<in> set rs. r_Err x = [] \<and> r_Err y = [] \<and> r_Suffix x = r_Suffix y \<longrightarrow>
        mset (r_CSNs x) = mset (r_CSNs y))"
proof -
  have "csnConverged (readable_sets rs s) \<longleftrightarrow>
      (\<forall>x \<in> set (readable_sets rs s). \<forall>y \<in> set (readable_sets rs s). mset x = mset y)" for s
    using assms by (intro converged_mset) (auto simp: readable_sets_def)
  then have "all_converged rs \<longleftrightarrow> (\<forall>r \<in> set rs. \<forall>x \<in> set (readable_sets rs (r_Suffix r)).
      \<forall>y \<in> set (readable_sets rs (r_Suffix r)). mset x = mset y)"
    unfolding all_converged_def by simp
  then show ?thesis by (simp add: readable_sets_def) metis
qed

section \<open>The readouts\<close>

text \<open>The time a reading contributes: none when it failed, did not parse or was empty.\<close>

definition reading_time :: "csnReading \<Rightarrow> time option" where
  "reading_time r =
     (if r_Err r \<noteq> [] then None
      else (case newestCSN (r_CSNs r) of Inl _ \<Rightarrow> None | Inr t \<Rightarrow> if t = zero_time then None else Some t))"

definition reading_times :: "csnReading list \<Rightarrow> string \<Rightarrow> time list" where
  "reading_times rs s = List.map_filter reading_time (filter (\<lambda>r. r_Suffix r = s) rs)"

definition readout_at :: "(string \<rightharpoonup> dbCSNReadout) \<Rightarrow> string \<Rightarrow> dbCSNReadout" where
  "readout_at out s = (case out s of None \<Rightarrow> zero_readout | Some ro \<Rightarrow> ro)"

definition bound_step :: "time \<Rightarrow> (time \<times> time) option \<Rightarrow> (time \<times> time) option" where
  "bound_step t b = (case b of None \<Rightarrow> Some (t, t) | Some (hi, lo) \<Rightarrow> Some (max t hi, min t lo))"

lemma readoutsLoop_step:
  "readoutsLoop (r # rs) out seen =
     (let ro = readout_at out (r_Suffix r) in
      case reading_time r of
        None \<Rightarrow> readoutsLoop rs (out(r_Suffix r \<mapsto> ro\<lparr>ro_PodsExpected := ro_PodsExpected ro + 1\<rparr>)) seen
      | Some t \<Rightarrow> readoutsLoop rs
          (out(r_Suffix r \<mapsto> ro\<lparr>ro_PodsExpected := ro_PodsExpected ro + 1, ro_PodsRead := ro_PodsRead ro + 1\<rparr>))
          (seen(r_Suffix r := bound_step t (seen (r_Suffix r)))))"
  by (auto simp: reading_time_def readout_at_def bound_step_def Let_def max_def min_def
      split: option.splits sum.splits)

lemma readoutsLoop_out:
  "fst (readoutsLoop rs out seen) s =
     (if out s = None \<and> s \<notin> r_Suffix ` set rs then None
      else Some ((readout_at out s)\<lparr>
        ro_PodsExpected := ro_PodsExpected (readout_at out s) + int (length (filter (\<lambda>r. r_Suffix r = s) rs)),
        ro_PodsRead := ro_PodsRead (readout_at out s) + int (length (reading_times rs s))\<rparr>))"
proof (induction rs arbitrary: out seen)
  case Nil
  then show ?case by (simp add: readout_at_def reading_times_def List.map_filter_simps split: option.splits)
next
  case (Cons r rs)
  show ?case
    unfolding readoutsLoop_step Let_def
    by (cases "reading_time r")
      (auto simp: Cons.IH readout_at_def reading_times_def List.map_filter_simps
        simp del: readoutsLoop.simps split: option.splits)
qed

lemma readoutsLoop_seen:
  "snd (readoutsLoop rs out seen) s = fold bound_step (reading_times rs s) (seen s)"
proof (induction rs arbitrary: out seen)
  case (Cons r rs)
  show ?case
    unfolding readoutsLoop_step Let_def
    by (cases "reading_time r")
      (auto simp: Cons.IH reading_times_def List.map_filter_simps simp del: readoutsLoop.simps)
qed (simp add: reading_times_def List.map_filter_simps)

lemma fold_bounds_Some:
  "fold bound_step ts (Some (hi, lo)) = Some (Max (insert hi (set ts)), Min (insert lo (set ts)))"
proof (induction ts arbitrary: hi lo)
  case (Cons t ts)
  have "Max (insert (max t hi) (set ts)) = Max (insert hi (insert t (set ts)))"
    by (cases "set ts = {}") (simp_all add: max.assoc max.left_commute max.commute)
  moreover have "Min (insert (min t lo) (set ts)) = Min (insert lo (insert t (set ts)))"
    by (cases "set ts = {}") (simp_all add: min.assoc min.left_commute min.commute)
  ultimately show ?case using Cons.IH by (simp add: bound_step_def del: Max_insert Min_insert)
qed simp

lemma fold_bounds: "ts \<noteq> [] \<Longrightarrow> fold bound_step ts None = Some (Max (set ts), Min (set ts))"
  by (cases ts) (simp_all add: bound_step_def fold_bounds_Some)

lemma databaseCSNReadouts_eq:
  "databaseCSNReadouts rs s =
     (if s \<notin> r_Suffix ` set rs then None
      else Some \<lparr>ro_PodsExpected = int (length (filter (\<lambda>r. r_Suffix r = s) rs)),
        ro_PodsRead = int (length (reading_times rs s)),
        ro_Spread = (if length (reading_times rs s) < 2 then None
          else Some (time_sub (Max (set (reading_times rs s))) (Min (set (reading_times rs s)))))\<rparr>)"
proof -
  obtain out seen where L: "readoutsLoop rs Map.empty Map.empty = (out, seen)" by fastforce
  have o: "out s = (if s \<notin> r_Suffix ` set rs then None
      else Some \<lparr>ro_PodsExpected = int (length (filter (\<lambda>r. r_Suffix r = s) rs)),
        ro_PodsRead = int (length (reading_times rs s)), ro_Spread = None\<rparr>)"
    using readoutsLoop_out [of rs Map.empty Map.empty s] L by (simp add: readout_at_def zero_readout_def)
  have b: "2 \<le> length (reading_times rs s) \<Longrightarrow>
      seen s = Some (Max (set (reading_times rs s)), Min (set (reading_times rs s)))"
    using readoutsLoop_seen [of rs Map.empty Map.empty s] L fold_bounds [of "reading_times rs s"]
    by (cases "reading_times rs s = []") simp_all
  show ?thesis
    unfolding databaseCSNReadouts_def L Let_def prod.case o using b by simp
qed

lemma reading_times_length: "length (reading_times rs s) \<le> length (filter (\<lambda>r. r_Suffix r = s) rs)"
  unfolding reading_times_def List.map_filter_def length_map by (rule length_filter_le)

lemma newest_le_oldest: "ts \<noteq> [] \<Longrightarrow> Min (set ts) \<le> Max (set (ts :: time list))"
  by (cases ts) (auto simp del: Max_insert Min_insert intro: order_trans [OF Min_le [of _ "hd ts"] Max_ge])

section \<open>The peer's loops\<close>

definition verified_suffix :: "csnReading list \<Rightarrow> string \<Rightarrow> bool" where
  "verified_suffix rs s \<longleftrightarrow> (\<exists>r \<in> set rs. r_Err r = [] \<and> r_Suffix r = s)"

lemma remoteLoop_verified:
  "set (snd (remoteLoop rs m ver)) = set ver \<union> {s. verified_suffix rs s}"
proof (induction rs arbitrary: m ver)
  case (Cons r rs)
  show ?case
    by (cases "r_Err r = []") (auto simp: Cons.IH verified_suffix_def Let_def split: sum.splits)
qed (auto simp: verified_suffix_def)

definition remote_newest :: "csnReading list \<Rightarrow> string \<Rightarrow> time" where
  "remote_newest rs s = Max (insert zero_time (set (reading_times rs s)))"

lemma time_at_upd [simp]: "time_at (m(k \<mapsto> t)) s = (if s = k then t else time_at m s)"
  by (simp add: time_at_def)

lemma remoteLoop_step:
  assumes "\<forall>k. zero_time \<le> time_at m k"
  shows "fst (remoteLoop (r # rs) m ver) =
    fst (remoteLoop rs
      (case reading_time r of
         None \<Rightarrow> m
       | Some t \<Rightarrow> if time_at m (r_Suffix r) < t then m(r_Suffix r \<mapsto> t) else m)
      (if r_Err r = [] then List.insert (r_Suffix r) ver else ver))"
proof (cases "r_Err r = []")
  case True
  show ?thesis
  proof (cases "newestCSN (r_CSNs r)")
    case (Inr t)
    have "\<not> time_at m (r_Suffix r) < zero_time" using assms by (simp add: not_less)
    with True Inr show ?thesis by (cases "t = zero_time") (simp_all add: reading_time_def Let_def)
  qed (use True in \<open>simp add: reading_time_def Let_def\<close>)
qed (simp add: reading_time_def)

lemma reading_times_Cons:
  "reading_times (r # rs) s =
     (if r_Suffix r = s then (case reading_time r of None \<Rightarrow> [] | Some t \<Rightarrow> [t]) else []) @ reading_times rs s"
  by (cases "reading_time r") (simp_all add: reading_times_def List.map_filter_simps)

lemma reading_time_ge: "reading_time r = Some t \<Longrightarrow> zero_time < t"
  using newestCSN_ge [of "r_CSNs r" t]
  by (auto simp: reading_time_def split: if_splits sum.splits)

lemma remoteLoop_newest:
  "\<forall>k. zero_time \<le> time_at m k \<Longrightarrow>
     time_at (fst (remoteLoop rs m ver)) s = Max (insert (time_at m s) (set (reading_times rs s)))"
proof (induction rs arbitrary: m ver)
  case (Cons r rs)
  let ?m = "case reading_time r of
         None \<Rightarrow> m
       | Some t \<Rightarrow> if time_at m (r_Suffix r) < t then m(r_Suffix r \<mapsto> t) else m"
  have "\<forall>k. zero_time \<le> time_at ?m k"
    using Cons.prems reading_time_ge [of r] by (auto split: option.splits)
  then have "time_at (fst (remoteLoop (r # rs) m ver)) s =
      Max (insert (time_at ?m s) (set (reading_times rs s)))"
    unfolding remoteLoop_step [OF Cons.prems] by (rule Cons.IH)
  also have "\<dots> = Max (insert (time_at m s) (set (reading_times (r # rs) s)))"
  proof (cases "r_Suffix r = s \<and> reading_time r \<noteq> None")
    case False
    then have "reading_times (r # rs) s = reading_times rs s" by (auto simp: reading_times_Cons)
    moreover have "time_at ?m s = time_at m s"
      using False by (cases "reading_time r") auto
    ultimately show ?thesis by (simp only:)
  next
    case True
    then obtain t where t: "reading_time r = Some t" "r_Suffix r = s" by auto
    show ?thesis
    proof (cases "time_at m s < t")
      case True
      have "Max (insert (time_at m s) (insert t (set (reading_times rs s)))) =
          Max (insert t (set (reading_times rs s)))"
        using True by (subst insert_commute) (rule Max_insert_le, simp_all)
      with t True show ?thesis by (simp add: reading_times_Cons del: Max_insert)
    next
      case False
      then have "Max (insert (time_at m s) (insert t (set (reading_times rs s)))) =
          Max (insert (time_at m s) (set (reading_times rs s)))"
        by (intro Max_insert_le) simp_all
      with t False show ?thesis by (simp add: reading_times_Cons del: Max_insert)
    qed
  qed
  finally show ?case .
qed (simp add: reading_times_def List.map_filter_simps)

lemma remoteLoop_start:
  "remoteLoop rs Map.empty [] = (m, ver) \<Longrightarrow>
     time_at m s = remote_newest rs s \<and> (s \<in> set ver \<longleftrightarrow> verified_suffix rs s)"
  using remoteLoop_newest [of Map.empty rs "[]" s] remoteLoop_verified [of rs Map.empty "[]"]
  by (simp add: time_at_def remote_newest_def)

text \<open>One suffix's share of the verdict.\<close>

definition suffix_unverified :: "(string \<rightharpoonup> time) \<Rightarrow> csnReading list \<Rightarrow> string \<Rightarrow> bool" where
  "suffix_unverified local rs s \<longleftrightarrow> \<not> verified_suffix rs s \<or> time_at local s = zero_time"

definition suffix_behind :: "(string \<rightharpoonup> time) \<Rightarrow> csnReading list \<Rightarrow> duration \<Rightarrow> string \<Rightarrow> bool" where
  "suffix_behind local rs threshold s \<longleftrightarrow>
     \<not> suffix_unverified local rs s \<and>
     (remote_newest rs s = zero_time \<or>
      max (time_sub (time_at local s) (remote_newest rs s)) 0 > threshold)"

lemma judgeSuffixes_eq:
  assumes "\<And>s. time_at m s = remote_newest rs s" and "\<And>s. s \<in> set ver \<longleftrightarrow> verified_suffix rs s"
  shows "case judgeSuffixes local m ver threshold ss (u, x, lag) of
      (u', x', lag') \<Rightarrow> u' = u @ filter (suffix_unverified local rs) ss \<and>
        (lag' \<longleftrightarrow> lag \<or> (\<exists>s \<in> set ss. suffix_behind local rs threshold s))"
proof (induction ss arbitrary: u x lag)
  case (Cons s ss)
  define acc where "acc =
      (if suffix_unverified local rs s then (u @ [s], x, lag)
       else (let remote = remote_newest rs s in
         if remote = zero_time then (u, x, True)
         else (let l = max (time_sub (time_at local s) remote) 0 in
           if l > threshold then (u, (if l > x then l else x), True) else (u, x, lag))))"
  have step: "judgeSuffixes local m ver threshold (s # ss) (u, x, lag) =
      judgeSuffixes local m ver threshold ss acc"
    by (simp add: acc_def assms suffix_unverified_def Let_def)
  have "fst acc = u @ filter (suffix_unverified local rs) [s]"
    and "snd (snd acc) \<longleftrightarrow> lag \<or> suffix_behind local rs threshold s"
    by (auto simp: acc_def suffix_behind_def Let_def)
  moreover obtain u' x' lag' where "acc = (u', x', lag')" by (cases acc)
  ultimately show ?case
    unfolding step using Cons.IH [where u = u' and x = x' and lag = lag'] by (auto split: prod.splits)
qed simp

lemma peer_state:
  "pv_State (evaluatePeerConvergence local rs threshold) =
     (if \<forall>r \<in> set rs. r_Err r \<noteq> [] then ReplicationUnreachable
      else if \<exists>r \<in> set rs. suffix_behind local rs threshold (r_Suffix r) then ReplicationLagging
      else if \<exists>r \<in> set rs. suffix_unverified local rs (r_Suffix r) then ReplicationPartiallyVerified
      else ReplicationSynced)"
proof -
  obtain m ver where L: "remoteLoop rs Map.empty [] = (m, ver)" by fastforce
  note facts = remoteLoop_start [OF L]
  have ver: "ver = [] \<longleftrightarrow> (\<forall>r \<in> set rs. r_Err r \<noteq> [])"
  proof -
    have "ver = [] \<longleftrightarrow> (\<forall>s. \<not> verified_suffix rs s)" using facts by (metis empty_iff last_in_set list.set(1))
    then show ?thesis by (auto simp: verified_suffix_def)
  qed
  obtain u x lag where J: "judgeSuffixes local m ver threshold (sortedSuffixes rs) ([], 0, False) = (u, x, lag)"
    by (metis prod_cases3)
  have "u = filter (suffix_unverified local rs) (sortedSuffixes rs)"
    and "lag \<longleftrightarrow> (\<exists>s \<in> set (sortedSuffixes rs). suffix_behind local rs threshold s)"
    using judgeSuffixes_eq [where m = m and rs = rs and ver = ver and local = local and
        threshold = threshold and ss = "sortedSuffixes rs" and u = "[]" and x = 0 and lag = False] facts J
    by simp_all
  then have "u \<noteq> [] \<longleftrightarrow> (\<exists>r \<in> set rs. suffix_unverified local rs (r_Suffix r))"
    and "lag \<longleftrightarrow> (\<exists>r \<in> set rs. suffix_behind local rs threshold (r_Suffix r))"
    by (simp_all add: filter_empty_conv)
  then show ?thesis
    unfolding evaluatePeerConvergence_def L J Let_def prod.case ver by simp
qed

section \<open>Properties\<close>

text \<open>
  The local verdict is exact and its severity order is the documented one: False exactly when
  two pods that could be read disagree on one database, Unknown exactly when none do but some pair
  could not be read, True exactly when every pair was read and all agree. Vectors are compared as
  multisets, per suffix only. With no readings nothing is said.
\<close>

theorem local_verdict_exact:
  assumes "rs \<noteq> []" and "\<forall>r \<in> set rs. r_Err r = [] \<longrightarrow> csn_plain (r_CSNs r)"
  shows "lv_Status (evaluateLocalConvergence rs n) =
     Some (if \<exists>x \<in> set rs. \<exists>y \<in> set rs. r_Err x = [] \<and> r_Err y = [] \<and> r_Suffix x = r_Suffix y \<and>
               mset (r_CSNs x) \<noteq> mset (r_CSNs y) then ConditionFalse
           else if \<exists>r \<in> set rs. r_Err r \<noteq> [] then ConditionUnknown else ConditionTrue) \<and>
     lv_Status (evaluateLocalConvergence [] n) = None \<and> lv_Silent (evaluateLocalConvergence [] n)"
proof -
  have "\<not> all_converged rs \<longleftrightarrow> (\<exists>x \<in> set rs. \<exists>y \<in> set rs. r_Err x = [] \<and> r_Err y = [] \<and>
      r_Suffix x = r_Suffix y \<and> mset (r_CSNs x) \<noteq> mset (r_CSNs y))"
    unfolding all_converged_iff [OF assms(2)] by blast
  then show ?thesis
    unfolding local_status [OF assms(1)] by (simp add: evaluateLocalConvergence_def)
qed

definition example_reading :: "string \<Rightarrow> string \<Rightarrow> string list \<Rightarrow> string \<Rightarrow> csnReading" where
  "example_reading pod suffix csns err =
     \<lparr>r_Pod = pod, r_Suffix = suffix, r_CSNs = csns, r_Err = err, r_Answered = True\<rparr>"

theorem local_verdict_exact_witness:
  "lv_Status (evaluateLocalConvergence
     [example_reading ''p0'' ''dc=a'' [''x'', ''y''] [], example_reading ''p1'' ''dc=a'' [''y'', ''x''] [],
      example_reading ''p1'' ''dc=b'' [] ''timeout''] 2) = Some ConditionUnknown"
proof -
  let ?rs = "[example_reading ''p0'' ''dc=a'' [''x'', ''y''] [], example_reading ''p1'' ''dc=a'' [''y'', ''x''] [],
      example_reading ''p1'' ''dc=b'' [] ''timeout'']"
  have "\<forall>r \<in> set ?rs. r_Err r = [] \<longrightarrow> csn_plain (r_CSNs r)"
    by (simp add: example_reading_def csn_plain_def)
  from local_verdict_exact [OF _ this, of 2] show ?thesis
    by (simp add: example_reading_def add_mset_commute)
qed

text \<open>
  The published measurement: a database has a readout exactly when it was asked about, the
  pods expected are the readings taken, failures included, the pods read are those that yielded a
  timestamp, never more; the spread is present exactly when two or more pods were read, and is then
  newest minus oldest and not negative.
\<close>

theorem readout_exact:
  "case databaseCSNReadouts rs s of
     None \<Rightarrow> s \<notin> r_Suffix ` set rs
   | Some ro \<Rightarrow>
       ro_PodsExpected ro = int (length (filter (\<lambda>r. r_Suffix r = s) rs)) \<and> 0 < ro_PodsExpected ro \<and>
       ro_PodsRead ro = int (length (reading_times rs s)) \<and> ro_PodsRead ro \<le> ro_PodsExpected ro \<and>
       (case ro_Spread ro of
          None \<Rightarrow> ro_PodsRead ro < 2
        | Some d \<Rightarrow> 2 \<le> ro_PodsRead ro \<and> 0 \<le> d \<and>
            d = time_sub (Max (set (reading_times rs s))) (Min (set (reading_times rs s))))"
proof (cases "s \<in> r_Suffix ` set rs")
  case False
  then show ?thesis by (auto simp: databaseCSNReadouts_eq)
next
  case True
  then have "filter (\<lambda>r. r_Suffix r = s) rs \<noteq> []" by (auto simp: filter_empty_conv)
  moreover have "0 \<le> time_sub (Max (set (reading_times rs s))) (Min (set (reading_times rs s)))"
    if "2 \<le> length (reading_times rs s)"
    using that by (intro time_sub_nonneg newest_le_oldest) auto
  ultimately show ?thesis
    using True reading_times_length [of rs s] by (simp add: databaseCSNReadouts_eq)
qed

text \<open>
  The verdict on a peer, in all four outcomes: Unreachable exactly when no query was answered;
  else Lagging exactly when a database read on both sides has no CSN at the peer or is behind by
  more than the threshold; else PartiallyVerified exactly when a database lacks evidence on one side;
  else Synced. So a peer is Synced only when every database asked about was read at the peer, has a
  baseline here, and is within the threshold.
\<close>

theorem peer_verdict_exact:
  "pv_State (evaluatePeerConvergence local rs threshold) =
     (if \<forall>r \<in> set rs. r_Err r \<noteq> [] then ReplicationUnreachable
      else if \<exists>r \<in> set rs. suffix_behind local rs threshold (r_Suffix r) then ReplicationLagging
      else if \<exists>r \<in> set rs. suffix_unverified local rs (r_Suffix r) then ReplicationPartiallyVerified
      else ReplicationSynced) \<and>
   (pv_State (evaluatePeerConvergence local rs threshold) = ReplicationSynced \<longleftrightarrow>
     rs \<noteq> [] \<and> (\<forall>r \<in> set rs. verified_suffix rs (r_Suffix r) \<and> time_at local (r_Suffix r) \<noteq> zero_time \<and>
        remote_newest rs (r_Suffix r) \<noteq> zero_time \<and>
        max (time_sub (time_at local (r_Suffix r)) (remote_newest rs (r_Suffix r))) 0 \<le> threshold))"
proof -
  let ?ok = "\<lambda>s. verified_suffix rs s \<and> time_at local s \<noteq> zero_time \<and> remote_newest rs s \<noteq> zero_time \<and>
        max (time_sub (time_at local s) (remote_newest rs s)) 0 \<le> threshold"
  have per: "?ok s \<longleftrightarrow> \<not> suffix_unverified local rs s \<and> \<not> suffix_behind local rs threshold s" for s
    by (auto simp: suffix_behind_def suffix_unverified_def)
  have ne: "rs \<noteq> [] \<and> (\<forall>r \<in> set rs. ?ok (r_Suffix r)) \<longleftrightarrow>
      \<not> (\<forall>r \<in> set rs. r_Err r \<noteq> []) \<and> (\<forall>r \<in> set rs. ?ok (r_Suffix r))"
    by (cases rs) (auto simp: verified_suffix_def)
  show ?thesis
    unfolding ne unfolding per peer_state by simp blast
qed

theorem peer_verdict_exact_witness:
  "pv_State (evaluatePeerConvergence Map.empty [example_reading ''p0'' ''dc=a'' [''x''] []] 30000000000) =
     ReplicationPartiallyVerified"
proof -
  let ?rs = "[example_reading ''p0'' ''dc=a'' [''x''] []]"
  have u: "suffix_unverified Map.empty ?rs ''dc=a''" by (simp add: suffix_unverified_def time_at_def)
  then have "\<not> suffix_behind Map.empty ?rs 30000000000 ''dc=a''" by (simp add: suffix_behind_def)
  with u peer_verdict_exact [of Map.empty ?rs 30000000000] show ?thesis
    by (simp add: example_reading_def)
qed

lemma readout_example:
  "databaseCSNReadouts
     [example_reading ''p0'' ''dc=a'' [''20240101000000.000000Z#0#1#0''] [],
      example_reading ''p1'' ''dc=a'' [''20240101000002.500000Z#0#1#0''] [],
      example_reading ''p2'' ''dc=a'' [] ''timeout''] ''dc=a'' =
   Some \<lparr>ro_PodsExpected = 3, ro_PodsRead = 2, ro_Spread = Some 2500000000\<rparr>"
  by code_simp

end
