(* ===== verification/Purge_Rotation.thy ===== *)
theory Purge_Rotation
  imports Api_Types
begin

text \<open>
  \<open>purgerotation.go\<close> and the grid half of \<open>writeservice.go\<close>: the arithmetic of the rotation grid.
  With n pods and slot length t, pod k purges at phase k*t of the period n*t, counted from the Unix
  epoch, and the write endpoint moves once per slot.
\<close>

abbreviation secondsPerDay :: int64 where
  "secondsPerDay \<equiv> 24 * 60 * 60"

section \<open>Rendering durations\<close>

definition fmt02d :: "int \<Rightarrow> string" where
  "fmt02d x = (if x < 0 then itoa x else pad2 (nat x))"

definition formatLogAge :: "duration \<Rightarrow> string" where
  "formatLogAge d0 =
     (let d = (if d0 < 0 then 0 else d0);
          secs = i64_div d Second;
          days = i64_div secs secondsPerDay; rest = i64_mod secs secondsPerDay;
          hh = i64_div rest 3600; mm = i64_div (i64_mod rest 3600) 60; ss = i64_mod rest 60
      in if days > 0 then itoa days @ ''+'' @ fmt02d hh @ '':'' @ fmt02d mm @ '':'' @ fmt02d ss
         else fmt02d hh @ '':'' @ fmt02d mm @ '':'' @ fmt02d ss)"

definition composePurge :: "duration \<Rightarrow> duration \<Rightarrow> duration option \<Rightarrow> string" where
  "composePurge retention interval phase =
     (if retention \<le> 0 \<or> interval \<le> 0 then []
      else formatLogAge retention @ '' '' @ formatLogAge interval @
        (case phase of None \<Rightarrow> [] | Some p \<Rightarrow> '' '' @ formatLogAge p))"

section \<open>The grid\<close>

definition purgePhase :: "int32 \<Rightarrow> int32 \<Rightarrow> duration \<Rightarrow> duration" where
  "purgePhase ordinal n t = (if n \<le> 0 \<or> t \<le> 0 \<or> ordinal \<le> 0 then 0 else i64_mul ordinal t)"

definition floorSlots :: "int64 \<Rightarrow> int64 \<Rightarrow> int64" where
  "floorSlots sec stp =
     (let slots = i64_div sec stp in
      if sec < 0 \<and> i64_mod sec stp \<noteq> 0 then i64_sub slots 1 else slots)"

definition rotationSlot :: "time \<Rightarrow> duration \<Rightarrow> int32 \<Rightarrow> int32" where
  "rotationSlot now t n =
     (let stp = i64_div t Second in
      if n \<le> 0 \<or> stp \<le> 0 then 0
      else wrap32 (i64_mod (i64_add (i64_mod (floorSlots (unix_sec now) stp) n) n) n))"

abbreviation noGridRequeue :: duration where
  "noGridRequeue \<equiv> 10 * Second"

definition nextSlotBoundary :: "time \<Rightarrow> duration \<Rightarrow> duration" where
  "nextSlotBoundary now t =
     (let stp = i64_div t Second in
      if stp \<le> 0 then noGridRequeue
      else (let sec = unix_sec now;
                elapsed = i64_add (i64_mul (i64_sub sec (i64_mul (floorSlots sec stp) stp)) Second) (nanosecond now)
            in i64_sub (i64_mul stp Second) elapsed))"

definition writerSlot :: "time \<Rightarrow> duration \<Rightarrow> duration \<Rightarrow> int32 \<Rightarrow> int32" where
  "writerSlot now lead t n = rotationSlot (time_add now lead) t n"

definition nextWriterMove :: "time \<Rightarrow> duration \<Rightarrow> duration \<Rightarrow> duration" where
  "nextWriterMove now lead t = nextSlotBoundary (time_add now lead) t"

text \<open>The walk of the write endpoint; \<open>None\<close> is the pair \<open>(0, false)\<close>.\<close>

definition go_mod :: "int32 \<Rightarrow> int32 \<Rightarrow> int32" where
  "go_mod x n = i32_mod (i32_add (i32_mod x n) n) n"

definition writeTarget :: "int32 \<Rightarrow> int32 \<Rightarrow> int32 \<Rightarrow> (int32 \<Rightarrow> bool) \<Rightarrow> int32 option" where
  "writeTarget slot0 n v0 eligible =
     (if n \<le> 0 then None
      else let slot = go_mod slot0 n;
               stp = (if v0 < 0 then - 1 else 1);
               v = go_mod v0 n;
               v = (if v = 0 then 1 else v);
               off = (\<lambda>k. go_mod (i32_add v (i32_mul k stp)) n);
               ord = (\<lambda>k. i32_mod (i32_add slot (off k)) n)
           in case find (\<lambda>k. off k \<noteq> 0 \<and> eligible (ord k)) [0..n - 1] of
                Some k \<Rightarrow> Some (ord k)
              | None \<Rightarrow> if eligible slot then Some slot else None)"

section \<open>The grid without the wraps\<close>

definition sane_time :: "time \<Rightarrow> bool" where
  "sane_time now \<longleftrightarrow> - (2 ^ 62) \<le> unix_sec now \<and> unix_sec now < 2 ^ 62"

definition whole_seconds :: "duration \<Rightarrow> bool" where
  "whole_seconds t \<longleftrightarrow> 0 < t \<and> t < 2 ^ 63 \<and> t mod Second = 0"

lemma whole_secondsD:
  assumes "whole_seconds t"
  shows "i64_div t Second = t div Second" and "0 < t div Second" and "t div Second * Second = t"
    and "t div Second < 2 ^ 62"
proof -
  have t: "0 < t" "t < 2 ^ 63" "t mod Second = 0" using assms by (simp_all add: whole_seconds_def)
  show e: "t div Second * Second = t" using t(3) by (metis add.right_neutral div_mult_mod_eq)
  then show p: "0 < t div Second" using t(1) by (metis Second_def mult_eq_0_iff pos_imp_zdiv_pos_iff zero_less_mult_pos2 zero_less_numeral)
  have s: "t div Second \<le> t" using t by (intro int_div_le_self) (simp_all add: Second_def)
  then show "i64_div t Second = t div Second" using t p by (simp add: i64_div_def Second_def)
  show "t div Second < 2 ^ 62" using t by (intro int_div_lessI) (simp_all add: Second_def)
qed

lemma floorSlots_div:
  assumes "- (2 ^ 62) \<le> sec" "sec < 2 ^ 62" "0 < stp" "stp < 2 ^ 62"
  shows "floorSlots sec stp = sec div stp"
    and "- (2 ^ 62) \<le> sec div stp" and "sec div stp < 2 ^ 62"
proof -
  show b2: "sec div stp < 2 ^ 62"
    using assms mult_left_mono [of 1 stp "2 ^ 62 :: int"] by (intro int_div_lessI) auto
  show b1: "- (2 ^ 62) \<le> sec div stp"
  proof (cases "sec < 0")
    case True
    then have "sec div 1 \<le> sec div stp" using assms by (intro zdiv_mono2_neg) auto
    then show ?thesis using assms by simp
  next
    case False
    then have "0 \<le> sec div stp" using assms by (simp add: pos_imp_zdiv_nonneg_iff)
    then show ?thesis by simp
  qed
  have "\<bar>sec\<bar> div stp \<le> \<bar>sec\<bar>" using assms by (intro int_div_le_self) auto
  moreover have "0 \<le> \<bar>sec\<bar> div stp" using assms by (simp add: pos_imp_zdiv_nonneg_iff)
  moreover have "sec sdiv stp = sgn sec * (\<bar>sec\<bar> div stp)" using assms by (simp add: signed_divide_int_def)
  moreover have "\<bar>sec\<bar> \<le> 2 ^ 62" using assms by simp
  ultimately have "\<bar>sec sdiv stp\<bar> \<le> 2 ^ 62"
    by (metis abs_mult abs_of_nonneg abs_sgn_eq mult_cancel_right1 mult_zero_left order_trans zero_le_power zero_le_numeral)
  then have w: "wrap64 (sec sdiv stp) = sec sdiv stp" "wrap64 (sec sdiv stp - 1) = sec sdiv stp - 1"
    by simp_all
  then show "floorSlots sec stp = sec div stp"
    using go_floor_idiom [OF assms(3), of sec]
    by (auto simp: floorSlots_def go_arith Let_def split: if_splits)
qed

lemma rotationSlot_eq:
  assumes "sane_time now" and "whole_seconds t" and "0 < n" and "n < 2 ^ 31"
  shows "rotationSlot now t n = (now div t) mod n"
proof -
  let ?s = "t div Second"
  note W = whole_secondsD [OF assms(2)]
  have sec: "- (2 ^ 62) \<le> unix_sec now" "unix_sec now < 2 ^ 62"
    using assms(1) by (simp_all add: sane_time_def)
  note fl = floorSlots_div [OF sec W(2,4)]
  have "unix_sec now div ?s = now div (1000000000 * ?s)"
    by (simp add: unix_sec_def zdiv_zmult2_eq W(2) less_imp_le)
  then have slots: "unix_sec now div ?s = now div t"
    using W(3) by (simp add: Second_def mult.commute)
  have m: "- n < (now div t) smod n" "(now div t) smod n < n" using smod_bounds [OF assms(3)] by auto
  have "wrap64 ((now div t) smod n + n) = (now div t) smod n + n" using m assms(4) by simp
  then have "i64_mod (i64_add (i64_mod (floorSlots (unix_sec now) ?s) n) n) n = (now div t) mod n"
    using go_mod_idiom [OF assms(3), of "now div t"] by (simp add: i64_mod_def i64_add_def fl(1) slots)
  moreover have "wrap32 ((now div t) mod n) = (now div t) mod n"
  proof (rule wrap32_id)
    show "- 2147483648 \<le> now div t mod n" using assms(3) pos_mod_sign [of n "now div t"] by linarith
    have "n < 2147483648" using assms(4) by simp
    then show "now div t mod n < 2147483648" using assms(3) pos_mod_bound [of n "now div t"] by linarith
  qed
  ultimately show ?thesis using assms(3) W(2) by (simp add: rotationSlot_def W(1) Let_def)
qed

lemma nextSlotBoundary_eq:
  assumes "sane_time now" and "whole_seconds t"
  shows "nextSlotBoundary now t = t - now mod t"
proof -
  let ?s = "t div Second" and ?sec = "unix_sec now"
  note W = whole_secondsD [OF assms(2)]
  have t: "0 < t" "t < 2 ^ 63" using assms(2) by (simp_all add: whole_seconds_def)
  have sec: "- (2 ^ 62) \<le> ?sec" "?sec < 2 ^ 62" using assms(1) by (simp_all add: sane_time_def)
  note fl = floorSlots_div [OF sec W(2,4)]
  have r: "?sec - ?sec div ?s * ?s = ?sec mod ?s" by (simp add: minus_div_mult_eq_mod)
  have rb: "0 \<le> ?sec mod ?s" "?sec mod ?s < ?s" using W(2) by simp_all
  have sb: "?sec div ?s * ?s \<le> ?sec" "?sec - ?s < ?sec div ?s * ?s" using r rb by linarith+
  have "?sec mod ?s * Second < t"
    using rb W(3) by (metis Second_def mult_strict_right_mono zero_less_numeral)
  moreover have n: "0 \<le> nanosecond now" "nanosecond now < Second"
    using nanosecond_bounds by (simp_all add: Second_def)
  moreover have "?sec mod ?s * Second + Second \<le> t"
    using mult_right_mono [of "?sec mod ?s + 1" ?s Second] rb W(3) by (simp add: Second_def algebra_simps)
  ultimately have el: "0 \<le> ?sec mod ?s * Second + nanosecond now" "?sec mod ?s * Second + nanosecond now < t"
    using rb by (simp_all add: Second_def)
  have "now = (?sec div ?s) * t + (?sec mod ?s * Second + nanosecond now)"
  proof -
    have "(?sec div ?s) * t = (?sec div ?s * ?s) * Second" using W(3) by (metis mult.assoc)
    moreover have "?sec div ?s * ?s = ?sec - ?sec mod ?s" by (simp add: minus_mod_eq_div_mult)
    ultimately have "(?sec div ?s) * t + ?sec mod ?s * Second = ?sec * Second"
      by (simp add: left_diff_distrib)
    then show ?thesis using unix_split [of now] by (simp add: Second_def)
  qed
  then have "now mod t = ?sec mod ?s * Second + nanosecond now"
    using el t by (metis add.commute mod_mult_self1 mod_pos_pos_trivial mult.commute)
  moreover have "nextSlotBoundary now t = t - (?sec mod ?s * Second + nanosecond now)"
  proof -
    have w1: "wrap64 (?sec div ?s * ?s) = ?sec div ?s * ?s" using sb sec W(2,4) by simp
    have w2: "wrap64 (?sec mod ?s) = ?sec mod ?s" using rb W(4) by simp
    have w3: "wrap64 (?sec mod ?s * Second) = ?sec mod ?s * Second" using \<open>?sec mod ?s * Second < t\<close> rb t
      by (simp add: Second_def)
    have w4: "wrap64 (?sec mod ?s * Second + nanosecond now) = ?sec mod ?s * Second + nanosecond now"
      using el t by simp
    have w5: "wrap64 t = t" and w6: "wrap64 (t - (?sec mod ?s * Second + nanosecond now)) = t - (?sec mod ?s * Second + nanosecond now)"
      using el t by simp_all
    show ?thesis
      using W(2) by (simp add: nextSlotBoundary_def W(1,3) Let_def i64_add_def i64_mul_def i64_sub_def fl(1) r w1 w2 w3 w4 w5 w6)
  qed
  ultimately show ?thesis by simp
qed

section \<open>The walk\<close>

lemma go_mod_eq: "0 < n \<Longrightarrow> n \<le> 2 ^ 30 \<Longrightarrow> go_mod x n = x mod n"
proof -
  assume n: "0 < n" "n \<le> 2 ^ 30"
  have "wrap32 (x smod n + n) = x smod n + n"
    using smod_bounds [OF n(1), of x] n by simp
  then show ?thesis using go_mod_idiom [OF n(1), of x] by (simp add: go_mod_def i32_mod_def i32_add_def)
qed

text \<open>The offsets in the order the walk offers them.\<close>

definition walk :: "int32 \<Rightarrow> int32 \<Rightarrow> int \<Rightarrow> int32" where
  "walk n v k = (if v mod n = 0 then 1 else v mod n) + k * (if v < 0 then - 1 else 1)"

lemma writeTarget_eq:
  assumes "0 < n" and "n \<le> 2 ^ 30"
  shows "writeTarget slot n v el =
    (case find (\<lambda>k. walk n v k mod n \<noteq> 0 \<and> el ((slot + walk n v k) mod n)) [0..n - 1] of
       Some k \<Rightarrow> Some ((slot + walk n v k) mod n)
     | None \<Rightarrow> if el (slot mod n) then Some (slot mod n) else None)"
proof -
  note G = go_mod_eq [OF assms]
  define w where "w = (if v mod n = 0 then 1 else v mod n)"
  define d where "d = (if v < 0 then - 1 else 1 :: int)"
  have mb: "0 \<le> v mod n" "v mod n < n" using assms(1) by simp_all
  then have w: "1 \<le> w" "w \<le> 2 ^ 30"
    using assms unfolding w_def by (cases "v mod n = 0"; linarith | simp)+
  have d: "d = 1 \<or> d = - 1" by (simp add: d_def)
  have off: "go_mod (i32_add w (i32_mul k d)) n = walk n v k mod n" if "k \<in> set [0..n - 1]" for k
  proof -
    have k: "0 \<le> k" "k < 2 ^ 30" using that assms by auto
    then have "i32_mul k d = k * d" using d by (auto simp: i32_mul_def)
    moreover have "wrap32 (w + k * d) = w + k * d" using d k w by auto
    ultimately show ?thesis by (simp add: i32_add_def G walk_def w_def d_def)
  qed
  have ord: "i32_mod (i32_add (slot mod n) (walk n v k mod n)) n = (slot + walk n v k) mod n" for k
  proof -
    have b: "0 \<le> slot mod n" "slot mod n < n" "0 \<le> walk n v k mod n" "walk n v k mod n < n"
      using assms(1) by simp_all
    moreover have "n \<le> 1073741824" using assms(2) by simp
    ultimately have "wrap32 (slot mod n + walk n v k mod n) = slot mod n + walk n v k mod n"
      by (intro wrap32_id) linarith+
    moreover have "(slot mod n + walk n v k mod n) smod n = (slot mod n + walk n v k mod n) mod n"
      using b assms(1) by simp
    ultimately show ?thesis by (simp add: i32_mod_def i32_add_def mod_add_eq)
  qed
  have f: "find (\<lambda>k. go_mod (i32_add w (i32_mul k d)) n \<noteq> 0 \<and>
        el (i32_mod (i32_add (slot mod n) (go_mod (i32_add w (i32_mul k d)) n)) n)) [0..n - 1] =
      find (\<lambda>k. walk n v k mod n \<noteq> 0 \<and> el ((slot + walk n v k) mod n)) [0..n - 1]"
    by (rule find_cong) (auto simp: off ord)
  have "writeTarget slot n v el =
      (case find (\<lambda>k. go_mod (i32_add w (i32_mul k d)) n \<noteq> 0 \<and>
        el (i32_mod (i32_add (slot mod n) (go_mod (i32_add w (i32_mul k d)) n)) n)) [0..n - 1] of
       Some k \<Rightarrow> Some (i32_mod (i32_add (slot mod n) (go_mod (i32_add w (i32_mul k d)) n)) n)
     | None \<Rightarrow> if el (slot mod n) then Some (slot mod n) else None)"
    unfolding writeTarget_def Let_def G [of slot] G [of v] w_def [symmetric] d_def [symmetric]
    using assms(1) by (subst if_not_P) (simp, rule refl)
  also have "\<dots> = (case find (\<lambda>k. walk n v k mod n \<noteq> 0 \<and> el ((slot + walk n v k) mod n)) [0..n - 1] of
       Some k \<Rightarrow> Some ((slot + walk n v k) mod n)
     | None \<Rightarrow> if el (slot mod n) then Some (slot mod n) else None)"
    unfolding f by (auto split: option.splits dest!: find_Some_in simp: off ord)
  finally show ?thesis .
qed

lemma walk_covers:
  assumes "0 < n" and "0 \<le> i" and "i < n" and "i \<noteq> slot mod n"
  shows "\<exists>k \<in> set [0..n - 1]. walk n v k mod n \<noteq> 0 \<and> (slot + walk n v k) mod n = i"
proof -
  define w where "w = (if v mod n = 0 then 1 else v mod n)"
  define d where "d = (if v < 0 then - 1 else 1 :: int)"
  define k where "k = (d * (i - slot - w)) mod n"
  have k: "k \<in> set [0..n - 1]" using assms(1) by (simp add: k_def)
  have dd: "d * d = 1" by (simp add: d_def)
  have "(w + k * d) mod n = (w + d * (i - slot - w) * d) mod n"
    unfolding k_def by (metis mod_add_right_eq mod_mult_left_eq)
  also have "d * (i - slot - w) * d = i - slot - w" using dd by (simp add: algebra_simps mult.assoc [symmetric])
  finally have e: "walk n v k mod n = (i - slot) mod n" by (simp add: walk_def w_def d_def)
  then have "(slot + walk n v k) mod n = i"
    using assms by (metis add.commute diff_add_cancel mod_add_left_eq mod_pos_pos_trivial)
  moreover have "walk n v k mod n \<noteq> 0"
  proof
    assume "walk n v k mod n = 0"
    then have "(slot + walk n v k) mod n = slot mod n" by (metis add.right_neutral mod_add_right_eq)
    with calculation assms(4) show False by simp
  qed
  ultimately show ?thesis using k by blast
qed

section \<open>Properties\<close>

lemma writeTarget_spec:
  assumes "0 < n" and "n \<le> 2 ^ 30"
  shows "case writeTarget slot n v eligible of
      None \<Rightarrow> \<forall>i. 0 \<le> i \<and> i < n \<longrightarrow> \<not> eligible i
    | Some w \<Rightarrow> 0 \<le> w \<and> w < n \<and> eligible w \<and>
        (w = slot mod n \<longrightarrow> (\<forall>i. 0 \<le> i \<and> i < n \<and> i \<noteq> w \<longrightarrow> \<not> eligible i)) \<and>
        (v mod n \<noteq> 0 \<and> eligible ((slot + v) mod n) \<longrightarrow> w = (slot + v) mod n)"
proof -
  let ?P = "\<lambda>k. walk n v k mod n \<noteq> 0 \<and> eligible ((slot + walk n v k) mod n)"
  note E = writeTarget_eq [OF assms, of slot v eligible]
  have slotb: "0 \<le> slot mod n" "slot mod n < n" using assms by simp_all
  have first: "(slot + walk n v 0) mod n = (slot + v) mod n" "walk n v 0 mod n \<noteq> 0" if "v mod n \<noteq> 0"
    using that by (simp_all add: walk_def mod_add_right_eq)
  have up: "[0..n - 1] = 0 # [1..n - 1]" using assms by (simp add: upto.simps)
  show ?thesis
  proof (cases "find ?P [0..n - 1]")
    case None
    have none: "\<not> eligible i" if i: "0 \<le> i" "i < n" "i \<noteq> slot mod n" for i
    proof -
      obtain k where "k \<in> set [0..n - 1]" "walk n v k mod n \<noteq> 0" "(slot + walk n v k) mod n = i"
        using walk_covers [OF assms(1) i, of v] by blast
      with None show ?thesis unfolding find_None_all by blast
    qed
    moreover have "\<not> (v mod n \<noteq> 0 \<and> eligible ((slot + v) mod n))"
      using None up first by (auto split: if_splits)
    ultimately show ?thesis unfolding E None using slotb by auto
  next
    case (Some k)
    then have k: "walk n v k mod n \<noteq> 0" "eligible ((slot + walk n v k) mod n)"
      using find_Some_in [OF Some] by auto
    have "(slot + walk n v k) mod n \<noteq> slot mod n"
      using k(1) by (metis add_diff_cancel_left' diff_self mod_0 mod_diff_cong)
    moreover have "v mod n \<noteq> 0 \<and> eligible ((slot + v) mod n) \<Longrightarrow> k = 0"
      using Some up first by auto
    ultimately show ?thesis unfolding E Some using k assms(1) first by auto
  qed
qed

lemma writeTarget_preferred:
  assumes "0 < n" and "n \<le> 2 ^ 30" and "v mod n \<noteq> 0" and "eligible ((slot + v) mod n)"
  shows "writeTarget slot n v eligible = Some ((slot + v) mod n)"
proof (cases "writeTarget slot n v eligible")
  case None
  then have "\<forall>i. 0 \<le> i \<and> i < n \<longrightarrow> \<not> eligible i"
    using writeTarget_spec [OF assms(1,2), where slot = slot and v = v and eligible = eligible] by simp
  then show ?thesis using assms(4) pos_mod_bound [OF assms(1), of "slot + v"] pos_mod_sign [OF assms(1), of "slot + v"]
    by blast
next
  case (Some w)
  then show ?thesis
    using writeTarget_spec [OF assms(1,2), where slot = slot and v = v and eligible = eligible] assms(3,4) by simp
qed

text \<open>
  The write endpoint's choice: for any grid of up to 2^30 pods it fails only when no pod is
  eligible; the pod it picks is eligible and in range; it is the purging pod only when no other pod
  is eligible; and it is the pod that purges v slots later whenever that pod is eligible and is not
  the purging one.
\<close>

theorem write_target_choice:
  assumes "0 < n" and "n \<le> 2 ^ 30"
  shows "case writeTarget slot n v eligible of
      None \<Rightarrow> \<forall>i. 0 \<le> i \<and> i < n \<longrightarrow> \<not> eligible i
    | Some w \<Rightarrow> 0 \<le> w \<and> w < n \<and> eligible w \<and>
        (w = slot mod n \<longrightarrow> (\<forall>i. 0 \<le> i \<and> i < n \<and> i \<noteq> w \<longrightarrow> \<not> eligible i)) \<and>
        (v mod n \<noteq> 0 \<and> eligible ((slot + v) mod n) \<longrightarrow> w = (slot + v) mod n)"
  by (rule writeTarget_spec [OF assms])

lemma purgePhase_eq:
  assumes "whole_seconds t" and "n * t < 2 ^ 63" and "0 \<le> k" and "k < n"
  shows "purgePhase k n t = k * t"
proof -
  have t: "0 < t" using assms(1) by (simp add: whole_seconds_def)
  have "k * t \<le> n * t" using assms t by (intro mult_right_mono) auto
  moreover have "0 \<le> k * t" using assms t by simp
  ultimately have "wrap64 (k * t) = k * t" using assms(2) by (intro wrap64_id) auto
  then show ?thesis using assms t by (auto simp: purgePhase_def i64_mul_def)
qed

text \<open>
  Phase and slot are one grid: with a slot length of whole seconds and a period that fits, the
  current slot is k exactly while the clock is inside pod k's purge window, the t that starts at
  purgePhase(k) of some period counted from the epoch.
\<close>

theorem slot_phase_correspondence:
  assumes "sane_time now" and "whole_seconds t" and "n < 2 ^ 31" and "n * t < 2 ^ 63"
    and "0 \<le> k" and "k < n"
  shows "rotationSlot now t n = k \<longleftrightarrow>
    (\<exists>q. q * (n * t) + purgePhase k n t \<le> now \<and> now < q * (n * t) + purgePhase k n t + t)"
proof -
  have n: "0 < n" using assms by simp
  have t: "0 < t" using assms(2) by (simp add: whole_seconds_def)
  have ph: "purgePhase k n t = k * t" by (rule purgePhase_eq [OF assms(2,4,5,6)])
  have "rotationSlot now t n = k \<longleftrightarrow> (now div t) mod n = k"
    by (simp add: rotationSlot_eq [OF assms(1,2) n assms(3)])
  also have "\<dots> \<longleftrightarrow> (\<exists>q. now div t = q * n + k)"
    using assms(5,6) n by (metis add.commute div_mult_mod_eq mod_mult_self3 mod_pos_pos_trivial)
  also have "\<dots> \<longleftrightarrow> (\<exists>q. q * (n * t) + k * t \<le> now \<and> now < q * (n * t) + k * t + t)"
    unfolding int_div_eq_iff [OF t] by (simp add: algebra_simps)
  finally show ?thesis unfolding ph .
qed

theorem write_target_choice_witness:
  "writeTarget 1 4 (- 1) (\<lambda>i. i = 1 \<or> i = 3) = Some 3 \<and> writeTarget 1 4 (- 1) (\<lambda>i. i = 1) = Some 1"
proof -
  have a: "writeTarget 1 4 (- 1) (\<lambda>i. i = 1 \<or> i = 3) = Some 3"
    and b: "writeTarget 1 4 (- 1) (\<lambda>i. i = 1) = Some 1" by code_simp+
  show ?thesis
    using a b write_target_choice [where n = 4 and slot = 1 and v = "- 1" and eligible = "\<lambda>i. i = 1 \<or> i = 3"]
    by simp
qed

theorem slot_phase_correspondence_witness:
  "rotationSlot (50400 * Second) (21600 * Second) 3 = 2 \<and> purgePhase 2 3 (21600 * Second) = 43200 * Second \<and>
   (\<exists>q. q * (3 * (21600 * Second)) + purgePhase 2 3 (21600 * Second) \<le> 50400 * Second \<and>
      50400 * Second < q * (3 * (21600 * Second)) + purgePhase 2 3 (21600 * Second) + 21600 * Second)"
proof -
  have "sane_time (50400 * Second)" "whole_seconds (21600 * Second)"
    by (simp_all add: sane_time_def whole_seconds_def Second_def unix_sec_def)
  moreover have r: "rotationSlot (50400 * Second) (21600 * Second) 3 = 2"
    and "purgePhase 2 3 (21600 * Second) = 43200 * Second" by code_simp+
  ultimately show ?thesis
    using slot_phase_correspondence [of "50400 * Second" "21600 * Second" 3 2] by (simp add: Second_def)
qed

section \<open>The boundary\<close>

lemma time_div_Second: "(t div Second) * Second \<le> t" "0 \<le> t \<Longrightarrow> 0 \<le> t div Second"
  using int_div_mult_le [of Second t] by (simp_all add: Second_def pos_imp_zdiv_nonneg_iff)

lemma nextSlotBoundary_floor:
  "0 \<le> t \<Longrightarrow> t < 2 ^ 63 \<Longrightarrow> nextSlotBoundary now t = nextSlotBoundary now (t div Second * Second)"
proof -
  assume t: "0 \<le> t" "t < 2 ^ 63"
  have b: "0 \<le> t div Second" "t div Second * Second \<le> t" "t div Second \<le> t"
    using t time_div_Second [of t] int_div_le_self [of Second t] by (simp_all add: Second_def)
  then have "i64_div t Second = t div Second" "i64_div (t div Second * Second) Second = t div Second"
    using t by (simp_all add: i64_div_def Second_def)
  then show ?thesis by (simp add: nextSlotBoundary_def)
qed

lemma nextSlotBoundary_pos:
  assumes "sane_time now" and "- (2 ^ 63) \<le> t" and "t < 2 ^ 63"
  shows "0 < nextSlotBoundary now t"
proof (cases "Second \<le> t")
  case True
  then have "0 < t div Second" by (simp add: Second_def pos_imp_zdiv_pos_iff)
  then have w: "whole_seconds (t div Second * Second)"
    using assms(3) time_div_Second(1) [of t] by (simp add: whole_seconds_def Second_def)
  have "0 < t div Second * Second" using w by (simp add: whole_seconds_def)
  then have "now mod (t div Second * Second) < t div Second * Second" by simp
  moreover have "0 \<le> t" using True by (simp add: Second_def)
  ultimately show ?thesis
    using nextSlotBoundary_floor [of t now] nextSlotBoundary_eq [OF assms(1) w] assms(3) by linarith
next
  case False
  then have "i64_div t Second \<le> 0"
  proof (cases "0 \<le> t")
    case True
    then have "t div Second = 0" using False by (intro div_pos_pos_trivial) auto
    with True show ?thesis by (simp add: i64_div_def Second_def)
  next
    case neg: False
    have "\<bar>t\<bar> div Second \<le> \<bar>t\<bar>" "0 \<le> \<bar>t\<bar> div Second"
      using int_div_le_self [of Second "\<bar>t\<bar>"] by (simp_all add: Second_def pos_imp_zdiv_nonneg_iff)
    moreover have "t sdiv Second = - (\<bar>t\<bar> div Second)"
      using neg by (simp add: signed_divide_int_def Second_def)
    ultimately have "wrap64 (t sdiv Second) \<le> 0" using assms(2) neg by (simp add: wrap64_id)
    then show ?thesis by (simp add: i64_div_def)
  qed
  then show ?thesis by (simp add: nextSlotBoundary_def Second_def)
qed

lemma nextSlotBoundary_grid:
  assumes "sane_time now" and "whole_seconds t"
  shows "let r = nextSlotBoundary now t in
    r \<le> t \<and> (now + r) mod t = 0 \<and> (\<forall>d. 0 < d \<and> d < r \<longrightarrow> (now + d) mod t \<noteq> 0) \<and>
    (0 < n \<and> n < 2 ^ 31 \<and> sane_time (now + r) \<longrightarrow>
       rotationSlot (now + r) t n = (rotationSlot now t n + 1) mod n)"
proof -
  have w: "whole_seconds t" by (rule assms)
  then have t: "0 < t" by (simp add: whole_seconds_def)
  define m where "m = now mod t"
  have m: "0 \<le> m" "m < t" and now: "now = now div t * t + m" using t by (simp_all add: m_def)
  have r: "nextSlotBoundary now t = t - m" by (simp add: nextSlotBoundary_eq [OF assms(1) w] m_def)
  have sum: "now + (t - m) = (now div t + 1) * t" using now by (simp add: algebra_simps)
  have "(now + d) mod t = m + d" if "0 < d" "d < t - m" for d
  proof -
    have "(now + d) mod t = (m + d) mod t" unfolding m_def by (simp add: mod_add_left_eq)
    then show ?thesis using that m by simp
  qed
  moreover have "rotationSlot (now + (t - m)) t n = (rotationSlot now t n + 1) mod n"
    if "0 < n" "n < 2 ^ 31" "sane_time (now + (t - m))"
  proof -
    have "rotationSlot (now + (t - m)) t n = (now div t + 1) mod n"
      using rotationSlot_eq [OF that(3) w that(1,2)] t by (simp add: sum)
    then show ?thesis using rotationSlot_eq [OF assms(1) w that(1,2)] by (simp add: mod_add_left_eq)
  qed
  ultimately show ?thesis unfolding Let_def r using m by (simp add: sum)
qed

text \<open>
  The requeue is never zero and never overshoots: for every representable slot length the time
  to the next boundary is positive; for a slot length of whole seconds it is at most one slot, it
  lands exactly on the first boundary after now, and there the grid has advanced by exactly one pod.
\<close>

theorem next_boundary_exact:
  assumes "sane_time now" and "- (2 ^ 63) \<le> t" and "t < 2 ^ 63"
  shows "0 < nextSlotBoundary now t \<and>
    (whole_seconds t \<longrightarrow>
      (let r = nextSlotBoundary now t in
       r \<le> t \<and> (now + r) mod t = 0 \<and> (\<forall>d. 0 < d \<and> d < r \<longrightarrow> (now + d) mod t \<noteq> 0) \<and>
       (0 < n \<and> n < 2 ^ 31 \<and> sane_time (now + r) \<longrightarrow>
          rotationSlot (now + r) t n = (rotationSlot now t n + 1) mod n)))"
  using nextSlotBoundary_pos [OF assms] nextSlotBoundary_grid [OF assms(1)] by blast

theorem next_boundary_exact_witness:
  "nextSlotBoundary (50401 * Second) (21600 * Second) = 14399 * Second \<and>
   (50401 * Second + 14399 * Second) mod (21600 * Second) = 0"
proof -
  have w: "sane_time (50401 * Second)" "whole_seconds (21600 * Second)"
    by (simp_all add: sane_time_def whole_seconds_def Second_def unix_sec_def)
  have "nextSlotBoundary (50401 * Second) (21600 * Second) = 14399 * Second" by code_simp
  with next_boundary_exact [OF w(1), of "21600 * Second" 3] w(2) show ?thesis
    by (simp add: Let_def Second_def)
qed

section \<open>The purge value\<close>

text \<open>The reading of the server's \<open>[ddd+]hh:mm:ss\<close> format, in seconds.\<close>

definition hms_secs :: "string \<Rightarrow> nat" where
  "hms_secs s = (case split_on CHR '':'' s of
     [h, m, x] \<Rightarrow> 3600 * dec_val 0 h + 60 * dec_val 0 m + dec_val 0 x | _ \<Rightarrow> 0)"

definition log_age_secs :: "string \<Rightarrow> nat" where
  "log_age_secs s = (case split_on CHR ''+'' s of
     [a] \<Rightarrow> hms_secs a | [d, a] \<Rightarrow> 86400 * dec_val 0 d + hms_secs a | _ \<Rightarrow> 0)"

lemma pad2_digits: "\<forall>c \<in> set (pad2 n). is_digit c"
  using dec_digits [of n] by (auto simp: pad2_def is_digit_def)

lemma dec_val_pad2 [simp]: "dec_val 0 (pad2 n) = n"
  by (simp add: pad2_def digit_val_def)

lemma digits_free: "\<forall>c \<in> set s. is_digit c \<Longrightarrow> \<not> is_digit x \<Longrightarrow> x \<notin> set s"
  by auto

definition hms :: "nat \<Rightarrow> nat \<Rightarrow> nat \<Rightarrow> string" where
  "hms h m x = pad2 h @ '':'' @ pad2 m @ '':'' @ pad2 x"

lemma hms_secs_hms: "hms_secs (hms h m x) = 3600 * h + 60 * m + x"
proof -
  have c: "CHR '':'' \<notin> set (pad2 k)" for k by (rule digits_free [OF pad2_digits]) simp
  have "split_on CHR '':'' (hms h m x) = [pad2 h, pad2 m, pad2 x]"
    by (simp add: hms_def split_on_append split_on_free c)
  then show ?thesis by (simp add: hms_secs_def)
qed

lemma hms_free: "\<not> is_digit c \<Longrightarrow> c \<noteq> CHR '':'' \<Longrightarrow> c \<notin> set (hms h m x)"
  using digits_free [OF pad2_digits] by (simp add: hms_def)

text \<open>The rendering, with the arithmetic done: days only when there are any.\<close>

lemma formatLogAge_eq:
  assumes "0 \<le> d" and "d < 2 ^ 63"
  shows "formatLogAge d =
    (let s = nat (d div Second) in
     (if 86400 \<le> s then dec (s div 86400) @ ''+'' else []) @
     hms (s mod 86400 div 3600) (s mod 86400 mod 3600 div 60) (s mod 86400 mod 60))"
proof -
  define s where "s = d div Second"
  have s: "0 \<le> s" "s < 2 ^ 62"
    using assms int_div_lessI [of Second d "2 ^ 62"]
    by (simp_all add: s_def Second_def pos_imp_zdiv_nonneg_iff)
  have e1: "i64_div d Second = s"
    using assms s by (simp add: i64_div_def s_def Second_def)
  have dv: "i64_div x k = x div k" "i64_mod x k = x mod k" if "0 \<le> x" "x < 2 ^ 62" "0 < k" for x k
  proof -
    have "0 \<le> x div k" "x div k \<le> x" using that int_div_le_self [of k x] by (simp_all add: pos_imp_zdiv_nonneg_iff)
    then have "wrap64 (x div k) = x div k" using that(2) by (intro wrap64_id) simp_all
    then show "i64_div x k = x div k" "i64_mod x k = x mod k"
      using that by (simp_all add: i64_div_def i64_mod_def)
  qed
  have m: "0 \<le> s mod 86400" "s mod 86400 < 86400" "0 \<le> s mod 86400 mod 3600" "s mod 86400 mod 3600 < 3600"
    by simp_all
  have f: "fmt02d (x div k) = pad2 (nat x div nat k)" "fmt02d (x mod k) = pad2 (nat x mod nat k)"
    if "0 \<le> x" "0 < k" for x k
  proof -
    have "\<not> x div k < 0" using that by (simp add: pos_imp_zdiv_neg_iff)
    moreover have "\<not> x mod k < 0" using that(2) unfolding not_less by (rule pos_mod_sign)
    ultimately show "fmt02d (x div k) = pad2 (nat x div nat k)" "fmt02d (x mod k) = pad2 (nat x mod nat k)"
      using that unfolding fmt02d_def by (auto simp: nat_div_distrib nat_mod_distrib)
  qed
  have days: "0 < s div 86400 \<longleftrightarrow> 86400 \<le> nat s" using s by (simp add: pos_imp_zdiv_pos_iff le_nat_iff)
  have "itoa (s div 86400) = dec (nat s div 86400)"
    using s by (simp add: itoa_def pos_imp_zdiv_nonneg_iff nat_div_distrib not_less)
  moreover have "formatLogAge d =
      (if 0 < s div 86400 then itoa (s div 86400) @ ''+'' else []) @
      fmt02d (s mod 86400 div 3600) @ '':'' @ fmt02d (s mod 86400 mod 3600 div 60) @ '':'' @ fmt02d (s mod 86400 mod 60)"
    using assms s m by (simp add: formatLogAge_def e1 dv Let_def not_less)
  ultimately show ?thesis
    using s m by (simp add: f days hms_def Let_def s_def [symmetric] nat_mod_distrib)
qed

lemma log_age_round_trip:
  assumes "0 \<le> d" and "d < 2 ^ 63"
  shows "log_age_secs (formatLogAge d) = nat (d div Second)"
proof -
  define s where "s = nat (d div Second)"
  let ?h = "hms (s mod 86400 div 3600) (s mod 86400 mod 3600 div 60) (s mod 86400 mod 60)"
  have h: "hms_secs ?h = s mod 86400"
  proof -
    have "s mod 86400 mod 60 = s mod 86400 mod 3600 mod 60" by (simp add: mod_mod_cancel)
    moreover have "60 * (s mod 86400 mod 3600 div 60) + s mod 86400 mod 3600 mod 60 = s mod 86400 mod 3600"
      by (rule mult_div_mod_eq)
    moreover have "3600 * (s mod 86400 div 3600) + s mod 86400 mod 3600 = s mod 86400"
      by (rule mult_div_mod_eq)
    ultimately show ?thesis unfolding hms_secs_hms by linarith
  qed
  have free: "CHR ''+'' \<notin> set ?h" by (rule hms_free) simp_all
  have dfree: "CHR ''+'' \<notin> set (dec k)" for k by (rule dec_no_char) simp
  show ?thesis
  proof (cases "86400 \<le> s")
    case True
    then have "formatLogAge d = dec (s div 86400) @ CHR ''+'' # ?h"
      using formatLogAge_eq [OF assms] by (simp add: s_def [symmetric] Let_def)
    then have "log_age_secs (formatLogAge d) = 86400 * (s div 86400) + s mod 86400"
      by (simp add: log_age_secs_def split_on_append split_on_free dfree free h)
    then show ?thesis by (simp add: s_def)
  next
    case False
    then have "formatLogAge d = ?h"
      using formatLogAge_eq [OF assms] by (simp add: s_def [symmetric] Let_def)
    then have "log_age_secs (formatLogAge d) = s mod 86400"
      by (simp add: log_age_secs_def split_on_free free h)
    then show ?thesis using False by (simp add: s_def)
  qed
qed

lemma formatLogAge_no_space: "0 \<le> d \<Longrightarrow> d < 2 ^ 63 \<Longrightarrow> CHR '' '' \<notin> set (formatLogAge d)"
  using hms_free [of "CHR '' ''"] dec_no_char [of "CHR '' ''"]
  by (simp add: formatLogAge_eq Let_def)

text \<open>
  The value written to olcAccessLogPurge is the one meant: with retention, slot length and
  period in range, pod k's value has exactly the three fields retention, interval and phase, each
  reading back to its seconds, and the phase is below the interval as the server demands; without a
  phase it has the two fields only.
\<close>

theorem purge_value_readable:
  assumes "0 < retention" and "retention < 2 ^ 63" and "whole_seconds t" and "n * t < 2 ^ 63"
    and "0 \<le> k" and "k < n"
  shows "map log_age_secs (split_on CHR '' '' (composePurge retention (n * t) (Some (purgePhase k n t)))) =
      [nat (retention div Second), nat (n * t div Second), nat (k * t div Second)] \<and>
    k * t div Second < n * t div Second \<and>
    map log_age_secs (split_on CHR '' '' (composePurge retention (n * t) None)) =
      [nat (retention div Second), nat (n * t div Second)]"
proof -
  have t: "0 < t" using assms(3) by (simp add: whole_seconds_def)
  have nt: "0 < n * t" "k * t < n * t" "0 \<le> k * t" using assms t by (simp_all add: mult_strict_right_mono)
  have ph: "purgePhase k n t = k * t" by (rule purgePhase_eq [OF assms(3-6)])
  have sp: "CHR '' '' \<notin> set (formatLogAge d)" and rt: "log_age_secs (formatLogAge d) = nat (d div Second)"
    if "d \<in> {retention, n * t, k * t}" for d
  proof -
    have "0 \<le> d \<and> d < 2 ^ 63" using that assms(1,2,4) nt by auto
    then show "CHR '' '' \<notin> set (formatLogAge d)" "log_age_secs (formatLogAge d) = nat (d div Second)"
      using formatLogAge_no_space log_age_round_trip by blast+
  qed
  have "composePurge retention (n * t) (Some (k * t)) =
      formatLogAge retention @ CHR '' '' # formatLogAge (n * t) @ CHR '' '' # formatLogAge (k * t)"
    "composePurge retention (n * t) None = formatLogAge retention @ CHR '' '' # formatLogAge (n * t)"
    using assms(1) nt by (simp_all add: composePurge_def)
  moreover have "k * t div Second < n * t div Second"
  proof -
    obtain s where s: "t = s * Second" using assms(3) by (metis whole_secondsD(3))
    then have "k * t div Second = k * s" "n * t div Second = n * s" "0 < s"
      using t by (simp_all add: Second_def zero_less_mult_iff)
    then show ?thesis using assms(6) by (simp add: mult_strict_right_mono)
  qed
  ultimately show ?thesis by (simp add: ph split_on_append split_on_free sp rt)
qed

theorem purge_value_readable_witness:
  "composePurge (604800 * Second) (3 * (21600 * Second)) (Some (purgePhase 2 3 (21600 * Second))) =
     ''7+00:00:00 18:00:00 12:00:00'' \<and>
   map log_age_secs (split_on CHR '' ''
     (composePurge (604800 * Second) (3 * (21600 * Second)) (Some (purgePhase 2 3 (21600 * Second))))) =
     [604800, 64800, 43200]"
proof -
  have "whole_seconds (21600 * Second)" by (simp add: whole_seconds_def Second_def)
  from purge_value_readable [OF _ _ this, of "604800 * Second" 3 2]
  have "map log_age_secs (split_on CHR '' ''
     (composePurge (604800 * Second) (3 * (21600 * Second)) (Some (purgePhase 2 3 (21600 * Second))))) =
     [604800, 64800, 43200]" by (simp add: Second_def)
  moreover have "composePurge (604800 * Second) (3 * (21600 * Second)) (Some (purgePhase 2 3 (21600 * Second))) =
     ''7+00:00:00 18:00:00 12:00:00''" by code_simp
  ultimately show ?thesis by blast
qed

section \<open>Where the writes land while a pod purges\<close>

text \<open>
  The pod displaced by v from the slot read one lead ahead: no purge of it starts before the lead
  and v - 1 further slots are over, and the last one started at least n - v slots before that point.
\<close>

lemma displaced_purge_starts:
  assumes "sane_time (now + lead)" and "whole_seconds t" and "0 < n" and "n \<le> 2 ^ 30"
    and "j mod n = (writerSlot now lead t n + v) mod n"
  shows "now + lead + (v - 1) * t < j * t \<or> j * t + (n - v) * t \<le> now + lead"
proof -
  let ?m = "(now + lead) div t"
  have t: "0 < t" using assms(2) by (simp add: whole_seconds_def)
  have "writerSlot now lead t n = ?m mod n"
    using rotationSlot_eq [OF assms(1,2,3)] assms(4) by (simp add: writerSlot_def time_add_def)
  then have "j mod n = (?m + v) mod n" using assms(5) by (simp add: mod_add_left_eq)
  then obtain q where q: "j = ?m + v + n * q" by (metis mod_eqE minus_diff_eq mult_minus_right diff_eq_eq add.commute)
  have m: "?m * t \<le> now + lead" "now + lead < ?m * t + t" using int_div_eq_iff [OF t, of "now + lead" ?m] by simp_all
  show ?thesis
  proof (cases "0 \<le> q")
    case True
    then have "?m + v \<le> j" using q assms(3) by simp
    then have "(?m + v) * t \<le> j * t" using t by (simp add: mult_right_mono)
    then show ?thesis using m by (simp add: algebra_simps)
  next
    case False
    then have "n * q \<le> n * - 1" using assms(3) by (intro mult_left_mono) auto
    then have "j + (n - v) \<le> ?m" using q by simp
    then have "(j + (n - v)) * t \<le> ?m * t" using t by (simp add: mult_right_mono)
    then show ?thesis using m by (simp add: algebra_simps)
  qed
qed

lemma writer_rests:
  assumes "sane_time (now + lead)" and "whole_seconds t" and "0 < n" and "n \<le> 2 ^ 30" and "n * t < 2 ^ 63"
    and "1 \<le> v" and "lead + P \<le> (n - v) * t" and "w = (writerSlot now lead t n + v) mod n"
  shows "now + lead < q * (n * t) + purgePhase w n t \<or> q * (n * t) + purgePhase w n t + P \<le> now"
proof -
  have t: "0 < t" using assms(2) by (simp add: whole_seconds_def)
  have w: "0 \<le> w" "w < n" using assms(3,8) by simp_all
  have "(q * n + w) mod n = (writerSlot now lead t n + v) mod n" using w assms(8) by simp
  from displaced_purge_starts [OF assms(1-4) this]
  have "now + lead + (v - 1) * t < (q * n + w) * t \<or> (q * n + w) * t + (n - v) * t \<le> now + lead" .
  moreover have "0 \<le> (v - 1) * t" using assms(6) t by simp
  moreover have "(q * n + w) * t = q * (n * t) + purgePhase w n t"
    unfolding purgePhase_eq [OF assms(2,5) w] by (simp add: algebra_simps)
  ultimately show ?thesis using assms(7) by linarith
qed

end
