(* ===== verification/Rotation_Gate.thy ===== *)
theory Rotation_Gate
  imports Purge_Rotation
begin

text \<open>
  \<open>rotation_gate.go\<close>: \<open>spec.accesslogPurge\<close> and \<open>spec.rotation\<close> resolved into one plan - the purge
  interval every pod gets, whether the pods are staggered, whether the write endpoint moves - and
  published as the RotationConfigured condition. The cluster is never nil here: every caller has
  read it first.
\<close>

abbreviation "RotationModePurgeAndWrite \<equiv> ''PurgeAndWrite''"
abbreviation "RotationModePurgeOnly \<equiv> ''PurgeOnly''"
abbreviation "RotationModeWriteOnly \<equiv> ''WriteOnly''"
abbreviation "rotationConfiguredCondition \<equiv> ''RotationConfigured''"

definition defaultPurgeInterval :: duration where
  "defaultPurgeInterval = 24 * 3600 * Second"

definition defaultSlotsFromWriteToPurge :: int32 where
  "defaultSlotsFromWriteToPurge = 1"

record rotationPlan =
  PhasesActive :: bool
  WriterActive :: bool
  SlotLength :: duration
  LeadTime :: duration
  Interval :: duration
  Replicas :: int32
  SlotsFromWriteToPurge :: int32
  pl_Status :: ConditionStatus
  pl_Reason :: string
  pl_Message :: message

section \<open>The declared interval\<close>

definition formA :: "SlapdCluster \<Rightarrow> duration option" where
  "formA sc = (case spec_AccesslogPurge (sc_Spec sc) of None \<Rightarrow> None | Some p \<Rightarrow> purge_Interval p)"

definition declaredPurgeInterval :: "SlapdCluster \<Rightarrow> duration \<times> message option" where
  "declaredPurgeInterval sc =
     (case formA sc of
        None \<Rightarrow> (defaultPurgeInterval, None)
      | Some iv \<Rightarrow>
          if iv \<le> 0 then (defaultPurgeInterval, Some (Msg ''interval not positive''
              [MInt iv, MStr (formatLogAge defaultPurgeInterval)]))
          else if i64_mod iv Second \<noteq> 0 then (defaultPurgeInterval, Some (Msg ''interval not whole seconds''
              [MInt iv, MStr (formatLogAge defaultPurgeInterval)]))
          else (iv, None))"

section \<open>The plan\<close>

definition flatPlan :: "SlapdCluster \<Rightarrow> ConditionStatus \<Rightarrow> string \<Rightarrow> message \<Rightarrow> duration \<Rightarrow> rotationPlan" where
  "flatPlan sc status reason msg iv =
     \<lparr>PhasesActive = False, WriterActive = False, SlotLength = 0, LeadTime = 0, Interval = iv,
      Replicas = declaredReplicas sc, SlotsFromWriteToPurge = 0, pl_Status = status,
      pl_Reason = reason, pl_Message = msg\<rparr>"

definition modeOf :: "SlapdRotationConfig \<Rightarrow> string" where
  "modeOf r = (if rot_Mode r = [] then RotationModePurgeAndWrite else rot_Mode r)"

definition unreferencedField :: "SlapdRotationConfig \<Rightarrow> string option" where
  "unreferencedField r =
     (if modeOf r = RotationModePurgeAndWrite then None
      else if rot_SlotsFromWriteToPurge r \<noteq> None then Some ''spec.rotation.slotsFromWriteToPurge''
      else if rot_LeadTime r \<noteq> None then Some ''spec.rotation.leadTime''
      else None)"

definition whyUnreferenced :: "string \<Rightarrow> string" where
  "whyUnreferenced mode =
     (if mode = RotationModePurgeOnly then ''nothing moves the write endpoint in this mode''
      else if mode = RotationModeWriteOnly then ''this mode staggers no purge'' else [])"

definition activePlan :: "SlapdCluster \<Rightarrow> duration \<Rightarrow> duration \<Rightarrow> duration \<Rightarrow> int32 \<Rightarrow> rotationPlan" where
  "activePlan sc declaredInterval t lead resolved =
     (let mode = modeOf (spec_Rotation (sc_Spec sc));
          declaresSchedule = (mode \<noteq> RotationModeWriteOnly);
          n = declaredReplicas sc;
          interval = (if \<not> declaresSchedule then declaredInterval else i64_mul n t)
      in \<lparr>PhasesActive = declaresSchedule, WriterActive = (mode \<noteq> RotationModePurgeOnly),
          SlotLength = t, LeadTime = lead, Interval = interval, Replicas = n,
          SlotsFromWriteToPurge = resolved, pl_Status = ConditionTrue, pl_Reason = ''RotationActive'',
          pl_Message = Msg ''rotating'' ([MInt t, MInt n, MInt interval, MInt t, MInt resolved] @
            (if lead > 0 then [MMsg (Msg ''the endpoint moves before each boundary'' [MInt lead])] else []))\<rparr>)"

definition evaluateRotation :: "SlapdCluster \<Rightarrow> rotationPlan" where
  "evaluateRotation sc =
     (let (declaredInterval, intervalFault) = declaredPurgeInterval sc;
          r = spec_Rotation (sc_Spec sc);
          rotationWanted = (rot_Enabled r = Some True);
          mode = modeOf r;
          declaresSchedule = (mode \<noteq> RotationModeWriteOnly);
          age = MStr (formatLogAge defaultPurgeInterval);
          fault = (\<lambda>reason msg. flatPlan sc ConditionFalse reason msg defaultPurgeInterval)
      in if rotationWanted \<and> declaresSchedule \<and> formA sc \<noteq> None
         then fault ''ScheduleDeclaredTwice''
           (Msg ''both forms declared'' [MInt (the (formA sc)), MInt defaultPurgeInterval])
         else case intervalFault of
           Some m \<Rightarrow> fault ''PurgeIntervalNotUsable'' m
         | None \<Rightarrow>
         if \<not> rotationWanted
         then flatPlan sc ConditionTrue ''RotationDisabled''
           (Msg ''rotation is not set'' [MStr (formatLogAge declaredInterval)]) declaredInterval
         else case rot_SlotLength r of
           None \<Rightarrow> fault ''SlotLengthMissing'' (Msg ''slotLength is not set'' [age])
         | Some t \<Rightarrow>
         if t \<le> 0 then fault ''SlotLengthNotPositive'' (Msg ''slotLength not positive'' [MInt t])
         else if i64_mod t Second \<noteq> 0
         then fault ''SlotLengthNotWholeSeconds'' (Msg ''slotLength not whole seconds'' [MInt t])
         else let n = declaredReplicas sc in
         case unreferencedField r of
           Some f \<Rightarrow> fault ''FieldHasNoReferentInMode''
             (Msg ''the field has no referent'' [MStr f, MStr mode, MStr (whyUnreferenced mode),
               MStr RotationModePurgeAndWrite, age])
         | None \<Rightarrow>
         let want = (case rot_SlotsFromWriteToPurge r of None \<Rightarrow> defaultSlotsFromWriteToPurge | Some v \<Rightarrow> v);
             declared = (rot_SlotsFromWriteToPurge r \<noteq> None);
             resolved = go_mod want n
         in if declared \<and> n > 1 \<and> resolved = 0
         then fault ''WriteSlotCollidesWithPurge'' (Msg ''resolves to slot 0'' [MInt want, MInt n, MInt n, age])
         else let resolved = (if resolved = 0 then 1 else resolved);
                  lead = (case rot_LeadTime r of None \<Rightarrow> 0 | Some d \<Rightarrow> d);
                  bound = i64_mul (i32_sub n 1) t
         in if lead < 0 \<or> lead > 0 \<and> lead \<ge> bound
         then fault ''LeadTimeOutOfRange'' (Msg ''leadTime out of range'' [MInt lead, MInt bound, age])
         else activePlan sc declaredInterval t lead resolved)"

definition rotationConfiguredFor :: "time \<Rightarrow> SlapdCluster \<Rightarrow> rotationPlan \<Rightarrow> Condition" where
  "rotationConfiguredFor now sc plan =
     \<lparr>cond_Type = rotationConfiguredCondition, cond_Status = pl_Status plan, cond_Reason = pl_Reason plan,
      cond_Message = pl_Message plan, cond_LastTransitionTime = now,
      cond_ObservedGeneration = sc_Generation sc\<rparr>"

definition reconcileRotationGate :: "time \<Rightarrow> SlapdCluster \<Rightarrow> rotationPlan \<times> SlapdCluster" where
  "reconcileRotationGate now sc =
     (let plan = evaluateRotation sc in
      (plan, set_sc_Conditions (setCondition (scs_Conditions (sc_Status sc)) (rotationConfiguredFor now sc plan)) sc))"

section \<open>The documented rules\<close>

text \<open>
  The rules \<open>spec.rotation\<close> has to satisfy, over plain integers, and the range in which they are
  decided without overflow: the whole period n*t is an int64 duration.
\<close>

definition rotation_fits :: "SlapdCluster \<Rightarrow> bool" where
  "rotation_fits sc \<longleftrightarrow> declaredReplicas sc \<le> 2 ^ 30 \<and>
     (case rot_SlotLength (spec_Rotation (sc_Spec sc)) of None \<Rightarrow> True | Some t \<Rightarrow> declaredReplicas sc * t < 2 ^ 63) \<and>
     (case formA sc of None \<Rightarrow> True | Some iv \<Rightarrow> iv < 2 ^ 63)"

definition interval_usable :: "SlapdCluster \<Rightarrow> bool" where
  "interval_usable sc \<longleftrightarrow> (case formA sc of None \<Rightarrow> True | Some iv \<Rightarrow> whole_seconds iv)"

definition declared_interval :: "SlapdCluster \<Rightarrow> duration" where
  "declared_interval sc = (case formA sc of None \<Rightarrow> defaultPurgeInterval | Some iv \<Rightarrow> iv)"

definition rotation_wanted :: "SlapdCluster \<Rightarrow> bool" where
  "rotation_wanted sc \<longleftrightarrow> rot_Enabled (spec_Rotation (sc_Spec sc)) = Some True"

definition declared_lead :: "SlapdRotationConfig \<Rightarrow> duration" where
  "declared_lead r = (case rot_LeadTime r of None \<Rightarrow> 0 | Some d \<Rightarrow> d)"

definition declared_slots :: "SlapdRotationConfig \<Rightarrow> int32" where
  "declared_slots r = (case rot_SlotsFromWriteToPurge r of None \<Rightarrow> defaultSlotsFromWriteToPurge | Some v \<Rightarrow> v)"

definition rotation_rules :: "SlapdCluster \<Rightarrow> bool" where
  "rotation_rules sc \<longleftrightarrow>
     (let r = spec_Rotation (sc_Spec sc); n = declaredReplicas sc; d = declared_lead r in
      rotation_wanted sc \<and> interval_usable sc \<and> (modeOf r = RotationModeWriteOnly \<or> formA sc = None) \<and>
      (modeOf r = RotationModePurgeAndWrite \<or> rot_SlotsFromWriteToPurge r = None \<and> rot_LeadTime r = None) \<and>
      (n = 1 \<or> declared_slots r mod n \<noteq> 0) \<and>
      (case rot_SlotLength r of None \<Rightarrow> False | Some t \<Rightarrow> whole_seconds t \<and> (d = 0 \<or> 0 < d \<and> d < (n - 1) * t)))"

lemma declaredReplicas_pos: "0 < declaredReplicas sc"
  by (simp add: declaredReplicas_def)

lemma i64_mod_Second: "0 < t \<Longrightarrow> i64_mod t Second = t mod Second"
  by (simp add: i64_mod_def Second_def)

lemma whole_seconds_iff: "t < 2 ^ 63 \<Longrightarrow> whole_seconds t \<longleftrightarrow> \<not> t \<le> 0 \<and> \<not> i64_mod t Second \<noteq> 0"
  by (auto simp: whole_seconds_def i64_mod_Second)

lemma default_whole: "whole_seconds defaultPurgeInterval"
  by (simp add: whole_seconds_def defaultPurgeInterval_def Second_def)

lemma declaredPurgeInterval_eq:
  assumes "rotation_fits sc"
  shows "fst (declaredPurgeInterval sc) = (if interval_usable sc then declared_interval sc else defaultPurgeInterval)"
    and "snd (declaredPurgeInterval sc) = None \<longleftrightarrow> interval_usable sc"
  using assms whole_seconds_iff
  by (auto simp: declaredPurgeInterval_def rotation_fits_def interval_usable_def declared_interval_def
      split: option.splits)

lemma unreferencedField_None:
  "unreferencedField r = None \<longleftrightarrow>
     modeOf r = RotationModePurgeAndWrite \<or> rot_SlotsFromWriteToPurge r = None \<and> rot_LeadTime r = None"
  by (simp add: unreferencedField_def)

text \<open>Without overflow the slot, the period and the bound on the lead are the integers they name.\<close>

lemma fits_arith:
  assumes "rotation_fits sc" and "rot_SlotLength (spec_Rotation (sc_Spec sc)) = Some t" and "0 < t"
  shows "t < 2 ^ 63" and "i64_mul (declaredReplicas sc) t = declaredReplicas sc * t"
    and "i64_mul (i32_sub (declaredReplicas sc) 1) t = (declaredReplicas sc - 1) * t"
    and "go_mod v (declaredReplicas sc) = v mod declaredReplicas sc"
proof -
  let ?n = "declaredReplicas sc"
  have n: "0 < ?n" "?n \<le> 1073741824" and nt: "?n * t < 9223372036854775808"
    using assms by (simp_all add: rotation_fits_def declaredReplicas_pos)
  have le: "t \<le> ?n * t" using n(1) assms(3) mult_right_mono [of 1 ?n t] by simp
  then show "t < 2 ^ 63" using nt by simp
  have p: "0 < ?n * t" "0 \<le> (?n - 1) * t" "(?n - 1) * t \<le> ?n * t" using n(1) assms(3) by (simp_all add: mult_right_mono)
  then show "i64_mul ?n t = ?n * t" using nt unfolding i64_mul_def by (intro wrap64_id) simp_all
  have "i32_sub ?n 1 = ?n - 1" using n unfolding i32_sub_def by (intro wrap32_id) linarith+
  moreover have "wrap64 ((?n - 1) * t) = (?n - 1) * t" using p nt by (intro wrap64_id) linarith+
  ultimately show "i64_mul (i32_sub ?n 1) t = (?n - 1) * t" by (simp add: i64_mul_def)
  show "go_mod v ?n = v mod ?n" using n by (intro go_mod_eq) simp_all
qed

lemma evaluateRotation_active:
  assumes "rotation_fits sc" and "rotation_rules sc"
  shows "let r = spec_Rotation (sc_Spec sc); n = declaredReplicas sc; v = declared_slots r mod n in
    evaluateRotation sc = activePlan sc (declared_interval sc) (the (rot_SlotLength r)) (declared_lead r)
      (if n = 1 then 1 else v) \<and> (n \<noteq> 1 \<longrightarrow> v \<noteq> 0)"
proof -
  let ?r = "spec_Rotation (sc_Spec sc)" and ?n = "declaredReplicas sc"
  obtain t where t: "rot_SlotLength ?r = Some t" "whole_seconds t"
    using assms(2) by (auto simp: rotation_rules_def Let_def split: option.splits)
  then have t0: "0 < t" "\<not> t \<le> 0" by (simp_all add: whole_seconds_def)
  note A = fits_arith [OF assms(1) t(1) t0(1)]
  have m: "i64_mod t Second = 0" using t by (simp add: whole_seconds_def i64_mod_Second)
  obtain fault where f: "declaredPurgeInterval sc = (declared_interval sc, fault)" "fault = None"
    using declaredPurgeInterval_eq [OF assms(1)] assms(2) by (cases "declaredPurgeInterval sc") (auto simp: rotation_rules_def Let_def)
  have lead: "\<not> (declared_lead ?r < 0 \<or> 0 < declared_lead ?r \<and> (?n - 1) * t \<le> declared_lead ?r)"
    using assms(2) t by (auto simp: rotation_rules_def Let_def)
  have R: "rotation_wanted sc" "modeOf ?r = RotationModeWriteOnly \<or> formA sc = None" "unreferencedField ?r = None"
    "?n = 1 \<or> declared_slots ?r mod ?n \<noteq> 0"
    using assms(2) by (auto simp: rotation_rules_def unreferencedField_None Let_def)
  have v: "(if declared_slots ?r mod ?n = 0 then 1 else declared_slots ?r mod ?n) =
      (if ?n = 1 then 1 else declared_slots ?r mod ?n)"
    using R(4) by auto
  have "evaluateRotation sc = activePlan sc (declared_interval sc) t (declared_lead ?r)
      (if declared_slots ?r mod ?n = 0 then 1 else declared_slots ?r mod ?n)"
    using R t0 lead
    unfolding evaluateRotation_def f Let_def prod.case option.case t(1) R(3) A m declared_slots_def [symmetric]
      declared_lead_def [symmetric] rotation_wanted_def [symmetric]
    by auto
  then show ?thesis using R(4) unfolding v by (auto simp: t(1) Let_def)
qed

text \<open>The refusals, one by one in the order the code asks.\<close>

lemma evaluateRotation_refused:
  assumes "declaredPurgeInterval sc = (iv, fault)"
  shows "rotation_wanted sc \<and> modeOf (spec_Rotation (sc_Spec sc)) \<noteq> RotationModeWriteOnly \<and> formA sc \<noteq> None \<Longrightarrow>
      \<exists>msg. evaluateRotation sc = flatPlan sc ConditionFalse ''ScheduleDeclaredTwice'' msg defaultPurgeInterval"
    and "\<not> (rotation_wanted sc \<and> modeOf (spec_Rotation (sc_Spec sc)) \<noteq> RotationModeWriteOnly \<and> formA sc \<noteq> None) \<Longrightarrow>
      fault = Some m \<Longrightarrow> evaluateRotation sc = flatPlan sc ConditionFalse ''PurgeIntervalNotUsable'' m defaultPurgeInterval"
    and "\<not> rotation_wanted sc \<Longrightarrow> fault = None \<Longrightarrow>
      \<exists>msg. evaluateRotation sc = flatPlan sc ConditionTrue ''RotationDisabled'' msg iv"
  unfolding evaluateRotation_def assms Let_def prod.case rotation_wanted_def [symmetric] by auto

lemma evaluateRotation_slot_refused:
  assumes "declaredPurgeInterval sc = (iv, None)" and "rotation_wanted sc"
    and "modeOf (spec_Rotation (sc_Spec sc)) = RotationModeWriteOnly \<or> formA sc = None"
  shows "rot_SlotLength (spec_Rotation (sc_Spec sc)) = None \<Longrightarrow>
      \<exists>reason msg. evaluateRotation sc = flatPlan sc ConditionFalse reason msg defaultPurgeInterval"
    and "rot_SlotLength (spec_Rotation (sc_Spec sc)) = Some t \<Longrightarrow> t \<le> 0 \<or> i64_mod t Second \<noteq> 0 \<Longrightarrow>
      \<exists>reason msg. evaluateRotation sc = flatPlan sc ConditionFalse reason msg defaultPurgeInterval"
    and "rot_SlotLength (spec_Rotation (sc_Spec sc)) = Some t \<Longrightarrow> \<not> t \<le> 0 \<Longrightarrow> i64_mod t Second = 0 \<Longrightarrow>
      unreferencedField (spec_Rotation (sc_Spec sc)) = Some x \<Longrightarrow>
      \<exists>reason msg. evaluateRotation sc = flatPlan sc ConditionFalse reason msg defaultPurgeInterval"
  using assms(2,3) unfolding evaluateRotation_def assms(1) Let_def prod.case option.case rotation_wanted_def [symmetric]
  by (auto simp del: not_None_eq)

lemma evaluateRotation_value_refused:
  assumes "declaredPurgeInterval sc = (iv, None)" and "rotation_wanted sc" and "rotation_fits sc"
    and "modeOf (spec_Rotation (sc_Spec sc)) = RotationModeWriteOnly \<or> formA sc = None"
    and "rot_SlotLength (spec_Rotation (sc_Spec sc)) = Some t" and "0 < t" and "i64_mod t Second = 0"
    and "unreferencedField (spec_Rotation (sc_Spec sc)) = None"
    and "1 < declaredReplicas sc \<and> declared_slots (spec_Rotation (sc_Spec sc)) mod declaredReplicas sc = 0 \<or>
      declared_lead (spec_Rotation (sc_Spec sc)) < 0 \<or> 0 < declared_lead (spec_Rotation (sc_Spec sc)) \<and>
      (declaredReplicas sc - 1) * t \<le> declared_lead (spec_Rotation (sc_Spec sc))"
  shows "\<exists>reason msg. evaluateRotation sc = flatPlan sc ConditionFalse reason msg defaultPurgeInterval"
proof -
  let ?r = "spec_Rotation (sc_Spec sc)" and ?n = "declaredReplicas sc"
  note A = fits_arith [OF assms(3,5,6)]
  have u: "declared_slots ?r mod ?n = 0 \<and> 1 < ?n \<Longrightarrow> rot_SlotsFromWriteToPurge ?r \<noteq> None"
    by (auto simp: declared_slots_def defaultSlotsFromWriteToPurge_def zdvd1_eq split: option.splits)
  have t0: "\<not> t \<le> 0" using assms(6) by simp
  show ?thesis
    using assms(2,4,7,9) u t0
    unfolding evaluateRotation_def assms(1,5,8) Let_def prod.case option.case A
      declared_slots_def [symmetric] declared_lead_def [symmetric] rotation_wanted_def [symmetric]
    by (auto simp del: not_None_eq)
qed

lemma evaluateRotation_idle:
  assumes "rotation_fits sc" and "\<not> rotation_rules sc"
  shows "\<exists>reason msg. evaluateRotation sc =
    (if \<not> rotation_wanted sc \<and> interval_usable sc
     then flatPlan sc ConditionTrue ''RotationDisabled'' msg (declared_interval sc)
     else flatPlan sc ConditionFalse reason msg defaultPurgeInterval)"
proof -
  let ?r = "spec_Rotation (sc_Spec sc)" and ?n = "declaredReplicas sc"
  obtain iv fault where f: "declaredPurgeInterval sc = (iv, fault)" by force
  note D = declaredPurgeInterval_eq [OF assms(1), unfolded f fst_conv snd_conv]
  consider (twice) "rotation_wanted sc \<and> modeOf ?r \<noteq> RotationModeWriteOnly \<and> formA sc \<noteq> None"
    | (bad) m where "\<not> (rotation_wanted sc \<and> modeOf ?r \<noteq> RotationModeWriteOnly \<and> formA sc \<noteq> None)" "fault = Some m"
    | (off) "\<not> rotation_wanted sc" "fault = None"
    | (on) "rotation_wanted sc" "fault = None" "modeOf ?r = RotationModeWriteOnly \<or> formA sc = None"
    by blast
  then show ?thesis
  proof cases
    case twice
    then show ?thesis using evaluateRotation_refused(1) [OF f] by auto
  next
    case bad
    moreover have "\<not> interval_usable sc" using D(2) bad(2) by simp
    ultimately show ?thesis using evaluateRotation_refused(2) [OF f] by auto
  next
    case off
    then show ?thesis using evaluateRotation_refused(3) [OF f off] D by auto
  next
    case on
    note f' = f [unfolded on(2)]
    have "\<exists>reason msg. evaluateRotation sc = flatPlan sc ConditionFalse reason msg defaultPurgeInterval"
    proof (cases "rot_SlotLength ?r")
      case None
      then show ?thesis by (rule evaluateRotation_slot_refused(1) [OF f' on(1,3)])
    next
      case t: (Some t)
      show ?thesis
      proof (cases "t \<le> 0 \<or> i64_mod t Second \<noteq> 0")
        case True
        then show ?thesis by (rule evaluateRotation_slot_refused(2) [OF f' on(1,3) t])
      next
        case t0: False
        then have pos: "0 < t" and m: "i64_mod t Second = 0" by simp_all
        have w: "whole_seconds t" using fits_arith(1) [OF assms(1) t pos] t0 whole_seconds_iff by blast
        have dn: "?n \<noteq> 1 \<longleftrightarrow> 1 < ?n" using declaredReplicas_pos [of sc] by linarith
        show ?thesis
        proof (cases "unreferencedField ?r")
          case (Some x)
          then show ?thesis using evaluateRotation_slot_refused(3) [OF f' on(1,3) t] t0 by blast
        next
          case None
          then have "1 < ?n \<and> declared_slots ?r mod ?n = 0 \<or> declared_lead ?r < 0 \<or>
              0 < declared_lead ?r \<and> (?n - 1) * t \<le> declared_lead ?r"
            using assms(2) on D(2) t w dn unfolding rotation_rules_def Let_def unreferencedField_None
            by (auto simp: not_less)
          then show ?thesis by (rule evaluateRotation_value_refused [OF f' on(1) assms(1) on(3) t pos m None])
        qed
      qed
    qed
    then show ?thesis using on(1) by auto
  qed
qed

section \<open>What the gate decides\<close>

lemma declared_interval_whole: "interval_usable sc \<Longrightarrow> whole_seconds (declared_interval sc)"
  by (simp add: interval_usable_def declared_interval_def default_whole split: option.splits)

lemma rules_period:
  assumes "rotation_fits sc" and "rotation_rules sc"
  obtains t where "rot_SlotLength (spec_Rotation (sc_Spec sc)) = Some t" and "whole_seconds t"
    and "declaredReplicas sc * t < 2 ^ 63" and "i64_mul (declaredReplicas sc) t = declaredReplicas sc * t"
    and "whole_seconds (declaredReplicas sc * t)"
proof -
  obtain t where t: "rot_SlotLength (spec_Rotation (sc_Spec sc)) = Some t" "whole_seconds t"
    using assms(2) by (auto simp: rotation_rules_def Let_def split: option.splits)
  then have t0: "0 < t" "t mod Second = 0" by (simp_all add: whole_seconds_def)
  have b: "declaredReplicas sc * t < 2 ^ 63" using assms(1) t(1) by (simp add: rotation_fits_def)
  then have "whole_seconds (declaredReplicas sc * t)"
    using t0 declaredReplicas_pos [of sc] by (simp add: whole_seconds_def mod_0_imp_dvd)
  then show ?thesis using that [OF t b] fits_arith(2) [OF assms(1) t(1) t0(1)] by blast
qed

lemma active_plan:
  assumes "rotation_fits sc" and "rotation_rules sc"
  shows "let p = evaluateRotation sc; r = spec_Rotation (sc_Spec sc); n = declaredReplicas sc in
    pl_Status p = ConditionTrue \<and> (PhasesActive p \<longleftrightarrow> modeOf r \<noteq> RotationModeWriteOnly) \<and>
    (WriterActive p \<longleftrightarrow> modeOf r \<noteq> RotationModePurgeOnly) \<and> Replicas p = n \<and>
    rot_SlotLength r = Some (SlotLength p) \<and> whole_seconds (SlotLength p) \<and> n * SlotLength p < 2 ^ 63 \<and>
    whole_seconds (Interval p) \<and>
    Interval p = (if PhasesActive p then n * SlotLength p else declared_interval sc) \<and>
    LeadTime p = declared_lead r \<and> (LeadTime p = 0 \<or> 0 < LeadTime p \<and> LeadTime p < (n - 1) * SlotLength p) \<and>
    SlotsFromWriteToPurge p = (if n = 1 then 1 else declared_slots r mod n) \<and>
    1 \<le> SlotsFromWriteToPurge p \<and> SlotsFromWriteToPurge p \<le> max 1 (n - 1)"
proof -
  let ?r = "spec_Rotation (sc_Spec sc)" and ?n = "declaredReplicas sc"
  obtain t where t: "rot_SlotLength ?r = Some t" "whole_seconds t" "?n * t < 2 ^ 63" "i64_mul ?n t = ?n * t"
      "whole_seconds (?n * t)" using rules_period [OF assms] by blast
  have R: "interval_usable sc" "declared_lead ?r = 0 \<or> 0 < declared_lead ?r \<and> declared_lead ?r < (?n - 1) * t"
    using assms(2) t(1) by (simp_all add: rotation_rules_def Let_def)
  note E = evaluateRotation_active [OF assms, unfolded Let_def t(1) option.sel]
  have v: "0 \<le> declared_slots ?r mod ?n" "declared_slots ?r mod ?n < ?n"
    using declaredReplicas_pos [of sc] by simp_all
  have "(if ?n = 1 then 1 else declared_slots ?r mod ?n) \<ge> 1"
    "(if ?n = 1 then 1 else declared_slots ?r mod ?n) \<le> max 1 (?n - 1)"
    using E v by auto
  then show ?thesis
    using E R t declared_interval_whole [OF R(1)] by (simp add: activePlan_def Let_def)
qed

lemma idle_plan:
  assumes "rotation_fits sc" and "\<not> rotation_rules sc"
  shows "let p = evaluateRotation sc; ok = (\<not> rotation_wanted sc \<and> interval_usable sc) in
    \<not> PhasesActive p \<and> \<not> WriterActive p \<and> pl_Status p = (if ok then ConditionTrue else ConditionFalse) \<and>
    Interval p = (if ok then declared_interval sc else defaultPurgeInterval) \<and> whole_seconds (Interval p)"
  using evaluateRotation_idle [OF assms] default_whole declared_interval_whole [of sc]
  by (auto simp: flatPlan_def Let_def)

text \<open>
  C29. The gate decides exactly the documented rules: as long as the period fits an int64 duration,
  something rotates if and only if \<open>spec.rotation\<close> is enabled and every rule holds; the plan then
  carries the declared values, with the displacement resolved into 1..n-1 and the lead below the
  bound. Whatever was declared, the interval is a positive whole number of seconds - n*t with phases,
  the declared or the default one otherwise - and a plan that is not in order rotates nothing and
  purges on the default.
\<close>

theorem rotation_gate_decides:
  assumes "rotation_fits sc"
  shows "let p = evaluateRotation sc; r = spec_Rotation (sc_Spec sc); n = declaredReplicas sc in
    (PhasesActive p \<longleftrightarrow> rotation_rules sc \<and> modeOf r \<noteq> RotationModeWriteOnly) \<and>
    (WriterActive p \<longleftrightarrow> rotation_rules sc \<and> modeOf r \<noteq> RotationModePurgeOnly) \<and>
    (pl_Status p = ConditionTrue \<longleftrightarrow> rotation_rules sc \<or> \<not> rotation_wanted sc \<and> interval_usable sc) \<and>
    whole_seconds (Interval p) \<and>
    (pl_Status p = ConditionFalse \<longrightarrow> Interval p = defaultPurgeInterval) \<and>
    (rotation_rules sc \<longrightarrow> Replicas p = n \<and> rot_SlotLength r = Some (SlotLength p) \<and>
       Interval p = (if PhasesActive p then n * SlotLength p else declared_interval sc) \<and>
       LeadTime p = declared_lead r \<and> (LeadTime p = 0 \<or> 0 < LeadTime p \<and> LeadTime p < (n - 1) * SlotLength p) \<and>
       SlotsFromWriteToPurge p = (if n = 1 then 1 else declared_slots r mod n) \<and>
       1 \<le> SlotsFromWriteToPurge p \<and> SlotsFromWriteToPurge p \<le> max 1 (n - 1))"
proof (cases "rotation_rules sc")
  case True
  show ?thesis using active_plan [OF assms True] True unfolding Let_def by auto
next
  case False
  show ?thesis using idle_plan [OF assms False] False unfolding Let_def by auto
qed

definition rotating_cluster :: "int32 \<Rightarrow> duration \<Rightarrow> int32 option \<Rightarrow> duration option \<Rightarrow> SlapdCluster" where
  "rotating_cluster n t v lead =
     base_cluster\<lparr>sc_Spec := (sc_Spec base_cluster)\<lparr>spec_Replicas := n,
       spec_Rotation := \<lparr>rot_Enabled = Some True, rot_Mode = [], rot_SlotLength = Some t,
         rot_SlotsFromWriteToPurge = v, rot_LeadTime = lead\<rparr>\<rparr>\<rparr>"

theorem rotation_gate_decides_witness:
  "let p = evaluateRotation (rotating_cluster 3 (21600 * Second) (Some (- 1)) (Some (60 * Second))) in
   PhasesActive p \<and> WriterActive p \<and> Interval p = 64800 * Second \<and> SlotsFromWriteToPurge p = 2 \<and>
   LeadTime p = 60 * Second"
proof -
  let ?sc = "rotating_cluster 3 (21600 * Second) (Some (- 1)) (Some (60 * Second))"
  have "rotation_fits ?sc" "rotation_rules ?sc"
    by (simp_all add: rotating_cluster_def rotation_fits_def formA_def base_cluster_def declaredReplicas_def Second_def
        rotation_rules_def rotation_wanted_def interval_usable_def modeOf_def declared_slots_def declared_lead_def
        whole_seconds_def)
  then show ?thesis using rotation_gate_decides [of ?sc]
    by (simp add: Let_def rotating_cluster_def base_cluster_def declaredReplicas_def modeOf_def declared_slots_def
        declared_lead_def Second_def)
qed

text \<open>No purge of pod w runs between \<open>now\<close> and the end of the lead.\<close>

definition rests :: "rotationPlan \<Rightarrow> time \<Rightarrow> duration \<Rightarrow> int32 \<Rightarrow> bool" where
  "rests p now P w \<longleftrightarrow> (\<forall>q. let start = q * Interval p + purgePhase w (Replicas p) (SlotLength p) in
     now + LeadTime p < start \<or> start + P \<le> now)"

text \<open>
  C8. Writes keep clear of the purge while the preferred pod can take them: when the plan staggers the purges and moves the endpoint,
  and a purge takes at most P with leadTime + P within the n - v slots the writer has had since its own purge began, the pod the
  displacement prefers has at any instant finished its last purge, and none starts on it before the lead is over; the endpoint names
  this pod exactly when it is eligible. So a connection to it no older than the lead never writes into a purge. While it is not
  eligible, another eligible pod is named, of which this is not promised - it may be purging or about to - and the pod of the
  slot one lead ahead only when no other is eligible; with no eligible pod at all, none is.
\<close>

theorem writes_avoid_the_purge:
  assumes "rotation_fits sc" and "evaluateRotation sc = p" and "PhasesActive p" and "WriterActive p"
    and "1 < Replicas p" and "sane_time (now + LeadTime p)"
    and "LeadTime p + P \<le> (Replicas p - SlotsFromWriteToPurge p) * SlotLength p"
    and "writerSlot now (LeadTime p) (SlotLength p) (Replicas p) = slot"
  shows "let preferred = (slot + SlotsFromWriteToPurge p) mod Replicas p in
    rests p now P preferred \<and>
    (case writeTarget slot (Replicas p) (SlotsFromWriteToPurge p) eligible of
       None \<Rightarrow> \<forall>i. 0 \<le> i \<and> i < Replicas p \<longrightarrow> \<not> eligible i
     | Some w \<Rightarrow> 0 \<le> w \<and> w < Replicas p \<and> eligible w \<and> (w = preferred \<longleftrightarrow> eligible preferred) \<and>
         (w = slot \<longrightarrow> (\<forall>i. 0 \<le> i \<and> i < Replicas p \<and> i \<noteq> w \<longrightarrow> \<not> eligible i)))"
proof -
  let ?n = "Replicas p" and ?t = "SlotLength p" and ?v = "SlotsFromWriteToPurge p"
  let ?pref = "(slot + ?v) mod ?n"
  have "rotation_rules sc" using idle_plan [OF assms(1)] assms(2,3) unfolding Let_def by blast
  note A = active_plan [OF assms(1) this, unfolded Let_def assms(2)]
  have n: "0 < ?n" "?n \<le> 2 ^ 30" "?n * ?t < 2 ^ 63" "whole_seconds ?t" "Interval p = ?n * ?t"
    and v: "1 \<le> ?v" "?v \<le> ?n - 1"
    using A assms(1,3,5) by (auto simp: rotation_fits_def)
  have v0: "?v mod ?n \<noteq> 0" using v by simp
  have "slot = (now + LeadTime p) div ?t mod ?n"
    using rotationSlot_eq [OF assms(6) n(4,1)] n(2) assms(8) by (simp add: writerSlot_def time_add_def)
  then have slot: "slot mod ?n = slot" by simp
  have "rests p now P ?pref"
    using writer_rests [OF assms(6) n(4,1,2,3) v(1) assms(7), of ?pref] assms(8) by (simp add: rests_def n(5) Let_def)
  then show ?thesis using writeTarget_spec [OF n(1,2), where slot = slot and v = ?v and eligible = eligible] v0
    unfolding Let_def slot by (auto split: option.splits)
qed

theorem writes_avoid_the_purge_witness:
  "let p = evaluateRotation (rotating_cluster 3 (21600 * Second) None (Some (60 * Second))) in
   rests p (50400 * Second) (7200 * Second) 0 \<and>
   writeTarget 2 3 1 (\<lambda>i. i = 0 \<or> i = 2) = Some 0 \<and> writeTarget 2 3 1 (\<lambda>i. i = 1 \<or> i = 2) = Some 1"
proof -
  let ?sc = "rotating_cluster 3 (21600 * Second) None (Some (60 * Second))"
  have f: "rotation_fits ?sc"
    by (simp add: rotating_cluster_def rotation_fits_def formA_def base_cluster_def declaredReplicas_def Second_def)
  define p where p: "p = evaluateRotation ?sc"
  have P: "PhasesActive p" "WriterActive p" "Replicas p = 3" "LeadTime p = 60 * Second" "SlotLength p = 21600 * Second"
    "SlotsFromWriteToPurge p = 1" unfolding p by code_simp+
  have s: "writerSlot (50400 * Second) (60 * Second) (21600 * Second) 3 = 2"
    and w: "writeTarget 2 3 1 (\<lambda>i. i = 0 \<or> i = 2) = Some 0" "writeTarget 2 3 1 (\<lambda>i. i = 1 \<or> i = 2) = Some 1" by code_simp+
  show ?thesis
    using writes_avoid_the_purge [OF f p [symmetric] P(1,2), of "50400 * Second" "7200 * Second" 2 "\<lambda>_. True"] s w
    unfolding P p [symmetric] by (simp add: Let_def sane_time_def unix_sec_def Second_def)
qed

text \<open>
  The bound on the lead does not know the displacement: with four pods, one-hour slots, a
  displacement of -1 and a lead of one hour - all accepted - the endpoint names, at every instant
  and with every pod ready, exactly the pod whose purge slot it is.
\<close>

theorem lead_bound_ignores_displacement:
  assumes "sane_time now" and "sane_time (now + 3600 * Second)"
  shows "let p = evaluateRotation (rotating_cluster 4 (3600 * Second) (Some (- 1)) (Some (3600 * Second))) in
    pl_Status p = ConditionTrue \<and> PhasesActive p \<and> WriterActive p \<and>
    writeTarget (writerSlot now (LeadTime p) (SlotLength p) (Replicas p)) (Replicas p) (SlotsFromWriteToPurge p)
      (\<lambda>_. True) = Some (rotationSlot now (SlotLength p) (Replicas p))"
proof -
  define p where p: "p = evaluateRotation (rotating_cluster 4 (3600 * Second) (Some (- 1)) (Some (3600 * Second)))"
  have P: "pl_Status p = ConditionTrue" "PhasesActive p" "WriterActive p" "Replicas p = 4"
    "LeadTime p = 3600 * Second" "SlotLength p = 3600 * Second" "SlotsFromWriteToPurge p = 3" unfolding p by code_simp+
  let ?t = "3600 * Second"
  have w: "whole_seconds ?t" and t0: "?t \<noteq> 0" by (simp_all add: whole_seconds_def Second_def)
  have "writerSlot now ?t ?t 4 = (now + ?t) div ?t mod 4"
    using rotationSlot_eq [OF assms(2) w, of 4] by (simp add: writerSlot_def time_add_def)
  also have "\<dots> = (now div ?t + 1) mod 4" using div_add_self2 [OF t0, of now] by simp
  finally have s: "writerSlot now ?t ?t 4 = (now div ?t + 1) mod 4" .
  have "((now div ?t + 1) mod 4 + 3) mod 4 = (now div ?t + 1 + 3) mod 4" by (rule mod_add_left_eq)
  also have "\<dots> = (now div ?t + 4) mod 4" by (simp add: algebra_simps)
  also have "\<dots> = now div ?t mod 4" by simp
  finally have "((now div ?t + 1) mod 4 + 3) mod 4 = rotationSlot now ?t 4"
    using rotationSlot_eq [OF assms(1) w, of 4] by simp
  then have "writeTarget ((now div ?t + 1) mod 4) 4 3 (\<lambda>_. True) = Some (rotationSlot now ?t 4)"
    using writeTarget_preferred [of 4 3 "\<lambda>_. True" "(now div ?t + 1) mod 4"] by simp
  then show ?thesis using P(2,3) unfolding p [symmetric] Let_def P(1,4-7) s by simp
qed

theorem lead_bound_ignores_displacement_witness:
  "let p = evaluateRotation (rotating_cluster 4 (3600 * Second) (Some (- 1)) (Some (3600 * Second))) in
   pl_Status p = ConditionTrue \<and>
   writeTarget (writerSlot 0 (LeadTime p) (SlotLength p) (Replicas p)) (Replicas p) (SlotsFromWriteToPurge p)
     (\<lambda>_. True) = Some (rotationSlot 0 (SlotLength p) (Replicas p))"
  using lead_bound_ignores_displacement [of 0] by (simp add: Let_def sane_time_def unix_sec_def Second_def)

text \<open>
  The interval is not always positive: the period n*t is computed in 64 bits and a slot length
  of two million hours - a duration the API accepts - with two pods wraps it below zero. The plan
  still reports success and staggers the purges, and the purge value composed from it is empty.
\<close>

theorem interval_wraps:
  "let p = evaluateRotation (rotating_cluster 2 (7200000000 * Second) None None) in
   pl_Status p = ConditionTrue \<and> PhasesActive p \<and> Interval p < 0 \<and>
   composePurge retention (Interval p) phase = []"
proof -
  define p where p: "p = evaluateRotation (rotating_cluster 2 (7200000000 * Second) None None)"
  have P: "pl_Status p = ConditionTrue" "PhasesActive p" "Interval p < 0" unfolding p by code_simp+
  then show ?thesis unfolding p [symmetric] Let_def by (simp add: composePurge_def)
qed

text \<open>
  C40. The direction a negative displacement degrades in is lost: \<open>writeTarget\<close> reads the sign
  before the modulo, but the plan hands it the value already resolved. With four pods, displacement
  -1 and the preferred pod not ready, the pod tried next is the one the positive direction names.
\<close>

theorem displacement_sign_lost:
  "let p = evaluateRotation (rotating_cluster 4 (3600 * Second) (Some (- 1)) None) in
   pl_Status p = ConditionTrue \<and>
   writeTarget 0 (Replicas p) (- 1) (\<lambda>i. i \<noteq> 3) = Some 2 \<and>
   writeTarget 0 (Replicas p) (SlotsFromWriteToPurge p) (\<lambda>i. i \<noteq> 3) = Some 1"
  by code_simp

end
