(* ===== verification/Write_Service.thy ===== *)
theory Write_Service
  imports Rotation_Gate Providers
begin

text \<open>
  \<open>writeservice.go\<close> and \<open>writerotation.go\<close>: the Service that names the pod taking writes, and the pass
  that moves it. The Kubernetes client is an argument (\<open>kube\<close>): what listing the pods, reading the
  Service, preparing the object (owner reference, conversion) and the server-side apply answer. A
  pass returns the Services it applied beside its result.
\<close>

type_synonym labels = "(string \<times> string) list"

record ServicePort =
  port_Name :: string
  port_Port :: int32
  port_TargetPort :: string
  port_Protocol :: string

record Service =
  service_Name :: string
  service_Namespace :: string
  service_Type :: string
  service_Selector :: labels
  service_Ports :: "ServicePort list"

record kube =
  kube_ListPods :: "string \<Rightarrow> labels \<Rightarrow> message + Pod list"
  kube_GetService :: "string \<Rightarrow> string \<Rightarrow> api_error + Service"
  kube_Prepare :: "Service \<Rightarrow> message option"
  kube_Apply :: "Service \<Rightarrow> message option"

abbreviation "labelName \<equiv> ''app.kubernetes.io/name''"
abbreviation "labelInstance \<equiv> ''app.kubernetes.io/instance''"
abbreviation "labelStatefulSetPodName \<equiv> ''statefulset.kubernetes.io/pod-name''"
abbreviation "appName \<equiv> ''slapd''"
abbreviation "writeServiceSuffix \<equiv> ''-write''"
abbreviation "writeEndpointCondition \<equiv> ''WriteEndpointRotating''"

definition csnCheckInterval :: duration where
  "csnCheckInterval = 60 * Second"

section \<open>The Service\<close>

definition selectorLabels :: "string \<Rightarrow> labels" where
  "selectorLabels name = [(labelName, appName), (labelInstance, name)]"

definition writeServiceName :: "string \<Rightarrow> string" where
  "writeServiceName cluster = (if cluster = [] then [] else cluster @ writeServiceSuffix)"

definition writeServiceSelector :: "string \<Rightarrow> int32 \<Rightarrow> labels" where
  "writeServiceSelector cluster ordinal0 =
     (let ordinal = (if ordinal0 < 0 then 0 else ordinal0)
      in selectorLabels cluster @ [(labelStatefulSetPodName, statefulSetPodName cluster ordinal)])"

text \<open>The value of a label, the empty string when it is not there, as indexing a Go map reads it.\<close>

definition label :: "labels \<Rightarrow> string \<Rightarrow> string" where
  "label ls k = (case map_of ls k of None \<Rightarrow> [] | Some v \<Rightarrow> v)"

text \<open>\<open>writer\<close> and \<open>ok\<close> travel together: \<open>None\<close> is \<open>ok = false\<close> and yields no Service.\<close>

definition writeService :: "SlapdCluster \<Rightarrow> int32 option \<Rightarrow> Service option" where
  "writeService sc writer =
     (case writer of
        None \<Rightarrow> None
      | Some w \<Rightarrow>
          (let cfg = spec_Service (sc_Spec sc);
               svcType = (if svc_Type cfg = [] then ''ClusterIP'' else svc_Type cfg);
               ldapPort = (if svc_LDAPPort cfg = 0 then 389 else svc_LDAPPort cfg);
               ldapsPort = (if svc_LDAPSPort cfg = 0 then 636 else svc_LDAPSPort cfg)
           in Some \<lparr>service_Name = writeServiceName (sc_Name sc), service_Namespace = sc_Namespace sc,
                service_Type = svcType, service_Selector = writeServiceSelector (sc_Name sc) w,
                service_Ports =
                  [\<lparr>port_Name = ''ldap'', port_Port = ldapPort, port_TargetPort = ''ldap'', port_Protocol = ''TCP''\<rparr>,
                   \<lparr>port_Name = ''ldaps'', port_Port = ldapsPort, port_TargetPort = ''ldaps'', port_Protocol = ''TCP''\<rparr>]\<rparr>))"

definition fleetWriteService :: "SlapdCluster \<Rightarrow> Service" where
  "fleetWriteService sc = (the (writeService sc (Some 0)))\<lparr>service_Selector := selectorLabels (sc_Name sc)\<rparr>"

section \<open>Who may take writes\<close>

definition eligibleForWrites :: "(int32 \<rightharpoonup> bool) \<Rightarrow> (int32 \<rightharpoonup> bool) \<Rightarrow> int32 \<Rightarrow> bool" where
  "eligibleForWrites ready heldReadOnly ordinal =
     (if ordinal < 0 then False
      else if ready ordinal \<noteq> Some True then False
      else heldReadOnly ordinal \<noteq> Some True)"

definition podReportsReady :: "Pod \<Rightarrow> bool" where
  "podReportsReady p =
     (case find (\<lambda>(t, s). t = ''Ready'') (pod_Conditions p) of
        None \<Rightarrow> False
      | Some (t, s) \<Rightarrow> s = ConditionTrue)"

fun readyOrdinalsLoop :: "string \<Rightarrow> Pod list \<Rightarrow> (int32 \<rightharpoonup> bool) \<Rightarrow> (int32 \<rightharpoonup> bool)" where
  "readyOrdinalsLoop cluster [] ready = ready"
| "readyOrdinalsLoop cluster (p # pods) ready =
     (case podOrdinal (pod_Name p) of
        Inl e \<Rightarrow> readyOrdinalsLoop cluster pods ready
      | Inr ord \<Rightarrow>
          if statefulSetPodName cluster ord \<noteq> pod_Name p then readyOrdinalsLoop cluster pods ready
          else readyOrdinalsLoop cluster pods (ready(ord \<mapsto> \<not> pod_Deleting p \<and> podReportsReady p)))"

definition readyOrdinals :: "Pod list \<Rightarrow> string \<Rightarrow> (int32 \<rightharpoonup> bool)" where
  "readyOrdinals pods cluster = readyOrdinalsLoop cluster pods Map.empty"

definition writeRotationCondition ::
  "time \<Rightarrow> SlapdCluster \<Rightarrow> int32 option \<Rightarrow> time \<Rightarrow> duration \<Rightarrow> Condition" where
  "writeRotationCondition clock sc writer nxt lead =
     (let whn = (if nxt = zero_time then Msg ''next rotation not known'' [] else Msg ''next rotation at'' [MInt (unix_sec nxt)]);
          whn = (if lead > 0
                 then Msg ''ahead of the slot boundary'' [MMsg (if nxt = zero_time then Msg ''next move not known'' []
                   else Msg ''next endpoint move at'' [MInt (unix_sec nxt)]), MInt lead]
                 else whn);
          mk = (\<lambda>st rsn m. \<lparr>cond_Type = writeEndpointCondition, cond_Status = st, cond_Reason = rsn, cond_Message = m,
                 cond_LastTransitionTime = clock, cond_ObservedGeneration = sc_Generation sc\<rparr>)
      in case writer of
           None \<Rightarrow> mk ConditionFalse ''NoEligibleWriter'' (Msg ''no pod was eligible'' [MMsg whn])
         | Some w \<Rightarrow> mk ConditionTrue ''WriterSelected''
             (Msg ''the write endpoint selects'' [MStr (statefulSetPodName (sc_Name sc) (max w 0)), MMsg whn]))"

section \<open>The requeue\<close>

definition mergeRequeue :: "duration \<Rightarrow> duration \<Rightarrow> duration" where
  "mergeRequeue a b = (if a \<le> 0 then max b 0 else if b \<le> 0 then a else min a b)"

definition requeueAfterFor :: "SlapdCluster \<Rightarrow> duration \<Rightarrow> duration" where
  "requeueAfterFor sc rotation =
     (let base = (if scs_Phase (sc_Status sc) \<noteq> ''Running'' then 10 * Second
                  else if repl_Enabled (sc_Replication sc) then csnCheckInterval else 0)
      in mergeRequeue base rotation)"

section \<open>The pass\<close>

definition writeSelectorMoved :: "kube \<Rightarrow> SlapdCluster \<Rightarrow> Service \<Rightarrow> message + bool" where
  "writeSelectorMoved k sc desired =
     (case kube_GetService k (service_Name desired) (sc_Namespace sc) of
        Inl ApiNotFound \<Rightarrow> Inr True
      | Inl (ApiError m) \<Rightarrow> Inl (Msg ''get write Service'' [MMsg m])
      | Inr cur \<Rightarrow> Inr (label (service_Selector cur) labelStatefulSetPodName \<noteq>
          label (service_Selector desired) labelStatefulSetPodName))"

text \<open>The answer and the Services sent to the API server.\<close>

definition applyWriteService :: "kube \<Rightarrow> Service \<Rightarrow> message option \<times> Service list" where
  "applyWriteService k svc =
     (case kube_Prepare k svc of
        Some e \<Rightarrow> (Some e, [])
      | None \<Rightarrow> (kube_Apply k svc, [svc]))"

definition retireWriteService :: "kube \<Rightarrow> SlapdCluster \<Rightarrow> message option \<times> Service list" where
  "retireWriteService k sc =
     (let name = writeServiceName (sc_Name sc) in
      if name = [] then (None, [])
      else (case kube_GetService k name (sc_Namespace sc) of
          Inl ApiNotFound \<Rightarrow> (None, [])
        | Inl (ApiError m) \<Rightarrow> (Some (Msg ''get write Service'' [MMsg m]), [])
        | Inr cur \<Rightarrow>
            if label (service_Selector cur) labelStatefulSetPodName = [] then (None, [])
            else applyWriteService k (fleetWriteService sc)))"

record pass_result =
  res_Requeue :: duration
  res_Err :: "message option"
  res_Conditions :: "Condition list"
  res_Applied :: "Service list"

definition reconcileWriteService ::
  "(Condition list \<Rightarrow> string \<Rightarrow> Condition list) \<Rightarrow> time \<Rightarrow> kube \<Rightarrow> SlapdCluster \<Rightarrow> rotationPlan \<Rightarrow> time \<Rightarrow> pass_result" where
  "reconcileWriteService rm clock k sc plan now =
     (let conds = scs_Conditions (sc_Status sc) in
      if \<not> WriterActive plan
      then (let (err, sent) = retireWriteService k sc in
            \<lparr>res_Requeue = 0, res_Err = err, res_Conditions = rm conds writeEndpointCondition, res_Applied = sent\<rparr>)
      else
        (let ready = (case kube_ListPods k (sc_Namespace sc) (selectorLabels (sc_Name sc)) of
                 Inl e \<Rightarrow> Map.empty
               | Inr pods \<Rightarrow> readyOrdinals pods (sc_Name sc));
             slot = writerSlot now (LeadTime plan) (SlotLength plan) (Replicas plan);
             writer = writeTarget slot (Replicas plan) (SlotsFromWriteToPurge plan) (eligibleForWrites ready Map.empty);
             requeue = nextWriterMove now (LeadTime plan) (SlotLength plan);
             conds' = setCondition conds (writeRotationCondition clock sc writer (time_add now requeue) (LeadTime plan))
         in case writeService sc writer of
              None \<Rightarrow> \<lparr>res_Requeue = requeue, res_Err = None, res_Conditions = conds', res_Applied = []\<rparr>
            | Some svc \<Rightarrow>
                (case writeSelectorMoved k sc svc of
                   Inl e \<Rightarrow> \<lparr>res_Requeue = requeue, res_Err = Some e, res_Conditions = conds', res_Applied = []\<rparr>
                 | Inr moved \<Rightarrow>
                     (let (err, sent) = applyWriteService k svc in
                      \<lparr>res_Requeue = requeue, res_Err = err, res_Conditions = conds', res_Applied = sent\<rparr>))))"

section \<open>Readiness\<close>

definition ready_pod :: "string \<Rightarrow> int32 \<Rightarrow> Pod \<Rightarrow> bool" where
  "ready_pod cluster k p \<longleftrightarrow> pod_Name p = statefulSetPodName cluster k \<and> podOrdinal (pod_Name p) = Inr k \<and>
     \<not> pod_Deleting p \<and> podReportsReady p"

lemma readyOrdinalsLoop_True:
  "readyOrdinalsLoop c pods m k = Some True \<Longrightarrow> m k = Some True \<or> (\<exists>p \<in> set pods. ready_pod c k p)"
  by (induction c pods m rule: readyOrdinalsLoop.induct)
    (fastforce simp: ready_pod_def split: sum.splits if_splits)+

lemma readyOrdinalsLoop_keep:
  "\<forall>p \<in> set pods. pod_Name p \<noteq> statefulSetPodName c k \<Longrightarrow> readyOrdinalsLoop c pods m k = m k"
  by (induction c pods m rule: readyOrdinalsLoop.induct) (auto split: sum.splits)

lemma readyOrdinals_ready: "readyOrdinals pods c k = Some True \<Longrightarrow> \<exists>p \<in> set pods. ready_pod c k p"
  using readyOrdinalsLoop_True [of c pods Map.empty k] by (simp add: readyOrdinals_def)

lemma readyOrdinalsLoop_complete:
  "p \<in> set pods \<Longrightarrow> distinct (map pod_Name pods) \<Longrightarrow> ready_pod c k p \<Longrightarrow> readyOrdinalsLoop c pods m k = Some True"
proof (induction pods arbitrary: m)
  case (Cons q pods)
  show ?case
  proof (cases "q = p")
    case True
    have "\<forall>x \<in> set pods. pod_Name x \<noteq> statefulSetPodName c k"
      using Cons.prems True by (auto simp: ready_pod_def image_iff)
    moreover have "podOrdinal (statefulSetPodName c k) = Inr k" "pod_Name p = statefulSetPodName c k"
      "\<not> pod_Deleting p" "podReportsReady p" using Cons.prems(3) by (auto simp: ready_pod_def)
    ultimately show ?thesis using True by (simp add: readyOrdinalsLoop_keep)
  next
    case False
    then show ?thesis using Cons by (simp split: sum.splits)
  qed
qed simp

lemma ready_pod_nonneg: "ready_pod c k p \<Longrightarrow> 0 \<le> k"
  by (auto simp: ready_pod_def podOrdinal_def split: option.splits prod.splits if_splits)

definition ready_now :: "kube \<Rightarrow> SlapdCluster \<Rightarrow> int32 \<Rightarrow> bool" where
  "ready_now k sc i \<longleftrightarrow> (case kube_ListPods k (sc_Namespace sc) (selectorLabels (sc_Name sc)) of
     Inl e \<Rightarrow> False | Inr pods \<Rightarrow> eligibleForWrites (readyOrdinals pods (sc_Name sc)) Map.empty i)"

lemma ready_now_pod:
  "ready_now k sc i \<Longrightarrow> \<exists>pods p. kube_ListPods k (sc_Namespace sc) (selectorLabels (sc_Name sc)) = Inr pods \<and>
     p \<in> set pods \<and> ready_pod (sc_Name sc) i p"
  by (auto simp: ready_now_def eligibleForWrites_def dest!: readyOrdinals_ready split: sum.splits if_splits)

lemma ready_now_iff:
  assumes "kube_ListPods k (sc_Namespace sc) (selectorLabels (sc_Name sc)) = Inr pods" and "distinct (map pod_Name pods)"
  shows "ready_now k sc i \<longleftrightarrow> (\<exists>p \<in> set pods. ready_pod (sc_Name sc) i p)"
proof
  show "ready_now k sc i \<Longrightarrow> \<exists>p \<in> set pods. ready_pod (sc_Name sc) i p" using ready_now_pod [of k sc i] assms(1) by auto
  assume "\<exists>p \<in> set pods. ready_pod (sc_Name sc) i p"
  then obtain p where p: "p \<in> set pods" "ready_pod (sc_Name sc) i p" by blast
  then have "readyOrdinals pods (sc_Name sc) i = Some True"
    unfolding readyOrdinals_def by (intro readyOrdinalsLoop_complete [OF _ assms(2)])
  then show "ready_now k sc i" using ready_pod_nonneg [OF p(2)] assms(1)
    by (simp add: ready_now_def eligibleForWrites_def)
qed

section \<open>One pass\<close>

definition chosen_writer :: "kube \<Rightarrow> SlapdCluster \<Rightarrow> rotationPlan \<Rightarrow> time \<Rightarrow> int32 option" where
  "chosen_writer k sc plan now =
     writeTarget (writerSlot now (LeadTime plan) (SlotLength plan) (Replicas plan)) (Replicas plan)
       (SlotsFromWriteToPurge plan) (ready_now k sc)"

definition rotated_service :: "SlapdCluster \<Rightarrow> int32 \<Rightarrow> Service" where
  "rotated_service sc w = (fleetWriteService sc)\<lparr>service_Selector := writeServiceSelector (sc_Name sc) w\<rparr>"

lemma writeService_eq: "writeService sc w = map_option (rotated_service sc) w"
  by (simp add: writeService_def rotated_service_def fleetWriteService_def Let_def split: option.splits)

lemma ready_now_eq:
  "ready_now k sc = eligibleForWrites (case kube_ListPods k (sc_Namespace sc) (selectorLabels (sc_Name sc)) of
     Inl e \<Rightarrow> Map.empty | Inr pods \<Rightarrow> readyOrdinals pods (sc_Name sc)) Map.empty"
  by (rule ext) (simp add: ready_now_def eligibleForWrites_def split: sum.splits)

lemma res_Applied_active:
  assumes "WriterActive plan"
  shows "res_Applied (reconcileWriteService rm clock k sc plan now) =
    (case chosen_writer k sc plan now of
       None \<Rightarrow> []
     | Some w \<Rightarrow> (case writeSelectorMoved k sc (rotated_service sc w) of
         Inl e \<Rightarrow> [] | Inr moved \<Rightarrow> snd (applyWriteService k (rotated_service sc w))))"
  unfolding reconcileWriteService_def Let_def writeService_eq chosen_writer_def ready_now_eq
  using assms by (auto split: option.splits sum.splits prod.splits)

lemma res_Requeue_active:
  "WriterActive plan \<Longrightarrow>
     res_Requeue (reconcileWriteService rm clock k sc plan now) = nextWriterMove now (LeadTime plan) (SlotLength plan)"
  unfolding reconcileWriteService_def Let_def by (auto split: option.splits sum.splits prod.splits)

lemma res_Conditions_active:
  "WriterActive plan \<Longrightarrow>
     res_Conditions (reconcileWriteService rm clock k sc plan now) =
       setCondition (scs_Conditions (sc_Status sc)) (writeRotationCondition clock sc (chosen_writer k sc plan now)
         (time_add now (nextWriterMove now (LeadTime plan) (SlotLength plan))) (LeadTime plan))"
  unfolding reconcileWriteService_def Let_def chosen_writer_def ready_now_eq
  by (auto split: option.splits sum.splits prod.splits)

lemma applied_sent: "svc' \<in> set (snd (applyWriteService k svc)) \<Longrightarrow> svc' = svc"
  by (auto simp: applyWriteService_def split: option.splits)

lemma retire_sent: "svc \<in> set (snd (retireWriteService k sc)) \<Longrightarrow>
    svc = fleetWriteService sc \<and> (\<exists>cur. kube_GetService k (writeServiceName (sc_Name sc)) (sc_Namespace sc) = Inr cur)"
  by (auto simp: retireWriteService_def Let_def dest!: applied_sent split: if_splits sum.splits api_error.splits)

lemma res_Applied_idle:
  "\<not> WriterActive plan \<Longrightarrow>
     res_Applied (reconcileWriteService rm clock k sc plan now) = snd (retireWriteService k sc)"
  unfolding reconcileWriteService_def Let_def by (auto split: prod.splits)

lemma label_fleet [simp]: "label (selectorLabels c) labelStatefulSetPodName = []"
  by (simp add: label_def selectorLabels_def)

lemma selector_labels [simp]:
  "label (service_Selector (rotated_service sc w)) labelStatefulSetPodName = statefulSetPodName (sc_Name sc) (max w 0)"
  "label (service_Selector (fleetWriteService sc)) labelStatefulSetPodName = []"
  "service_Name (rotated_service sc w) = writeServiceName (sc_Name sc)"
  "service_Name (fleetWriteService sc) = writeServiceName (sc_Name sc)"
  by (auto simp: rotated_service_def fleetWriteService_def writeServiceSelector_def selectorLabels_def label_def
      writeService_def Let_def max_def)

text \<open>
  C16. The write endpoint is only ever pointed where writes work: a Service a pass applies is the
  cluster's write Service; while the endpoint rotates it names one pod, in range, that the listing of
  this pass shows ready and not terminating, and it is the pod of the slot one lead time ahead only
  when no other pod in range is ready; while it does not rotate, the Service applied selects the
  whole fleet, and only where one was there before. The cluster's labels are always in the selector.
\<close>

theorem write_endpoint_target:
  assumes "svc \<in> set (res_Applied (reconcileWriteService rm clock k sc plan now))"
    and "0 < Replicas plan" and "Replicas plan \<le> 2 ^ 30"
  shows "service_Name svc = writeServiceName (sc_Name sc) \<and> set (selectorLabels (sc_Name sc)) \<subseteq> set (service_Selector svc) \<and>
    (if WriterActive plan
     then \<exists>w pods p. label (service_Selector svc) labelStatefulSetPodName = pod_Name p \<and>
       kube_ListPods k (sc_Namespace sc) (selectorLabels (sc_Name sc)) = Inr pods \<and> p \<in> set pods \<and>
       ready_pod (sc_Name sc) w p \<and> w < Replicas plan \<and>
       (w = writerSlot now (LeadTime plan) (SlotLength plan) (Replicas plan) mod Replicas plan \<longrightarrow>
          (\<forall>i. 0 \<le> i \<and> i < Replicas plan \<and> i \<noteq> w \<longrightarrow> \<not> ready_now k sc i))
     else label (service_Selector svc) labelStatefulSetPodName = [] \<and>
       (\<exists>cur. kube_GetService k (writeServiceName (sc_Name sc)) (sc_Namespace sc) = Inr cur))"
proof (cases "WriterActive plan")
  case True
  obtain w where w: "chosen_writer k sc plan now = Some w" "svc = rotated_service sc w"
    using assms(1) unfolding res_Applied_active [OF True]
    by (cases "chosen_writer k sc plan now") (auto dest!: applied_sent split: sum.splits)
  let ?slot = "writerSlot now (LeadTime plan) (SlotLength plan) (Replicas plan)"
  have W: "0 \<le> w" "w < Replicas plan" "ready_now k sc w"
    "w = ?slot mod Replicas plan \<longrightarrow> (\<forall>i. 0 \<le> i \<and> i < Replicas plan \<and> i \<noteq> w \<longrightarrow> \<not> ready_now k sc i)"
    using writeTarget_spec [OF assms(2,3), where slot = ?slot and v = "SlotsFromWriteToPurge plan" and eligible = "ready_now k sc"]
      w(1) unfolding chosen_writer_def by simp_all
  obtain pods p where p: "kube_ListPods k (sc_Namespace sc) (selectorLabels (sc_Name sc)) = Inr pods" "p \<in> set pods"
    "ready_pod (sc_Name sc) w p" using ready_now_pod [OF W(3)] by blast
  then have "label (service_Selector svc) labelStatefulSetPodName = pod_Name p"
    using W(1) by (simp add: w(2) ready_pod_def)
  moreover have "set (selectorLabels (sc_Name sc)) \<subseteq> set (service_Selector svc)"
    by (auto simp: w(2) rotated_service_def writeServiceSelector_def Let_def)
  ultimately show ?thesis using True W(2,4) p w(2) by auto
next
  case False
  then have "svc \<in> set (snd (retireWriteService k sc))" using assms(1) by (simp add: res_Applied_idle)
  then have "svc = fleetWriteService sc" "\<exists>cur. kube_GetService k (writeServiceName (sc_Name sc)) (sc_Namespace sc) = Inr cur"
    by (auto dest: retire_sent)
  moreover have "service_Selector (fleetWriteService sc) = selectorLabels (sc_Name sc)" by (simp add: fleetWriteService_def)
  ultimately show ?thesis using False by simp
qed

definition base_pod :: "string \<Rightarrow> bool \<Rightarrow> Pod" where
  "base_pod name rdy = \<lparr>pod_Name = name, pod_Phase = ''Running'', pod_PodIP = ''10.0.0.1'', pod_NetworkStatus = None,
     pod_Deleting = False, pod_Conditions = [(''Ready'', if rdy then ConditionTrue else ConditionFalse)]\<rparr>"

definition example_kube :: kube where
  "example_kube = \<lparr>kube_ListPods = \<lambda>_ _. Inr [base_pod ''slapd-0'' False, base_pod ''slapd-1'' True, base_pod ''slapd-2'' True],
     kube_GetService = \<lambda>_ _. Inl ApiNotFound, kube_Prepare = \<lambda>_. None, kube_Apply = \<lambda>_. None\<rparr>"

theorem write_endpoint_target_witness:
  "let sc = rotating_cluster 3 (21600 * Second) None None;
       r = reconcileWriteService (\<lambda>cs _. cs) 0 example_kube sc (evaluateRotation sc) (50400 * Second) in
   map (\<lambda>s. label (service_Selector s) labelStatefulSetPodName) (res_Applied r) = [''slapd-1''] \<and>
   (\<forall>s \<in> set (res_Applied r). set (selectorLabels ''slapd'') \<subseteq> set (service_Selector s))"
proof -
  define sc where "sc = rotating_cluster 3 (21600 * Second) None None"
  define r where "r = reconcileWriteService (\<lambda>cs _. cs) 0 example_kube sc (evaluateRotation sc) (50400 * Second)"
  have a: "map (\<lambda>s. label (service_Selector s) labelStatefulSetPodName) (res_Applied r) = [''slapd-1'']"
    and n: "Replicas (evaluateRotation sc) = 3" and nm: "sc_Name sc = ''slapd''"
    unfolding r_def sc_def by code_simp+
  have "\<forall>s \<in> set (res_Applied r). set (selectorLabels ''slapd'') \<subseteq> set (service_Selector s)"
    using write_endpoint_target [of _ "\<lambda>cs _. cs" 0 example_kube sc "evaluateRotation sc" "50400 * Second"]
    unfolding n nm r_def [symmetric] by simp
  with a show ?thesis unfolding Let_def sc_def [symmetric] r_def [symmetric] by blast
qed

lemma nextWriterMove_bounds:
  assumes "sane_time (now + lead)" and "whole_seconds t"
  shows "0 < nextWriterMove now lead t \<and> nextWriterMove now lead t \<le> t"
proof -
  have t: "0 < t" using assms(2) by (simp add: whole_seconds_def)
  have "nextWriterMove now lead t = t - (now + lead) mod t"
    using nextSlotBoundary_eq [OF assms] by (simp add: nextWriterMove_def time_add_def)
  then show ?thesis using pos_mod_bound [OF t, of "now + lead"] pos_mod_sign [OF t, of "now + lead"] by linarith
qed

text \<open>
  A pass that finds nobody ready changes nothing: no Service is sent, the condition says that no
  writer was eligible, and the next pass is asked for in a positive time no later than one slot away.
\<close>

theorem nobody_ready_nothing_moves:
  assumes "WriterActive plan" and "0 < Replicas plan" and "Replicas plan \<le> 2 ^ 30"
    and "\<forall>i. 0 \<le> i \<and> i < Replicas plan \<longrightarrow> \<not> ready_now k sc i"
    and "sane_time (now + LeadTime plan)" and "whole_seconds (SlotLength plan)"
    and "r = reconcileWriteService rm clock k sc plan now"
  shows "res_Applied r = [] \<and> res_Err r = None \<and> 0 < res_Requeue r \<and> res_Requeue r \<le> SlotLength plan \<and>
    (\<exists>c. condition_of (res_Conditions r) writeEndpointCondition = Some c \<and> cond_Status c = ConditionFalse \<and>
       cond_Reason c = ''NoEligibleWriter'')"
proof -
  have none: "chosen_writer k sc plan now = None"
    using writeTarget_spec [OF assms(2,3), where v = "SlotsFromWriteToPurge plan" and eligible = "ready_now k sc"
        and slot = "writerSlot now (LeadTime plan) (SlotLength plan) (Replicas plan)"] assms(4)
    unfolding chosen_writer_def by (auto split: option.splits)
  have "writeService sc (chosen_writer k sc plan now) = None" by (simp add: none writeService_def)
  then have "res_Err r = None"
    unfolding assms(7) reconcileWriteService_def Let_def using assms(1)
    by (simp add: chosen_writer_def ready_now_eq)
  moreover have "res_Applied r = []" unfolding assms(7) res_Applied_active [OF assms(1)] none by simp
  moreover have "0 < res_Requeue r \<and> res_Requeue r \<le> SlotLength plan"
    unfolding assms(7) res_Requeue_active [OF assms(1)] by (rule nextWriterMove_bounds [OF assms(5,6)])
  moreover have "\<exists>c. condition_of (res_Conditions r) writeEndpointCondition = Some c \<and> cond_Status c = ConditionFalse \<and>
       cond_Reason c = ''NoEligibleWriter''"
    unfolding assms(7) res_Conditions_active [OF assms(1)] none condition_of_set
    by (simp add: writeRotationCondition_def Let_def split: option.splits)
  ultimately show ?thesis by blast
qed

theorem nobody_ready_nothing_moves_witness:
  "let sc = rotating_cluster 3 (21600 * Second) None None;
       r = reconcileWriteService (\<lambda>cs _. cs) 0 (example_kube\<lparr>kube_ListPods := \<lambda>_ _. Inl noMsg\<rparr>) sc
         (evaluateRotation sc) (50400 * Second) in
   res_Applied r = [] \<and> res_Requeue r = 14400 * Second"
proof -
  define sc where "sc = rotating_cluster 3 (21600 * Second) None None"
  define k where "k = example_kube\<lparr>kube_ListPods := \<lambda>_ _. Inl noMsg\<rparr>"
  define r where "r = reconcileWriteService (\<lambda>cs _. cs) 0 k sc (evaluateRotation sc) (50400 * Second)"
  have p: "WriterActive (evaluateRotation sc)" "Replicas (evaluateRotation sc) = 3"
    "LeadTime (evaluateRotation sc) = 0" "SlotLength (evaluateRotation sc) = 21600 * Second"
    and q: "res_Requeue r = 14400 * Second"
    unfolding r_def k_def sc_def by code_simp+
  have "\<forall>i. 0 \<le> i \<and> i < Replicas (evaluateRotation sc) \<longrightarrow> \<not> ready_now k sc i" by (simp add: ready_now_def k_def)
  moreover have "sane_time (50400 * Second + LeadTime (evaluateRotation sc))" "whole_seconds (SlotLength (evaluateRotation sc))"
    unfolding p(3,4) by (simp_all add: sane_time_def unix_sec_def whole_seconds_def Second_def)
  ultimately have "res_Applied r = []"
    using nobody_ready_nothing_moves [OF p(1) _ _ _ _ _ r_def] unfolding p(2) by simp
  with q show ?thesis unfolding Let_def sc_def [symmetric] k_def [symmetric] r_def [symmetric] by blast
qed

section \<open>Pass after pass\<close>

text \<open>
  The API server keeps the Service. A pass meets an environment - what listing the pods answers and
  which calls fail - and changes the Service when its apply is accepted.
\<close>

record pass_env =
  env_Pods :: "message + Pod list"
  env_GetErr :: "message option"
  env_PrepareErr :: "message option"
  env_ApplyErr :: "message option"

definition kube_at :: "pass_env \<Rightarrow> Service option \<Rightarrow> kube" where
  "kube_at e st = \<lparr>kube_ListPods = \<lambda>_ _. env_Pods e,
     kube_GetService = \<lambda>_ _. (case env_GetErr e of Some m \<Rightarrow> Inl (ApiError m)
       | None \<Rightarrow> (case st of None \<Rightarrow> Inl ApiNotFound | Some s \<Rightarrow> Inr s)),
     kube_Prepare = \<lambda>_. env_PrepareErr e, kube_Apply = \<lambda>_. env_ApplyErr e\<rparr>"

definition after_pass ::
  "pass_env \<Rightarrow> (Condition list \<Rightarrow> string \<Rightarrow> Condition list) \<Rightarrow> time \<Rightarrow> SlapdCluster \<Rightarrow> time \<Rightarrow> Service option \<Rightarrow> Service option" where
  "after_pass e rm clock sc now st =
     (let r = reconcileWriteService rm clock (kube_at e st) sc (evaluateRotation sc) now in
      if env_ApplyErr e = None \<and> res_Applied r \<noteq> [] then Some (last (res_Applied r)) else st)"

inductive endpoint_reachable :: "string \<Rightarrow> Service option \<Rightarrow> bool" for cl where
  no_endpoint: "endpoint_reachable cl None"
| pass: "endpoint_reachable cl st \<Longrightarrow> sc_Name sc = cl \<Longrightarrow> endpoint_reachable cl (after_pass e rm clock sc now st)"

definition endpoint_ok :: "string \<Rightarrow> Service \<Rightarrow> bool" where
  "endpoint_ok cl svc \<longleftrightarrow> service_Name svc = writeServiceName cl \<and>
     (service_Selector svc = selectorLabels cl \<or> (\<exists>k \<ge> 0. service_Selector svc = writeServiceSelector cl k))"

lemma applied_ok:
  assumes "svc \<in> set (res_Applied (reconcileWriteService rm clock k sc plan now))"
  shows "endpoint_ok (sc_Name sc) svc"
proof (cases "WriterActive plan")
  case True
  then obtain w where "svc = rotated_service sc w"
    using assms unfolding res_Applied_active [OF True]
    by (cases "chosen_writer k sc plan now") (auto dest!: applied_sent split: sum.splits)
  moreover have "writeServiceSelector c w = writeServiceSelector c (max w 0)" for c
    by (simp add: writeServiceSelector_def Let_def max_def)
  ultimately show ?thesis unfolding endpoint_ok_def by (auto simp: rotated_service_def intro!: exI [of _ "max w 0"])
next
  case False
  then have "svc = fleetWriteService sc" using assms by (simp add: res_Applied_idle retire_sent)
  then show ?thesis by (simp add: endpoint_ok_def) (simp add: fleetWriteService_def)
qed

lemma after_pass_cases:
  obtains "after_pass e rm clock sc now st = st"
  | svc where "after_pass e rm clock sc now st = Some svc"
      and "svc \<in> set (res_Applied (reconcileWriteService rm clock (kube_at e st) sc (evaluateRotation sc) now))"
proof (cases "env_ApplyErr e = None \<and>
    res_Applied (reconcileWriteService rm clock (kube_at e st) sc (evaluateRotation sc) now) \<noteq> []")
  case True
  then show ?thesis by (intro that(2) [OF _ last_in_set]) (auto simp: after_pass_def Let_def)
next
  case False
  then show ?thesis by (intro that(1)) (auto simp: after_pass_def Let_def)
qed

text \<open>
  C9. Whatever happens - any sequence of passes over any changes of the cluster's spec, at any
  times, with the pod listing, the reads and the writes failing in any combination - the write
  Service, once there, stays there and always selects something real: the whole read-write fleet, or
  a pod of the cluster by its name. It is never created by a cluster whose rotation is off.
\<close>

theorem endpoint_never_selects_nothing:
  assumes "endpoint_reachable cl st" and "sc_Name sc = cl"
  shows "(\<forall>svc. st = Some svc \<longrightarrow> endpoint_ok cl svc) \<and>
    (st \<noteq> None \<longrightarrow> after_pass e rm clock sc now st \<noteq> None) \<and>
    (st = None \<and> \<not> WriterActive (evaluateRotation sc) \<longrightarrow> after_pass e rm clock sc now st = None)"
proof (intro conjI)
  show "\<forall>svc. st = Some svc \<longrightarrow> endpoint_ok cl svc"
    using assms(1)
  proof induction
    case (pass st sc' e rm clock now)
    show ?case
      by (rule after_pass_cases [of e rm clock sc' now st]) (use pass in \<open>auto dest: applied_ok\<close>)
  qed simp
  show "st \<noteq> None \<longrightarrow> after_pass e rm clock sc now st \<noteq> None" by (simp add: after_pass_def Let_def)
  show "st = None \<and> \<not> WriterActive (evaluateRotation sc) \<longrightarrow> after_pass e rm clock sc now st = None"
  proof
    assume a: "st = None \<and> \<not> WriterActive (evaluateRotation sc)"
    have "snd (retireWriteService (kube_at e None) sc) = []"
      by (simp add: retireWriteService_def kube_at_def Let_def split: option.splits)
    then show "after_pass e rm clock sc now st = None" using a by (simp add: after_pass_def Let_def res_Applied_idle)
  qed
qed

definition calm :: "Pod list \<Rightarrow> pass_env" where
  "calm pods = \<lparr>env_Pods = Inr pods, env_GetErr = None, env_PrepareErr = None, env_ApplyErr = None\<rparr>"

theorem endpoint_never_selects_nothing_witness:
  "let st = after_pass (calm [base_pod ''slapd-1'' True]) (\<lambda>cs _. cs) 0
     (rotating_cluster 3 (21600 * Second) None None) (50400 * Second) None in
   (\<exists>svc. st = Some svc \<and> endpoint_ok ''slapd'' svc) \<and>
   after_pass (calm []) (\<lambda>cs _. cs) 0 base_cluster 0 st \<noteq> None"
proof -
  define sc where "sc = rotating_cluster 3 (21600 * Second) None None"
  define st where "st = after_pass (calm [base_pod ''slapd-1'' True]) (\<lambda>cs _. cs) 0 sc (50400 * Second) None"
  have "sc_Name sc = ''slapd''" by (simp add: sc_def rotating_cluster_def base_cluster_def)
  from endpoint_reachable.pass [OF endpoint_reachable.no_endpoint this]
  have r: "endpoint_reachable ''slapd'' st" unfolding st_def .
  have n: "sc_Name base_cluster = ''slapd''" by (simp add: base_cluster_def)
  have "st \<noteq> None" unfolding st_def sc_def by code_simp
  with endpoint_never_selects_nothing [OF r n] show ?thesis
    unfolding Let_def sc_def [symmetric] st_def [symmetric] by blast
qed

lemma chosen_writer_ready:
  assumes "0 < Replicas plan" and "Replicas plan \<le> 2 ^ 30" and "0 \<le> i" and "i < Replicas plan" and "ready_now k sc i"
  obtains w where "chosen_writer k sc plan now = Some w" and "0 \<le> w" and "w < Replicas plan" and "ready_now k sc w"
proof -
  note S = writeTarget_spec [OF assms(1,2), where v = "SlotsFromWriteToPurge plan" and eligible = "ready_now k sc"
        and slot = "writerSlot now (LeadTime plan) (SlotLength plan) (Replicas plan)"]
  show ?thesis
  proof (cases "chosen_writer k sc plan now")
    case None
    then show ?thesis using S assms(3-5) unfolding chosen_writer_def by simp
  next
    case (Some w)
    then show ?thesis using S that unfolding chosen_writer_def by simp
  qed
qed

text \<open>
  The rotation is live: as soon as one pod in range is ready, a pass whose calls all succeed
  leaves the write Service naming a ready pod in range, whatever the Service named before; another
  pass of the same slot over the same pods leaves it as it is.
\<close>

theorem calm_pass_points_at_a_ready_pod:
  assumes "rotation_fits sc" and "WriterActive (evaluateRotation sc)" and "distinct (map pod_Name pods)"
    and "q \<in> set pods" and "ready_pod (sc_Name sc) i q" and "i < declaredReplicas sc"
  shows "\<exists>svc w p. after_pass (calm pods) rm clock sc now st = Some svc \<and> p \<in> set pods \<and>
    ready_pod (sc_Name sc) w p \<and> w < declaredReplicas sc \<and>
    service_Selector svc = selectorLabels (sc_Name sc) @ [(labelStatefulSetPodName, pod_Name p)] \<and>
    after_pass (calm pods) rm clock' sc now (Some svc) = Some svc"
proof -
  let ?p = "evaluateRotation sc"
  have "rotation_rules sc" using idle_plan [OF assms(1)] assms(2) unfolding Let_def by blast
  then have n: "Replicas ?p = declaredReplicas sc" using active_plan [OF assms(1)] unfolding Let_def by blast
  then have n': "0 < Replicas ?p" "Replicas ?p \<le> 2 ^ 30"
    using assms(1) declaredReplicas_pos [of sc] by (simp_all add: rotation_fits_def)
  have rn: "ready_now (kube_at (calm pods) x) sc j \<longleftrightarrow> (\<exists>p \<in> set pods. ready_pod (sc_Name sc) j p)" for x j
    by (rule ready_now_iff [OF _ assms(3)]) (simp add: kube_at_def calm_def)
  have same: "chosen_writer (kube_at (calm pods) x) sc ?p now = chosen_writer (kube_at (calm pods) y) sc ?p now" for x y
    unfolding chosen_writer_def ready_now_def by (simp add: kube_at_def)
  have r: "ready_now (kube_at (calm pods) st) sc i" using assms(4,5) rn by blast
  obtain w where w: "chosen_writer (kube_at (calm pods) st) sc ?p now = Some w" "0 \<le> w" "w < Replicas ?p"
    "ready_now (kube_at (calm pods) st) sc w"
    by (rule chosen_writer_ready [OF n' ready_pod_nonneg [OF assms(5)] assms(6) [folded n] r])
  obtain p where p: "p \<in> set pods" "ready_pod (sc_Name sc) w p" using w(4) rn by blast
  have moved: "\<exists>m. writeSelectorMoved (kube_at (calm pods) x) sc svc = Inr m" for x svc
    by (auto simp: writeSelectorMoved_def kube_at_def calm_def split: option.splits)
  have sent: "after_pass (calm pods) rm c sc now x = Some (rotated_service sc w)" for c x
    using moved [of x "rotated_service sc w"] unfolding after_pass_def Let_def res_Applied_active [OF assms(2)] same [of x st] w(1)
    by (auto simp: applyWriteService_def kube_at_def calm_def)
  have "service_Selector (rotated_service sc w) = selectorLabels (sc_Name sc) @ [(labelStatefulSetPodName, pod_Name p)]"
    using w(2) p(2) by (simp add: rotated_service_def writeServiceSelector_def ready_pod_def)
  then show ?thesis using sent p w(3) n by auto
qed

theorem calm_pass_points_at_a_ready_pod_witness:
  "\<exists>svc. after_pass (calm [base_pod ''slapd-1'' True]) (\<lambda>cs _. cs) 0 (rotating_cluster 3 (21600 * Second) None None)
     (50400 * Second) None = Some svc \<and> label (service_Selector svc) labelStatefulSetPodName = ''slapd-1''"
proof -
  let ?sc = "rotating_cluster 3 (21600 * Second) None None"
  have f: "rotation_fits ?sc"
    by (simp add: rotating_cluster_def rotation_fits_def formA_def base_cluster_def declaredReplicas_def Second_def)
  have a: "WriterActive (evaluateRotation ?sc)" "ready_pod (sc_Name ?sc) 1 (base_pod ''slapd-1'' True)"
    "1 < declaredReplicas ?sc" "pod_Name (base_pod ''slapd-1'' True) = ''slapd-1''" by code_simp+
  from calm_pass_points_at_a_ready_pod [OF f a(1) _ _ a(2,3), of "[base_pod ''slapd-1'' True]"] a(4)
  show ?thesis by (fastforce simp: label_def selectorLabels_def)
qed

text \<open>
  The requeue of a pass is the sooner of the two cadences: it is never negative; it is zero
  exactly when the cluster is running without replication and the rotation asks for nothing; and
  it is never later than either of the two that asks.
\<close>

theorem requeue_is_the_sooner:
  "0 \<le> requeueAfterFor sc d \<and>
   (requeueAfterFor sc d = 0 \<longleftrightarrow>
      scs_Phase (sc_Status sc) = ''Running'' \<and> \<not> repl_Enabled (sc_Replication sc) \<and> d \<le> 0) \<and>
   requeueAfterFor sc d \<in> {0, d, 10 * Second, csnCheckInterval} \<and>
   (d \<le> 0 \<or> requeueAfterFor sc d \<le> d) \<and>
   (scs_Phase (sc_Status sc) = ''Running'' \<or> requeueAfterFor sc d \<le> 10 * Second) \<and>
   (\<not> repl_Enabled (sc_Replication sc) \<or> requeueAfterFor sc d \<le> csnCheckInterval)"
  by (simp add: requeueAfterFor_def mergeRequeue_def Let_def csnCheckInterval_def Second_def min_def max_def)

theorem requeue_is_the_sooner_witness:
  "requeueAfterFor base_cluster (5 * Second) \<le> 5 * Second \<and> requeueAfterFor base_cluster 0 \<le> csnCheckInterval"
proof -
  have "repl_Enabled (sc_Replication base_cluster)" by (simp add: base_cluster_def base_repl_def)
  then show ?thesis
    using requeue_is_the_sooner [of base_cluster "5 * Second"] requeue_is_the_sooner [of base_cluster 0]
    by (simp add: Second_def)
qed

end
