(* ===== verification/Config_Attr.thy ===== *)
theory Config_Attr
  imports Ldap_Write Syncrepl_Build
begin

text \<open>
  The cn=config attributes of a database that are converged on every pass: \<open>slapddatabase_tunables.go\<close>,
  the database half of \<open>scale_tunables.go\<close>, and of \<open>slapddatabase_controller.go\<close> the ACLs, the indices,
  \<open>olcServerID\<close>, \<open>olcReadOnly\<close> and the modules. An operation reads the pod's entry, compares, and sends at
  most one request per attribute; it returns its error, if any, and the history of requests.
  \<open>resource.ParseQuantity\<close> with \<open>AsInt64\<close> is an argument.
\<close>

type_synonym step = "history \<Rightarrow> message option \<times> history"

text \<open>The statements of a function body: the first error ends it.\<close>

definition andThen :: "step \<Rightarrow> step \<Rightarrow> step" where
  "andThen f g h = (case f h of (Some e, h') \<Rightarrow> (Some e, h') | (None, h') \<Rightarrow> g h')"

definition skip :: step where
  "skip h = (None, h)"

fun eachStep :: "('a \<Rightarrow> step) \<Rightarrow> 'a list \<Rightarrow> step" where
  "eachStep f [] = skip"
| "eachStep f (x # xs) = andThen (f x) (eachStep f xs)"

definition wrapErr :: "string \<Rightarrow> msg_arg list \<Rightarrow> step \<Rightarrow> step" where
  "wrapErr fmt args f h = (case f h of (Some e, h') \<Rightarrow> (Some (Msg fmt (args @ [MMsg e])), h') | (None, h') \<Rightarrow> (None, h'))"

definition readConfigAttr :: "ldap_srv \<Rightarrow> history \<Rightarrow> string \<Rightarrow> string \<Rightarrow> string \<Rightarrow> message + string list" where
  "readConfigAttr srv h addr dn attr =
     (case srv_Read srv h addr dn of
        Inl e \<Rightarrow> Inl (Msg ''read'' [MStr attr, MStr dn, MMsg e])
      | Inr [] \<Rightarrow> Inl (Msg ''no entry at'' [MStr dn])
      | Inr (e # es) \<Rightarrow> Inr (e attr))"

text \<open>Read the attribute, then do what the values call for.\<close>

definition reading ::
  "ldap_srv \<Rightarrow> string \<Rightarrow> string \<Rightarrow> string \<Rightarrow> (string list \<Rightarrow> step) \<Rightarrow> step" where
  "reading srv addr dn attr k h =
     (case readConfigAttr srv h addr dn attr of Inl e \<Rightarrow> (Some e, h) | Inr current \<Rightarrow> k current h)"

abbreviation modify1 :: "ldap_srv \<Rightarrow> string \<Rightarrow> string \<Rightarrow> mod_op \<Rightarrow> string \<Rightarrow> string list \<Rightarrow> step" where
  "modify1 srv addr dn op attr vals h \<equiv> guardedModify srv h addr dn [(op, attr, vals)]"

section \<open>Ordered values: ACLs and limits\<close>

definition stripOrderingPrefix :: "string \<Rightarrow> string" where
  "stripOrderingPrefix v =
     (if v \<noteq> [] \<and> hd v = CHR ''{'' then (case cut CHR ''}'' v of Some (p, r) \<Rightarrow> r | None \<Rightarrow> v) else v)"

definition aclsMatch :: "string list \<Rightarrow> string list \<Rightarrow> bool" where
  "aclsMatch current desired \<longleftrightarrow> length current = length desired \<and>
     list_all2 (\<lambda>c d. stripOrderingPrefix c = d) current desired"

definition limitsMatch :: "string list \<Rightarrow> string list \<Rightarrow> bool" where
  "limitsMatch current desired = aclsMatch current desired"

definition legacyReplicationBindDN :: "string \<Rightarrow> string" where
  "legacyReplicationBindDN suffix = ''cn=replication,'' @ suffix"

definition replicationACL :: "string \<Rightarrow> string \<Rightarrow> string" where
  "replicationACL dbName suffix =
     ''to * by dn.exact=\"'' @ replicationBindDN dbName @ ''\" read by dn.exact=\"'' @
     legacyReplicationBindDN suffix @ ''\" read by * break''"

definition replicationLimits :: "string \<Rightarrow> string \<Rightarrow> string list" where
  "replicationLimits dbName dataSuffix =
     map (\<lambda>dn. ''dn.exact=\"'' @ dn @
         ''\" time.soft=unlimited time.hard=unlimited size.soft=unlimited size.hard=unlimited'')
       [replicationBindDN dbName, legacyReplicationBindDN dataSuffix]"

definition desiredLimits :: "SlapdDatabase \<Rightarrow> bool \<Rightarrow> string list" where
  "desiredLimits sd replicating =
     (if replicating then replicationLimits (sd_Name sd) (sds_Suffix (sd_Spec sd)) else []) @ sds_Limits (sd_Spec sd)"

definition ensureLimits :: "ldap_srv \<Rightarrow> string \<Rightarrow> string \<Rightarrow> string list \<Rightarrow> step" where
  "ensureLimits srv addr dn desired =
     reading srv addr dn ''olcLimits'' (\<lambda>current.
       if limitsMatch current desired then skip
       else if desired = [] then modify1 srv addr dn OpDelete ''olcLimits'' []
       else modify1 srv addr dn OpReplace ''olcLimits'' desired)"

definition applyACLs :: "ldap_srv \<Rightarrow> string \<Rightarrow> string \<Rightarrow> SlapdDatabase \<Rightarrow> SlapdCluster \<Rightarrow> step" where
  "applyACLs srv addr dn sd sc =
     (let acls = (if NeedsAccesslog sc then [replicationACL (sd_Name sd) (sds_Suffix (sd_Spec sd))] else []) @
            sds_ACLs (sd_Spec sd)
      in reading srv addr dn ''olcAccess'' (\<lambda>current.
           if aclsMatch current acls then skip else modify1 srv addr dn OpReplace ''olcAccess'' acls))"

section \<open>Search limits\<close>

abbreviation "slapdLimitUnlimited \<equiv> ''unlimited''"

definition resolveSearchLimit :: "string option \<Rightarrow> string \<times> bool" where
  "resolveSearchLimit v =
     (case v of
        None \<Rightarrow> (slapdLimitUnlimited, True)
      | Some x \<Rightarrow> (let s = trim_space x in if s = [] then ([], False) else (s, True)))"

definition desiredSizeLimit :: "SlapdDatabase \<Rightarrow> string \<times> bool" where
  "desiredSizeLimit sd = resolveSearchLimit (sds_SizeLimit (sd_Spec sd))"

definition desiredTimeLimit :: "SlapdDatabase \<Rightarrow> string \<times> bool" where
  "desiredTimeLimit sd = resolveSearchLimit (sds_TimeLimit (sd_Spec sd))"

definition normLimit :: "string \<Rightarrow> string" where
  "normLimit v =
     (let s = to_lower (trim_space v) in
      if s = ''none'' \<or> s = ''-1'' then slapdLimitUnlimited
      else (case parse_int 10 64 s of Some n \<Rightarrow> itoa n | None \<Rightarrow> s))"

definition searchLimitEqual :: "string \<Rightarrow> string \<Rightarrow> bool" where
  "searchLimitEqual a b \<longleftrightarrow> normLimit a = normLimit b"

definition ensureSearchLimit :: "ldap_srv \<Rightarrow> string \<Rightarrow> string \<Rightarrow> string \<times> string \<times> bool \<Rightarrow> step" where
  "ensureSearchLimit srv addr dn spec =
     (case spec of (attr, value, wr) \<Rightarrow>
        if \<not> wr then skip
        else reading srv addr dn attr (\<lambda>current.
          if length current = 1 \<and> searchLimitEqual (hd current) value then skip
          else wrapErr ''set'' [MStr attr, MStr dn] (modify1 srv addr dn OpReplace attr [value])))"

definition ensureSearchLimits :: "ldap_srv \<Rightarrow> string \<Rightarrow> string \<Rightarrow> SlapdDatabase \<Rightarrow> step" where
  "ensureSearchLimits srv addr dn sd =
     eachStep (ensureSearchLimit srv addr dn)
       [(''olcSizeLimit'', desiredSizeLimit sd), (''olcTimeLimit'', desiredTimeLimit sd)]"

section \<open>Durability\<close>

definition desiredNoSync :: "SlapdDatabase \<Rightarrow> SlapdCluster \<Rightarrow> bool" where
  "desiredNoSync sd sc =
     (case sds_NoSync (sd_Spec sd) of
        Some b \<Rightarrow> b
      | None \<Rightarrow> (case spec_TuningNoSync (sc_Spec sc) of Some b \<Rightarrow> b | None \<Rightarrow> False))"

abbreviation "defaultDataCheckpoint \<equiv> ''1024 5''"

definition desiredCheckpoint :: "SlapdDatabase \<Rightarrow> string \<times> bool" where
  "desiredCheckpoint sd =
     (case sds_Checkpoint (sd_Spec sd) of
        None \<Rightarrow> (defaultDataCheckpoint, True)
      | Some c \<Rightarrow> (let v = trim_space c in if v = [] then ([], False) else (v, True)))"

definition validateDurability :: "SlapdDatabase \<Rightarrow> SlapdCluster \<Rightarrow> message option" where
  "validateDurability sd sc =
     (if \<not> desiredNoSync sd sc then None
      else if snd (desiredCheckpoint sd) then None
      else Some (Msg ''noSync without a checkpoint'' [MStr defaultDataCheckpoint]))"

definition desiredRtxnSize :: "SlapdDatabase \<Rightarrow> int32" where
  "desiredRtxnSize sd = (case sds_RtxnSize (sd_Spec sd) of None \<Rightarrow> 10000 | Some n \<Rightarrow> n)"

definition ensureTunable :: "ldap_srv \<Rightarrow> string \<Rightarrow> string \<Rightarrow> string \<times> string \<times> bool \<Rightarrow> step" where
  "ensureTunable srv addr dn w =
     (case w of (attr, value, wr) \<Rightarrow>
        reading srv addr dn attr (\<lambda>current.
          if \<not> wr
          then (if current = [] then skip
                else wrapErr ''delete'' [MStr attr, MStr dn] (modify1 srv addr dn OpDelete attr []))
          else if length current = 1 \<and> equal_fold (trim_space (hd current)) value then skip
          else wrapErr ''set'' [MStr attr, MStr dn] (modify1 srv addr dn OpReplace attr [value])))"

definition ensureBackendTunables ::
  "ldap_srv \<Rightarrow> string \<Rightarrow> string \<Rightarrow> SlapdDatabase \<Rightarrow> SlapdCluster \<Rightarrow> string \<Rightarrow> step" where
  "ensureBackendTunables srv addr dn sd sc checkpointOverride =
     (let noSync = (if desiredNoSync sd sc then ''TRUE'' else ''FALSE'');
          checkpoint = (if checkpointOverride \<noteq> [] then (checkpointOverride, True) else desiredCheckpoint sd)
      in eachStep (ensureTunable srv addr dn)
           [(''olcDbNoSync'', noSync, True), (''olcDbCheckpoint'', checkpoint),
            (''olcDbRtxnSize'', itoa (desiredRtxnSize sd), True)])"

section \<open>Indices\<close>

definition splitIndexValue :: "string \<Rightarrow> string list \<times> string" where
  "splitIndexValue v =
     (let fs = str_fields v in
      if fs = [] then ([], [])
      else let attrList = (if length fs > 1 then concat (butlast fs) else hd fs);
               types = (if length fs > 1 then last fs else [])
           in (filter (\<lambda>a. a \<noteq> []) (map trim_space (split_on CHR '','' attrList)), types))"

definition indexedAttrs :: "string list \<Rightarrow> string list" where
  "indexedAttrs vals = concat (map (\<lambda>v. map to_lower (fst (splitIndexValue v))) vals)"

text \<open>The parsing of \<open>planIndices\<close> is that of \<open>splitIndexValue\<close>, written out a second time in the source.\<close>

definition planIndices :: "string list \<Rightarrow> string list \<Rightarrow> string list" where
  "planIndices current want =
     (let missing = filter (\<lambda>a. to_lower a \<notin> set (indexedAttrs current)) want in
      if missing = [] then [] else [join '','' missing @ '' eq''])"

definition dataBaselineIndexAttrs :: "string list" where
  "dataBaselineIndexAttrs = [''objectClass'', ''entryCSN'', ''entryUUID'']"

definition planDataBaselineIndices :: "string list \<Rightarrow> string list" where
  "planDataBaselineIndices current = planIndices current dataBaselineIndexAttrs"

definition ensureDataBaselineIndices :: "ldap_srv \<Rightarrow> string \<Rightarrow> string \<Rightarrow> step" where
  "ensureDataBaselineIndices srv addr dn =
     reading srv addr dn ''olcDbIndex'' (\<lambda>current.
       let missing = planDataBaselineIndices current in
       if missing = [] then skip else modify1 srv addr dn OpAdd ''olcDbIndex'' missing)"

fun claimAttrs :: "string list \<Rightarrow> string list \<Rightarrow> string list \<Rightarrow> string list \<times> string list" where
  "claimAttrs indexed [] remaining = (remaining, indexed)"
| "claimAttrs indexed (a # as) remaining =
     (if to_lower a \<in> set indexed then claimAttrs indexed as remaining
      else claimAttrs (to_lower a # indexed) as (remaining @ [a]))"

fun userIndicesLoop :: "string list \<Rightarrow> string list \<Rightarrow> string list \<Rightarrow> string list" where
  "userIndicesLoop indexed [] out = out"
| "userIndicesLoop indexed (d # ds) out =
     (let (attrs, types) = splitIndexValue d;
          (remaining, indexed') = claimAttrs indexed attrs []
      in if remaining = [] then userIndicesLoop indexed' ds out
         else userIndicesLoop indexed' ds
           (out @ [join '','' remaining @ (if types \<noteq> [] then '' '' @ types else [])]))"

definition planUserIndices :: "string list \<Rightarrow> string list \<Rightarrow> string list" where
  "planUserIndices current desired = userIndicesLoop (indexedAttrs current) desired []"

definition applyIndices :: "ldap_srv \<Rightarrow> string \<Rightarrow> string \<Rightarrow> string list \<Rightarrow> step" where
  "applyIndices srv addr dn desired =
     reading srv addr dn ''olcDbIndex'' (\<lambda>current.
       let missing = planUserIndices current desired in
       if missing = [] then skip else modify1 srv addr dn OpAdd ''olcDbIndex'' missing)"

section \<open>Identity, mode and modules\<close>

definition serverIDSetsEqual :: "string list \<Rightarrow> string list \<Rightarrow> bool" where
  "serverIDSetsEqual a b \<longleftrightarrow>
     (let norm = (\<lambda>vs. remdups (map (\<lambda>v. join '' '' (str_fields v)) vs)) in
      length (norm a) = length (norm b) \<and> list_all (\<lambda>k. k \<in> set (norm b)) (norm a))"

definition ensureServerIDs :: "ldap_srv \<Rightarrow> string \<Rightarrow> SlapdCluster \<Rightarrow> int32 \<Rightarrow> step" where
  "ensureServerIDs srv addr sc ordinal =
     (let desired = [desiredServerID sc ordinal] in
      reading srv addr ''cn=config'' ''olcServerID'' (\<lambda>current.
        if serverIDSetsEqual current desired then skip
        else wrapErr ''replace olcServerID'' [] (modify1 srv addr ''cn=config'' OpReplace ''olcServerID'' desired)))"

definition ensureReadOnly :: "ldap_srv \<Rightarrow> string \<Rightarrow> string \<Rightarrow> bool \<Rightarrow> step" where
  "ensureReadOnly srv addr dn desired =
     reading srv addr dn ''olcReadOnly'' (\<lambda>values.
       let current = (case values of [] \<Rightarrow> [] | v # vs \<Rightarrow> v);
           desiredStr = (if desired then ''TRUE'' else ''FALSE'')
       in if current = [] \<and> \<not> desired \<or> current = desiredStr then skip
          else modify1 srv addr dn OpReplace ''olcReadOnly'' [desiredStr])"

definition moduleBaseName :: "string \<Rightarrow> string" where
  "moduleBaseName v0 =
     (let v = (case v0 of c # cs \<Rightarrow> (if c = CHR ''{'' then (case cut CHR ''}'' v0 of Some (p, r) \<Rightarrow> r | None \<Rightarrow> v0) else v0)
               | [] \<Rightarrow> v0);
          v = (case after_last CHR ''/'' v of Some r \<Rightarrow> r | None \<Rightarrow> v)
      in case before_first ''.la'' v of
           Some (c # cs) \<Rightarrow> c # cs
         | _ \<Rightarrow> (case before_first ''.so'' v of Some (c # cs) \<Rightarrow> c # cs | _ \<Rightarrow> v))"

definition missingModules :: "string list \<Rightarrow> string list \<Rightarrow> string list" where
  "missingModules loaded wanted =
     filter (\<lambda>w. moduleBaseName w \<notin> set (map moduleBaseName loaded)) wanted"

section \<open>Create-only attributes: reported, never written\<close>

datatype maxSizeVerdict = maxSizeMatches | maxSizeNeedsGrow | maxSizeNeedsShrink

definition defaultDataMaxSizeBytes :: int64 where
  "defaultDataMaxSizeBytes = 32 * 2 ^ 30"

definition parseMaxSize :: "(string \<Rightarrow> message + int64 option) \<Rightarrow> string \<Rightarrow> message + int64" where
  "parseMaxSize quantity s0 =
     (let s = trim_space s0 in
      if s = [] then Inl (Msg ''empty map size'' [])
      else (case quantity s of
          Inl e \<Rightarrow> Inl (Msg ''parse map size'' [MStr s, MMsg e])
        | Inr None \<Rightarrow> Inl (Msg ''map size does not fit'' [MStr s])
        | Inr (Some v) \<Rightarrow> if v \<le> 0 then Inl (Msg ''map size must be positive'' [MStr s]) else Inr v))"

definition desiredDataMaxSize :: "(string \<Rightarrow> message + int64 option) \<Rightarrow> SlapdDatabase \<Rightarrow> message + int64" where
  "desiredDataMaxSize quantity sd =
     (if trim_space (sds_MaxSize (sd_Spec sd)) = [] then Inr defaultDataMaxSizeBytes
      else parseMaxSize quantity (sds_MaxSize (sd_Spec sd)))"

definition compareMaxSize :: "string \<Rightarrow> int64 \<Rightarrow> maxSizeVerdict \<times> string" where
  "compareMaxSize current desired =
     (let cur = trim_space current in
      if cur = [] then (maxSizeNeedsGrow, [])
      else (case parse_int 10 64 cur of
          None \<Rightarrow> (maxSizeNeedsGrow, cur)
        | Some curBytes \<Rightarrow>
            if curBytes = desired then (maxSizeMatches, cur)
            else if curBytes > desired then (maxSizeNeedsShrink, cur)
            else (maxSizeNeedsGrow, cur)))"

definition tunablesCondition :: "time \<Rightarrow> SlapdDatabase \<Rightarrow> message \<Rightarrow> SlapdDatabase" where
  "tunablesCondition now sd msg =
     set_sd_Conditions (setCondition (sd_Conditions sd)
       \<lparr>cond_Type = ''TunablesConverged'', cond_Status = ConditionFalse, cond_Reason = ''RecreateRequired'',
        cond_Message = msg, cond_LastTransitionTime = now, cond_ObservedGeneration = sd_Generation sd\<rparr>) sd"

definition checkMaxSize ::
  "ldap_srv \<Rightarrow> history \<Rightarrow> time \<Rightarrow> string \<Rightarrow> string \<Rightarrow> string \<Rightarrow> int64 \<Rightarrow> SlapdDatabase \<Rightarrow> message option \<times> SlapdDatabase" where
  "checkMaxSize srv h now addr dn what desired sd =
     (case readConfigAttr srv h addr dn ''olcDbMaxSize'' of
        Inl e \<Rightarrow> (Some e, sd)
      | Inr current \<Rightarrow>
          (let cur = (case current of [] \<Rightarrow> [] | v # vs \<Rightarrow> v);
               (verdict, curVal) = compareMaxSize cur desired;
               shown = (if curVal = [] then ''unset'' else curVal)
           in if verdict = maxSizeMatches then (None, sd)
              else (None, tunablesCondition now sd
                (if verdict = maxSizeNeedsShrink
                 then Msg ''map size is fixed, cannot shrink'' [MStr what, MStr addr, MStr shown, MInt desired, MStr curVal]
                 else Msg ''map size is fixed, cannot grow'' [MStr what, MStr addr, MStr shown, MInt desired]))))"

definition desiredEnvFlags :: "SlapdDatabase \<Rightarrow> string list" where
  "desiredEnvFlags sd = map to_lower (filter (\<lambda>f. f \<noteq> []) (map trim_space (sds_EnvFlags (sd_Spec sd))))"

definition envFlagsMatch :: "string list \<Rightarrow> string list \<Rightarrow> bool" where
  "envFlagsMatch current desired \<longleftrightarrow>
     (let norm = (\<lambda>vs. sort (filter (\<lambda>v. v \<noteq> []) (map (\<lambda>v. to_lower (trim_space v)) vs))) in
      norm current = norm desired)"

definition checkEnvFlags ::
  "ldap_srv \<Rightarrow> history \<Rightarrow> time \<Rightarrow> string \<Rightarrow> string \<Rightarrow> SlapdDatabase \<Rightarrow> message option \<times> SlapdDatabase" where
  "checkEnvFlags srv h now addr dn sd =
     (case readConfigAttr srv h addr dn ''olcDbEnvFlags'' of
        Inl e \<Rightarrow> (Some e, sd)
      | Inr current \<Rightarrow>
          (let desired = desiredEnvFlags sd;
               show = (\<lambda>vs. if vs = [] then ''none'' else join '','' vs)
           in if envFlagsMatch current desired then (None, sd)
              else (None, tunablesCondition now sd
                (Msg ''environment flags are fixed'' [MStr addr, MStr (show current), MStr (show desired)]))))"

section \<open>The scale tunables of one pod\<close>

definition convergeScaleTunables ::
  "(string \<Rightarrow> message + int64 option) \<Rightarrow> ldap_srv \<Rightarrow> time \<Rightarrow> string \<Rightarrow> string \<Rightarrow> SlapdDatabase \<Rightarrow> SlapdCluster \<Rightarrow>
   history \<Rightarrow> (message option \<times> history) \<times> SlapdDatabase" where
  "convergeScaleTunables quantity srv now addr dn sd sc h0 =
     (case wrapErr ''ensure baseline indices'' [MStr addr] (ensureDataBaselineIndices srv addr dn) h0 of
        (Some e, h1) \<Rightarrow> ((Some e, h1), sd)
      | (None, h1) \<Rightarrow>
      case desiredDataMaxSize quantity sd of
        Inl e \<Rightarrow> ((Some (Msg ''spec.maxSize'' [MMsg e]), h1), sd)
      | Inr maxSize \<Rightarrow>
      case checkMaxSize srv h1 now addr dn ''data database'' maxSize sd of
        (Some e, sd1) \<Rightarrow> ((Some e, h1), sd1)
      | (None, sd1) \<Rightarrow>
      let replicating = repl_Enabled (sc_Replication sc) \<and> ReplicationEnabled sd1 \<and> \<not> IsConsumerOnly sc in
      case andThen (wrapErr ''ensure search limits'' [MStr addr] (ensureSearchLimits srv addr dn sd1))
          (andThen (wrapErr ''ensure limits'' [MStr addr] (ensureLimits srv addr dn (desiredLimits sd1 replicating)))
            (wrapErr ''ensure backend tunables'' [MStr addr] (ensureBackendTunables srv addr dn sd1 sc []))) h1 of
        (Some e, h2) \<Rightarrow> ((Some e, h2), sd1)
      | (None, h2) \<Rightarrow>
      case checkEnvFlags srv h2 now addr dn sd1 of (err, sd2) \<Rightarrow> ((err, h2), sd2))"

end
