(* ===== verification/Config_Settle.thy ===== *)
theory Config_Settle
  imports Config_Attr
begin

text \<open>
  Convergence of the cn=config passes: against a server that keeps what it accepts, one pass brings
  every attribute to its desired value and the next sends nothing. The contract of one attribute's
  step is the locale \<open>attr_step\<close>; its laws are discharged for every attribute, and the composition of
  steps over different attributes is proved once.
\<close>

section \<open>A server that keeps what it accepts\<close>

text \<open>
  The documented behaviour of LDAP modify on cn=config: Replace stores the values (the ordered
  attributes with slapd's \<open>{N}\<close> prefixes), Add appends, Delete without values removes; other attributes and
  entries keep their values.
\<close>

fun numbered :: "nat \<Rightarrow> string list \<Rightarrow> string list" where
  "numbered i [] = []"
| "numbered i (v # vs) = (''{'' @ dec i @ ''}'' @ v) # numbered (Suc i) vs"

definition stored :: "string \<Rightarrow> string list \<Rightarrow> string list" where
  "stored attr vals = (if attr = ''olcAccess'' \<or> attr = ''olcLimits'' then numbered 0 vals else vals)"

fun change :: "string \<Rightarrow> string list \<Rightarrow> mod_op \<times> string \<times> string list \<Rightarrow> string list" where
  "change attr cur (op, a, vals) =
     (if a \<noteq> attr then cur
      else case op of
          OpReplace \<Rightarrow> stored a vals
        | OpAdd \<Rightarrow> cur @ vals
        | OpDelete \<Rightarrow> if vals = [] then [] else filter (\<lambda>v. v \<notin> set vals) cur)"

definition value_at :: "ldap_srv \<Rightarrow> history \<Rightarrow> string \<Rightarrow> string \<Rightarrow> string \<Rightarrow> string list" where
  "value_at srv h addr dn attr = (case srv_Read srv h addr dn of Inr (e # es) \<Rightarrow> e attr | _ \<Rightarrow> [])"

definition keeps :: "ldap_srv \<Rightarrow> string \<Rightarrow> bool" where
  "keeps srv addr \<longleftrightarrow>
     (\<forall>h dn. \<exists>e es. srv_Read srv h addr dn = Inr (e # es)) \<and>
     (\<forall>h dn ch dn' attr. srv_Write srv h (ModifyReq addr dn ch) = None \<longrightarrow>
        value_at srv (h @ [ModifyReq addr dn ch]) addr dn' attr =
          (if dn' = dn then foldl (change attr) (value_at srv h addr dn attr) ch else value_at srv h addr dn' attr))"

lemma keeps_read: "keeps srv addr \<Longrightarrow> readConfigAttr srv h addr dn attr = Inr (value_at srv h addr dn attr)"
  by (auto simp: keeps_def readConfigAttr_def value_at_def split: sum.splits list.splits) (metis list.distinct(1) sum.inject(2) sum.simps(4))+

lemma keeps_reading: "keeps srv addr \<Longrightarrow> reading srv addr dn attr k h = k (value_at srv h addr dn attr) h"
  by (simp add: reading_def keeps_read)

lemma keeps_write:
  "keeps srv addr \<Longrightarrow> srv_Write srv h (ModifyReq addr dn [(op, a, vals)]) = None \<Longrightarrow>
     value_at srv (h @ [ModifyReq addr dn [(op, a, vals)]]) addr dn attr = change attr (value_at srv h addr dn attr) (op, a, vals)"
  by (simp add: keeps_def)

section \<open>The contract of one attribute's step\<close>

locale attr_step =
  fixes srv :: ldap_srv and addr :: string and dn :: string and attr :: string and run :: step
    and ok :: "string list \<Rightarrow> bool"
  assumes writes: "snd (run h) = h \<or> (\<exists>op vals. snd (run h) = h @ [ModifyReq addr dn [(op, attr, vals)]] \<and>
      (fst (run h) = None \<longrightarrow> srv_Write srv h (ModifyReq addr dn [(op, attr, vals)]) = None))"
    and quiet: "keeps srv addr \<Longrightarrow> ok (value_at srv h addr dn attr) \<Longrightarrow> run h = (None, h)"
    and settles: "keeps srv addr \<Longrightarrow> run h = (None, h') \<Longrightarrow> ok (value_at srv h' addr dn attr)"
    and accepted: "keeps srv addr \<Longrightarrow> (\<And>h q. srv_Write srv h q = None) \<Longrightarrow> fst (run h) = None"
begin

lemma second_pass_silent: "keeps srv addr \<Longrightarrow> run h = (None, h') \<Longrightarrow> run h' = (None, h')"
  using quiet settles by blast

lemma at_most_one_request: "length (snd (run h)) \<le> Suc (length h)"
  using writes [of h] by auto

lemma keeps_other:
  assumes "keeps srv addr" and "run h = (None, h')" and "a \<noteq> attr"
  shows "value_at srv h' addr dn a = value_at srv h addr dn a"
  using writes [of h] assms keeps_write [OF assms(1), of h dn _ attr _ a] by auto

end

text \<open>Steps over different attributes, one after the other.\<close>

type_synonym plan_step = "string \<times> step \<times> (string list \<Rightarrow> bool)"

fun run_all :: "plan_step list \<Rightarrow> step" where
  "run_all [] = skip"
| "run_all ((a, f, ok) # ss) = andThen f (run_all ss)"

definition contract :: "ldap_srv \<Rightarrow> string \<Rightarrow> string \<Rightarrow> plan_step list \<Rightarrow> bool" where
  "contract srv addr dn ss \<longleftrightarrow> distinct (map fst ss) \<and> (\<forall>(a, f, ok) \<in> set ss. attr_step srv addr dn a f ok)"

lemma contract_Cons: "contract srv addr dn ((a, f, ok) # ss) \<longleftrightarrow>
    a \<notin> fst ` set ss \<and> attr_step srv addr dn a f ok \<and> contract srv addr dn ss"
  by (auto simp: contract_def)

lemma andThen_None: "andThen f g h = (None, h') \<longleftrightarrow> (\<exists>h1. f h = (None, h1) \<and> g h1 = (None, h'))"
  by (auto simp: andThen_def split: prod.splits option.splits)

lemma run_all_keeps_other:
  assumes "keeps srv addr"
  shows "contract srv addr dn ss \<Longrightarrow> run_all ss h = (None, h') \<Longrightarrow> a \<notin> fst ` set ss \<Longrightarrow>
    value_at srv h' addr dn a = value_at srv h addr dn a"
proof (induction ss arbitrary: h)
  case (Cons s ss)
  obtain b f ok where s: "s = (b, f, ok)" by (cases s)
  with Cons.prems obtain h1 where h1: "f h = (None, h1)" "run_all ss h1 = (None, h')" by (auto simp: andThen_None)
  have st: "attr_step srv addr dn b f ok" "contract srv addr dn ss" using Cons.prems(1) s by (simp_all add: contract_Cons)
  have "value_at srv h1 addr dn a = value_at srv h addr dn a"
    using attr_step.keeps_other [OF st(1) assms h1(1)] Cons.prems(3) s by auto
  then show ?case using Cons.IH [OF st(2) h1(2)] Cons.prems(3) by simp
qed (simp add: skip_def)

lemma run_all_settles:
  assumes "keeps srv addr"
  shows "contract srv addr dn ss \<Longrightarrow> run_all ss h = (None, h') \<Longrightarrow>
    \<forall>(a, f, ok) \<in> set ss. ok (value_at srv h' addr dn a)"
proof (induction ss arbitrary: h)
  case (Cons s ss)
  obtain b f ok where s: "s = (b, f, ok)" by (cases s)
  with Cons.prems obtain h1 where h1: "f h = (None, h1)" "run_all ss h1 = (None, h')" by (auto simp: andThen_None)
  have st: "attr_step srv addr dn b f ok" "contract srv addr dn ss" "b \<notin> fst ` set ss"
    using Cons.prems(1) s by (simp_all add: contract_Cons)
  have "ok (value_at srv h' addr dn b)"
    using attr_step.settles [OF st(1) assms h1(1)] run_all_keeps_other [OF assms st(2) h1(2) st(3)] by simp
  then show ?case using Cons.IH [OF st(2) h1(2)] s by auto
qed simp

lemma run_all_quiet:
  assumes "keeps srv addr"
  shows "contract srv addr dn ss \<Longrightarrow> \<forall>(a, f, ok) \<in> set ss. ok (value_at srv h addr dn a) \<Longrightarrow> run_all ss h = (None, h)"
proof (induction ss)
  case (Cons s ss)
  obtain b f ok where s: "s = (b, f, ok)" by (cases s)
  with Cons.prems have "attr_step srv addr dn b f ok" "ok (value_at srv h addr dn b)" by (auto simp: contract_def)
  then have "f h = (None, h)" by (intro attr_step.quiet [OF _ assms])
  then show ?case using Cons s by (auto simp: andThen_def contract_def)
qed (simp add: skip_def)

lemma run_all_accepted:
  assumes "keeps srv addr" and "\<And>h q. srv_Write srv h q = None"
  shows "contract srv addr dn ss \<Longrightarrow> fst (run_all ss h) = None"
proof (induction ss arbitrary: h)
  case (Cons s ss)
  obtain b f ok where s: "s = (b, f, ok)" by (cases s)
  then have st: "attr_step srv addr dn b f ok" "contract srv addr dn ss" using Cons.prems by (simp_all add: contract_Cons)
  have "fst (f h) = None" using attr_step.accepted [OF st(1) assms] .
  then show ?case using Cons.IH [OF st(2)] s by (cases "f h") (simp add: andThen_def)
qed (simp add: skip_def)

lemma run_all_silent:
  "keeps srv addr \<Longrightarrow> contract srv addr dn ss \<Longrightarrow> run_all ss h = (None, h') \<Longrightarrow> run_all ss h' = (None, h')"
  using run_all_quiet run_all_settles by blast

section \<open>The attributes\<close>

text \<open>A step that reads, compares and otherwise sends one change.\<close>

definition sends :: "ldap_srv \<Rightarrow> string \<Rightarrow> string \<Rightarrow> mod_op \<Rightarrow> string \<Rightarrow> string list \<Rightarrow> step \<Rightarrow> bool" where
  "sends srv addr dn op attr vals f \<longleftrightarrow>
     (\<forall>h. snd (f h) = h @ [ModifyReq addr dn [(op, attr, vals)]] \<and>
        (fst (f h) = None \<longleftrightarrow> srv_Write srv h (ModifyReq addr dn [(op, attr, vals)]) = None))"

lemma sends_modify1: "\<not> denied attr \<Longrightarrow> sends srv addr dn op attr vals (modify1 srv addr dn op attr vals)"
  by (simp add: sends_def guardedModify_def denied_def send_def)

lemma sends_wrap: "sends srv addr dn op attr vals f \<Longrightarrow> sends srv addr dn op attr vals (wrapErr fmt args f)"
  unfolding sends_def
proof
  fix h assume "\<forall>h. snd (f h) = h @ [ModifyReq addr dn [(op, attr, vals)]] \<and>
      (fst (f h) = None \<longleftrightarrow> srv_Write srv h (ModifyReq addr dn [(op, attr, vals)]) = None)"
  then have "snd (f h) = h @ [ModifyReq addr dn [(op, attr, vals)]] \<and>
      (fst (f h) = None \<longleftrightarrow> srv_Write srv h (ModifyReq addr dn [(op, attr, vals)]) = None)" by blast
  then show "snd (wrapErr fmt args f h) = h @ [ModifyReq addr dn [(op, attr, vals)]] \<and>
      (fst (wrapErr fmt args f h) = None \<longleftrightarrow> srv_Write srv h (ModifyReq addr dn [(op, attr, vals)]) = None)"
    by (cases "f h") (auto simp: wrapErr_def split: option.splits)
qed

lemma reading_step:
  assumes "\<And>cur. \<not> ok cur \<Longrightarrow> \<exists>op vals. sends srv addr dn op attr vals (f cur) \<and> ok (change attr cur (op, attr, vals))"
  shows "attr_step srv addr dn attr (reading srv addr dn attr (\<lambda>cur. if ok cur then skip else f cur)) ok"
proof
  fix h
  let ?run = "reading srv addr dn attr (\<lambda>cur. if ok cur then skip else f cur)"
  show "snd (?run h) = h \<or> (\<exists>op vals. snd (?run h) = h @ [ModifyReq addr dn [(op, attr, vals)]] \<and>
      (fst (?run h) = None \<longrightarrow> srv_Write srv h (ModifyReq addr dn [(op, attr, vals)]) = None))"
    using assms by (fastforce simp: reading_def skip_def sends_def split: sum.splits)
  show "keeps srv addr \<Longrightarrow> ok (value_at srv h addr dn attr) \<Longrightarrow> ?run h = (None, h)"
    by (simp add: keeps_reading skip_def)
  show "keeps srv addr \<Longrightarrow> (\<And>h q. srv_Write srv h q = None) \<Longrightarrow> fst (?run h) = None"
    using assms [of "value_at srv h addr dn attr"] by (auto simp: keeps_reading skip_def sends_def)
  fix h' assume k: "keeps srv addr" and r: "?run h = (None, h')"
  let ?v = "value_at srv h addr dn attr"
  show "ok (value_at srv h' addr dn attr)"
  proof (cases "ok ?v")
    case True
    then show ?thesis using r k by (simp add: keeps_reading skip_def)
  next
    case False
    obtain op vals where s: "sends srv addr dn op attr vals (f ?v)" "ok (change attr ?v (op, attr, vals))"
      using assms [OF False] by blast
    have "f ?v h = (None, h')" using r k False by (simp add: keeps_reading)
    with s(1) have "h' = h @ [ModifyReq addr dn [(op, attr, vals)]]" "srv_Write srv h (ModifyReq addr dn [(op, attr, vals)]) = None"
      unfolding sends_def by (metis fst_conv snd_conv)+
    then show ?thesis using s(2) keeps_write [OF k] by simp
  qed
qed

lemma not_denied [simp]:
  "\<not> denied ''olcLimits''" "\<not> denied ''olcAccess''" "\<not> denied ''olcSizeLimit''" "\<not> denied ''olcTimeLimit''"
  "\<not> denied ''olcDbNoSync''" "\<not> denied ''olcDbCheckpoint''" "\<not> denied ''olcDbRtxnSize''" "\<not> denied ''olcDbIndex''"
  "\<not> denied ''olcServerID''" "\<not> denied ''olcReadOnly''"
  by code_simp+

subsection \<open>Ordered values\<close>

lemma strip_numbered [simp]: "stripOrderingPrefix (CHR ''{'' # dec i @ CHR ''}'' # v) = v"
proof -
  have "CHR ''}'' \<notin> set (CHR ''{'' # dec i)" using dec_no_char [of "CHR ''}''" i] by (simp add: is_digit_def)
  from cut_append [OF this, of v] show ?thesis by (simp add: stripOrderingPrefix_def)
qed

lemma aclsMatch_numbered: "list_all2 (\<lambda>c d. stripOrderingPrefix c = d) (numbered i vs) vs"
  by (induction vs arbitrary: i) simp_all

lemma aclsMatch_stored: "aclsMatch (numbered 0 vs) vs"
  using list_all2_lengthD [OF aclsMatch_numbered] aclsMatch_numbered by (auto simp: aclsMatch_def)

interpretation limits: attr_step srv addr dn "''olcLimits''" "ensureLimits srv addr dn desired" "\<lambda>v. limitsMatch v desired"
  for srv addr dn desired
  unfolding ensureLimits_def
proof (rule reading_step)
  fix cur assume "\<not> limitsMatch cur desired"
  show "\<exists>op vals. sends srv addr dn op ''olcLimits'' vals
      (if desired = [] then modify1 srv addr dn OpDelete ''olcLimits'' [] else modify1 srv addr dn OpReplace ''olcLimits'' desired) \<and>
    limitsMatch (change ''olcLimits'' cur (op, ''olcLimits'', vals)) desired"
  proof (cases "desired = []")
    case True
    then show ?thesis
      by (intro exI [of _ OpDelete] exI [of _ "[]"]) (simp add: sends_modify1 limitsMatch_def aclsMatch_def)
  next
    case False
    then show ?thesis
      by (intro exI [of _ OpReplace] exI [of _ desired])
        (simp add: sends_modify1 limitsMatch_def stored_def aclsMatch_stored)
  qed
qed

interpretation acls: attr_step srv addr dn "''olcAccess''" "applyACLs srv addr dn sd sc"
    "\<lambda>v. aclsMatch v ((if NeedsAccesslog sc then [replicationACL (sd_Name sd) (sds_Suffix (sd_Spec sd))] else []) @ sds_ACLs (sd_Spec sd))"
  for srv addr dn sd sc
  unfolding applyACLs_def Let_def
proof (rule reading_step)
  have "sends srv addr dn OpReplace ''olcAccess'' xs (modify1 srv addr dn OpReplace ''olcAccess'' xs)" for xs
    by (rule sends_modify1) simp
  moreover have "aclsMatch (change ''olcAccess'' cur (OpReplace, ''olcAccess'', xs)) xs" for cur xs
    by (simp add: stored_def aclsMatch_stored)
  ultimately show "\<exists>op vals. sends srv addr dn op ''olcAccess'' vals (modify1 srv addr dn OpReplace ''olcAccess'' xs) \<and>
      aclsMatch (change ''olcAccess'' cur (op, ''olcAccess'', vals)) xs" for cur xs
    by blast
qed

subsection \<open>Single values\<close>

lemma ensureSearchLimit_step:
  assumes "\<not> denied attr" and "\<And>vals. stored attr vals = vals"
  shows "attr_step srv addr dn attr (ensureSearchLimit srv addr dn (attr, val, wr))
    (\<lambda>v. \<not> wr \<or> length v = 1 \<and> searchLimitEqual (hd v) val)"
proof (cases wr)
  case True
  then show ?thesis unfolding ensureSearchLimit_def using assms
    by simp (rule reading_step, rule exI [of _ OpReplace], rule exI [of _ "[val]"],
      simp add: sends_wrap sends_modify1 searchLimitEqual_def)
next
  case False
  then show ?thesis by unfold_locales (simp_all add: ensureSearchLimit_def skip_def)
qed

interpretation sizelimit: attr_step srv addr dn "''olcSizeLimit''" "ensureSearchLimit srv addr dn (''olcSizeLimit'', val, wr)"
    "\<lambda>v. \<not> wr \<or> length v = 1 \<and> searchLimitEqual (hd v) val" for srv addr dn val wr
  by (rule ensureSearchLimit_step) (simp_all add: stored_def)

interpretation timelimit: attr_step srv addr dn "''olcTimeLimit''" "ensureSearchLimit srv addr dn (''olcTimeLimit'', val, wr)"
    "\<lambda>v. \<not> wr \<or> length v = 1 \<and> searchLimitEqual (hd v) val" for srv addr dn val wr
  by (rule ensureSearchLimit_step) (simp_all add: stored_def)

definition tunable_ok :: "string \<Rightarrow> bool \<Rightarrow> string list \<Rightarrow> bool" where
  "tunable_ok val wr v \<longleftrightarrow> (if wr then length v = 1 \<and> equal_fold (trim_space (hd v)) val else v = [])"

lemma ensureTunable_step:
  assumes "\<not> denied attr" and "\<And>vals. stored attr vals = vals" and "trim_space val = val"
  shows "attr_step srv addr dn attr (ensureTunable srv addr dn (attr, val, wr)) (tunable_ok val wr)"
proof -
  let ?f = "\<lambda>cur. if \<not> wr then wrapErr ''delete'' [MStr attr, MStr dn] (modify1 srv addr dn OpDelete attr [])
    else wrapErr ''set'' [MStr attr, MStr dn] (modify1 srv addr dn OpReplace attr [val])"
  have "ensureTunable srv addr dn (attr, val, wr) =
      reading srv addr dn attr (\<lambda>cur. if tunable_ok val wr cur then skip else ?f cur)"
    by (auto simp: ensureTunable_def tunable_ok_def intro!: arg_cong [where f = "reading srv addr dn attr"])
  moreover have "attr_step srv addr dn attr (reading srv addr dn attr (\<lambda>cur. if tunable_ok val wr cur then skip else ?f cur))
      (tunable_ok val wr)"
    by (rule reading_step, rule exI [of _ "if wr then OpReplace else OpDelete"], rule exI [of _ "if wr then [val] else []"])
      (use assms in \<open>simp add: tunable_ok_def sends_wrap sends_modify1\<close>)
  ultimately show ?thesis by simp
qed

lemma desiredCheckpoint_trim: "trim_space (fst (desiredCheckpoint sd)) = fst (desiredCheckpoint sd)"
proof -
  have "trim_space defaultDataCheckpoint = defaultDataCheckpoint" "trim_space [] = []" by code_simp+
  then show ?thesis by (simp add: desiredCheckpoint_def Let_def split: option.splits)
qed

interpretation nosync: attr_step srv addr dn "''olcDbNoSync''"
    "ensureTunable srv addr dn (''olcDbNoSync'', if b then ''TRUE'' else ''FALSE'', True)"
    "tunable_ok (if b then ''TRUE'' else ''FALSE'') True" for srv addr dn b
proof (rule ensureTunable_step)
  have "trim_space ''TRUE'' = ''TRUE''" "trim_space ''FALSE'' = ''FALSE''" by code_simp+
  then show "trim_space (if b then ''TRUE'' else ''FALSE'') = (if b then ''TRUE'' else ''FALSE'')" by simp
qed (simp_all add: stored_def)

interpretation checkpoint: attr_step srv addr dn "''olcDbCheckpoint''"
    "ensureTunable srv addr dn (''olcDbCheckpoint'', fst (desiredCheckpoint sd), snd (desiredCheckpoint sd))"
    "tunable_ok (fst (desiredCheckpoint sd)) (snd (desiredCheckpoint sd))" for srv addr dn sd
  by (rule ensureTunable_step) (simp_all add: stored_def desiredCheckpoint_trim)

interpretation rtxn: attr_step srv addr dn "''olcDbRtxnSize''"
    "ensureTunable srv addr dn (''olcDbRtxnSize'', itoa (desiredRtxnSize sd), True)"
    "tunable_ok (itoa (desiredRtxnSize sd)) True" for srv addr dn sd
  by (rule ensureTunable_step) (simp_all add: stored_def)

lemma serverIDSetsEqual_refl: "serverIDSetsEqual vs vs"
  by (simp add: serverIDSetsEqual_def list_all_iff)

interpretation serverids: attr_step srv addr "''cn=config''" "''olcServerID''" "ensureServerIDs srv addr sc i"
    "\<lambda>v. serverIDSetsEqual v [desiredServerID sc i]" for srv addr sc i
  unfolding ensureServerIDs_def Let_def
  by (rule reading_step, rule exI [of _ OpReplace], rule exI [of _ "[desiredServerID sc i]"])
    (simp add: sends_wrap sends_modify1 stored_def serverIDSetsEqual_refl)

subsection \<open>Indices\<close>

definition attr_name :: "string \<Rightarrow> bool" where
  "attr_name a \<longleftrightarrow> a \<noteq> [] \<and> no_space a \<and> CHR '','' \<notin> set a"

lemma splitIndexValue_join:
  assumes "as \<noteq> []" and "\<forall>a \<in> set as. attr_name a" and "no_space types"
  shows "splitIndexValue (join '','' as @ (if types \<noteq> [] then '' '' @ types else [])) = (as, types)"
proof -
  let ?j = "join '','' as"
  have j: "no_space ?j" using assms(2) by (intro no_space_join) (simp add: attr_name_def)
  have j0: "?j \<noteq> []" using assms(1,2) by (cases as; cases "tl as") (auto simp: attr_name_def)
  have sp: "split_on CHR '','' ?j = as" using assms(1,2) by (intro split_join) (auto simp: attr_name_def)
  have tr: "filter (\<lambda>a. a \<noteq> []) (map trim_space as) = as"
    using assms(2) by (induction as) (auto simp: attr_name_def)
  show ?thesis
  proof (cases "types = []")
    case True
    have "str_fields ?j = [?j]" using fields_word_end [OF j, of "[]"] j0 by (simp add: str_fields_def)
    then show ?thesis using True sp tr by (simp add: splitIndexValue_def)
  next
    case False
    have "str_fields (?j @ CHR '' '' # types) = [?j, types]"
      using fields_word_blank [OF j, of "[]" types] fields_word_end [OF assms(3), of "[]"] j0 False
      by (simp add: str_fields_def)
    then show ?thesis using False sp tr by (simp add: splitIndexValue_def)
  qed
qed

lemma indexedAttrs_append [simp]: "indexedAttrs (vs @ ws) = indexedAttrs vs @ indexedAttrs ws"
  by (simp add: indexedAttrs_def)

lemma planIndices_settles:
  assumes "\<forall>a \<in> set want. attr_name a"
  shows "planIndices (cur @ planIndices cur want) want = []"
proof (cases "filter (\<lambda>a. to_lower a \<notin> set (indexedAttrs cur)) want = []")
  case False
  let ?m = "filter (\<lambda>a. to_lower a \<notin> set (indexedAttrs cur)) want"
  have "no_space ''eq''" by (rule no_space_plain) code_simp
  then have "splitIndexValue (join '','' ?m @ '' eq'') = (?m, ''eq'')"
    using splitIndexValue_join [of ?m "''eq''"] False assms by simp
  then have "indexedAttrs (planIndices cur want) = map to_lower ?m"
    using False by (simp add: planIndices_def indexedAttrs_def)
  then show ?thesis by (auto simp: planIndices_def [of "cur @ planIndices cur want"] filter_empty_conv)
qed (simp add: planIndices_def)

interpretation baseline: attr_step srv addr dn "''olcDbIndex''" "ensureDataBaselineIndices srv addr dn"
    "\<lambda>v. planDataBaselineIndices v = []" for srv addr dn
  unfolding ensureDataBaselineIndices_def Let_def
proof (rule reading_step)
  have n: "\<forall>a \<in> set dataBaselineIndexAttrs. attr_name a"
    unfolding attr_name_def dataBaselineIndexAttrs_def by (auto intro!: no_space_plain) code_simp+
  show "\<exists>op vals. sends srv addr dn op ''olcDbIndex'' vals (modify1 srv addr dn OpAdd ''olcDbIndex'' (planDataBaselineIndices cur)) \<and>
      planDataBaselineIndices (change ''olcDbIndex'' cur (op, ''olcDbIndex'', vals)) = []" for cur
    by (intro exI [of _ OpAdd] exI [of _ "planDataBaselineIndices cur"])
      (simp add: sends_modify1 planDataBaselineIndices_def planIndices_settles [OF n])
qed

lemma claimAttrs_spec:
  "claimAttrs idx as rem = (r, idx') \<Longrightarrow> set idx' = set idx \<union> to_lower ` set as \<and>
     (\<exists>new. r = rem @ new \<and> set new \<subseteq> set as \<and> distinct (map to_lower new) \<and> to_lower ` set new \<inter> set idx = {} \<and>
        set idx' = set idx \<union> to_lower ` set new)"
proof (induction idx as rem arbitrary: r idx' rule: claimAttrs.induct)
  case (2 idx a as rem)
  show ?case
  proof (cases "to_lower a \<in> set idx")
    case True
    then have "claimAttrs idx as rem = (r, idx')" using "2.prems" by simp
    from "2.IH"(1) [OF True this] show ?thesis using True by (auto 0 3)
  next
    case False
    then have "claimAttrs (to_lower a # idx) as (rem @ [a]) = (r, idx')" using "2.prems" by simp
    from "2.IH"(2) [OF False this] obtain new where n: "set idx' = set (to_lower a # idx) \<union> to_lower ` set as" "r = (rem @ [a]) @ new" "set new \<subseteq> set as"
      "distinct (map to_lower new)" "to_lower ` set new \<inter> set (to_lower a # idx) = {}"
      "set idx' = set (to_lower a # idx) \<union> to_lower ` set new"
      by blast
    then show ?thesis using False by (intro conjI exI [of _ "a # new"]) auto
  qed
qed auto

lemma splitIndexValue_names:
  assumes "ascii d" and "a \<in> set (fst (splitIndexValue d))"
  shows "attr_name a"
proof -
  let ?fs = "str_fields d"
  let ?l = "if length ?fs > 1 then concat (butlast ?fs) else hd ?fs"
  have a: "?fs \<noteq> []" "a \<noteq> []" "\<exists>p \<in> set (split_on CHR '','' ?l). a = trim_space p"
    using assms(2) by (auto simp: splitIndexValue_def Let_def split: if_splits)
  have "plain c" if c: "c \<in> set ?l" for c
  proof -
    obtain w where w: "w \<in> set ?fs" "c \<in> set w"
      using c a(1) by (cases "length ?fs > 1") (auto dest: in_set_butlastD intro: hd_in_set)
    have "ascii w" using assms(1) str_fields_chars [OF w(1)] by (auto simp: ascii_def)
    then show ?thesis using ascii_word_plain str_fields_words [OF w(1)] w(2) by blast
  qed
  moreover obtain p where p: "p \<in> set (split_on CHR '','' ?l)" "a = trim_space p" using a(3) by blast
  have sub: "p \<in> set (split_on c l) \<Longrightarrow> set p \<subseteq> set l \<and> c \<notin> set p" for p c l
    by (induction c l arbitrary: p rule: split_on.induct) (fastforce split: list.splits if_splits)+
  ultimately have "\<forall>c \<in> set p. plain c" "CHR '','' \<notin> set p" using sub [OF p(1)] by auto
  then show ?thesis using a(2) p(2) no_space_plain [of p] by (simp add: attr_name_def)
qed

lemma splitIndexValue_types: "no_space (snd (splitIndexValue d))"
  using str_fields_words [of "last (str_fields d)" d] by (auto simp: splitIndexValue_def Let_def)

lemma userIndicesLoop_spec:
  "\<forall>d \<in> set ds. ascii d \<Longrightarrow> \<exists>plan. userIndicesLoop idx ds out = out @ plan \<and> distinct (indexedAttrs plan) \<and>
     set (indexedAttrs plan) \<inter> set idx = {} \<and> set idx \<union> set (indexedAttrs plan) = set idx \<union> set (indexedAttrs ds)"
proof (induction ds arbitrary: idx out)
  case (Cons d ds)
  obtain attrs types where d: "splitIndexValue d = (attrs, types)" by force
  obtain r idx' where c: "claimAttrs idx attrs [] = (r, idx')" by force
  have C: "set idx' = set idx \<union> to_lower ` set attrs" "set r \<subseteq> set attrs" "distinct (map to_lower r)"
    "to_lower ` set r \<inter> set idx = {}" "set idx' = set idx \<union> to_lower ` set r"
    using claimAttrs_spec [OF c] by auto
  let ?v = "join '','' r @ (if types \<noteq> [] then '' '' @ types else [])"
  let ?out = "if r = [] then out else out @ [?v]"
  obtain plan where P: "userIndicesLoop idx' ds ?out = ?out @ plan" "distinct (indexedAttrs plan)"
    "set (indexedAttrs plan) \<inter> set idx' = {}" "set idx' \<union> set (indexedAttrs plan) = set idx' \<union> set (indexedAttrs ds)"
    using Cons.IH [of idx' ?out] Cons.prems by auto
  have loop: "userIndicesLoop idx (d # ds) out = userIndicesLoop idx' ds ?out" by (simp add: d c)
  have ds: "set (indexedAttrs (d # ds)) = to_lower ` set attrs \<union> set (indexedAttrs ds)" by (simp add: indexedAttrs_def d)
  show ?case
  proof (cases "r = []")
    case True
    then show ?thesis using P C ds loop by (intro exI [of _ plan]) auto
  next
    case False
    have "\<forall>a \<in> set r. attr_name a" using splitIndexValue_names [of d] d C(2) Cons.prems by auto
    moreover have "no_space types" using splitIndexValue_types [of d] d by simp
    ultimately have "splitIndexValue ?v = (r, types)" by (rule splitIndexValue_join [OF False])
    then have v: "indexedAttrs (?v # plan) = map to_lower r @ indexedAttrs plan" by (simp add: indexedAttrs_def)
    have "userIndicesLoop idx (d # ds) out = out @ (?v # plan)" using loop P(1) False by simp
    moreover have "distinct (indexedAttrs (?v # plan))" unfolding v using P(2,3) C(3,5) by auto
    moreover have "set (indexedAttrs (?v # plan)) \<inter> set idx = {}" unfolding v using P(3) C(4,5) by auto
    moreover have "set idx \<union> set (indexedAttrs (?v # plan)) = set idx \<union> set (indexedAttrs (d # ds))"
      unfolding v ds using P(4) C(1,5) by auto
    ultimately show ?thesis by blast
  qed
qed (simp add: indexedAttrs_def)

lemma claimAttrs_covered: "to_lower ` set as \<subseteq> set idx \<Longrightarrow> claimAttrs idx as rem = (rem, idx)"
  by (induction as) auto

lemma userIndicesLoop_covered: "set (indexedAttrs ds) \<subseteq> set idx \<Longrightarrow> userIndicesLoop idx ds out = out"
proof (induction ds)
  case (Cons d ds)
  have "claimAttrs idx (fst (splitIndexValue d)) [] = ([], idx)"
    using Cons.prems by (intro claimAttrs_covered) (auto simp: indexedAttrs_def)
  moreover have "set (indexedAttrs ds) \<subseteq> set idx" using Cons.prems by (auto simp: indexedAttrs_def)
  ultimately show ?case using Cons.IH by (simp add: split_beta)
qed simp

text \<open>
  The user's indices: the values planned for a modify name no attribute that is indexed already
  and none twice - either would make the server refuse the whole modify - they cover exactly what
  was declared and missing, and once they are stored nothing is left to add.
\<close>

theorem user_indices_exact:
  assumes "\<forall>d \<in> set desired. ascii d" and "plan = planUserIndices current desired"
  shows "distinct (indexedAttrs plan) \<and> set (indexedAttrs plan) = set (indexedAttrs desired) - set (indexedAttrs current) \<and>
    planUserIndices (current @ plan) desired = []"
proof -
  have "distinct (indexedAttrs plan)" "set (indexedAttrs plan) \<inter> set (indexedAttrs current) = {}"
    "set (indexedAttrs current) \<union> set (indexedAttrs plan) = set (indexedAttrs current) \<union> set (indexedAttrs desired)"
    using userIndicesLoop_spec [OF assms(1), of "indexedAttrs current" "[]"] by (auto simp: assms(2) planUserIndices_def)
  moreover from this(3) have "planUserIndices (current @ plan) desired = []"
    unfolding planUserIndices_def by (intro userIndicesLoop_covered) auto
  ultimately show ?thesis by blast
qed

theorem user_indices_exact_witness:
  "planUserIndices [''objectClass,entryCSN eq''] [''entrycsn eq'', ''objectClass, sn eq,sub''] = [''sn eq,sub''] \<and>
   planUserIndices [''objectClass,entryCSN eq'', ''sn eq,sub''] [''entrycsn eq'', ''objectClass, sn eq,sub''] = []"
proof -
  have a: "planUserIndices [''objectClass,entryCSN eq''] [''entrycsn eq'', ''objectClass, sn eq,sub''] = [''sn eq,sub'']"
    by code_simp
  have "\<forall>d \<in> set [''entrycsn eq'', ''objectClass, sn eq,sub'']. ascii d" by code_simp
  from user_indices_exact [OF this a [symmetric]] a show ?thesis by simp
qed

lemma userindices_step:
  assumes "\<forall>d \<in> set desired. ascii d"
  shows "attr_step srv addr dn ''olcDbIndex'' (applyIndices srv addr dn desired) (\<lambda>v. planUserIndices v desired = [])"
  unfolding applyIndices_def Let_def
proof (rule reading_step)
  show "\<exists>op vals. sends srv addr dn op ''olcDbIndex'' vals (modify1 srv addr dn OpAdd ''olcDbIndex'' (planUserIndices cur desired)) \<and>
      planUserIndices (change ''olcDbIndex'' cur (op, ''olcDbIndex'', vals)) desired = []" for cur
    using userIndicesLoop_spec [OF assms, of "indexedAttrs cur" "[]"]
    by (intro exI [of _ OpAdd] exI [of _ "planUserIndices cur desired"])
      (auto simp: sends_modify1 planUserIndices_def intro!: userIndicesLoop_covered)
qed

section \<open>The scale tunables settle\<close>

definition replicating :: "SlapdDatabase \<Rightarrow> SlapdCluster \<Rightarrow> bool" where
  "replicating sd sc \<longleftrightarrow> repl_Enabled (sc_Replication sc) \<and> ReplicationEnabled sd \<and> \<not> IsConsumerOnly sc"

definition scale_steps :: "ldap_srv \<Rightarrow> string \<Rightarrow> string \<Rightarrow> SlapdDatabase \<Rightarrow> SlapdCluster \<Rightarrow> plan_step list" where
  "scale_steps srv addr dn sd sc =
     (let limits = desiredLimits sd (replicating sd sc); nosync = (if desiredNoSync sd sc then ''TRUE'' else ''FALSE'') in
     [(''olcDbIndex'', ensureDataBaselineIndices srv addr dn, \<lambda>v. planDataBaselineIndices v = []),
      (''olcSizeLimit'', ensureSearchLimit srv addr dn (''olcSizeLimit'', desiredSizeLimit sd),
        \<lambda>v. \<not> snd (desiredSizeLimit sd) \<or> length v = 1 \<and> searchLimitEqual (hd v) (fst (desiredSizeLimit sd))),
      (''olcTimeLimit'', ensureSearchLimit srv addr dn (''olcTimeLimit'', desiredTimeLimit sd),
        \<lambda>v. \<not> snd (desiredTimeLimit sd) \<or> length v = 1 \<and> searchLimitEqual (hd v) (fst (desiredTimeLimit sd))),
      (''olcLimits'', ensureLimits srv addr dn limits, \<lambda>v. limitsMatch v limits),
      (''olcDbNoSync'', ensureTunable srv addr dn (''olcDbNoSync'', nosync, True), tunable_ok nosync True),
      (''olcDbCheckpoint'', ensureTunable srv addr dn (''olcDbCheckpoint'', desiredCheckpoint sd),
        tunable_ok (fst (desiredCheckpoint sd)) (snd (desiredCheckpoint sd))),
      (''olcDbRtxnSize'', ensureTunable srv addr dn (''olcDbRtxnSize'', itoa (desiredRtxnSize sd), True),
        tunable_ok (itoa (desiredRtxnSize sd)) True)])"

lemma scale_contract: "contract srv addr dn (scale_steps srv addr dn sd sc)"
  using baseline.attr_step_axioms limits.attr_step_axioms nosync.attr_step_axioms rtxn.attr_step_axioms
    sizelimit.attr_step_axioms [of srv addr dn "fst (desiredSizeLimit sd)" "snd (desiredSizeLimit sd)"]
    timelimit.attr_step_axioms [of srv addr dn "fst (desiredTimeLimit sd)" "snd (desiredTimeLimit sd)"]
    checkpoint.attr_step_axioms [of srv addr dn sd]
  unfolding scale_steps_def Let_def contract_def by simp

lemma tunablesCondition_spec [simp]:
  "sd_Spec (tunablesCondition now sd m) = sd_Spec sd" "sd_Name (tunablesCondition now sd m) = sd_Name sd"
  by (simp_all add: tunablesCondition_def set_sd_Conditions_def)

lemma check_spec:
  "sd_Spec (snd (checkMaxSize srv h now addr dn what m sd)) = sd_Spec sd"
  "sd_Name (snd (checkMaxSize srv h now addr dn what m sd)) = sd_Name sd"
  "sd_Spec (snd (checkEnvFlags srv h now addr dn sd)) = sd_Spec sd"
  "sd_Name (snd (checkEnvFlags srv h now addr dn sd)) = sd_Name sd"
  by (auto simp: checkMaxSize_def checkEnvFlags_def Let_def split: sum.splits prod.splits)

lemma check_reads:
  "keeps srv addr \<Longrightarrow> fst (checkMaxSize srv h now addr dn what m sd) = None"
  "keeps srv addr \<Longrightarrow> fst (checkEnvFlags srv h now addr dn sd) = None"
  by (auto simp: checkMaxSize_def checkEnvFlags_def keeps_read Let_def split: prod.splits)

lemma scale_steps_spec:
  "sd_Spec sd' = sd_Spec sd \<Longrightarrow> sd_Name sd' = sd_Name sd \<Longrightarrow> scale_steps srv addr dn sd' sc = scale_steps srv addr dn sd sc"
  by (simp add: scale_steps_def replicating_def ReplicationEnabled_def desiredLimits_def desiredNoSync_def desiredSizeLimit_def
      desiredTimeLimit_def desiredCheckpoint_def desiredRtxnSize_def)

lemma wrapErr_None: "wrapErr f a g h = (None, h') \<longleftrightarrow> g h = (None, h')"
  by (auto simp: wrapErr_def split: prod.splits option.splits)

lemma fst_case_step:
  "fst (case x of (Some e, h) \<Rightarrow> ((Some e, h), y) | (None, h) \<Rightarrow> f h) = (None, h') \<longleftrightarrow>
     (\<exists>h1. x = (None, h1) \<and> fst (f h1) = (None, h'))"
  by (auto split: prod.splits option.splits)

lemma converge_success:
  assumes "keeps srv addr" and "desiredDataMaxSize quantity sd = Inr m"
  shows "fst (convergeScaleTunables quantity srv now addr dn sd sc h) = (None, h') \<longleftrightarrow>
    run_all (scale_steps srv addr dn sd sc) h = (None, h')"
proof -
  have sd1: "scale_steps srv addr dn (snd (checkMaxSize srv h1 now addr dn ''data database'' m sd)) sc = scale_steps srv addr dn sd sc" for h1
    by (rule scale_steps_spec) (simp_all add: check_spec)
  have e1: "checkMaxSize srv h1 now addr dn ''data database'' m sd = (None, snd (checkMaxSize srv h1 now addr dn ''data database'' m sd))" for h1
    using check_reads(1) [OF assms(1)] by (metis prod.collapse)
  have e2: "checkEnvFlags srv h1 now addr dn x = (None, snd (checkEnvFlags srv h1 now addr dn x))" for h1 x
    using check_reads(2) [OF assms(1)] by (metis prod.collapse)
  have "fst (convergeScaleTunables quantity srv now addr dn sd sc h) = (None, h') \<longleftrightarrow>
      (\<exists>h1. ensureDataBaselineIndices srv addr dn h = (None, h1) \<and>
        run_all (tl (scale_steps srv addr dn (snd (checkMaxSize srv h1 now addr dn ''data database'' m sd)) sc)) h1 = (None, h'))"
    unfolding convergeScaleTunables_def assms(2) sum.case fst_case_step wrapErr_None Let_def
    by (subst e1, simp only: prod.case option.case fst_case_step, subst e2)
      (simp add: andThen_None wrapErr_None ensureSearchLimits_def ensureBackendTunables_def scale_steps_def Let_def
        replicating_def skip_def, blast)
  also have "\<dots> \<longleftrightarrow> run_all (scale_steps srv addr dn sd sc) h = (None, h')"
    unfolding sd1 by (simp add: scale_steps_def Let_def andThen_None)
  finally show ?thesis .
qed

text \<open>What a sequence of steps sends, whatever the server answers.\<close>

definition touches :: "string \<Rightarrow> string \<Rightarrow> string set \<Rightarrow> cfg_request \<Rightarrow> bool" where
  "touches addr dn attrs q \<longleftrightarrow> (\<exists>op a vals. a \<in> attrs \<and> q = ModifyReq addr dn [(op, a, vals)])"

lemma touches_mono: "touches addr dn A q \<Longrightarrow> A \<subseteq> B \<Longrightarrow> touches addr dn B q"
  by (auto simp: touches_def)

lemma run_all_touches:
  "contract srv addr dn ss \<Longrightarrow>
     \<exists>reqs. snd (run_all ss h) = h @ reqs \<and> length reqs \<le> length ss \<and> (\<forall>q \<in> set reqs. touches addr dn (fst ` set ss) q)"
proof (induction ss arbitrary: h)
  case (Cons s ss)
  obtain b f ok where s: "s = (b, f, ok)" by (cases s)
  have st: "attr_step srv addr dn b f ok" "contract srv addr dn ss" using Cons.prems s by (simp_all add: contract_Cons)
  obtain r0 where r0: "snd (f h) = h @ r0" "length r0 \<le> 1" "\<forall>q \<in> set r0. touches addr dn {b} q"
    using attr_step.writes [OF st(1), of h] by (fastforce simp: touches_def)
  obtain r1 where r1: "snd (run_all ss (h @ r0)) = (h @ r0) @ r1" "length r1 \<le> length ss"
    "\<forall>q \<in> set r1. touches addr dn (fst ` set ss) q" using Cons.IH [OF st(2), of "h @ r0"] by blast
  have t0: "\<forall>q \<in> set r0. touches addr dn (fst ` set (s # ss)) q" using r0(3) s by (auto intro: touches_mono)
  have t1: "\<forall>q \<in> set r1. touches addr dn (fst ` set (s # ss)) q" using r1(3) by (auto intro: touches_mono)
  show ?case
  proof (cases "fst (f h)")
    case None
    then have "snd (run_all (s # ss) h) = h @ (r0 @ r1)" using r0(1) r1(1) s by (cases "f h") (simp add: andThen_def)
    then show ?thesis using r0(2) r1(2) t0 t1 by (intro exI [of _ "r0 @ r1"]) auto
  next
    case (Some e)
    then have "snd (run_all (s # ss) h) = h @ r0" using r0(1) s by (cases "f h") (simp add: andThen_def)
    then show ?thesis using r0(2) t0 by (intro exI [of _ r0]) auto
  qed
qed (simp add: skip_def)

lemma snd_wrapErr [simp]: "snd (wrapErr f a g h) = snd (g h)"
  by (auto simp: wrapErr_def split: prod.splits option.splits)

lemma fst_wrapErr_iff [simp]: "fst (wrapErr f a g h) = None \<longleftrightarrow> fst (g h) = None"
  by (auto simp: wrapErr_def split: prod.splits option.splits)

text \<open>Two steps that send the same and fail together, whatever their error says.\<close>

definition same :: "step \<Rightarrow> step \<Rightarrow> bool" where
  "same f g \<longleftrightarrow> (\<forall>h. snd (f h) = snd (g h) \<and> (fst (f h) = None \<longleftrightarrow> fst (g h) = None))"

lemma same_refl: "same f f" by (simp add: same_def)

lemma same_wrapErr: "same f g \<Longrightarrow> same (wrapErr m a f) g" by (simp add: same_def)

lemma same_andThen: "same f f' \<Longrightarrow> same g g' \<Longrightarrow> same (andThen f g) (andThen f' g')"
proof -
  have "snd (andThen f g h) = (if fst (f h) = None then snd (g (snd (f h))) else snd (f h)) \<and>
      (fst (andThen f g h) = None \<longleftrightarrow> fst (f h) = None \<and> fst (g (snd (f h))) = None)" for f g :: step and h
    by (auto simp: andThen_def split: prod.splits option.splits)
  then show "same f f' \<Longrightarrow> same g g' \<Longrightarrow> same (andThen f g) (andThen f' g')" by (simp add: same_def)
qed

lemma andThen_assoc: "andThen (andThen f g) k = andThen f (andThen g k)"
  by (auto simp: andThen_def fun_eq_iff split: prod.splits option.splits)

lemma andThen_skip [simp]: "andThen f skip = f" "andThen skip f = f"
  by (auto simp: andThen_def skip_def fun_eq_iff split: prod.splits option.splits)

lemma scale_body_same:
  "same (andThen (wrapErr a x (ensureSearchLimits srv addr dn sd))
      (andThen (wrapErr b y (ensureLimits srv addr dn (desiredLimits sd (replicating sd sc))))
        (wrapErr c z (ensureBackendTunables srv addr dn sd sc []))))
    (run_all (tl (scale_steps srv addr dn sd sc)))"
proof -
  have "same (andThen (wrapErr a x (ensureSearchLimits srv addr dn sd))
      (andThen (wrapErr b y (ensureLimits srv addr dn (desiredLimits sd (replicating sd sc))))
        (wrapErr c z (ensureBackendTunables srv addr dn sd sc []))))
    (andThen (ensureSearchLimits srv addr dn sd)
      (andThen (ensureLimits srv addr dn (desiredLimits sd (replicating sd sc))) (ensureBackendTunables srv addr dn sd sc [])))"
    by (intro same_andThen same_wrapErr same_refl)
  also have "(andThen (ensureSearchLimits srv addr dn sd)
      (andThen (ensureLimits srv addr dn (desiredLimits sd (replicating sd sc))) (ensureBackendTunables srv addr dn sd sc []))) =
    run_all (tl (scale_steps srv addr dn sd sc))"
    unfolding scale_steps_def ensureSearchLimits_def ensureBackendTunables_def Let_def by (simp add: andThen_assoc)
  finally show ?thesis .
qed

lemma converge_history:
  "snd (fst (convergeScaleTunables quantity srv now addr dn sd sc h)) \<in>
     {snd (run_all (scale_steps srv addr dn sd sc) h), snd (ensureDataBaselineIndices srv addr dn h)}"
proof (cases "fst (ensureDataBaselineIndices srv addr dn h)")
  case (Some e)
  then show ?thesis
    by (cases "ensureDataBaselineIndices srv addr dn h") (simp add: convergeScaleTunables_def wrapErr_def)
next
  case None
  then obtain h1 where h1: "ensureDataBaselineIndices srv addr dn h = (None, h1)" by (metis prod.collapse)
  then have w: "wrapErr m a (ensureDataBaselineIndices srv addr dn) h = (None, h1)" for m a by (simp add: wrapErr_None)
  show ?thesis
  proof (cases "desiredDataMaxSize quantity sd")
    case (Inl e)
    then show ?thesis by (simp add: convergeScaleTunables_def w h1)
  next
    case (Inr m)
    obtain x sd1 where c: "checkMaxSize srv h1 now addr dn ''data database'' m sd = (x, sd1)" by force
    have sp: "scale_steps srv addr dn sd1 sc = scale_steps srv addr dn sd sc"
      using check_spec(1,2) [of srv h1 now addr dn "''data database''" m sd] c by (intro scale_steps_spec) simp_all
    show ?thesis
    proof (cases x)
      case (Some e)
      then show ?thesis by (simp add: convergeScaleTunables_def w h1 Inr c)
    next
      case n: None
      let ?body = "andThen (wrapErr ''ensure search limits'' [MStr addr] (ensureSearchLimits srv addr dn sd1))
          (andThen (wrapErr ''ensure limits'' [MStr addr] (ensureLimits srv addr dn (desiredLimits sd1 (replicating sd1 sc))))
            (wrapErr ''ensure backend tunables'' [MStr addr] (ensureBackendTunables srv addr dn sd1 sc [])))"
      have "snd (fst (convergeScaleTunables quantity srv now addr dn sd sc h)) = snd (?body h1)"
        unfolding convergeScaleTunables_def w Inr c n prod.case option.case sum.case Let_def replicating_def
        by (auto split: prod.splits option.splits)
      also have "\<dots> = snd (run_all (tl (scale_steps srv addr dn sd1 sc)) h1)"
        using scale_body_same unfolding same_def by blast
      finally show ?thesis unfolding sp by (simp add: scale_steps_def Let_def andThen_def h1)
    qed
  qed
qed

text \<open>A server that keeps what it accepts: the directory is the replay of the history.\<close>

type_synonym cfg_store = "string \<Rightarrow> string \<Rightarrow> string \<Rightarrow> string list"

fun apply_req :: "cfg_store \<Rightarrow> cfg_request \<Rightarrow> cfg_store" where
  "apply_req st (ModifyReq a dn ch) =
     (\<lambda>a' dn' attr. if a' = a \<and> dn' = dn then foldl (change attr) (st a dn attr) ch else st a' dn' attr)"
| "apply_req st q = st"

definition store_srv :: "cfg_store \<Rightarrow> ldap_srv" where
  "store_srv init = \<lparr>srv_Dial = (\<lambda>_ _. None), srv_Bind = (\<lambda>_ _ _ _. None), srv_SearchSuffix = (\<lambda>_ _ _. Inr []),
     srv_Read = (\<lambda>h a dn. Inr [foldl apply_req init h a dn]), srv_Write = (\<lambda>_ _. None)\<rparr>"

lemma store_srv_keeps: "keeps (store_srv init) addr"
  by (simp add: keeps_def store_srv_def value_at_def)

text \<open>What the pass is for, attribute by attribute.\<close>

definition scale_settled :: "SlapdDatabase \<Rightarrow> SlapdCluster \<Rightarrow> (string \<Rightarrow> string list) \<Rightarrow> bool" where
  "scale_settled sd sc v \<longleftrightarrow>
     to_lower ` set dataBaselineIndexAttrs \<subseteq> set (indexedAttrs (v ''olcDbIndex'')) \<and>
     (snd (desiredSizeLimit sd) \<longrightarrow> length (v ''olcSizeLimit'') = 1 \<and> searchLimitEqual (hd (v ''olcSizeLimit'')) (fst (desiredSizeLimit sd))) \<and>
     (snd (desiredTimeLimit sd) \<longrightarrow> length (v ''olcTimeLimit'') = 1 \<and> searchLimitEqual (hd (v ''olcTimeLimit'')) (fst (desiredTimeLimit sd))) \<and>
     limitsMatch (v ''olcLimits'') (desiredLimits sd (replicating sd sc)) \<and>
     tunable_ok (if desiredNoSync sd sc then ''TRUE'' else ''FALSE'') True (v ''olcDbNoSync'') \<and>
     tunable_ok (fst (desiredCheckpoint sd)) (snd (desiredCheckpoint sd)) (v ''olcDbCheckpoint'') \<and>
     tunable_ok (itoa (desiredRtxnSize sd)) True (v ''olcDbRtxnSize'')"

lemma scale_settled_iff:
  "(\<forall>(a, f, ok) \<in> set (scale_steps srv addr dn sd sc). ok (v a)) \<longleftrightarrow> scale_settled sd sc v"
  unfolding scale_steps_def scale_settled_def planDataBaselineIndices_def Let_def
  by (auto simp: planIndices_def filter_empty_conv)

text \<open>
  C30. The scale pass settles: against a server that keeps what it accepts, a pass over a database
  succeeds when nothing is refused; a pass that reports success leaves every converged attribute at its
  desired value, and the next pass over the same specification, at any later time, sends nothing.
\<close>

theorem scale_tunables_settle:
  assumes "keeps srv addr" and "desiredDataMaxSize quantity sd = Inr m"
    and "sd_Spec sd' = sd_Spec sd" and "sd_Name sd' = sd_Name sd"
  shows "((\<forall>h q. srv_Write srv h q = None) \<longrightarrow>
      (\<exists>h'. fst (convergeScaleTunables quantity srv now addr dn sd sc h) = (None, h'))) \<and>
    (fst (convergeScaleTunables quantity srv now addr dn sd sc h) = (None, h') \<longrightarrow>
      scale_settled sd sc (value_at srv h' addr dn) \<and>
      fst (convergeScaleTunables quantity srv now' addr dn sd' sc h') = (None, h'))"
proof (intro conjI impI)
  let ?ss = "scale_steps srv addr dn sd sc"
  assume "\<forall>h q. srv_Write srv h q = None"
  then have "fst (run_all ?ss h) = None" using run_all_accepted [OF assms(1) _ scale_contract] by blast
  then have "run_all ?ss h = (None, snd (run_all ?ss h))" by (metis prod.collapse)
  then show "\<exists>h'. fst (convergeScaleTunables quantity srv now addr dn sd sc h) = (None, h')"
    using converge_success [OF assms(1,2)] by blast
next
  assume "fst (convergeScaleTunables quantity srv now addr dn sd sc h) = (None, h')"
  then have run: "run_all (scale_steps srv addr dn sd sc) h = (None, h')" using converge_success [OF assms(1,2)] by simp
  then show "scale_settled sd sc (value_at srv h' addr dn)"
    using run_all_settles [OF assms(1) scale_contract run] by (simp add: scale_settled_iff)
  have "desiredDataMaxSize quantity sd' = Inr m" using assms(2) unfolding desiredDataMaxSize_def assms(3) .
  moreover have "run_all (scale_steps srv addr dn sd' sc) h' = (None, h')"
    using run_all_silent [OF assms(1) scale_contract run] scale_steps_spec [OF assms(3,4)] by simp
  ultimately show "fst (convergeScaleTunables quantity srv now' addr dn sd' sc h') = (None, h')"
    using converge_success [OF assms(1)] by blast
qed

theorem scale_tunables_settle_witness:
  "\<exists>h'. fst (convergeScaleTunables (\<lambda>_. Inr None) (store_srv (\<lambda>_ _ _. [])) 0 ''a:1024'' ''olcDatabase={1}mdb''
       (base_database ''a'' (Some 0)) base_cluster []) = (None, h') \<and>
     scale_settled (base_database ''a'' (Some 0)) base_cluster (value_at (store_srv (\<lambda>_ _ _. [])) h' ''a:1024'' ''olcDatabase={1}mdb'') \<and>
     fst (convergeScaleTunables (\<lambda>_. Inr None) (store_srv (\<lambda>_ _ _. [])) 60 ''a:1024'' ''olcDatabase={1}mdb''
       (base_database ''a'' (Some 0)) base_cluster h') = (None, h')"
proof -
  have m: "desiredDataMaxSize (\<lambda>_. Inr None) (base_database ''a'' (Some 0)) = Inr defaultDataMaxSizeBytes" by code_simp
  have w: "srv_Write (store_srv (\<lambda>_ _ _. [])) h q = None" for h q by (simp add: store_srv_def)
  show ?thesis using scale_tunables_settle [OF store_srv_keeps m refl refl] w by blast
qed

text \<open>
  The map size and the environment flags of a live database are never written: whatever the
  servers answer, every request of the scale pass modifies one of the seven converged attributes of
  that database entry, and there are at most seven.
\<close>

theorem scale_tunables_touch:
  "\<exists>reqs. snd (fst (convergeScaleTunables quantity srv now addr dn sd sc h)) = h @ reqs \<and> length reqs \<le> 7 \<and>
     set reqs \<subseteq> Collect (touches addr dn {''olcDbIndex'', ''olcSizeLimit'', ''olcTimeLimit'', ''olcLimits'',
       ''olcDbNoSync'', ''olcDbCheckpoint'', ''olcDbRtxnSize''})"
proof -
  let ?ss = "scale_steps srv addr dn sd sc"
  have ss: "fst ` set ?ss = {''olcDbIndex'', ''olcSizeLimit'', ''olcTimeLimit'', ''olcLimits'',
       ''olcDbNoSync'', ''olcDbCheckpoint'', ''olcDbRtxnSize''}" "length ?ss = 7" "?ss \<noteq> []"
    "hd ?ss = (''olcDbIndex'', ensureDataBaselineIndices srv addr dn, \<lambda>v. planDataBaselineIndices v = [])"
    by (simp_all add: scale_steps_def Let_def)
  have "contract srv addr dn [hd ?ss]" using baseline.attr_step_axioms by (simp add: contract_def ss(4))
  then obtain r1 where r1: "snd (ensureDataBaselineIndices srv addr dn h) = h @ r1" "length r1 \<le> 1"
    "\<forall>q \<in> set r1. touches addr dn {''olcDbIndex''} q"
    using run_all_touches [of srv addr dn "[hd ?ss]" h] by (auto simp: ss(4))
  obtain r2 where r2: "snd (run_all ?ss h) = h @ r2" "length r2 \<le> 7" "\<forall>q \<in> set r2. touches addr dn (fst ` set ?ss) q"
    using run_all_touches [OF scale_contract, of srv addr dn sd sc h] unfolding ss(2) by blast
  from converge_history [of quantity srv now addr dn sd sc h] show ?thesis
  proof (elim insertE emptyE)
    assume "snd (fst (convergeScaleTunables quantity srv now addr dn sd sc h)) = snd (run_all ?ss h)"
    then show ?thesis using r2 unfolding ss(1) by (intro exI [of _ r2] conjI subsetI) simp_all
  next
    assume "snd (fst (convergeScaleTunables quantity srv now addr dn sd sc h)) = snd (ensureDataBaselineIndices srv addr dn h)"
    then show ?thesis using r1 by (intro exI [of _ r1] conjI subsetI CollectI) (simp_all add: touches_mono [where A = "{''olcDbIndex''}"])
  qed
qed

end
