(* ===== verification/Seed.thy ===== *)
theory Seed
  imports Syncrepl Mesh_Resolve
begin

text \<open>
  The seed of a database: the site gate (\<open>seed_site.go\<close>), the foreign-creator belt (\<open>seed_withhold.go\<close>)
  and, of \<open>slapddatabase_controller.go\<close>, \<open>seedNeeded\<close>, \<open>reconcileSeed\<close>, \<open>applySeedData\<close>, \<open>applySeedEntry\<close>,
  \<open>suffixEntryCSN\<close> and \<open>ldapEntryExists\<close>. The data tree of a pod is reached through the same servers as its
  cn=config: a base search is \<open>srv_Read\<close>, an add a request of the history.
\<close>

section \<open>Results of the directory\<close>

text \<open>An error of the server carries its result code; every other error is a message without one.\<close>

definition ldapError :: "int \<Rightarrow> string \<Rightarrow> message" where
  "ldapError code diagnostic = Msg ''LDAP Result Code'' [MInt code, MStr diagnostic]"

definition IsErrorWithCode :: "message \<Rightarrow> int \<Rightarrow> bool" where
  "IsErrorWithCode e code \<longleftrightarrow>
     (case e of Msg f args \<Rightarrow> f = ''LDAP Result Code'' \<and> (case args of MInt c # _ \<Rightarrow> c = code | _ \<Rightarrow> False))"

abbreviation "LDAPResultNoSuchObject \<equiv> (32 :: int)"
abbreviation "LDAPResultEntryAlreadyExists \<equiv> (68 :: int)"

definition ldapEntryExists :: "ldap_srv \<Rightarrow> history \<Rightarrow> string \<Rightarrow> string \<Rightarrow> message + bool" where
  "ldapEntryExists srv h addr dn =
     (case srv_Read srv h addr dn of
        Inl e \<Rightarrow> if IsErrorWithCode e LDAPResultNoSuchObject then Inr False else Inl e
      | Inr entries \<Rightarrow> Inr (entries \<noteq> []))"

definition suffixEntryCSN :: "ldap_srv \<Rightarrow> history \<Rightarrow> string \<Rightarrow> string \<Rightarrow> string option" where
  "suffixEntryCSN srv h addr suffix =
     (case srv_Read srv h addr suffix of
        Inr (e # es) \<Rightarrow> (case e ''entryCSN'' of v # vs \<Rightarrow> if v = [] then None else Some v | [] \<Rightarrow> None)
      | _ \<Rightarrow> None)"

section \<open>Who may seed\<close>

datatype seedSiteDecision = seedSiteApply | seedSiteWithhold | seedSiteUnknownIdentity

definition decideSeedSite :: "string \<Rightarrow> string \<Rightarrow> seedSiteDecision" where
  "decideSeedSite selector identity =
     (let site = normalizeSiteName selector; self = normalizeSiteName identity in
      if site = [] then seedSiteApply
      else if self = [] then seedSiteUnknownIdentity
      else if site \<noteq> self then seedSiteWithhold
      else seedSiteApply)"

definition csnSID :: "string \<Rightarrow> int option" where
  "csnSID csn =
     (let parts = split_on CHR ''#'' csn in
      if length parts < 3 then None
      else (case parse_int 16 32 (parts ! 2) of
          None \<Rightarrow> None
        | Some sid \<Rightarrow> if sid < 0 then None else Some sid))"

text \<open>The comparison is made on Go's int, 64 bits wide: no sum of two int32 values wraps there.\<close>

definition seedCreatorIsForeign :: "string \<Rightarrow> SlapdCluster \<Rightarrow> bool" where
  "seedCreatorIsForeign entryCSN sc =
     (case csnSID entryCSN of
        None \<Rightarrow> False
      | Some sid \<Rightarrow>
          (let replicas = (if spec_Replicas (sc_Spec sc) = 0 then 1 else spec_Replicas (sc_Spec sc));
               base = repl_ServerIDBase (sc_Replication sc)
           in sid < base + 1 \<or> sid > base + replicas))"

section \<open>The entries\<close>

fun addValue :: "(string \<times> string list) list \<Rightarrow> string \<Rightarrow> string \<Rightarrow> (string \<times> string list) list" where
  "addValue [] k v = [(k, [v])]"
| "addValue ((k', vs) # attrs) k v = (if k' = k then (k', vs @ [v]) # attrs else (k', vs) # addValue attrs k v)"

text \<open>
  The attribute lines. Go ranges over the map in no fixed order; the model takes the order of first
  appearance, and an LDAP add does not depend on the order of its attributes.
\<close>

fun seedAttrs :: "(string \<times> string list) list \<Rightarrow> string list \<Rightarrow> (string \<times> string list) list" where
  "seedAttrs attrs [] = attrs"
| "seedAttrs attrs (l # ls) =
     (let line = trim_space l in
      if line = [] then seedAttrs attrs ls
      else (case cut CHR '':'' line of
          None \<Rightarrow> seedAttrs attrs ls
        | Some (k, v) \<Rightarrow> seedAttrs (addValue attrs (trim_space k) (trim_space v)) ls))"

definition seedLines :: "string \<Rightarrow> string list" where
  "seedLines entry = split_on CHR 10 (trim_space entry)"

definition seedDN :: "string \<Rightarrow> string option" where
  "seedDN entry =
     (let first = hd (seedLines entry) in
      if take 3 (to_lower first) = ''dn:'' then Some (trim_space (drop 3 first)) else None)"

definition applySeedEntry ::
  "ldap_srv \<Rightarrow> string \<Rightarrow> string \<Rightarrow> history \<Rightarrow> (string \<times> message option) \<times> history" where
  "applySeedEntry srv addr entry h =
     (case seedDN entry of
        None \<Rightarrow> (([], Some (Msg ''seed entry must start with dn:'' [MStr (hd (seedLines entry))])), h)
      | Some dn \<Rightarrow>
      case ldapEntryExists srv h addr dn of
        Inl e \<Rightarrow> ((dn, Some (Msg ''check existence of'' [MStr dn, MMsg e])), h)
      | Inr True \<Rightarrow> ((dn, None), h)
      | Inr False \<Rightarrow>
      case send srv h (AddReq addr dn (seedAttrs [] (tl (seedLines entry)))) of
        (None, h') \<Rightarrow> ((dn, None), h')
      | (Some e, h') \<Rightarrow>
          if IsErrorWithCode e LDAPResultEntryAlreadyExists then ((dn, None), h')
          else ((dn, Some (Msg ''add'' [MStr dn, MMsg e])), h'))"

fun seedEntries :: "ldap_srv \<Rightarrow> string \<Rightarrow> nat \<Rightarrow> string list \<Rightarrow> history \<Rightarrow> message option \<times> history" where
  "seedEntries srv addr i [] h = (None, h)"
| "seedEntries srv addr i (entry # entries) h =
     (case applySeedEntry srv addr entry h of
        ((dn, Some e), h') \<Rightarrow> (Some (Msg ''seed entry'' [MInt (int i), MStr dn, MMsg e]), h')
      | ((dn, None), h') \<Rightarrow>
      case ldapEntryExists srv h' addr dn of
        Inl e \<Rightarrow> (Some (Msg ''verify seed entry'' [MInt (int i), MStr dn, MMsg e]), h')
      | Inr False \<Rightarrow> (Some (Msg ''seed entry added but not visible'' [MInt (int i), MStr dn]), h')
      | Inr True \<Rightarrow> seedEntries srv addr (Suc i) entries h')"

definition rootDNFor :: "SlapdDatabase \<Rightarrow> string" where
  "rootDNFor sd = (if sds_RootDN (sd_Spec sd) = [] then ''cn=admin,'' @ sds_Suffix (sd_Spec sd) else sds_RootDN (sd_Spec sd))"

definition seedAddr :: "SlapdCluster \<Rightarrow> string \<Rightarrow> string" where
  "seedAddr sc clusterDomain = podAddr (rwHost sc clusterDomain 0)"

definition applySeedData ::
  "ldap_srv \<Rightarrow> string \<Rightarrow> SlapdCluster \<Rightarrow> SlapdDatabase \<Rightarrow> string list \<Rightarrow> string \<Rightarrow> history \<Rightarrow> (message + bool) \<times> history" where
  "applySeedData srv clusterDomain sc sd entries rootPW h =
     (let addr = seedAddr sc clusterDomain; rootDN = rootDNFor sd in
      case srv_Dial srv h addr of
        Some e \<Rightarrow> (Inl (Msg ''dial pod-0'' [MStr addr, MMsg e]), h)
      | None \<Rightarrow>
      case srv_Bind srv h addr rootDN rootPW of
        Some e \<Rightarrow> (Inl (Msg ''bind on pod-0'' [MStr rootDN, MMsg e]), h)
      | None \<Rightarrow>
      if (case suffixEntryCSN srv h addr (sds_Suffix (sd_Spec sd)) of None \<Rightarrow> False | Some csn \<Rightarrow> seedCreatorIsForeign csn sc)
      then (Inr True, h)
      else (case seedEntries srv addr 0 entries h of
          (Some e, h') \<Rightarrow> (Inl e, h')
        | (None, h') \<Rightarrow> (Inr False, h')))"

definition seedNeeded :: "SlapdDatabase \<Rightarrow> bool" where
  "seedNeeded sd \<longleftrightarrow>
     (case sds_Seed (sd_Spec sd) of None \<Rightarrow> False | Some seed \<Rightarrow> seed_Entries seed \<noteq> []) \<and> \<not> sdst_SeedApplied (sd_Status sd)"

definition latchSeed :: "SlapdDatabase \<Rightarrow> SlapdDatabase" where
  "latchSeed sd = sd\<lparr>sd_Status := (sd_Status sd)\<lparr>sdst_SeedApplied := True\<rparr>\<rparr>"

text \<open>The result is whether the seed is settled; \<open>None\<close> is the nil dereference of a database without a seed.\<close>

definition reconcileSeed ::
  "ldap_srv \<Rightarrow> string \<Rightarrow> string \<Rightarrow> SlapdCluster \<Rightarrow> SlapdDatabase \<Rightarrow> string \<Rightarrow> history \<Rightarrow>
   ((bool \<times> SlapdDatabase) \<times> history) option" where
  "reconcileSeed srv clusterDomain siteName sc sd rootPW h =
     (case sds_Seed (sd_Spec sd) of
        None \<Rightarrow> None
      | Some seed \<Rightarrow> Some
          (case decideSeedSite (seed_Site seed) siteName of
             seedSiteWithhold \<Rightarrow> ((True, latchSeed sd), h)
           | seedSiteUnknownIdentity \<Rightarrow> ((False, sd), h)
           | seedSiteApply \<Rightarrow>
               (case applySeedData srv clusterDomain sc sd (seed_Entries seed) rootPW h of
                  (Inl e, h') \<Rightarrow> ((False, sd), h')
                | (Inr withheld, h') \<Rightarrow> ((True, latchSeed sd), h'))))"

text \<open>Step 8 of \<open>Reconcile\<close>: the work still pending, the database and the history.\<close>

definition seedStep ::
  "ldap_srv \<Rightarrow> string \<Rightarrow> string \<Rightarrow> SlapdCluster \<Rightarrow> SlapdDatabase \<Rightarrow> string \<Rightarrow> history \<Rightarrow>
   ((bool \<times> SlapdDatabase) \<times> history) option" where
  "seedStep srv clusterDomain siteName sc sd rootPW h =
     (if seedNeeded sd
      then map_option (\<lambda>((settled, sd'), h'). ((\<not> settled, sd'), h')) (reconcileSeed srv clusterDomain siteName sc sd rootPW h)
      else Some ((False, sd), h))"

section \<open>What a pass sends\<close>

text \<open>
  The requests of the entries loop: each adds a declared entry on the one server, with its own
  attributes, and only where a search just before found no such entry.
\<close>

definition seedReq :: "string \<Rightarrow> string \<Rightarrow> cfg_request \<Rightarrow> bool" where
  "seedReq addr entry q \<longleftrightarrow> (\<exists>dn. seedDN entry = Some dn \<and> q = AddReq addr dn (seedAttrs [] (tl (seedLines entry))))"

definition seedReqs :: "ldap_srv \<Rightarrow> string \<Rightarrow> string list \<Rightarrow> history \<Rightarrow> history \<Rightarrow> bool" where
  "seedReqs srv addr entries h reqs \<longleftrightarrow>
     length reqs \<le> length entries \<and>
     (\<forall>pre q post. reqs = pre @ q # post \<longrightarrow>
        (\<exists>entry \<in> set entries. seedReq addr entry q) \<and> ldapEntryExists srv (h @ pre) addr (req_DN q) = Inr False)"

lemma seedReqs_Nil [simp]: "seedReqs srv addr entries h []"
  by (simp add: seedReqs_def)

lemma seedReqs_skip: "seedReqs srv addr entries h reqs \<Longrightarrow> seedReqs srv addr (e # entries) h reqs"
  by (fastforce simp: seedReqs_def)

lemma seedReqs_Cons:
  assumes "seedReq addr e q" and "ldapEntryExists srv h addr (req_DN q) = Inr False" and "seedReqs srv addr entries (h @ [q]) reqs"
  shows "seedReqs srv addr (e # entries) h (q # reqs)"
  unfolding seedReqs_def
proof (intro conjI allI impI)
  show "length (q # reqs) \<le> length (e # entries)" using assms(3) by (simp add: seedReqs_def)
  fix pre q' post assume eq: "q # reqs = pre @ q' # post"
  have "(\<exists>entry \<in> set (e # entries). seedReq addr entry q') \<and> ldapEntryExists srv (h @ pre) addr (req_DN q') = Inr False"
  proof (cases pre)
    case Nil
    then show ?thesis using eq assms(1,2) by simp
  next
    case (Cons p pre')
    then have "reqs = pre' @ q' # post" "p = q" using eq by simp_all
    then show ?thesis using assms(3) Cons by (auto simp: seedReqs_def)
  qed
  then show "\<exists>entry \<in> set (e # entries). seedReq addr entry q'" "ldapEntryExists srv (h @ pre) addr (req_DN q') = Inr False"
    by blast+
qed

lemma applySeedEntry_cases:
  obtains "snd (applySeedEntry srv addr entry h) = h"
  | q where "snd (applySeedEntry srv addr entry h) = h @ [q]" "seedReq addr entry q"
      "ldapEntryExists srv h addr (req_DN q) = Inr False"
proof (cases "seedDN entry")
  case (Some dn)
  let ?q = "AddReq addr dn (seedAttrs [] (tl (seedLines entry)))"
  show thesis
  proof (cases "ldapEntryExists srv h addr dn = Inr False")
    case True
    then have "snd (applySeedEntry srv addr entry h) = h @ [?q]"
      by (simp add: applySeedEntry_def Some send_def split: option.split)
    then show thesis using that(2) [of ?q] True Some by (simp add: seedReq_def)
  next
    case False
    then show thesis using that(1) by (simp add: applySeedEntry_def Some split: sum.splits bool.splits)
  qed
qed (use that(1) in \<open>simp add: applySeedEntry_def\<close>)

lemma applySeedEntry_dn: "applySeedEntry srv addr entry h = ((dn, None), h') \<Longrightarrow> seedDN entry = Some dn"
  by (auto simp: applySeedEntry_def split: option.splits sum.splits bool.splits prod.splits if_splits)

lemma seedEntries_reqs: "\<exists>reqs. snd (seedEntries srv addr i entries h) = h @ reqs \<and> seedReqs srv addr entries h reqs"
proof (induction entries arbitrary: i h)
  case (Cons entry entries)
  obtain dn e h1 where a: "applySeedEntry srv addr entry h = ((dn, e), h1)" by (metis prod.collapse)
  obtain reqs where r: "snd (seedEntries srv addr i (entry # entries) h) = h1 @ reqs" "seedReqs srv addr entries h1 reqs"
  proof (cases "e = None \<and> ldapEntryExists srv h1 addr dn = Inr True")
    case True
    then have eq: "seedEntries srv addr i (entry # entries) h = seedEntries srv addr (Suc i) entries h1" by (simp add: a)
    from Cons.IH [of "Suc i" h1] show thesis unfolding eq [symmetric] using that by blast
  next
    case False
    then have "snd (seedEntries srv addr i (entry # entries) h) = h1"
      by (cases e) (simp_all add: a split: sum.splits bool.splits)
    then show thesis using that [of "[]"] by simp
  qed
  show ?case
  proof (cases rule: applySeedEntry_cases [of srv addr entry h])
    case 1
    then show ?thesis using r a seedReqs_skip by auto
  next
    case (2 q)
    then have "h1 = h @ [q]" using a by simp
    then have "snd (seedEntries srv addr i (entry # entries) h) = h @ (q # reqs)" "seedReqs srv addr (entry # entries) h (q # reqs)"
      using r 2 seedReqs_Cons by auto
    then show ?thesis by blast
  qed
qed simp

section \<open>A server that keeps its entries\<close>

definition persistent :: "ldap_srv \<Rightarrow> string \<Rightarrow> bool" where
  "persistent srv addr \<longleftrightarrow>
     (\<forall>h a dn dn' attrs. ldapEntryExists srv h addr dn = Inr True \<longrightarrow> ldapEntryExists srv (h @ [AddReq a dn' attrs]) addr dn = Inr True)"

lemma persistent_reqs:
  assumes "persistent srv addr" and "seedReqs srv addr entries h reqs" and "ldapEntryExists srv h addr dn = Inr True"
  shows "ldapEntryExists srv (h @ reqs) addr dn = Inr True"
proof -
  have "\<forall>q \<in> set reqs. \<exists>a dn' attrs. q = AddReq a dn' attrs"
    using assms(2) by (fastforce simp: seedReqs_def seedReq_def in_set_conv_decomp)
  then show ?thesis
  proof (induction reqs rule: rev_induct)
    case (snoc q qs)
    then obtain a dn' attrs where "q = AddReq a dn' attrs" by auto
    moreover have "ldapEntryExists srv (h @ qs) addr dn = Inr True" using snoc by simp
    ultimately show ?case using assms(1) unfolding persistent_def by (metis append_assoc)
  qed (simp add: assms(3))
qed

definition present :: "ldap_srv \<Rightarrow> history \<Rightarrow> string \<Rightarrow> string \<Rightarrow> bool" where
  "present srv h addr entry \<longleftrightarrow> (\<exists>dn. seedDN entry = Some dn \<and> ldapEntryExists srv h addr dn = Inr True)"

lemma seedEntries_present:
  assumes "persistent srv addr"
  shows "seedEntries srv addr i entries h = (None, h') \<Longrightarrow> list_all (present srv h' addr) entries"
proof (induction entries arbitrary: i h)
  case (Cons entry entries)
  obtain dn e h1 where a: "applySeedEntry srv addr entry h = ((dn, e), h1)" by (metis prod.collapse)
  have ok: "e = None" "ldapEntryExists srv h1 addr dn = Inr True" "seedEntries srv addr (Suc i) entries h1 = (None, h')"
    using Cons.prems a by (auto split: option.splits sum.splits bool.splits)
  obtain reqs where "h' = h1 @ reqs" "seedReqs srv addr entries h1 reqs"
    using seedEntries_reqs [of srv addr "Suc i" entries h1] ok(3) by auto
  then have "ldapEntryExists srv h' addr dn = Inr True" using persistent_reqs [OF assms _ ok(2)] by blast
  moreover have "seedDN entry = Some dn" using applySeedEntry_dn a ok(1) by blast
  ultimately show ?case using Cons.IH [OF ok(3)] by (simp add: present_def)
qed simp

lemma seedEntries_settled: "list_all (present srv h addr) entries \<Longrightarrow> seedEntries srv addr i entries h = (None, h)"
  by (induction entries arbitrary: i) (auto simp: present_def applySeedEntry_def)

section \<open>The step\<close>

lemma applySeedData_hist:
  "\<exists>reqs. snd (applySeedData srv dm sc sd entries pw h) = h @ reqs \<and> seedReqs srv (seedAddr sc dm) entries h reqs"
proof -
  let ?r = "seedEntries srv (seedAddr sc dm) 0 entries h"
  have "snd (applySeedData srv dm sc sd entries pw h) \<in> {h, snd ?r}"
    unfolding applySeedData_def Let_def by (cases ?r) (simp split: option.split)
  with seedEntries_reqs [of srv "seedAddr sc dm" 0 entries h] show ?thesis by (metis append_Nil2 empty_iff insertE seedReqs_Nil)
qed

definition foreignSuffix :: "ldap_srv \<Rightarrow> string \<Rightarrow> SlapdCluster \<Rightarrow> SlapdDatabase \<Rightarrow> history \<Rightarrow> bool" where
  "foreignSuffix srv clusterDomain sc sd h \<longleftrightarrow>
     (\<exists>csn. suffixEntryCSN srv h (seedAddr sc clusterDomain) (sds_Suffix (sd_Spec sd)) = Some csn \<and> seedCreatorIsForeign csn sc)"

lemma applySeedData_foreign:
  assumes "foreignSuffix srv dm sc sd h"
  shows "applySeedData srv dm sc sd entries pw h \<in> {(Inr True, h)} \<union> (\<lambda>e. (Inl e, h)) ` UNIV"
  using assms unfolding applySeedData_def Let_def foreignSuffix_def by (auto split: option.splits)

lemma applySeedData_Inr:
  assumes "applySeedData srv dm sc sd entries pw h = (Inr withheld, h')"
  shows "(withheld \<and> foreignSuffix srv dm sc sd h \<and> h' = h) \<or>
    (\<not> withheld \<and> seedEntries srv (seedAddr sc dm) 0 entries h = (None, h'))"
  using assms unfolding applySeedData_def Let_def foreignSuffix_def
  by (auto split: option.splits prod.splits if_splits)

lemma latchSeed_simps [simp]:
  "sdst_SeedApplied (sd_Status (latchSeed sd))" "sd_Spec (latchSeed sd) = sd_Spec sd" "sd_Name (latchSeed sd) = sd_Name sd"
  by (simp_all add: latchSeed_def)

lemma seedNeeded_seed:
  assumes "seedNeeded sd"
  obtains seed where "sds_Seed (sd_Spec sd) = Some seed" "\<not> sdst_SeedApplied (sd_Status sd)"
  using assms by (auto simp: seedNeeded_def split: option.splits)

lemma seedStep_cases:
  assumes "sds_Seed (sd_Spec sd) = Some seed"
  shows "seedStep srv dm site sc sd pw h =
    (if \<not> seedNeeded sd then Some ((False, sd), h)
     else if decideSeedSite (seed_Site seed) site = seedSiteWithhold then Some ((False, latchSeed sd), h)
     else if decideSeedSite (seed_Site seed) site = seedSiteUnknownIdentity then Some ((True, sd), h)
     else (case applySeedData srv dm sc sd (seed_Entries seed) pw h of
         (Inl e, h') \<Rightarrow> Some ((True, sd), h') | (Inr w, h') \<Rightarrow> Some ((False, latchSeed sd), h')))"
  unfolding seedStep_def reconcileSeed_def assms
  by (auto split: seedSiteDecision.splits prod.splits sum.splits)

text \<open>
  C19. The seed latch tells the truth: a pass over a database that needs its seed never dereferences
  a missing one, it latches SeedApplied exactly when it reports nothing pending, and otherwise changes
  nothing of the database. Behind the latch is one of three facts: another site is the declared
  founder and nothing was sent; the suffix entry on pod-0 has a foreign creator and nothing was sent; or
  every declared entry was found on pod-0 after the pass, where the server keeps its entries. Every
  request sent is the add of a declared entry on pod-0 that a search just before did not find.
\<close>

theorem seed_latch_exact:
  assumes "persistent srv (seedAddr sc clusterDomain)" and "seedNeeded sd" and "sds_Seed (sd_Spec sd) = Some seed"
  shows "\<exists>pending sd' reqs. seedStep srv clusterDomain siteName sc sd rootPW h = Some ((pending, sd'), h @ reqs) \<and>
    sd' = (if pending then sd else latchSeed sd) \<and>
    seedReqs srv (seedAddr sc clusterDomain) (seed_Entries seed) h reqs \<and>
    (pending \<or> reqs = [] \<and> decideSeedSite (seed_Site seed) siteName = seedSiteWithhold \<or>
      reqs = [] \<and> foreignSuffix srv clusterDomain sc sd h \<or>
      list_all (present srv (h @ reqs) (seedAddr sc clusterDomain)) (seed_Entries seed))"
proof (cases "decideSeedSite (seed_Site seed) siteName = seedSiteApply")
  case False
  then show ?thesis using assms(2)
    by (cases "decideSeedSite (seed_Site seed) siteName") (simp_all add: seedStep_cases [OF assms(3)] ex_bool_eq)
next
  case True
  obtain r h' where a: "applySeedData srv clusterDomain sc sd (seed_Entries seed) rootPW h = (r, h')" by force
  obtain reqs where r: "h' = h @ reqs" "seedReqs srv (seedAddr sc clusterDomain) (seed_Entries seed) h reqs"
    using applySeedData_hist [of srv clusterDomain sc sd "seed_Entries seed" rootPW h] a by auto
  show ?thesis
  proof (cases r)
    case (Inl e)
    then show ?thesis using a r True assms(2) by (auto simp: seedStep_cases [OF assms(3)])
  next
    case (Inr w)
    have "(reqs = [] \<and> foreignSuffix srv clusterDomain sc sd h) \<or>
        list_all (present srv (h @ reqs) (seedAddr sc clusterDomain)) (seed_Entries seed)"
      using applySeedData_Inr a Inr r(1) seedEntries_present [OF assms(1)] by fastforce
    then show ?thesis using a r True assms(2) Inr by (auto simp: seedStep_cases [OF assms(3)])
  qed
qed

text \<open>A server that has what was added to it, for the evaluated examples.\<close>

definition tree_srv :: ldap_srv where
  "tree_srv = \<lparr>srv_Dial = (\<lambda>_ _. None), srv_Bind = (\<lambda>_ _ _ _. None), srv_SearchSuffix = (\<lambda>_ _ _. Inr []),
     srv_Read = (\<lambda>h a dn. if list_ex (\<lambda>q. case q of AddReq a' dn' attrs \<Rightarrow> a' = a \<and> dn' = dn | _ \<Rightarrow> False) h
       then Inr [\<lambda>_. []] else Inl (ldapError LDAPResultNoSuchObject [])),
     srv_Write = (\<lambda>_ _. None)\<rparr>"

lemma tree_srv_persistent: "persistent tree_srv addr"
  by (auto simp: persistent_def ldapEntryExists_def tree_srv_def split: if_splits)

definition example_seed :: DatabaseSeedConfig where
  "example_seed = \<lparr>seed_Entries = [''dn: dc=x'' @ [CHR 10] @ ''dc: x''], seed_ConfigMapRef = [], seed_Site = ''a''\<rparr>"

definition seeded_database :: SlapdDatabase where
  "seeded_database = (base_database ''d'' None)\<lparr>sd_Spec := (sd_Spec (base_database ''d'' None))\<lparr>sds_Seed := Some example_seed\<rparr>\<rparr>"

theorem seed_latch_exact_witness:
  "\<exists>pending sd' reqs. seedStep tree_srv ''l'' ''a'' base_cluster seeded_database [] [] = Some ((pending, sd'), [] @ reqs) \<and>
    sd' = (if pending then seeded_database else latchSeed seeded_database) \<and>
    seedReqs tree_srv (seedAddr base_cluster ''l'') (seed_Entries example_seed) [] reqs \<and>
    (pending \<or> reqs = [] \<and> decideSeedSite (seed_Site example_seed) ''a'' = seedSiteWithhold \<or>
      reqs = [] \<and> foreignSuffix tree_srv ''l'' base_cluster seeded_database [] \<or>
      list_all (present tree_srv ([] @ reqs) (seedAddr base_cluster ''l'')) (seed_Entries example_seed))"
  by (rule seed_latch_exact [OF tree_srv_persistent]) (simp_all add: seedNeeded_def seeded_database_def base_database_def example_seed_def)

section \<open>Every site of a mesh\<close>

text \<open>
  One seed, read identically at every site; each site has an operator with its own identity, its own
  cluster and its own copy of the database's status. The sites' passes interleave in any order, against
  servers that may answer anything. An event is a site and what one of its passes sent.
\<close>

record seed_site =
  ss_Identity :: string
  ss_Cluster :: SlapdCluster
  ss_Domain :: string

type_synonym 's seeding = "('s \<Rightarrow> SlapdDatabase) \<times> ('s \<times> history) list"

definition all_sent :: "('s \<times> history) list \<Rightarrow> history" where
  "all_sent log = concat (map snd log)"

inductive seeding :: "('s \<Rightarrow> seed_site) \<Rightarrow> ('s \<Rightarrow> ldap_srv) \<Rightarrow> DatabaseSeedConfig \<Rightarrow> 's seeding \<Rightarrow> bool" for site srv seed where
  start: "(\<And>s. sds_Seed (sd_Spec (dbs s)) = Some seed) \<Longrightarrow> seeding site srv seed (dbs, [])"
| pass: "seeding site srv seed (dbs, log) \<Longrightarrow>
    seedStep (srv s) (ss_Domain (site s)) (ss_Identity (site s)) (ss_Cluster (site s)) (dbs s) pw (all_sent log) =
      Some ((pending, sd'), all_sent log @ reqs) \<Longrightarrow>
    seeding site srv seed (dbs (s := sd'), log @ [(s, reqs)])"

inductive_cases seeding_passE: "seeding site srv seed (dbs, log @ [ev])"

lemma seedStep_hist:
  assumes "sds_Seed (sd_Spec sd) = Some seed" and "seedStep srv dm site sc sd pw h = Some ((pending, sd'), h @ reqs)"
  shows "(sd' = sd \<or> sd' = latchSeed sd) \<and> seedReqs srv (seedAddr sc dm) (seed_Entries seed) h reqs \<and>
    (reqs \<noteq> [] \<longrightarrow> seedNeeded sd \<and> decideSeedSite (seed_Site seed) site = seedSiteApply)"
  using assms(2) applySeedData_hist [of srv dm sc sd "seed_Entries seed" pw h] unfolding seedStep_cases [OF assms(1)]
  by (cases "decideSeedSite (seed_Site seed) site") (auto split: if_splits prod.splits sum.splits)

lemma seeding_invariant:
  "seeding site srv seed (dbs, log) \<Longrightarrow>
     (\<forall>s. sds_Seed (sd_Spec (dbs s)) = Some seed) \<and>
     (\<forall>pre s reqs post. log = pre @ (s, reqs) # post \<and> reqs \<noteq> [] \<longrightarrow>
        decideSeedSite (seed_Site seed) (ss_Identity (site s)) = seedSiteApply \<and>
        seedReqs (srv s) (seedAddr (ss_Cluster (site s)) (ss_Domain (site s))) (seed_Entries seed) (all_sent pre) reqs)"
proof (induction "(dbs, log)" arbitrary: dbs log rule: seeding.induct)
  case (pass dbs log s pw pending sd' reqs)
  have sd: "sds_Seed (sd_Spec (dbs s)) = Some seed" using pass by blast
  note step = seedStep_hist [OF sd pass(3)]
  show ?case
  proof (intro conjI allI impI)
    show "sds_Seed (sd_Spec ((dbs(s := sd')) t)) = Some seed" for t using pass step by auto
  next
    fix pre t rs post assume eq: "log @ [(s, reqs)] = pre @ (t, rs) # post \<and> rs \<noteq> []"
    then consider "post = []" "pre = log" "t = s" "rs = reqs" | post' where "log = pre @ (t, rs) # post'"
      by (cases post rule: rev_cases) auto
    then have "decideSeedSite (seed_Site seed) (ss_Identity (site t)) = seedSiteApply \<and>
        seedReqs (srv t) (seedAddr (ss_Cluster (site t)) (ss_Domain (site t))) (seed_Entries seed) (all_sent pre) rs"
    proof cases
      case 1
      then show ?thesis using step eq by blast
    next
      case 2
      then show ?thesis using pass(2) eq by blast
    qed
    then show "decideSeedSite (seed_Site seed) (ss_Identity (site t)) = seedSiteApply"
      "seedReqs (srv t) (seedAddr (ss_Cluster (site t)) (ss_Domain (site t))) (seed_Entries seed) (all_sent pre) rs" by blast+
  qed
qed simp

lemma decide_apply_iff:
  "decideSeedSite sel ident = seedSiteApply \<longleftrightarrow> normalizeSiteName sel = [] \<or> normalizeSiteName sel = normalizeSiteName ident"
  by (auto simp: decideSeedSite_def Let_def)

text \<open>
  C18. One founder: where the seed declares its site, then over any interleaving of the sites' passes
  and whatever the servers answer, every add of a seed entry comes from an operator whose own name is
  the declared one, goes to pod-0 of its cluster, and is of a declared entry not found there just before.
\<close>

theorem only_the_founder_seeds:
  assumes "seeding site srv seed (dbs, log)" and "normalizeSiteName (seed_Site seed) \<noteq> []"
    and "log = pre @ (s, reqs) # post" and "reqs \<noteq> []"
  shows "normalizeSiteName (ss_Identity (site s)) = normalizeSiteName (seed_Site seed) \<and>
    seedReqs (srv s) (seedAddr (ss_Cluster (site s)) (ss_Domain (site s))) (seed_Entries seed) (all_sent pre) reqs"
  using seeding_invariant [OF assms(1)] assms(2-4) by (metis decide_apply_iff)

definition two_sites :: "bool \<Rightarrow> seed_site" where
  "two_sites b = \<lparr>ss_Identity = (if b then ''a'' else ''b''), ss_Cluster = base_cluster, ss_Domain = (if b then ''x'' else ''y'')\<rparr>"

theorem only_the_founder_seeds_witness:
  "\<exists>dbs reqs. seeding two_sites (\<lambda>_. tree_srv) example_seed (dbs, [(True, reqs)]) \<and> reqs \<noteq> [] \<and>
     normalizeSiteName (ss_Identity (two_sites True)) = normalizeSiteName (seed_Site example_seed)"
proof -
  let ?srv = "\<lambda>_ :: bool. tree_srv"
  have seed: "sds_Seed (sd_Spec seeded_database) = Some example_seed" by (simp add: seeded_database_def)
  have s: "seeding two_sites ?srv example_seed (\<lambda>_. seeded_database, [])" by (rule seeding.start) (rule seed)
  have "map_option (\<lambda>((p, sd'), h'). (p, length h')) (seedStep tree_srv ''x'' ''a'' base_cluster seeded_database [] []) = Some (False, 1)"
    by code_simp
  then obtain sd' reqs where r: "seedStep tree_srv ''x'' ''a'' base_cluster seeded_database [] [] = Some ((False, sd'), reqs)" "length reqs = 1"
    by auto
  have "seeding two_sites ?srv example_seed ((\<lambda>_. seeded_database) (True := sd'), [] @ [(True, reqs)])"
    by (rule seeding.pass [OF s, where pw = "[]" and pending = False]) (simp add: two_sites_def all_sent_def r(1))
  moreover have "normalizeSiteName (seed_Site example_seed) \<noteq> []" by code_simp
  moreover have "reqs \<noteq> []" using r(2) by auto
  ultimately show ?thesis using only_the_founder_seeds [of two_sites ?srv example_seed _ "[(True, reqs)]" "[]" True reqs "[]"] by auto
qed

section \<open>The foreign-creator belt\<close>

text \<open>
  The belt tells the sites of a mesh apart: an entry created by a pod of a site - its CSN carries
  the serverID the operator gave that pod - is foreign at every other site wired from the same mesh,
  and at its own site it is not, for every ordinal of the declared fleet.
\<close>

theorem creator_is_foreign_elsewhere:
  assumes "deriveClusterWiring (Some mesh) (sc_Spec a) siteA = Inr (Some wa)"
    and "deriveClusterWiring (Some mesh) (sc_Spec b) siteB = Inr (Some wb)"
    and "normalizeSiteName siteA \<noteq> normalizeSiteName siteB"
    and "0 < spec_Replicas (sc_Spec a)" and "spec_Replicas (sc_Spec a) \<le> PodsPerSite (meshRIDLayout mesh)"
    and "0 < spec_Replicas (sc_Spec b)" and "spec_Replicas (sc_Spec b) \<le> PodsPerSite (meshRIDLayout mesh)"
    and "0 \<le> k" and "k < spec_Replicas (sc_Spec a)"
    and "csnSID csn = Some (podServerID (applyMeshWiring a (Some wa)) k)"
  shows "seedCreatorIsForeign csn (applyMeshWiring b (Some wb)) \<and> \<not> seedCreatorIsForeign csn (applyMeshWiring a (Some wa))"
proof -
  have pods: "PodsPerSite (meshRIDLayout mesh) \<le> 15" and wf: "sites_wf (mesh_Sites mesh)"
    using deriveClusterWiring_Some [OF assms(1)] by (simp_all add: serverIDBaseForSite_Inr_iff)
  obtain s x where s: "s \<in> set (mesh_Sites mesh)" "normalizeSiteName (site_Name s) = normalizeSiteName siteA"
    "site_ServerIDIndex s = Some x" "mw_ServerIDBase wa = 16 * x"
    using derived_base [OF assms(1)] by blast
  obtain t y where t: "t \<in> set (mesh_Sites mesh)" "normalizeSiteName (site_Name t) = normalizeSiteName siteB"
    "site_ServerIDIndex t = Some y" "mw_ServerIDBase wb = 16 * y"
    using derived_base [OF assms(2)] by blast
  have "x \<noteq> y" using site_by_index [OF wf s(1) t(1)] s t assms(3) by auto
  then have ne: "x \<le> y - 1 \<or> y \<le> x - 1" by linarith
  have sid: "csnSID csn = Some (16 * x + k + 1)"
    using podServerID_derived [OF assms(1,8)] assms(5,9,10) s(4) by simp
  have rep: "spec_Replicas (sc_Spec (applyMeshWiring c (Some w))) = spec_Replicas (sc_Spec c)" for c w
    by (simp add: applyMeshWiring_def Let_def)
  show ?thesis
    unfolding seedCreatorIsForeign_def sid option.case Let_def rep applyMeshWiring_base(1) s(4) t(4)
    using assms(4-9) pods ne by auto
qed

theorem creator_is_foreign_elsewhere_witness:
  "seedCreatorIsForeign ''20260101000000.000000Z#000000#031#000000''
     (applyMeshWiring example_meshed_cluster (Some (example_wiring 0 ''a'' 3))) \<and>
   \<not> seedCreatorIsForeign ''20260101000000.000000Z#000000#031#000000''
     (applyMeshWiring example_meshed_cluster (Some (example_wiring 48 ''b'' 0)))"
proof (rule creator_is_foreign_elsewhere [OF example_derivations])
  show "normalizeSiteName ''a'' \<noteq> normalizeSiteName ''b''" by code_simp
  show "spec_Replicas (sc_Spec example_meshed_cluster) \<le> PodsPerSite (meshRIDLayout example_mesh)" by code_simp
  then show "spec_Replicas (sc_Spec example_meshed_cluster) \<le> PodsPerSite (meshRIDLayout example_mesh)" .
  show "0 < spec_Replicas (sc_Spec example_meshed_cluster)" by code_simp
  then show "0 < spec_Replicas (sc_Spec example_meshed_cluster)" .
  show "(0 :: int) \<le> 0" by simp
  show "0 < spec_Replicas (sc_Spec example_meshed_cluster)" by code_simp
  show "csnSID ''20260101000000.000000Z#000000#031#000000'' =
      Some (podServerID (applyMeshWiring example_meshed_cluster (Some (example_wiring 48 ''b'' 0))) 0)" by code_simp
qed

end
