(* ===== verification/Data_Present.thy ===== *)
theory Data_Present
  imports Seed
begin

text \<open>
  Is the data there? The suffix probe (\<open>suffixprobe.go\<close>), the per-pod presence and its verdict
  (\<open>data_present.go\<close>, \<open>evaluateDataPresent\<close> with the latch of step 10 of \<open>Reconcile\<close>), and the phase a database
  pass reports (\<open>databasephase.go\<close>, \<open>database_resync.go\<close>). The search with the ManageDsaIT control is a second
  answer of the servers, \<open>dsa\<close>.
\<close>

type_synonym dsa_search = "history \<Rightarrow> string \<Rightarrow> string \<Rightarrow> message + (string \<Rightarrow> string list) list"

section \<open>The suffix probe\<close>

datatype Outcome = OutcomeVisible | OutcomeGlue | OutcomeMissing | OutcomeError

record Observation =
  obs_Suffix :: string
  obs_Outcome :: Outcome
  obs_UUID :: string
  obs_Detail :: message

definition Visible :: "Observation \<Rightarrow> bool" where
  "Visible ob \<longleftrightarrow> obs_Outcome ob = OutcomeVisible"

definition Glue :: "Observation \<Rightarrow> bool" where
  "Glue ob \<longleftrightarrow> obs_Outcome ob = OutcomeGlue"

definition Assessable :: "Observation \<Rightarrow> bool" where
  "Assessable ob \<longleftrightarrow> obs_Outcome ob \<noteq> OutcomeError"

definition firstValue :: "(string \<Rightarrow> string list) \<Rightarrow> string \<Rightarrow> string" where
  "firstValue e attr = (case e attr of [] \<Rightarrow> [] | v # vs \<Rightarrow> v)"

definition Classify :: "(string \<Rightarrow> string list) \<Rightarrow> string \<Rightarrow> Observation" where
  "Classify e suffix =
     (let uuid = firstValue e ''entryUUID'';
          glue = (equal_fold (firstValue e ''structuralObjectClass'') ''glue'' \<or>
            list_ex (\<lambda>oc. equal_fold (trim_space oc) ''glue'') (e ''objectClass''))
      in if glue
         then \<lparr>obs_Suffix = suffix, obs_Outcome = OutcomeGlue, obs_UUID = uuid,
           obs_Detail = (if uuid \<noteq> [] then Msg ''entryUUID'' [MStr uuid] else noMsg)\<rparr>
         else \<lparr>obs_Suffix = suffix, obs_Outcome = OutcomeError, obs_UUID = uuid,
           obs_Detail = Msg ''suffix entry hidden from ordinary search but not a glue entry'' []\<rparr>)"

text \<open>The second search, made when the ordinary one showed nothing.\<close>

definition probeHidden :: "dsa_search \<Rightarrow> history \<Rightarrow> string \<Rightarrow> string \<Rightarrow> Observation" where
  "probeHidden dsa h addr suffix =
     (let o0 = \<lparr>obs_Suffix = suffix, obs_Outcome = OutcomeError, obs_UUID = [], obs_Detail = noMsg\<rparr> in
      case dsa h addr suffix of
        Inl e \<Rightarrow> if IsErrorWithCode e LDAPResultNoSuchObject then o0\<lparr>obs_Outcome := OutcomeMissing\<rparr> else o0\<lparr>obs_Detail := e\<rparr>
      | Inr [] \<Rightarrow> o0\<lparr>obs_Outcome := OutcomeMissing\<rparr>
      | Inr (e # es) \<Rightarrow> Classify e suffix)"

definition Probe :: "ldap_srv \<Rightarrow> dsa_search \<Rightarrow> history \<Rightarrow> string \<Rightarrow> string \<Rightarrow> Observation" where
  "Probe srv dsa h addr suffix =
     (let o0 = \<lparr>obs_Suffix = suffix, obs_Outcome = OutcomeError, obs_UUID = [], obs_Detail = noMsg\<rparr> in
      if suffix = [] then o0\<lparr>obs_Detail := Msg ''no suffix configured'' []\<rparr>
      else (case srv_Read srv h addr suffix of
          Inr (e # es) \<Rightarrow> o0\<lparr>obs_Outcome := OutcomeVisible, obs_UUID := firstValue e ''entryUUID''\<rparr>
        | Inr [] \<Rightarrow> probeHidden dsa h addr suffix
        | Inl err \<Rightarrow>
            if \<not> IsErrorWithCode err LDAPResultNoSuchObject then o0\<lparr>obs_Detail := err\<rparr>
            else probeHidden dsa h addr suffix))"

section \<open>Presence on the pods\<close>

record podPresence =
  pp_pod :: string
  pp_readOnly :: bool
  pp_assessed :: bool
  pp_present :: bool
  pp_glued :: bool

record probeTarget =
  pt_pod :: string
  pt_host :: string
  pt_readOnly :: bool

definition suffixProbeTargets :: "SlapdCluster \<Rightarrow> string \<Rightarrow> probeTarget list" where
  "suffixProbeTargets sc clusterDomain =
     (let replicas = (if spec_Replicas (sc_Spec sc) = 0 then 1 else spec_Replicas (sc_Spec sc)) in
      map (\<lambda>i. \<lparr>pt_pod = sc_Name sc @ ''-'' @ itoa i, pt_host = rwHost sc clusterDomain i, pt_readOnly = False\<rparr>) [0..replicas - 1] @
      map (\<lambda>i. \<lparr>pt_pod = sc_Name sc @ ''-readonly-'' @ itoa i, pt_host = roHost sc clusterDomain i, pt_readOnly = True\<rparr>)
        [0..spec_ReadReplicas (sc_Spec sc) - 1])"

definition databaseKnownPopulated :: "SlapdDatabase \<Rightarrow> bool" where
  "databaseKnownPopulated sd \<longleftrightarrow>
     sdst_SeedApplied (sd_Status sd) \<or> sdst_RestoreApplied (sd_Status sd) \<or> sdst_DataObserved (sd_Status sd)"

definition dataWasObserved :: "podPresence list \<Rightarrow> bool" where
  "dataWasObserved results = list_ex (\<lambda>r. pp_assessed r \<and> pp_present r) results"

abbreviation "reasonGlueSuffix \<equiv> ''GlueSuffix''"
abbreviation "reasonNoReachablePod \<equiv> ''NoReachablePod''"
abbreviation "reasonRootEntryVisible \<equiv> ''RootEntryVisible''"
abbreviation "reasonDataMissingOnReadOnlyPods \<equiv> ''DataMissingOnReadOnlyPods''"
abbreviation "reasonNoDataYet \<equiv> ''NoDataYet''"
abbreviation "reasonDataMissing \<equiv> ''DataMissing''"
abbreviation "reasonDataMissingOnPods \<equiv> ''DataMissingOnPods''"

text \<open>The loop's seven lists, and whether a read-only pod was probed.\<close>

record presence_lists =
  pl_present :: "string list"
  pl_presentRO :: "string list"
  pl_missing :: "string list"
  pl_missingRW :: "string list"
  pl_missingRO :: "string list"
  pl_unreached :: "string list"
  pl_glued :: "string list"
  pl_haveRO :: bool

definition sortPresence :: "podPresence \<Rightarrow> presence_lists \<Rightarrow> presence_lists" where
  "sortPresence r l0 =
     (let l = (if pp_readOnly r then l0\<lparr>pl_haveRO := True\<rparr> else l0); pod = [pp_pod r] in
      if \<not> pp_assessed r then l\<lparr>pl_unreached := pl_unreached l @ pod\<rparr>
      else if pp_glued r then l\<lparr>pl_glued := pl_glued l @ pod\<rparr>
      else if pp_present r
      then (let l = l\<lparr>pl_present := pl_present l @ pod\<rparr> in
            if pp_readOnly r then l\<lparr>pl_presentRO := pl_presentRO l @ pod\<rparr> else l)
      else (let l = l\<lparr>pl_missing := pl_missing l @ pod\<rparr> in
            if pp_readOnly r then l\<lparr>pl_missingRO := pl_missingRO l @ pod\<rparr> else l\<lparr>pl_missingRW := pl_missingRW l @ pod\<rparr>))"

definition no_presence :: presence_lists where
  "no_presence = \<lparr>pl_present = [], pl_presentRO = [], pl_missing = [], pl_missingRW = [], pl_missingRO = [],
     pl_unreached = [], pl_glued = [], pl_haveRO = False\<rparr>"

definition aggregateDataPresent :: "string \<Rightarrow> podPresence list \<Rightarrow> bool \<Rightarrow> ConditionStatus \<times> string \<times> message" where
  "aggregateDataPresent suffix results knownPopulated =
     (let l = fold sortPresence results no_presence;
          note = MStrs (pl_unreached l);
          scope = MStr (if pl_haveRO l then ''pod'' else ''RW pod'')
      in if pl_glued l \<noteq> []
         then (ConditionFalse, reasonGlueSuffix, Msg ''root entry is a hidden GLUE entry on'' [MStr suffix, MStrs (pl_glued l), note])
         else if pl_present l = [] \<and> pl_missing l = []
         then (ConditionUnknown, reasonNoReachablePod, Msg ''could not reach any pod to verify data presence'' [scope])
         else if pl_missing l = [] \<and> pl_presentRO l = []
         then (ConditionTrue, reasonRootEntryVisible,
           Msg ''root entry visible on all reached RW pods'' [MStr suffix, MInt (int (length (pl_present l))), note])
         else if pl_missing l = []
         then (ConditionTrue, reasonRootEntryVisible,
           Msg ''root entry visible on all reached RW pods and read-only pods''
             [MStr suffix, MInt (int (length (pl_present l)) - int (length (pl_presentRO l))), MInt (int (length (pl_presentRO l))), note])
         else if pl_missingRW l = [] \<and> pl_present l \<noteq> []
         then (ConditionFalse, reasonDataMissingOnReadOnlyPods,
           Msg ''root entry absent on read-only pods'' [MStr suffix, MStrs (pl_missingRO l), MStrs (pl_present l), note])
         else if pl_present l = [] \<and> \<not> knownPopulated
         then (ConditionUnknown, reasonNoDataYet, Msg ''root entry not present, never held data'' [MStr suffix, scope, note])
         else if pl_present l = []
         then (ConditionFalse, reasonDataMissing, Msg ''root entry not visible on any reachable'' [MStr suffix, scope, note])
         else (ConditionFalse, reasonDataMissingOnPods,
           Msg ''root entry hidden or absent on some pods'' [MStr suffix, MStrs (pl_missing l), MStrs (pl_present l), note]))"

definition probePod ::
  "ldap_srv \<Rightarrow> dsa_search \<Rightarrow> history \<Rightarrow> SlapdDatabase \<Rightarrow> string \<Rightarrow> probeTarget \<Rightarrow> podPresence" where
  "probePod srv dsa h sd rootPW t =
     (let addr = podAddr (pt_host t);
          unassessed = \<lparr>pp_pod = pt_pod t, pp_readOnly = pt_readOnly t, pp_assessed = False, pp_present = False, pp_glued = False\<rparr>
      in case srv_Dial srv h addr of
           Some _ \<Rightarrow> unassessed
         | None \<Rightarrow>
         case srv_Bind srv h addr (rootDNFor sd) rootPW of
           Some _ \<Rightarrow> unassessed
         | None \<Rightarrow>
             (let obs = Probe srv dsa h addr (sds_Suffix (sd_Spec sd)) in
              unassessed\<lparr>pp_assessed := Assessable obs, pp_present := Visible obs, pp_glued := Glue obs\<rparr>))"

definition evaluateDataPresent ::
  "ldap_srv \<Rightarrow> dsa_search \<Rightarrow> history \<Rightarrow> time \<Rightarrow> string \<Rightarrow> SlapdCluster \<Rightarrow> SlapdDatabase \<Rightarrow> string \<Rightarrow>
   Condition \<times> bool \<times> podPresence list" where
  "evaluateDataPresent srv dsa h now clusterDomain sc sd rootPW =
     (let results = map (probePod srv dsa h sd rootPW) (suffixProbeTargets sc clusterDomain);
          (status, reason, msg) = aggregateDataPresent (sds_Suffix (sd_Spec sd)) results (databaseKnownPopulated sd)
      in (\<lparr>cond_Type = ''DataPresent'', cond_Status = status, cond_Reason = reason, cond_Message = msg,
           cond_LastTransitionTime = now, cond_ObservedGeneration = sd_Generation sd\<rparr>, dataWasObserved results, results))"

text \<open>Step 10 of \<open>Reconcile\<close>: publish the condition, latch the observation.\<close>

definition dataPresentStep ::
  "ldap_srv \<Rightarrow> dsa_search \<Rightarrow> history \<Rightarrow> time \<Rightarrow> string \<Rightarrow> SlapdCluster \<Rightarrow> SlapdDatabase \<Rightarrow> string \<Rightarrow> SlapdDatabase" where
  "dataPresentStep srv dsa h now clusterDomain sc sd rootPW =
     (case evaluateDataPresent srv dsa h now clusterDomain sc sd rootPW of
        (cond, observed, probes) \<Rightarrow>
          (let sd1 = set_sd_Conditions (setCondition (sd_Conditions sd) cond) sd in
           if observed then sd1\<lparr>sd_Status := (sd_Status sd1)\<lparr>sdst_DataObserved := True\<rparr>\<rparr> else sd1))"

section \<open>The phase of a database\<close>

datatype SlapdDatabasePhase = DatabasePhasePending | DatabasePhaseRunning | DatabasePhaseDegraded | DatabasePhaseError

definition databasePhase ::
  "string list \<Rightarrow> string list \<Rightarrow> bool \<Rightarrow> ridSegmentVerdict option \<Rightarrow> SlapdDatabasePhase \<times> string \<times> message" where
  "databasePhase appliedPods failedPods pendingWork ridRefusal =
     (if appliedPods = []
      then (DatabasePhaseError, ''NoPodsReachable'', Msg ''Could not apply database to any pod'' [])
      else (case ridRefusal of
          Some v \<Rightarrow> (DatabasePhaseDegraded, v_Reason v, v_Message v)
        | None \<Rightarrow>
            if pendingWork
            then (DatabasePhaseDegraded, ''PartiallyApplied'',
              Msg ''Database applied to pods, failed or pending'' [MInt (int (length appliedPods)), MInt (int (length failedPods))])
            else (DatabasePhaseRunning, ''Applied'', Msg ''Database applied to pods'' [MInt (int (length appliedPods))])))"

definition databaseRequeueAfter :: "SlapdDatabasePhase \<Rightarrow> duration" where
  "databaseRequeueAfter phase = (if phase \<noteq> DatabasePhaseRunning then 10 * Second else 300 * Second)"

section \<open>The status of a pass\<close>

definition phaseString :: "SlapdDatabasePhase \<Rightarrow> string" where
  "phaseString phase = (case phase of DatabasePhasePending \<Rightarrow> ''Pending'' | DatabasePhaseRunning \<Rightarrow> ''Running''
     | DatabasePhaseDegraded \<Rightarrow> ''Degraded'' | DatabasePhaseError \<Rightarrow> ''Error'')"

text \<open>
  \<open>setStatus\<close>: the status of the pass is completed and applied as a whole to the stored object. Where the apply fails the error is logged
  and nothing else happens: \<open>stored\<close> stays what it was.
\<close>

definition setStatus ::
  "message option \<Rightarrow> SlapdDatabase \<Rightarrow> SlapdDatabase \<Rightarrow> time \<Rightarrow> SlapdDatabasePhase \<Rightarrow> string list \<Rightarrow> string list \<Rightarrow> string \<Rightarrow> message \<Rightarrow>
   SlapdDatabase" where
  "setStatus applyErr stored sd now phase appliedPods failedPods reason msg =
     (let condStatus = (if phase = DatabasePhaseRunning then ConditionTrue else ConditionFalse);
          status = (sd_Status sd)\<lparr>sdst_Phase := phaseString phase, sdst_AppliedToPods := sort appliedPods, sdst_FailedPods := sort failedPods,
            sdst_ObservedGeneration := sd_Generation sd,
            sdst_Conditions := setCondition (sd_Conditions sd) \<lparr>cond_Type = ''Ready'', cond_Status = condStatus, cond_Reason = reason,
              cond_Message = msg, cond_LastTransitionTime = now, cond_ObservedGeneration = sd_Generation sd\<rparr>\<rparr> in
      case applyErr of Some err \<Rightarrow> stored | None \<Rightarrow> stored\<lparr>sd_Status := status\<rparr>)"

text \<open>Steps 10 to 11 of \<open>Reconcile\<close>, on the object the steps before left; the conditions of 10b and 10c are those of other theories.\<close>

definition finishPass ::
  "message option \<Rightarrow> ldap_srv \<Rightarrow> dsa_search \<Rightarrow> history \<Rightarrow> time \<Rightarrow> string \<Rightarrow> SlapdCluster \<Rightarrow> SlapdDatabase \<Rightarrow> SlapdDatabase \<Rightarrow> string \<Rightarrow>
   Condition \<Rightarrow> Condition \<Rightarrow> string list \<Rightarrow> string list \<Rightarrow> bool \<Rightarrow> ridSegmentVerdict option \<Rightarrow> SlapdDatabase" where
  "finishPass applyErr srv dsa h now clusterDomain sc stored sd rootPW startup purge appliedPods failedPods pendingWork ridRefusal =
     (let sd1 = dataPresentStep srv dsa h now clusterDomain sc sd rootPW;
          sd2 = set_sd_Conditions (setCondition (setCondition (sd_Conditions sd1) startup) purge) sd1;
          (phase, reason, msg) = databasePhase appliedPods failedPods pendingWork ridRefusal in
      setStatus applyErr stored sd2 now phase appliedPods failedPods reason msg)"

section \<open>The verdict\<close>

abbreviation shows_entry :: "podPresence \<Rightarrow> bool" where
  "shows_entry r \<equiv> pp_assessed r \<and> \<not> pp_glued r \<and> pp_present r"

abbreviation hides_entry :: "podPresence \<Rightarrow> bool" where
  "hides_entry r \<equiv> pp_assessed r \<and> \<not> pp_glued r \<and> \<not> pp_present r"

text \<open>What the seven lists of the loop hold, as filters of the probes in their order.\<close>

definition names_of :: "(podPresence \<Rightarrow> bool) \<Rightarrow> podPresence list \<Rightarrow> string list" where
  "names_of P rs = map pp_pod (filter P rs)"

lemma names_of_Nil: "names_of P rs = [] \<longleftrightarrow> \<not> list_ex P rs"
  by (simp add: names_of_def filter_empty_conv list_ex_iff)

lemma names_of_step [simp]: "names_of P (r # rs) = (if P r then pp_pod r # names_of P rs else names_of P rs)"
  by (simp add: names_of_def)

lemma sortPresence_fold:
  "fold sortPresence rs l =
     \<lparr>pl_present = pl_present l @ names_of shows_entry rs,
      pl_presentRO = pl_presentRO l @ names_of (\<lambda>r. shows_entry r \<and> pp_readOnly r) rs,
      pl_missing = pl_missing l @ names_of hides_entry rs,
      pl_missingRW = pl_missingRW l @ names_of (\<lambda>r. hides_entry r \<and> \<not> pp_readOnly r) rs,
      pl_missingRO = pl_missingRO l @ names_of (\<lambda>r. hides_entry r \<and> pp_readOnly r) rs,
      pl_unreached = pl_unreached l @ names_of (\<lambda>r. \<not> pp_assessed r) rs,
      pl_glued = pl_glued l @ names_of (\<lambda>r. pp_assessed r \<and> pp_glued r) rs,
      pl_haveRO = (pl_haveRO l \<or> list_ex pp_readOnly rs)\<rparr>"
proof (induction rs arbitrary: l)
  case Nil
  then show ?case by (simp add: names_of_def)
next
  case (Cons r rs)
  show ?case
    unfolding fold_Cons comp_apply Cons.IH
    by (cases "pp_assessed r"; cases "pp_glued r"; cases "pp_present r"; cases "pp_readOnly r") (simp_all add: sortPresence_def Let_def)
qed

lemma lists_of_probes: "fold sortPresence rs no_presence =
     \<lparr>pl_present = names_of shows_entry rs,
      pl_presentRO = names_of (\<lambda>r. shows_entry r \<and> pp_readOnly r) rs,
      pl_missing = names_of hides_entry rs,
      pl_missingRW = names_of (\<lambda>r. hides_entry r \<and> \<not> pp_readOnly r) rs,
      pl_missingRO = names_of (\<lambda>r. hides_entry r \<and> pp_readOnly r) rs,
      pl_unreached = names_of (\<lambda>r. \<not> pp_assessed r) rs,
      pl_glued = names_of (\<lambda>r. pp_assessed r \<and> pp_glued r) rs,
      pl_haveRO = list_ex pp_readOnly rs\<rparr>"
  by (simp add: sortPresence_fold no_presence_def)

lemma aggregate_status:
  "fst (aggregateDataPresent suffix rs known) =
     (if list_ex (\<lambda>r. pp_assessed r \<and> pp_glued r) rs then ConditionFalse
      else if \<not> list_ex shows_entry rs \<and> \<not> list_ex hides_entry rs then ConditionUnknown
      else if \<not> list_ex hides_entry rs then ConditionTrue
      else if \<not> list_ex (\<lambda>r. hides_entry r \<and> \<not> pp_readOnly r) rs \<and> list_ex shows_entry rs then ConditionFalse
      else if \<not> list_ex shows_entry rs \<and> \<not> known then ConditionUnknown else ConditionFalse)"
  unfolding aggregateDataPresent_def lists_of_probes Let_def by (simp add: names_of_Nil)

lemma aggregate_reason:
  "fst (snd (aggregateDataPresent suffix rs known)) =
     (if list_ex (\<lambda>r. pp_assessed r \<and> pp_glued r) rs then reasonGlueSuffix
      else if \<not> list_ex shows_entry rs \<and> \<not> list_ex hides_entry rs then reasonNoReachablePod
      else if \<not> list_ex hides_entry rs then reasonRootEntryVisible
      else if \<not> list_ex (\<lambda>r. hides_entry r \<and> \<not> pp_readOnly r) rs \<and> list_ex shows_entry rs then reasonDataMissingOnReadOnlyPods
      else if \<not> list_ex shows_entry rs \<and> \<not> known then reasonNoDataYet
      else if \<not> list_ex shows_entry rs then reasonDataMissing else reasonDataMissingOnPods)"
  unfolding aggregateDataPresent_def lists_of_probes Let_def by (simp add: names_of_Nil)

text \<open>
  The verdict rests on evidence. True: some pod was assessed and every assessed pod shows the root
  entry. False: an assessed pod carries a glue entry, or an assessed pod does not show the entry while
  another does or data is known to have been there. A pod that was not assessed, and the order of the
  pods, change neither status nor reason; a writable pod that hides the entry is never reported as a
  read-only divergence.
\<close>

theorem data_present_exact:
  fixes rs :: "podPresence list"
  defines "A \<equiv> set (filter pp_assessed rs)"
  shows "(fst (aggregateDataPresent suffix rs known) = ConditionTrue \<longleftrightarrow>
      A \<noteq> {} \<and> A \<subseteq> {r. pp_present r \<and> \<not> pp_glued r}) \<and>
    (fst (aggregateDataPresent suffix rs known) = ConditionFalse \<longleftrightarrow>
      (\<exists>r \<in> A. pp_glued r) \<or> (\<exists>r \<in> A. \<not> pp_present r) \<and> ((\<exists>r \<in> A. pp_present r) \<or> known)) \<and>
    (fst (snd (aggregateDataPresent suffix rs known)) = reasonDataMissingOnReadOnlyPods \<longleftrightarrow>
      (\<nexists>r. r \<in> A \<and> pp_glued r) \<and> (\<exists>r \<in> A. pp_present r) \<and> (\<exists>r \<in> A. \<not> pp_present r) \<and>
      A \<inter> {r. \<not> pp_present r} \<subseteq> {r. pp_readOnly r}) \<and>
    (set (filter pp_assessed rs') = A \<longrightarrow>
      fst (aggregateDataPresent suffix' rs' known) = fst (aggregateDataPresent suffix rs known) \<and>
      fst (snd (aggregateDataPresent suffix' rs' known)) = fst (snd (aggregateDataPresent suffix rs known)))"
proof (intro conjI impI)
  have ex: "list_ex (\<lambda>r. pp_assessed r \<and> P r) xs \<longleftrightarrow> (\<exists>r \<in> set (filter pp_assessed xs). P r)" for P xs
    by (auto simp: list_ex_iff)
  have shape: "list_ex shows_entry xs \<longleftrightarrow> (\<exists>r \<in> set (filter pp_assessed xs). \<not> pp_glued r \<and> pp_present r)"
    "list_ex hides_entry xs \<longleftrightarrow> (\<exists>r \<in> set (filter pp_assessed xs). \<not> pp_glued r \<and> \<not> pp_present r)"
    "list_ex (\<lambda>r. hides_entry r \<and> \<not> pp_readOnly r) xs \<longleftrightarrow>
       (\<exists>r \<in> set (filter pp_assessed xs). \<not> pp_glued r \<and> \<not> pp_present r \<and> \<not> pp_readOnly r)" for xs
    by (auto simp: list_ex_iff)
  note S = aggregate_status [unfolded ex shape] and R = aggregate_reason [unfolded ex shape]
  show "fst (aggregateDataPresent suffix rs known) = ConditionTrue \<longleftrightarrow>
      A \<noteq> {} \<and> A \<subseteq> {r. pp_present r \<and> \<not> pp_glued r}" unfolding S A_def [symmetric] by auto
  show "fst (aggregateDataPresent suffix rs known) = ConditionFalse \<longleftrightarrow>
      (\<exists>r \<in> A. pp_glued r) \<or> (\<exists>r \<in> A. \<not> pp_present r) \<and> ((\<exists>r \<in> A. pp_present r) \<or> known)"
    unfolding S A_def [symmetric] by auto
  show "fst (snd (aggregateDataPresent suffix rs known)) = reasonDataMissingOnReadOnlyPods \<longleftrightarrow>
      (\<nexists>r. r \<in> A \<and> pp_glued r) \<and> (\<exists>r \<in> A. pp_present r) \<and> (\<exists>r \<in> A. \<not> pp_present r) \<and>
      A \<inter> {r. \<not> pp_present r} \<subseteq> {r. pp_readOnly r}" unfolding R A_def [symmetric] by auto
  assume A: "set (filter pp_assessed rs') = A"
  show "fst (aggregateDataPresent suffix' rs' known) = fst (aggregateDataPresent suffix rs known)"
    "fst (snd (aggregateDataPresent suffix' rs' known)) = fst (snd (aggregateDataPresent suffix rs known))"
    unfolding S R A A_def [symmetric] by (rule refl)+
qed

theorem data_present_exact_witness:
  "let glued = \<lparr>pp_pod = ''p-0'', pp_readOnly = False, pp_assessed = True, pp_present = False, pp_glued = True\<rparr>;
       unread = \<lparr>pp_pod = ''p-1'', pp_readOnly = False, pp_assessed = False, pp_present = False, pp_glued = False\<rparr>
   in fst (aggregateDataPresent ''dc=x'' [unread, glued] False) = ConditionFalse \<and>
      fst (aggregateDataPresent ''dc=x'' [glued] False) = ConditionFalse"
proof -
  let ?g = "\<lparr>pp_pod = ''p-0'', pp_readOnly = False, pp_assessed = True, pp_present = False, pp_glued = True\<rparr>"
  let ?u = "\<lparr>pp_pod = ''p-1'', pp_readOnly = False, pp_assessed = False, pp_present = False, pp_glued = False\<rparr>"
  have "set (filter pp_assessed [?g]) = set (filter pp_assessed [?u, ?g])" by simp
  with data_present_exact [of "''dc=x''" "[?u, ?g]" False "[?g]" "''dc=x''"] show ?thesis by simp
qed

section \<open>Loss is told from absence\<close>

text \<open>
  The stored object of one database over time, with the passes that got as far as step 10: what each one probed, and the object it left
  where its status was stored. A pass reads the object as it is stored - its reads are current - and its earlier steps, like everyone
  else's edits, may change anything but the observation latch, which only step 10 assigns. The clocks, the pods' answers and the cluster
  are different in each. A pass may end at one of the early \<open>setStatus\<close> calls, or with an error before any of them, and any apply may fail.
\<close>

definition same_latch :: "SlapdDatabase \<Rightarrow> SlapdDatabase \<Rightarrow> bool" where
  "same_latch sd sd' \<longleftrightarrow> sdst_DataObserved (sd_Status sd') = sdst_DataObserved (sd_Status sd)"

inductive observing :: "SlapdDatabase \<Rightarrow> (podPresence list \<times> SlapdDatabase option) list \<Rightarrow> bool" where
  start: "observing sd []"
| edit: "observing sd log \<Longrightarrow> same_latch sd sd' \<Longrightarrow> observing sd' log"
| early: "observing sd log \<Longrightarrow> same_latch sd sd1 \<Longrightarrow> observing (setStatus err sd sd1 now phase applied failed reason msg) log"
| pass: "observing sd log \<Longrightarrow> same_latch sd sd1 \<Longrightarrow>
    evaluateDataPresent srv dsa h now dm sc sd1 pw = (cond, observed, probes) \<Longrightarrow>
    cond_Type startup \<noteq> ''DataPresent'' \<Longrightarrow> cond_Type purge \<noteq> ''DataPresent'' \<Longrightarrow>
    finishPass err srv dsa h now dm sc sd sd1 pw startup purge applied failed pending refusal = sd' \<Longrightarrow>
    observing sd' (log @ [(probes, if err = None then Some sd' else None)])"

lemma dataPresentStep_latch:
  assumes "evaluateDataPresent srv dsa h now dm sc sd pw = (cond, observed, probes)"
  shows "sdst_DataObserved (sd_Status (dataPresentStep srv dsa h now dm sc sd pw)) \<longleftrightarrow> sdst_DataObserved (sd_Status sd) \<or> observed"
    and "observed = dataWasObserved probes"
    and "sd_Conditions (dataPresentStep srv dsa h now dm sc sd pw) = setCondition (sd_Conditions sd) cond"
    and "cond_Type cond = ''DataPresent''"
    and "cond_Status cond = fst (aggregateDataPresent (sds_Suffix (sd_Spec sd)) probes (databaseKnownPopulated sd))"
    and "cond_Reason cond = fst (snd (aggregateDataPresent (sds_Suffix (sd_Spec sd)) probes (databaseKnownPopulated sd)))"
  using assms
  by (auto simp: dataPresentStep_def evaluateDataPresent_def set_sd_Conditions_def Let_def split: prod.splits)

lemma setStatus_latch [simp]:
  "sdst_DataObserved (sd_Status (setStatus err stored sd now phase applied failed reason msg)) =
     sdst_DataObserved (sd_Status (if err = None then sd else stored))"
  by (simp add: setStatus_def Let_def split: option.splits)

text \<open>What a pass leaves in the stored object.\<close>

lemma finishPass_stored:
  assumes "evaluateDataPresent srv dsa h now dm sc sd1 pw = (cond, observed, probes)"
    and "finishPass err srv dsa h now dm sc sd sd1 pw startup purge applied failed pending refusal = sd'"
    and "cond_Type startup \<noteq> ''DataPresent''" and "cond_Type purge \<noteq> ''DataPresent''"
  shows "sdst_DataObserved (sd_Status sd') \<longleftrightarrow>
      (if err = None then sdst_DataObserved (sd_Status sd1) \<or> dataWasObserved probes else sdst_DataObserved (sd_Status sd))"
    and "err = None \<Longrightarrow> \<exists>c. condition_of (sd_Conditions sd') ''DataPresent'' = Some c \<and>
      cond_Status c = cond_Status cond \<and> cond_Reason c = cond_Reason cond"
proof -
  note l = dataPresentStep_latch [OF assms(1)]
  obtain phase reason msg where p: "databasePhase applied failed pending refusal = (phase, reason, msg)" using prod_cases3 by blast
  let ?sd1 = "dataPresentStep srv dsa h now dm sc sd1 pw"
  let ?sd2 = "set_sd_Conditions (setCondition (setCondition (sd_Conditions ?sd1) startup) purge) ?sd1"
  have sd': "sd' = setStatus err sd ?sd2 now phase applied failed reason msg"
    using assms(2) p by (simp add: finishPass_def Let_def)
  show "sdst_DataObserved (sd_Status sd') \<longleftrightarrow>
      (if err = None then sdst_DataObserved (sd_Status sd1) \<or> dataWasObserved probes else sdst_DataObserved (sd_Status sd))"
    unfolding sd' using l(1,2) by (simp add: set_sd_Conditions_def)
  assume "err = None"
  then have "sd_Conditions sd' = setCondition (setCondition (setCondition (setCondition (sd_Conditions sd1) cond) startup) purge)
      \<lparr>cond_Type = ''Ready'', cond_Status = (if phase = DatabasePhaseRunning then ConditionTrue else ConditionFalse), cond_Reason = reason,
       cond_Message = msg, cond_LastTransitionTime = now, cond_ObservedGeneration = sd_Generation ?sd2\<rparr>"
    unfolding sd' setStatus_def Let_def using l(3) by (simp add: set_sd_Conditions_def)
  then show "\<exists>c. condition_of (sd_Conditions sd') ''DataPresent'' = Some c \<and> cond_Status c = cond_Status cond \<and> cond_Reason c = cond_Reason cond"
    using assms(3,4) l(4) by (auto split: option.splits)
qed

text \<open>The observation of a pass whose status was stored stays.\<close>

lemma observing_latched:
  "observing sd log \<Longrightarrow> list_ex (\<lambda>(probes, out). dataWasObserved probes \<and> out \<noteq> None) log \<Longrightarrow> sdst_DataObserved (sd_Status sd)"
proof (induction rule: observing.induct)
  case (early sd log sd1 err now phase applied failed reason msg)
  then show ?case by (simp add: same_latch_def)
next
  case (pass sd log sd1 srv dsa h now dm sc pw cond observed probes startup purge err applied failed pending refusal sd')
  note f = finishPass_stored(1) [OF pass.hyps(3,6,4,5)]
  show ?case using f pass.hyps(2) pass.IH pass.prems by (auto simp: same_latch_def split: if_splits)
qed (simp_all add: same_latch_def)

text \<open>
  C25. Data that was seen once is missed: after a pass that found the root entry on some pod and whose status was stored, whatever
  passes, failed or lost status writes and edits follow, any later pass that assesses a pod, finds the entry nowhere and stores its
  status publishes DataPresent as False - DataMissing, or GlueSuffix where a glue entry was identified - and never as a database still
  waiting for its data. A pass whose status was lost latches nothing.
\<close>

theorem loss_is_alarmed:
  assumes "observing sd (before @ (probes, Some sd') # after)"
    and "list_ex (\<lambda>(ps, out). dataWasObserved ps \<and> out \<noteq> None) before"
    and "list_ex pp_assessed probes" and "\<not> dataWasObserved probes"
  shows "\<exists>c. condition_of (sd_Conditions sd') ''DataPresent'' = Some c \<and> cond_Status c = ConditionFalse \<and>
    cond_Reason c = (if list_ex (\<lambda>r. pp_assessed r \<and> pp_glued r) probes then reasonGlueSuffix else reasonDataMissing)"
  using assms(1)
proof (induction sd "before @ (probes, Some sd') # after" arbitrary: after rule: observing.induct)
  case (pass sd log sd1 srv dsa h now dm sc pw cond observed ps startup purge err applied failed pending refusal sd2)
  show ?case
  proof (cases after rule: rev_cases)
    case Nil
    then have log: "log = before" "ps = probes" and out: "err = None" "sd2 = sd'" using pass.hyps(8) by (auto split: if_splits)
    have "sdst_DataObserved (sd_Status sd)" using observing_latched [OF pass.hyps(1)] assms(2) log by simp
    then have known: "databaseKnownPopulated sd1" using pass.hyps(3) by (simp add: same_latch_def databaseKnownPopulated_def)
    have hid: "list_ex hides_entry probes \<or> list_ex (\<lambda>r. pp_assessed r \<and> pp_glued r) probes" "\<not> list_ex shows_entry probes"
      using assms(3,4) by (auto simp: dataWasObserved_def list_ex_iff)
    have "cond_Status cond = ConditionFalse \<and>
        cond_Reason cond = (if list_ex (\<lambda>r. pp_assessed r \<and> pp_glued r) probes then reasonGlueSuffix else reasonDataMissing)"
      using dataPresentStep_latch(5,6) [OF pass.hyps(4)] hid known unfolding log aggregate_status aggregate_reason by auto
    then show ?thesis using finishPass_stored(2) [OF pass.hyps(4,7,5,6) out(1)] unfolding out(2) by auto
  next
    case (snoc xs x)
    then show ?thesis using pass by simp
  qed
qed simp_all

definition example_condition :: Condition where
  "example_condition = \<lparr>cond_Type = ''StartupConfigConverged'', cond_Status = ConditionTrue, cond_Reason = [], cond_Message = noMsg,
     cond_LastTransitionTime = 0, cond_ObservedGeneration = 1\<rparr>"

definition example_server :: "bool \<Rightarrow> ldap_srv" where
  "example_server there = tree_srv\<lparr>srv_Read := (\<lambda>_ _ _. if there then Inr [\<lambda>_. []] else Inl (ldapError LDAPResultNoSuchObject []))\<rparr>"

definition example_probes :: "bool \<Rightarrow> SlapdDatabase \<Rightarrow> Condition \<times> bool \<times> podPresence list" where
  "example_probes there sd = evaluateDataPresent (example_server there) (\<lambda>_ _ _. Inr []) [] 0 ''l'' (example_cluster 1 []) sd []"

definition example_observation :: "message option \<Rightarrow> bool \<Rightarrow> SlapdDatabase \<Rightarrow> SlapdDatabase" where
  "example_observation err there sd =
     finishPass err (example_server there) (\<lambda>_ _ _. Inr []) [] 0 ''l'' (example_cluster 1 []) sd sd [] example_condition
       (example_condition\<lparr>cond_Type := ''AccesslogPurgeConverged''\<rparr>) [] [] False None"

lemma example_observing:
  assumes "observing sd log"
  shows "observing (example_observation err b sd)
     (log @ [(snd (snd (example_probes b sd)), if err = None then Some (example_observation err b sd) else None)])"
proof -
  obtain c ob ps where e: "example_probes b sd = (c, ob, ps)" using prod_cases3 by blast
  have l: "same_latch sd sd" by (simp add: same_latch_def)
  have t: "cond_Type example_condition \<noteq> ''DataPresent''"
    "cond_Type (example_condition\<lparr>cond_Type := ''AccesslogPurgeConverged''\<rparr>) \<noteq> ''DataPresent''"
    by (simp_all add: example_condition_def)
  show ?thesis unfolding example_observation_def e snd_conv
    by (rule observing.pass [OF assms l e [unfolded example_probes_def] t refl])
qed

lemmas example_unfold = example_probes_def example_server_def evaluateDataPresent_def suffixProbeTargets_def probePod_def Probe_def
  probeHidden_def Assessable_def Visible_def Glue_def tree_srv_def ldapError_def IsErrorWithCode_def dataWasObserved_def
  example_cluster_def base_cluster_def upto.simps Let_def list_ex_iff

lemma example_seen: "dataWasObserved (snd (snd (example_probes True (base_database ''d'' None))))"
  by (auto simp: example_unfold base_database_def split: prod.splits)

lemma example_suffix: "sds_Suffix (sd_Spec (example_observation err b sd)) = sds_Suffix (sd_Spec sd)"
  by (simp add: example_observation_def finishPass_def setStatus_def Let_def split: prod.splits option.splits)

lemma example_gone:
  assumes "sds_Suffix (sd_Spec sd) \<noteq> []"
  shows "list_ex pp_assessed (snd (snd (example_probes False sd)))" "\<not> dataWasObserved (snd (snd (example_probes False sd)))"
    "\<not> list_ex (\<lambda>r. pp_assessed r \<and> pp_glued r) (snd (snd (example_probes False sd)))"
  using assms by (auto simp: example_unfold split: prod.splits)

text \<open>The entry is seen; a pass that no longer finds it loses its status; the next one stores it.\<close>

theorem loss_is_alarmed_witness:
  "let first = example_observation None True (base_database ''d'' None);
       lost = example_observation (Some noMsg) False first; later = example_observation None False lost in
   lost = first \<and> (\<exists>c. condition_of (sd_Conditions later) ''DataPresent'' = Some c \<and>
     cond_Status c = ConditionFalse \<and> cond_Reason c = reasonDataMissing)"
proof -
  let ?a = "example_observation None True (base_database ''d'' None)"
  let ?b = "example_observation (Some noMsg) False ?a"
  let ?c = "example_observation None False ?b"
  have lost: "?b = ?a" by (simp add: example_observation_def finishPass_def setStatus_def Let_def split: prod.splits)
  let ?before = "[(snd (snd (example_probes True (base_database ''d'' None))), Some ?a), (snd (snd (example_probes False ?a)), None)]"
  have "observing ?b ?before"
    using example_observing [OF example_observing [OF observing.start], of "Some noMsg" False None True "base_database ''d'' None"] by simp
  from example_observing [OF this, of None False]
  have o: "observing ?c (?before @ (snd (snd (example_probes False ?b)), Some ?c) # [])" by simp
  have "sds_Suffix (sd_Spec ?b) \<noteq> []" by (simp add: example_suffix base_database_def)
  note gone = example_gone [OF this]
  have "list_ex (\<lambda>(ps, out). dataWasObserved ps \<and> out \<noteq> None) ?before" using example_seen by simp
  from loss_is_alarmed [OF o this gone(1,2)] gone(3) lost show ?thesis by (simp add: Let_def)
qed

end
