(* ===== verification/Overlay.thy ===== *)
theory Overlay
  imports Config_Settle Seed
begin

text \<open>
  The overlay entries below a database in cn=config: their listing (\<open>dataDBOverlays\<close>) and the tunables that are
  single-valued strings (\<open>planOverlayAttr\<close>, \<open>ensureOverlayAttr\<close> and the two checkpoints, all of
  \<open>slapddatabase_controller.go\<close>). The one-level search with an objectClass filter is an answer of the servers:
  the DNs and attributes of the entries found.
\<close>

type_synonym entry = "string \<Rightarrow> string list"

type_synonym overlay_search = "history \<Rightarrow> string \<Rightarrow> string \<Rightarrow> string \<Rightarrow> message + (string \<times> entry) list"

abbreviation "LDAPResultNoSuchAttribute \<equiv> (16 :: int)"

text \<open>The text of an error: its parts, in order.\<close>

fun errText :: "message \<Rightarrow> string" and argText :: "msg_arg \<Rightarrow> string" where
  "errText (Msg f args) = f @ concat (map argText args)"
| "argText (MStr s) = s"
| "argText (MInt n) = itoa n"
| "argText (MStrs ss) = join '', '' ss"
| "argText (MMsg m) = errText m"

definition dataDBOverlays :: "overlay_search \<Rightarrow> history \<Rightarrow> string \<Rightarrow> string \<Rightarrow> message + bool \<times> bool" where
  "dataDBOverlays ovs h addr dataDN =
     (case ovs h addr dataDN ''olcOverlayConfig'' of
        Inl e \<Rightarrow> Inl (Msg ''search overlays under'' [MStr dataDN, MMsg e])
      | Inr entries \<Rightarrow>
          (let names = concat (map (\<lambda>(dn, e). map stripOrderingPrefix (e ''olcOverlay'')) entries) in
           Inr (''accesslog'' \<in> set names, ''syncprov'' \<in> set names)))"

definition normalizeOverlayAttrValue :: "string \<Rightarrow> string" where
  "normalizeOverlayAttrValue v = join '' '' (str_fields v)"

datatype overlayAttrAction = overlayAttrNoop | overlayAttrSet | overlayAttrRemove

definition planOverlayAttr :: "string list \<Rightarrow> string \<Rightarrow> overlayAttrAction \<times> string" where
  "planOverlayAttr current want0 =
     (let want = normalizeOverlayAttrValue want0;
          live = filter (\<lambda>n. n \<noteq> []) (map normalizeOverlayAttrValue current)
      in if want = [] then (if live = [] then (overlayAttrNoop, []) else (overlayAttrRemove, []))
         else if length live = 1 \<and> hd live = want then (overlayAttrNoop, [])
         else (overlayAttrSet, want))"

definition ensureOverlayAttr :: "ldap_srv \<Rightarrow> string \<Rightarrow> string \<Rightarrow> string \<Rightarrow> string list \<Rightarrow> string \<Rightarrow> step" where
  "ensureOverlayAttr srv addr overlayDN attr current want h =
     (case planOverlayAttr current want of
        (overlayAttrNoop, v) \<Rightarrow> (None, h)
      | (overlayAttrSet, v) \<Rightarrow> wrapErr ''set overlay attribute'' [MStr attr, MStr overlayDN] (modify1 srv addr overlayDN OpReplace attr [v]) h
      | (overlayAttrRemove, v) \<Rightarrow>
          (case modify1 srv addr overlayDN OpDelete attr [] h of
             (Some e, h') \<Rightarrow> if IsErrorWithCode e LDAPResultNoSuchAttribute then (None, h')
               else (Some (Msg ''set overlay attribute'' [MStr attr, MStr overlayDN, MMsg e]), h')
           | (None, h') \<Rightarrow> (None, h')))"

abbreviation "noneSentinel \<equiv> ''none''"

definition desiredSyncprovCheckpoint :: "SlapdDatabase \<Rightarrow> string" where
  "desiredSyncprovCheckpoint sd =
     (let v = trim_space (dbr_SyncprovCheckpoint (sds_Replication (sd_Spec sd))) in
      if equal_fold v noneSentinel then [] else v)"

definition desiredAccesslogSyncprovCheckpoint :: "SlapdDatabase \<Rightarrow> string" where
  "desiredAccesslogSyncprovCheckpoint sd =
     (let v = trim_space (dbr_AccesslogSyncprovCheckpoint (sds_Replication (sd_Spec sd))) in
      if equal_fold v noneSentinel then [] else if v = [] then ''1 1'' else v)"

section \<open>A planned write settles\<close>

text \<open>The values an attribute has after requests that the server took.\<close>

definition after_requests :: "string \<Rightarrow> string list \<Rightarrow> history \<Rightarrow> string list" where
  "after_requests attr vals reqs = foldl (\<lambda>v q. foldl (change attr) v (req_Changes q)) vals reqs"

lemma after_requests_Nil [simp]: "after_requests attr vals [] = vals"
  by (simp add: after_requests_def)

lemma after_requests_one [simp]: "after_requests attr vals [ModifyReq a dn [c]] = change attr vals c"
  by (simp add: after_requests_def)

lemma normalize_idem [simp]: "normalizeOverlayAttrValue (normalizeOverlayAttrValue v) = normalizeOverlayAttrValue v"
  by (simp add: normalizeOverlayAttrValue_def fields_idem)

definition overlay_ok :: "string \<Rightarrow> string list \<Rightarrow> bool" where
  "overlay_ok want current \<longleftrightarrow>
     filter (\<lambda>n. n \<noteq> []) (map normalizeOverlayAttrValue current) =
       (if normalizeOverlayAttrValue want = [] then [] else [normalizeOverlayAttrValue want])"

lemma only_element: "length xs = 1 \<and> hd xs = x \<longleftrightarrow> xs = [x]"
  by (cases xs) auto

lemma plan_cases:
  "planOverlayAttr current want =
     (if overlay_ok want current then (overlayAttrNoop, [])
      else if normalizeOverlayAttrValue want = [] then (overlayAttrRemove, []) else (overlayAttrSet, normalizeOverlayAttrValue want))"
  unfolding planOverlayAttr_def overlay_ok_def Let_def only_element by (simp del: filter_map)

text \<open>
  What \<open>ensureOverlayAttr\<close> does: at most one request, to the one attribute of the one entry; none where
  the value is right; after a request the server took, the value is right.
\<close>

lemma ensureOverlayAttr_spec:
  assumes "\<not> denied attr" and "\<And>vals. stored attr vals = vals"
  obtains (noop) "overlay_ok want current" "ensureOverlayAttr srv addr dn attr current want h = (None, h)"
  | (sent) op vals where "\<not> overlay_ok want current"
      "snd (ensureOverlayAttr srv addr dn attr current want h) = h @ [ModifyReq addr dn [(op, attr, vals)]]"
      "overlay_ok want (change attr current (op, attr, vals))"
      "srv_Write srv h (ModifyReq addr dn [(op, attr, vals)]) = None \<Longrightarrow> fst (ensureOverlayAttr srv addr dn attr current want h) = None"
proof (cases "overlay_ok want current")
  case True
  then show thesis using noop by (simp add: ensureOverlayAttr_def plan_cases)
next
  case False
  have d: "startupOnlyAttrViolation [attr] = []" using assms(1) unfolding violation_Nil_iff by simp
  have g: "guardedModify srv h addr dn [(op, attr, vals)] =
      (srv_Write srv h (ModifyReq addr dn [(op, attr, vals)]), h @ [ModifyReq addr dn [(op, attr, vals)]])" for op vals
    using d by (simp add: guardedModify_def send_def)
  show thesis
  proof (cases "normalizeOverlayAttrValue want = []")
    case True
    show thesis using sent [of OpDelete "[]"] False True g
      by (auto simp: ensureOverlayAttr_def plan_cases overlay_ok_def split: option.splits)
  next
    case nz: False
    show thesis using sent [of OpReplace "[normalizeOverlayAttrValue want]"] False nz g assms(2)
      by (auto simp: ensureOverlayAttr_def plan_cases overlay_ok_def wrapErr_def split: option.splits)
  qed
qed

end
