(* ===== verification/Sessionlog.thy ===== *)
theory Sessionlog
  imports Overlay "HOL-Library.Product_Lexorder"
begin

text \<open>
  The syncprov session log of a database and its handover between memory and the change journal: of
  \<open>slapddatabase_controller.go\<close> \<open>desiredSessionlog\<close>, \<open>planSessionlog\<close> and the three \<open>ensureSyncprov\<close> operations;
  \<open>startup_config_converged.go\<close>; and the table of \<open>startup_config.go\<close> that a pod reads when it starts.
\<close>

section \<open>What is wanted\<close>

definition defaultSyncprovSessionlogOps :: int32 where
  "defaultSyncprovSessionlogOps = 5000"

datatype sessionlogKind = sessionlogKindNone | sessionlogKindInMemory | sessionlogKindAccesslog

record sessionlogDecision =
  sl_Kind :: sessionlogKind
  sl_Ops :: int32
  sl_SourceDN :: string

definition desiredSessionlog :: "SlapdDatabase \<Rightarrow> sessionlogDecision" where
  "desiredSessionlog sd =
     (let src = dbr_SyncprovSessionlogSource (sds_Replication (sd_Spec sd));
          accesslog = \<lparr>sl_Kind = sessionlogKindAccesslog, sl_Ops = 0, sl_SourceDN = AccesslogSuffix (sd_Name sd)\<rparr>
      in if src = ''Accesslog'' then accesslog
         else (let ops = (case dbr_SyncprovSessionlog (sds_Replication (sd_Spec sd)) of
                   None \<Rightarrow> defaultSyncprovSessionlogOps | Some n \<Rightarrow> n)
               in if ops \<le> 0 then \<lparr>sl_Kind = sessionlogKindNone, sl_Ops = 0, sl_SourceDN = []\<rparr>
                  else if src = ''InMemory'' then \<lparr>sl_Kind = sessionlogKindInMemory, sl_Ops = ops, sl_SourceDN = []\<rparr>
                  else accesslog))"

definition inMemoryOps :: "sessionlogDecision \<Rightarrow> int32 \<times> bool" where
  "inMemoryOps d = (sl_Ops d, sl_Kind d = sessionlogKindInMemory)"

definition overlayCreationSessionlog :: "sessionlogDecision \<Rightarrow> int32 \<times> bool" where
  "overlayCreationSessionlog d =
     (if sl_Kind d = sessionlogKindAccesslog then (defaultSyncprovSessionlogOps, True) else inMemoryOps d)"

definition anyNonBlank :: "string list \<Rightarrow> bool" where
  "anyNonBlank values = list_ex (\<lambda>v. trim_space v \<noteq> []) values"

datatype sessionlogAction = sessionlogNoop | sessionlogSet | sessionlogRemove | sessionlogLeave

definition planSessionlog :: "string list \<Rightarrow> sessionlogDecision \<Rightarrow> bool \<Rightarrow> sessionlogAction \<times> string" where
  "planSessionlog current decision sourceLive =
     (if sl_Kind decision = sessionlogKindAccesslog
      then (if \<not> sourceLive then (sessionlogLeave, [])
            else if current = [] then (sessionlogNoop, []) else (sessionlogRemove, []))
      else if sourceLive then (sessionlogLeave, [])
      else (case inMemoryOps decision of (ops, enabled) \<Rightarrow>
          if \<not> enabled then (if current = [] then (sessionlogNoop, []) else (sessionlogRemove, []))
          else if length current = 1 \<and> parse_int 10 64 (trim_space (hd current)) = Some ops then (sessionlogNoop, [])
          else (sessionlogSet, itoa ops)))"

section \<open>The pod's startup-only values\<close>

record startupAttrDivergence =
  sad_Attribute :: string
  sad_Want :: string
  sad_Got :: string

record startupConfigObservation =
  sco_pod :: string
  sco_assessed :: bool
  sco_diverged :: "startupAttrDivergence list"

definition compareStartupAttr :: "string \<Rightarrow> string \<Rightarrow> string list \<Rightarrow> startupAttrDivergence option" where
  "compareStartupAttr attr want live =
     (if length live > 1 then Some \<lparr>sad_Attribute = attr, sad_Want = want, sad_Got = join '' | '' live\<rparr>
      else (let got = (case live of [] \<Rightarrow> [] | v # vs \<Rightarrow> trim_space v) in
            if equal_fold got (trim_space want) then None
            else Some \<lparr>sad_Attribute = attr, sad_Want = want, sad_Got = got\<rparr>))"

definition declaresStartupOnlyAttributes :: "SlapdDatabase \<Rightarrow> bool" where
  "declaresStartupOnlyAttributes sd \<longleftrightarrow> sl_Kind (desiredSessionlog sd) = sessionlogKindAccesslog"

definition observeStartupConfig ::
  "startupConfigObservation option \<Rightarrow> sessionlogDecision \<Rightarrow> string list \<Rightarrow> startupConfigObservation option" where
  "observeStartupConfig obs decision live =
     (case obs of
        None \<Rightarrow> None
      | Some o0 \<Rightarrow>
          (let o1 = o0\<lparr>sco_assessed := True\<rparr>;
               want = (if sl_Kind decision = sessionlogKindAccesslog then sl_SourceDN decision else [])
           in case compareStartupAttr startupAttrSessionlogSource want live of
                None \<Rightarrow> Some o1
              | Some d \<Rightarrow> Some (o1\<lparr>sco_diverged := sco_diverged o1 @ [d]\<rparr>)))"

definition quoteOrNone :: "string \<Rightarrow> msg_arg" where
  "quoteOrNone v = (if v = [] then MStr ''<absent>'' else MMsg (Msg ''quoted'' [MStr v]))"

definition divergenceDetails :: "startupConfigObservation list \<Rightarrow> msg_arg list" where
  "divergenceDetails results =
     concat (map (\<lambda>r. map (\<lambda>d. MMsg (Msg ''live, declared'' [MStr (sco_pod r), MStr (sad_Attribute d), quoteOrNone (sad_Got d), quoteOrNone (sad_Want d)]))
       (sco_diverged r)) (filter sco_assessed results))"

definition aggregateStartupConfigConverged ::
  "bool \<Rightarrow> startupConfigObservation list \<Rightarrow> ConditionStatus \<times> string \<times> message" where
  "aggregateStartupConfigConverged declared results =
     (let assessed = map sco_pod (filter sco_assessed results);
          unread = MStrs (map sco_pod (filter (\<lambda>r. \<not> sco_assessed r) results));
          details = divergenceDetails results;
          count = MInt (int (length assessed))
      in if details \<noteq> [] then (ConditionFalse, ''RestartRequired'', Msg ''the running cn=config differs'' (details @ [unread]))
         else if \<not> declared \<and> assessed = []
         then (ConditionTrue, ''NoStartupOnlyAttributes'', Msg ''declares no startup-only configuration'' [])
         else if \<not> declared
         then (ConditionTrue, ''NoStartupOnlyAttributes'', Msg ''declares no startup-only configuration, none is present'' [count, unread])
         else if assessed = []
         then (ConditionUnknown, ''NoReachablePod'', Msg ''could not read the syncprov overlay on any pod'' [unread])
         else (ConditionTrue, ''Converged'', Msg ''the declared startup-only configuration is in place'' [count, unread]))"

definition startupConfigConvergedFor :: "time \<Rightarrow> SlapdDatabase \<Rightarrow> startupConfigObservation list \<Rightarrow> Condition" where
  "startupConfigConvergedFor now sd results =
     (case aggregateStartupConfigConverged (declaresStartupOnlyAttributes sd) results of (status, reason, msg) \<Rightarrow>
        \<lparr>cond_Type = ''StartupConfigConverged'', cond_Status = status, cond_Reason = reason, cond_Message = msg,
         cond_LastTransitionTime = now, cond_ObservedGeneration = sd_Generation sd\<rparr>)"

section \<open>The overlay on one pod\<close>

definition ensureSyncprovSessionlog :: "ldap_srv \<Rightarrow> string \<Rightarrow> string \<Rightarrow> string list \<Rightarrow> sessionlogDecision \<Rightarrow> bool \<Rightarrow> step" where
  "ensureSyncprovSessionlog srv addr overlayDN current decision sourceLive h =
     (case planSessionlog current decision sourceLive of
        (sessionlogNoop, v) \<Rightarrow> (None, h)
      | (sessionlogLeave, v) \<Rightarrow> (None, h)
      | (sessionlogSet, v) \<Rightarrow> wrapErr ''set olcSpSessionlog'' [MStr overlayDN] (modify1 srv addr overlayDN OpReplace ''olcSpSessionlog'' [v]) h
      | (sessionlogRemove, v) \<Rightarrow>
          (case modify1 srv addr overlayDN OpDelete ''olcSpSessionlog'' [] h of
             (Some e, h') \<Rightarrow> if IsErrorWithCode e LDAPResultNoSuchAttribute then (None, h')
               else (Some (Msg ''set olcSpSessionlog'' [MStr overlayDN, MMsg e]), h')
           | (None, h') \<Rightarrow> (None, h')))"

definition ensureSyncprovTunables ::
  "ldap_srv \<Rightarrow> overlay_search \<Rightarrow> string \<Rightarrow> string \<Rightarrow> string \<Rightarrow> sessionlogDecision \<Rightarrow> startupConfigObservation option \<Rightarrow>
   history \<Rightarrow> (message option \<times> history) \<times> startupConfigObservation option" where
  "ensureSyncprovTunables srv ovs addr dataDN checkpoint decision startupObs h =
     (case ovs h addr dataDN ''olcSyncProvConfig'' of
        Inl e \<Rightarrow> ((Some (Msg ''search syncprov overlay under'' [MStr dataDN, MMsg e]), h), startupObs)
      | Inr [] \<Rightarrow> ((None, h), startupObs)
      | Inr ((overlayDN, e) # es) \<Rightarrow>
          (let liveSource = e startupAttrSessionlogSource;
               obs = observeStartupConfig startupObs decision liveSource
           in (andThen (ensureSyncprovSessionlog srv addr overlayDN (e ''olcSpSessionlog'') decision (anyNonBlank liveSource))
                 (ensureOverlayAttr srv addr overlayDN ''olcSpCheckpoint'' (e ''olcSpCheckpoint'') checkpoint) h, obs)))"

definition syncprovAttrs :: "SlapdDatabase \<Rightarrow> (string \<times> string list) list" where
  "syncprovAttrs sd =
     (let checkpoint = desiredSyncprovCheckpoint sd; (ops, sessionlog) = overlayCreationSessionlog (desiredSessionlog sd) in
      [(''objectClass'', [''olcOverlayConfig'', ''olcSyncProvConfig'']), (''olcOverlay'', [''syncprov''])] @
      (if checkpoint \<noteq> [] then [(''olcSpCheckpoint'', [checkpoint])] else []) @
      (if sessionlog then [(''olcSpSessionlog'', [itoa ops])] else []))"

definition ensureSyncProvOverlay ::
  "ldap_srv \<Rightarrow> overlay_search \<Rightarrow> string \<Rightarrow> string \<Rightarrow> SlapdDatabase \<Rightarrow> startupConfigObservation option \<Rightarrow>
   history \<Rightarrow> (message option \<times> history) \<times> startupConfigObservation option" where
  "ensureSyncProvOverlay srv ovs addr dataDN sd startupObs h =
     (case dataDBOverlays ovs h addr dataDN of
        Inl e \<Rightarrow> ((Some e, h), startupObs)
      | Inr (_, hasSyncprov) \<Rightarrow>
          (case (if hasSyncprov then (None, h) else guardedAdd srv h addr (''olcOverlay=syncprov,'' @ dataDN) (syncprovAttrs sd)) of
             (Some e, h1) \<Rightarrow>
               if IsErrorWithCode e LDAPResultEntryAlreadyExists
               then ensureSyncprovTunables srv ovs addr dataDN (desiredSyncprovCheckpoint sd) (desiredSessionlog sd) startupObs h1
               else ((Some (Msg ''add syncprov overlay'' [MMsg e]), h1), startupObs)
           | (None, h1) \<Rightarrow>
               ensureSyncprovTunables srv ovs addr dataDN (desiredSyncprovCheckpoint sd) (desiredSessionlog sd) startupObs h1))"

section \<open>The table a pod reads at its start\<close>

record startupConfigRecord =
  scr_Attribute :: string
  scr_Suffix :: string
  scr_Value :: string

definition record_key :: "startupConfigRecord \<Rightarrow> string \<times> string \<times> string" where
  "record_key r = (scr_Attribute r, scr_Suffix r, scr_Value r)"

fun dropRepeats :: "startupConfigRecord list \<Rightarrow> startupConfigRecord list" where
  "dropRepeats (a # b # rs) = (if b = a then dropRepeats (a # rs) else a # dropRepeats (b # rs))"
| "dropRepeats rs = rs"

definition sortedStartupRecords :: "startupConfigRecord list \<Rightarrow> startupConfigRecord list" where
  "sortedStartupRecords recs = dropRepeats (sort_key record_key recs)"

definition startupConfigFor :: "SlapdDatabase list \<Rightarrow> string \<Rightarrow> startupConfigRecord list" where
  "startupConfigFor dbs clusterName =
     sortedStartupRecords
       (map (\<lambda>sd. \<lparr>scr_Attribute = startupAttrSessionlogSource, scr_Suffix = sds_Suffix (sd_Spec sd),
           scr_Value = sl_SourceDN (desiredSessionlog sd)\<rparr>)
         (filter (\<lambda>sd. sd_ClusterRef sd = clusterName \<and> sl_Kind (desiredSessionlog sd) = sessionlogKindAccesslog) dbs))"

definition render :: "startupConfigRecord list \<Rightarrow> string" where
  "render records =
     concat (map (\<lambda>r. scr_Attribute r @ [CHR 9] @ scr_Suffix r @ [CHR 9] @ scr_Value r @ [CHR 10]) records)"

section \<open>One session log, through every handover\<close>

text \<open>
  A pod over time: the values of olcSpSessionlog and of olcSpSessionlogSource on its overlay. A pass of the
  operator decides for the database's current specification, which may be a different one every time,
  and its request is taken or refused. At a restart the converger of the pod's image reads the table: a
  declared source is written and the in-memory log removed in the same offline write, an undeclared one
  is removed, and in doubt nothing changes.
\<close>

type_synonym pod_log = "string list \<times> string list"

abbreviation one_log :: "pod_log \<Rightarrow> bool" where
  "one_log p \<equiv> (fst p \<noteq> []) \<noteq> anyNonBlank (snd p)"

abbreviation two_logs :: "pod_log \<Rightarrow> bool" where
  "two_logs p \<equiv> fst p \<noteq> [] \<and> anyNonBlank (snd p)"

definition pass_request :: "ldap_srv \<Rightarrow> string \<Rightarrow> string \<Rightarrow> SlapdDatabase \<Rightarrow> pod_log \<Rightarrow> history \<Rightarrow> history" where
  "pass_request srv addr dn sd p h =
     drop (length h) (snd (ensureSyncprovSessionlog srv addr dn (fst p) (desiredSessionlog sd) (anyNonBlank (snd p)) h))"

inductive pod_step :: "SlapdDatabase \<Rightarrow> pod_log \<Rightarrow> pod_log \<Rightarrow> bool" where
  taken: "pod_step sd (mem, src) (after_requests ''olcSpSessionlog'' mem (pass_request srv addr dn sd (mem, src) h), src)"
| refused: "pod_step sd (mem, src) (mem, src)"

definition took_table :: "SlapdDatabase \<Rightarrow> pod_log \<Rightarrow> pod_log" where
  "took_table sd p = (if declaresStartupOnlyAttributes sd then ([], [sl_SourceDN (desiredSessionlog sd)]) else (fst p, []))"

inductive pod_restart :: "SlapdDatabase \<Rightarrow> pod_log \<Rightarrow> pod_log \<Rightarrow> bool" where
  took: "pod_restart sd p (took_table sd p)"
| doubt: "pod_restart sd p p"

inductive pod_reachable :: "pod_log \<Rightarrow> bool" where
  created: "pod_reachable (concat (map snd (filter (\<lambda>a. fst a = ''olcSpSessionlog'') (syncprovAttrs sd))), [])"
| pass: "pod_reachable p \<Longrightarrow> pod_step sd p p' \<Longrightarrow> pod_reachable p'"
| restart: "pod_reachable p \<Longrightarrow> pod_restart sd p p' \<Longrightarrow> pod_reachable p'"

inductive_cases pod_stepE: "pod_step sd p p'"
inductive_cases pod_restartE: "pod_restart sd p p'"

lemma not_denied_sessionlog [simp]: "\<not> denied ''olcSpSessionlog''" "\<not> denied ''olcSpCheckpoint''"
  by code_simp+

lemma guard_sessionlog: "guardedModify srv h addr dn [(op, ''olcSpSessionlog'', vals)] =
    (srv_Write srv h (ModifyReq addr dn [(op, ''olcSpSessionlog'', vals)]), h @ [ModifyReq addr dn [(op, ''olcSpSessionlog'', vals)]])"
  using violation_Nil_iff [of "[''olcSpSessionlog'']"] by (simp add: guardedModify_def send_def)

lemma pass_request_plan:
  "pass_request srv addr dn sd (mem, src) h =
     (case planSessionlog mem (desiredSessionlog sd) (anyNonBlank src) of
        (sessionlogSet, v) \<Rightarrow> [ModifyReq addr dn [(OpReplace, ''olcSpSessionlog'', [v])]]
      | (sessionlogRemove, v) \<Rightarrow> [ModifyReq addr dn [(OpDelete, ''olcSpSessionlog'', [])]]
      | _ \<Rightarrow> [])"
  by (auto simp: pass_request_def ensureSyncprovSessionlog_def guard_sessionlog wrapErr_def
      split: prod.splits sessionlogAction.splits option.splits)

lemma stored_sessionlog [simp]: "stored ''olcSpSessionlog'' vals = vals"
  by (simp add: stored_def)

lemma after_pass:
  "after_requests ''olcSpSessionlog'' mem (pass_request srv addr dn sd (mem, src) h) =
     (case planSessionlog mem (desiredSessionlog sd) (anyNonBlank src) of
        (sessionlogSet, v) \<Rightarrow> [v] | (sessionlogRemove, v) \<Rightarrow> [] | _ \<Rightarrow> mem)"
  by (auto simp: pass_request_plan split: prod.splits sessionlogAction.splits)

lemma plan_kinds:
  "planSessionlog mem d live =
     (case sl_Kind d of
        sessionlogKindAccesslog \<Rightarrow> if \<not> live then (sessionlogLeave, []) else if mem = [] then (sessionlogNoop, []) else (sessionlogRemove, [])
      | sessionlogKindNone \<Rightarrow> if live then (sessionlogLeave, []) else if mem = [] then (sessionlogNoop, []) else (sessionlogRemove, [])
      | sessionlogKindInMemory \<Rightarrow> if live then (sessionlogLeave, [])
          else if length mem = 1 \<and> parse_int 10 64 (trim_space (hd mem)) = Some (sl_Ops d) then (sessionlogNoop, [])
          else (sessionlogSet, itoa (sl_Ops d)))"
  by (cases "sl_Kind d") (simp_all add: planSessionlog_def inMemoryOps_def)

lemma pass_never_two: "pod_step sd p p' \<Longrightarrow> \<not> two_logs p \<Longrightarrow> \<not> two_logs p'"
  by (erule pod_stepE) (auto simp: after_pass plan_kinds split: sessionlogKind.splits)

lemma pass_keeps_one: "pod_step sd p p' \<Longrightarrow> sl_Kind (desiredSessionlog sd) \<noteq> sessionlogKindNone \<Longrightarrow> one_log p \<Longrightarrow> one_log p'"
  by (erule pod_stepE) (auto simp: after_pass plan_kinds split: sessionlogKind.splits)

lemma restart_never_two: "pod_restart sd p p' \<Longrightarrow> \<not> two_logs p \<Longrightarrow> \<not> two_logs p'"
  by (erule pod_restartE) (auto simp: took_table_def anyNonBlank_def)

lemma never_two_logs: "pod_reachable p \<Longrightarrow> \<not> two_logs p"
proof (induction rule: pod_reachable.induct)
  case (created sd)
  show ?case by (simp add: anyNonBlank_def)
qed (use pass_never_two restart_never_two in blast)+

text \<open>
  C26. A handover and never a drop: over any sequence of specification changes, passes - their request
  taken or refused - and restarts, a pod never has two session logs, and a pass for a database that wants
  one never leaves a pod that has one without.
\<close>

theorem sessionlog_handover:
  assumes "pod_reachable p" and "pod_step sd p p'"
  shows "\<not> two_logs p \<and> \<not> two_logs p' \<and>
    (sl_Kind (desiredSessionlog sd) \<noteq> sessionlogKindNone \<and> one_log p \<longrightarrow> one_log p')"
  using never_two_logs [OF assms(1)] pass_never_two [OF assms(2)] pass_keeps_one [OF assms(2)] by blast

theorem sessionlog_handover_witness:
  "pod_reachable ([itoa 5000], []) \<and> pod_step (base_database ''d'' None) ([itoa 5000], []) ([itoa 5000], []) \<and>
   one_log ([itoa 5000], []) \<and> \<not> two_logs ([itoa 5000], [])"
proof -
  have c: "concat (map snd (filter (\<lambda>a. fst a = ''olcSpSessionlog'') (syncprovAttrs (base_database ''d'' None)))) = [itoa 5000]"
    by (simp add: syncprovAttrs_def overlayCreationSessionlog_def desiredSessionlog_def defaultSyncprovSessionlogOps_def base_database_def Let_def)
  have r: "pod_reachable ([itoa 5000], [])" using pod_reachable.created [of "base_database ''d'' None"] unfolding c .
  have s: "pod_step (base_database ''d'' None) ([itoa 5000], []) ([itoa 5000], [])" by (rule pod_step.refused)
  show ?thesis using r s sessionlog_handover [OF r s] by (simp add: anyNonBlank_def)
qed

lemma AccesslogSuffix_trim: "no_space name \<Longrightarrow> trim_space (AccesslogSuffix name) = AccesslogSuffix name"
proof -
  assume n: "no_space name"
  have "\<forall>c \<in> set ''cn=accesslog''. plain c" "plain CHR ''-''" by code_simp+
  then have "no_space (''cn=accesslog'' @ CHR ''-'' # name)" using no_space_glue [OF no_space_plain _ n] by blast
  then show ?thesis by (simp add: AccesslogSuffix_def)
qed

lemma sourced_decision: "declaresStartupOnlyAttributes sd \<Longrightarrow> sl_SourceDN (desiredSessionlog sd) = AccesslogSuffix (sd_Name sd)"
  by (auto simp: declaresStartupOnlyAttributes_def desiredSessionlog_def Let_def split: if_splits)

lemma memory_ops_pos: "sl_Kind (desiredSessionlog sd) = sessionlogKindInMemory \<Longrightarrow> 0 < sl_Ops (desiredSessionlog sd)"
  by (auto simp: desiredSessionlog_def Let_def split: if_splits)

lemma parse_itoa: "0 < n \<Longrightarrow> in_int32 n \<Longrightarrow> parse_int 10 64 (trim_space (itoa n)) = Some n"
  using parse_int_dec [of "nat n" 64] no_space_trim [OF no_space_itoa, of n] by (simp add: itoa_def)

definition undiverged :: "SlapdDatabase \<Rightarrow> pod_log \<Rightarrow> bool" where
  "undiverged sd p \<longleftrightarrow>
     compareStartupAttr startupAttrSessionlogSource (if declaresStartupOnlyAttributes sd then sl_SourceDN (desiredSessionlog sd) else []) (snd p) = None"

text \<open>
  The handover completes: after a restart that took the table and one pass that was taken, the pod
  has exactly the session log the database declares - the sourced one, the in-memory one at its size, or
  none - nothing is reported as diverged, and further passes send nothing.
\<close>

theorem handover_completes:
  assumes "no_space (sd_Name sd)" and "in_int32 (sl_Ops (desiredSessionlog sd))"
    and "p1 = took_table sd p"
    and "p2 = (after_requests ''olcSpSessionlog'' (fst p1) (pass_request srv addr dn sd p1 h), snd p1)"
  shows "undiverged sd p2 \<and> pass_request srv' addr' dn' sd p2 h' = [] \<and>
    (case sl_Kind (desiredSessionlog sd) of
       sessionlogKindAccesslog \<Rightarrow> p2 = ([], [AccesslogSuffix (sd_Name sd)])
     | sessionlogKindNone \<Rightarrow> p2 = ([], [])
     | sessionlogKindInMemory \<Rightarrow> snd p2 = [] \<and> length (fst p2) = 1 \<and>
         parse_int 10 64 (trim_space (hd (fst p2))) = Some (sl_Ops (desiredSessionlog sd)))"
proof (cases "declaresStartupOnlyAttributes sd")
  case True
  then have k: "sl_Kind (desiredSessionlog sd) = sessionlogKindAccesslog" by (simp add: declaresStartupOnlyAttributes_def)
  have "AccesslogSuffix (sd_Name sd) \<noteq> []" by (simp add: AccesslogSuffix_def)
  then have live: "anyNonBlank [AccesslogSuffix (sd_Name sd)]" by (simp add: anyNonBlank_def AccesslogSuffix_trim [OF assms(1)])
  then show ?thesis using assms(3,4) True
    by (simp add: took_table_def sourced_decision k undiverged_def compareStartupAttr_def pass_request_plan plan_kinds)
next
  case False
  then have k: "sl_Kind (desiredSessionlog sd) \<noteq> sessionlogKindAccesslog" by (simp add: declaresStartupOnlyAttributes_def)
  have p1: "p1 = (fst p, [])" using assms(3) False by (simp add: took_table_def)
  have u: "undiverged sd p2" using assms(4) p1 False no_space_trim [of "[]"] by (simp add: undiverged_def compareStartupAttr_def)
  have n: "\<not> anyNonBlank []" by (simp add: anyNonBlank_def)
  show ?thesis
  proof (cases "sl_Kind (desiredSessionlog sd)")
    case sessionlogKindInMemory
    then have "parse_int 10 64 (trim_space (itoa (sl_Ops (desiredSessionlog sd)))) = Some (sl_Ops (desiredSessionlog sd))"
      using parse_itoa memory_ops_pos assms(2) by blast
    then show ?thesis using u assms(4) sessionlogKindInMemory n by (auto simp: p1 after_pass pass_request_plan plan_kinds)
  qed (use u assms(4) n k in \<open>auto simp: p1 after_pass pass_request_plan plan_kinds\<close>)
qed

theorem handover_completes_witness:
  "pass_request tree_srv ''a'' ''o'' (base_database ''d'' None) (took_table (base_database ''d'' None) ([''5000''], [])) [] = [] \<and>
   took_table (base_database ''d'' None) ([''5000''], []) = ([], [''cn=accesslog-d''])"
proof -
  let ?sd = "base_database ''d'' None"
  have "\<forall>c \<in> set (sd_Name ?sd). plain c" by code_simp
  note n = no_space_plain [OF this]
  have i: "in_int32 (sl_Ops (desiredSessionlog ?sd))" by code_simp
  have t: "took_table ?sd ([''5000''], []) = ([], [''cn=accesslog-d''])" by code_simp
  have q: "pass_request tree_srv ''a'' ''o'' ?sd ([], [''cn=accesslog-d'']) [] = []" by code_simp
  from handover_completes [OF n i refl refl, of "([''5000''], [])" tree_srv "''a''" "''o''" "[]" tree_srv "''a''" "''o''" "[]"]
  show ?thesis by (simp add: t q)
qed

section \<open>A source that cannot come\<close>

text \<open>
  A database that switched delta-sync off and left the source unset declares the change journal as
  its source although no journal is made for it. Every pod that was read is then reported as waiting for a
  restart - there is no source on it - and the in-memory log it runs is never resized.
\<close>

theorem unset_source_without_journal:
  assumes "dbr_SyncprovSessionlogSource (sds_Replication (sd_Spec sd)) = []" and "dbr_DeltaSync (sds_Replication (sd_Spec sd)) = Some False"
    and "case dbr_SyncprovSessionlog (sds_Replication (sd_Spec sd)) of None \<Rightarrow> True | Some ops \<Rightarrow> ops > 0"
    and "no_space (sd_Name sd)"
  shows "\<not> DeltaSyncEnabled sd \<and> declaresStartupOnlyAttributes sd \<and>
    (case observeStartupConfig (Some \<lparr>sco_pod = pod, sco_assessed = False, sco_diverged = []\<rparr>) (desiredSessionlog sd) [] of
       Some ob \<Rightarrow> fst (aggregateStartupConfigConverged (declaresStartupOnlyAttributes sd) (ob # others)) = ConditionFalse
     | None \<Rightarrow> False) \<and>
    pass_request srv addr dn sd (mem, []) h = []"
proof -
  have d: "declaresStartupOnlyAttributes sd"
    using assms(1,3) by (auto simp: declaresStartupOnlyAttributes_def desiredSessionlog_def defaultSyncprovSessionlogOps_def Let_def split: option.splits)
  then have k: "sl_Kind (desiredSessionlog sd) = sessionlogKindAccesslog" by (simp add: declaresStartupOnlyAttributes_def)
  have e: "\<not> equal_fold [] (trim_space (AccesslogSuffix (sd_Name sd)))"
    unfolding AccesslogSuffix_trim [OF assms(4)] by (simp add: AccesslogSuffix_def)
  have "\<not> DeltaSyncEnabled sd" using assms(2) by (simp add: DeltaSyncEnabled_def)
  moreover have "pass_request srv addr dn sd (mem, []) h = []" by (simp add: pass_request_plan plan_kinds k anyNonBlank_def)
  ultimately show ?thesis using d e
    by (simp add: observeStartupConfig_def compareStartupAttr_def k sourced_decision [OF d] aggregateStartupConfigConverged_def
        divergenceDetails_def Let_def)
qed

theorem unset_source_without_journal_witness:
  "let sd = (base_database ''d'' None)\<lparr>sd_Spec := (sd_Spec (base_database ''d'' None))
       \<lparr>sds_Replication := (sds_Replication (sd_Spec (base_database ''d'' None)))\<lparr>dbr_DeltaSync := Some False\<rparr>\<rparr>\<rparr> in
   \<not> DeltaSyncEnabled sd \<and> declaresStartupOnlyAttributes sd"
proof -
  let ?sd = "(base_database ''d'' None)\<lparr>sd_Spec := (sd_Spec (base_database ''d'' None))
       \<lparr>sds_Replication := (sds_Replication (sd_Spec (base_database ''d'' None)))\<lparr>dbr_DeltaSync := Some False\<rparr>\<rparr>\<rparr>"
  have "\<forall>c \<in> set (sd_Name ?sd). plain c" by code_simp
  then show ?thesis using unset_source_without_journal [of ?sd] no_space_plain by (simp add: Let_def base_database_def)
qed

section \<open>The table, written and read back\<close>

lemma dropRepeats_set [simp]: "set (dropRepeats rs) = set rs"
  by (induction rs rule: dropRepeats.induct) auto

lemma record_key_inj: "record_key r = record_key r' \<Longrightarrow> r = r'"
  by (simp add: record_key_def)

lemma dropRepeats_strict: "sorted (map record_key rs) \<Longrightarrow> sorted_wrt (\<lambda>a b. record_key a < record_key b) (dropRepeats rs)"
proof (induction rs rule: dropRepeats.induct)
  case (1 a b rs)
  show ?case
  proof (cases "b = a")
    case False
    then have "record_key a < record_key b" using 1(3) record_key_inj [of a b] by (auto simp: less_le)
    then show ?thesis using 1 False by (auto intro: less_le_trans)
  qed (use 1 in simp)
qed simp_all

lemma strict_unique:
  assumes "sorted_wrt (\<lambda>a b. record_key a < record_key b) xs" and "sorted_wrt (\<lambda>a b. record_key a < record_key b) ys" and "set xs = set ys"
  shows "xs = ys"
proof -
  have k: "sorted_wrt (<) (map record_key xs)" "sorted_wrt (<) (map record_key ys)" using assms(1,2) by (simp_all add: sorted_wrt_map)
  have "map record_key xs = map record_key ys"
    using strict_sorted_equal [OF k] assms(3) by simp
  then show ?thesis using map_inj_on [of record_key xs ys] record_key_inj by (auto simp: inj_on_def)
qed

definition table_line :: "startupConfigRecord \<Rightarrow> string list" where
  "table_line r = [scr_Attribute r, scr_Suffix r, scr_Value r]"

definition tab_free :: "string \<Rightarrow> bool" where
  "tab_free s \<longleftrightarrow> CHR 9 \<notin> set s \<and> CHR 10 \<notin> set s"

lemma render_lines:
  "\<forall>r \<in> set rs. \<forall>f \<in> set (table_line r). tab_free f \<Longrightarrow>
     map (split_on CHR 9) (butlast (split_on CHR 10 (render rs))) = map table_line rs"
proof (induction rs)
  case (Cons r rs)
  have f: "tab_free (scr_Attribute r)" "tab_free (scr_Suffix r)" "tab_free (scr_Value r)" using Cons.prems by (auto simp: table_line_def)
  let ?l = "scr_Attribute r @ CHR 9 # scr_Suffix r @ CHR 9 # scr_Value r"
  have "render (r # rs) = ?l @ CHR 10 # render rs" by (simp add: render_def)
  moreover have "CHR 10 \<notin> set ?l" using f by (auto simp: tab_free_def)
  ultimately have "split_on CHR 10 (render (r # rs)) = ?l # split_on CHR 10 (render rs)" by (metis split_on_append)
  moreover have "split_on CHR 9 ?l = table_line r" using f by (simp add: tab_free_def split_on_append split_on_free table_line_def)
  ultimately show ?case using Cons by simp
qed (simp add: render_def)

abbreviation sourced_databases :: "SlapdDatabase list \<Rightarrow> string \<Rightarrow> SlapdDatabase set" where
  "sourced_databases dbs cluster \<equiv> {sd \<in> set dbs. sd_ClusterRef sd = cluster \<and> declaresStartupOnlyAttributes sd}"

lemma startupConfigFor_set:
  "set (startupConfigFor dbs cluster) =
     (\<lambda>sd. \<lparr>scr_Attribute = startupAttrSessionlogSource, scr_Suffix = sds_Suffix (sd_Spec sd), scr_Value = AccesslogSuffix (sd_Name sd)\<rparr>) `
       sourced_databases dbs cluster"
  using sourced_decision by (auto simp: startupConfigFor_def sortedStartupRecords_def declaresStartupOnlyAttributes_def image_iff)

lemma startupConfigFor_strict: "sorted_wrt (\<lambda>a b. record_key a < record_key b) (startupConfigFor dbs cluster)"
  unfolding startupConfigFor_def sortedStartupRecords_def by (rule dropRepeats_strict) simp

text \<open>
  C34. The table is what the pod reads: taken apart at line ends and tabs, the rendered file gives one line for
  each database of the cluster that declares a source, with its suffix and its own journal, no line twice,
  and the same file for the same databases in any listing order.
\<close>

theorem startup_table_exact:
  assumes "\<forall>sd \<in> set dbs. tab_free (sds_Suffix (sd_Spec sd)) \<and> tab_free (sd_Name sd)"
  shows "set (map (split_on CHR 9) (butlast (split_on CHR 10 (render (startupConfigFor dbs cluster))))) =
      (\<lambda>sd. [startupAttrSessionlogSource, sds_Suffix (sd_Spec sd), AccesslogSuffix (sd_Name sd)]) ` sourced_databases dbs cluster \<and>
    distinct (butlast (split_on CHR 10 (render (startupConfigFor dbs cluster)))) \<and>
    (set dbs' = set dbs \<longrightarrow> render (startupConfigFor dbs' cluster) = render (startupConfigFor dbs cluster))"
proof -
  let ?rs = "startupConfigFor dbs cluster"
  have "tab_free startupAttrSessionlogSource" "tab_free ''cn=accesslog-''" by (simp_all add: tab_free_def)
  then have "\<forall>r \<in> set ?rs. \<forall>f \<in> set (table_line r). tab_free f"
    using assms unfolding startupConfigFor_set by (auto simp: table_line_def AccesslogSuffix_def tab_free_def)
  note L = render_lines [OF this]
  have "distinct (map table_line ?rs)"
  proof -
    have "distinct (map record_key ?rs)" using startupConfigFor_strict [of dbs cluster] by (simp add: strict_sorted_iff sorted_wrt_map [symmetric])
    then show ?thesis by (auto simp: distinct_map inj_on_def table_line_def record_key_def)
  qed
  then have "distinct (butlast (split_on CHR 10 (render ?rs)))" using L by (metis distinct_map)
  moreover have "startupConfigFor dbs' cluster = ?rs" if "set dbs' = set dbs"
  proof (rule strict_unique [OF startupConfigFor_strict startupConfigFor_strict])
    show "set (startupConfigFor dbs' cluster) = set ?rs" unfolding startupConfigFor_set that ..
  qed
  moreover have "table_line ` set ?rs = (\<lambda>sd. [startupAttrSessionlogSource, sds_Suffix (sd_Spec sd), AccesslogSuffix (sd_Name sd)]) ` sourced_databases dbs cluster"
    unfolding startupConfigFor_set image_image table_line_def by simp
  ultimately show ?thesis unfolding L by simp
qed

theorem startup_table_exact_witness:
  "set (map (split_on CHR 9) (butlast (split_on CHR 10 (render (startupConfigFor [base_database ''d'' None] ''slapd''))))) =
     {[''olcSpSessionlogSource'', ''dc=example'', ''cn=accesslog-d'']}"
proof -
  let ?sd = "base_database ''d'' None"
  have t: "\<forall>sd \<in> set [?sd]. tab_free (sds_Suffix (sd_Spec sd)) \<and> tab_free (sd_Name sd)"
    by (simp add: base_database_def tab_free_def)
  have d: "declaresStartupOnlyAttributes ?sd" by code_simp
  have f: "sds_Suffix (sd_Spec ?sd) = ''dc=example''" "sd_Name ?sd = ''d''" "sds_ClusterRef (sd_Spec ?sd) = ''slapd''"
    by (simp_all add: base_database_def)
  have "(\<lambda>sd. [startupAttrSessionlogSource, sds_Suffix (sd_Spec sd), AccesslogSuffix (sd_Name sd)]) ` sourced_databases [?sd] ''slapd'' =
    {[''olcSpSessionlogSource'', ''dc=example'', ''cn=accesslog-d'']}"
    using d by (auto simp: f AccesslogSuffix_def)
  then show ?thesis using startup_table_exact [OF t, of "''slapd''" "[]"] by argo
qed

end
