(* ===== verification/Accesslog_Purge.thy ===== *)
theory Accesslog_Purge
  imports Overlay Rotation_Gate
begin

text \<open>
  The purge of a database's change journal: \<open>accesslog_purge_converged.go\<close> - retention, the value for one pod, the
  published verdict - and, of \<open>slapddatabase_controller.go\<close>, the accesslog overlay with its fall-back to the
  two-field value on a server that cannot express a phase.
\<close>

section \<open>The value for one pod\<close>

definition defaultPurgeRetention :: duration where
  "defaultPurgeRetention = 604800 * Second"

record purgeDefect =
  pd_Reason :: string
  pd_Message :: message

record purgePodPlan =
  ppp_Value :: string
  ppp_Fallback :: string

record purgePhaseObservation =
  ppo_pod :: string
  ppo_assessed :: bool
  ppo_unsupported :: bool

definition resolveRetention :: "SlapdDatabase \<Rightarrow> duration \<times> purgeDefect option" where
  "resolveRetention sd =
     (case dbr_AccesslogPurge (sds_Replication (sd_Spec sd)) of
        None \<Rightarrow> (defaultPurgeRetention, None)
      | Some p \<Rightarrow>
          if alp_Enabled p = Some False then (0, None)
          else (case alp_Retention p of
              None \<Rightarrow> (defaultPurgeRetention, None)
            | Some d \<Rightarrow>
                if d \<le> 0
                then (defaultPurgeRetention, Some \<lparr>pd_Reason = ''RetentionNotUsable'',
                  pd_Message = Msg ''retention is not positive'' [MInt d, MStr (formatLogAge defaultPurgeRetention)]\<rparr>)
                else if i64_mod d Second \<noteq> 0
                then (defaultPurgeRetention, Some \<lparr>pd_Reason = ''RetentionNotUsable'',
                  pd_Message = Msg ''retention is not a whole number of seconds'' [MInt d, MStr (formatLogAge defaultPurgeRetention)]\<rparr>)
                else (d, None)))"

definition planPodPurge :: "rotationPlan \<Rightarrow> SlapdDatabase \<Rightarrow> int32 \<Rightarrow> purgePodPlan" where
  "planPodPurge plan sd ordinal =
     (let retention = fst (resolveRetention sd) in
      if retention \<le> 0 then \<lparr>ppp_Value = [], ppp_Fallback = []\<rparr>
      else if \<not> PhasesActive plan then \<lparr>ppp_Value = composePurge retention (Interval plan) None, ppp_Fallback = []\<rparr>
      else \<lparr>ppp_Value = composePurge retention (Interval plan) (Some (purgePhase ordinal (Replicas plan) (SlotLength plan))),
            ppp_Fallback = composePurge retention (Interval plan) None\<rparr>)"

definition isPurgeArityRejection :: "message option \<Rightarrow> bool" where
  "isPurgeArityRejection err = (case err of None \<Rightarrow> False | Some e \<Rightarrow> str_contains (to_lower (errText e)) ''extra cruft'')"

section \<open>The overlay on one pod\<close>

abbreviation "attrOlcAccessLogPurge \<equiv> ''olcAccessLogPurge''"

definition markPurgePhaseUnsupported :: "purgePhaseObservation option \<Rightarrow> purgePhaseObservation option" where
  "markPurgePhaseUnsupported obs = map_option (\<lambda>ob. ob\<lparr>ppo_unsupported := True\<rparr>) obs"

definition markPurgeAssessed :: "purgePhaseObservation option \<Rightarrow> purgePhaseObservation option" where
  "markPurgeAssessed obs = map_option (\<lambda>ob. ob\<lparr>ppo_assessed := True\<rparr>) obs"

fun replacePurgeAttr :: "(string \<times> string list) list \<Rightarrow> string \<Rightarrow> (string \<times> string list) list" where
  "replacePurgeAttr [] v = [(attrOlcAccessLogPurge, [v])]"
| "replacePurgeAttr ((a, vs) # attrs) v =
     (if equal_fold a attrOlcAccessLogPurge then (a, [v]) # attrs else (a, vs) # replacePurgeAttr attrs v)"

type_synonym purge_result = "(message option \<times> history) \<times> purgePhaseObservation option"

definition ensureAccesslogPurge ::
  "ldap_srv \<Rightarrow> overlay_search \<Rightarrow> string \<Rightarrow> string \<Rightarrow> purgePodPlan \<Rightarrow> purgePhaseObservation option \<Rightarrow> history \<Rightarrow> purge_result" where
  "ensureAccesslogPurge srv ovs addr dataDN pp obs h =
     (case ovs h addr dataDN ''olcAccessLogConfig'' of
        Inl e \<Rightarrow> ((Some (Msg ''search accesslog overlay under'' [MStr dataDN, MMsg e]), h), obs)
      | Inr [] \<Rightarrow> ((None, h), obs)
      | Inr ((overlayDN, e) # es) \<Rightarrow>
          (let obs1 = markPurgeAssessed obs; live = e attrOlcAccessLogPurge;
               first = ensureOverlayAttr srv addr overlayDN attrOlcAccessLogPurge live (ppp_Value pp) h
           in if \<not> isPurgeArityRejection (fst first) \<or> ppp_Fallback pp = [] then (first, obs1)
              else (ensureOverlayAttr srv addr overlayDN attrOlcAccessLogPurge live (ppp_Fallback pp) (snd first),
                markPurgePhaseUnsupported obs1)))"

definition accesslogAttrs :: "SlapdDatabase \<Rightarrow> string \<Rightarrow> (string \<times> string list) list" where
  "accesslogAttrs sd purge =
     [(''objectClass'', [''olcOverlayConfig'', ''olcAccessLogConfig'']), (''olcOverlay'', [''accesslog'']),
      (''olcAccessLogDB'', [AccesslogSuffix (sd_Name sd)]), (''olcAccessLogOps'', [''writes'']), (''olcAccessLogSuccess'', [''TRUE''])] @
     (if purge \<noteq> [] then [(attrOlcAccessLogPurge, [purge])] else [])"

definition addAccesslog ::
  "ldap_srv \<Rightarrow> string \<Rightarrow> string \<Rightarrow> SlapdDatabase \<Rightarrow> purgePodPlan \<Rightarrow> purgePhaseObservation option \<Rightarrow> history \<Rightarrow> purge_result" where
  "addAccesslog srv addr dataDN sd pp obs h =
     (let dn = ''olcOverlay=accesslog,'' @ dataDN; attrs = accesslogAttrs sd (ppp_Value pp);
          first = guardedAdd srv h addr dn attrs
      in if isPurgeArityRejection (fst first) \<and> ppp_Fallback pp \<noteq> []
         then (guardedAdd srv (snd first) addr dn (replacePurgeAttr attrs (ppp_Fallback pp)), markPurgePhaseUnsupported obs)
         else (first, obs))"

definition ensureAccesslogOverlay ::
  "ldap_srv \<Rightarrow> overlay_search \<Rightarrow> string \<Rightarrow> string \<Rightarrow> SlapdDatabase \<Rightarrow> purgePodPlan \<Rightarrow> purgePhaseObservation option \<Rightarrow> history \<Rightarrow> purge_result" where
  "ensureAccesslogOverlay srv ovs addr dataDN sd pp obs h =
     (case dataDBOverlays ovs h addr dataDN of
        Inl e \<Rightarrow> ((Some e, h), obs)
      | Inr (hasAccesslog, _) \<Rightarrow>
          (case (if hasAccesslog then ((None, h), obs) else addAccesslog srv addr dataDN sd pp obs h) of
             ((Some e, h1), obs1) \<Rightarrow>
               if IsErrorWithCode e LDAPResultEntryAlreadyExists then ensureAccesslogPurge srv ovs addr dataDN pp obs1 h1
               else ((Some (Msg ''add accesslog overlay'' [MMsg e]), h1), obs1)
           | ((None, h1), obs1) \<Rightarrow> ensureAccesslogPurge srv ovs addr dataDN pp obs1 h1))"

section \<open>The published verdict\<close>

definition aggregateAccesslogPurgeConverged ::
  "rotationPlan \<Rightarrow> purgeDefect option \<Rightarrow> bool \<Rightarrow> purgePhaseObservation list \<Rightarrow> ConditionStatus \<times> string \<times> message" where
  "aggregateAccesslogPurgeConverged plan defect purging results =
     (let assessed = filter ppo_assessed results;
          note = MStrs (map ppo_pod (filter (\<lambda>r. \<not> ppo_assessed r) results));
          unsupported = map ppo_pod (filter ppo_unsupported assessed);
          count = MInt (int (length assessed)); every = MStr (formatLogAge (Interval plan))
      in if \<not> purging then (ConditionTrue, ''PurgeDisabled'', Msg ''accesslogPurge.enabled is false'' [])
         else (case defect of
             Some d \<Rightarrow> (ConditionFalse, pd_Reason d, pd_Message d)
           | None \<Rightarrow>
               if unsupported \<noteq> [] then (ConditionFalse, ''PurgePhaseUnsupported'', Msg ''the purge PHASE was refused by slapd on'' [MStrs unsupported, note])
               else if assessed = [] then (ConditionUnknown, ''NoReachablePod'', Msg ''could not read or write the accesslog overlay on any pod'' [note])
               else if pl_Status plan = ConditionFalse
               then (ConditionTrue, ''RotationNotInForce'', Msg ''rotation declared and not in force'' [count, every, MStr (pl_Reason plan), note])
               else if \<not> PhasesActive plan then (ConditionTrue, ''Converged'', Msg ''all purge together'' [count, every, note])
               else (ConditionTrue, ''Converged'', Msg ''each on its phase'' [count, every, MStr (formatLogAge (SlotLength plan)), note])))"

definition accesslogPurgeConvergedFor :: "time \<Rightarrow> SlapdDatabase \<Rightarrow> rotationPlan \<Rightarrow> purgePhaseObservation list \<Rightarrow> Condition" where
  "accesslogPurgeConvergedFor now sd plan results =
     (case resolveRetention sd of (retention, defect) \<Rightarrow>
      case aggregateAccesslogPurgeConverged plan defect (retention > 0) results of (status, reason, msg) \<Rightarrow>
        \<lparr>cond_Type = ''AccesslogPurgeConverged'', cond_Status = status, cond_Reason = reason, cond_Message = msg,
         cond_LastTransitionTime = now, cond_ObservedGeneration = sd_Generation sd\<rparr>)"

section \<open>A journal is always purged\<close>

definition purge_disabled :: "SlapdDatabase \<Rightarrow> bool" where
  "purge_disabled sd \<longleftrightarrow> (case dbr_AccesslogPurge (sds_Replication (sd_Spec sd)) of None \<Rightarrow> False | Some p \<Rightarrow> alp_Enabled p = Some False)"

lemma retention_cases: "purge_disabled sd \<and> resolveRetention sd = (0, None) \<or> \<not> purge_disabled sd \<and> 0 < fst (resolveRetention sd)"
  by (auto simp: resolveRetention_def purge_disabled_def defaultPurgeRetention_def Second_def split: option.splits)

lemma interval_pos: "rotation_fits sc \<Longrightarrow> 0 < Interval (evaluateRotation sc)"
  using active_plan [of sc] idle_plan [of sc] by (cases "rotation_rules sc") (auto simp: Let_def whole_seconds_def)

text \<open>
  C27. A database always comes out of a pass with a purge value: whatever the cluster and the database
  declare, as long as the period fits a duration, the value for a pod is empty only for a database that
  switched its purge off; with phases there is a two-field value to fall back to exactly then.
\<close>

theorem journal_always_bounded:
  assumes "rotation_fits sc"
  shows "(ppp_Value (planPodPurge (evaluateRotation sc) sd ordinal) = [] \<longleftrightarrow> purge_disabled sd) \<and>
    (ppp_Fallback (planPodPurge (evaluateRotation sc) sd ordinal) \<noteq> [] \<longleftrightarrow> \<not> purge_disabled sd \<and> PhasesActive (evaluateRotation sc))"
proof -
  have "composePurge r (Interval (evaluateRotation sc)) x = [] \<longleftrightarrow> r \<le> 0" for r x
    using interval_pos [OF assms] by (auto simp: composePurge_def)
  with retention_cases [of sd] show ?thesis by (auto simp: planPodPurge_def Let_def)
qed

theorem journal_always_bounded_witness:
  "ppp_Value (planPodPurge (evaluateRotation (rotating_cluster 3 (21600 * Second) None None)) (base_database ''d'' None) 1) \<noteq> []"
proof -
  have "rotation_fits (rotating_cluster 3 (21600 * Second) None None)"
    by (simp add: rotating_cluster_def rotation_fits_def formA_def base_cluster_def declaredReplicas_def Second_def)
  from journal_always_bounded [OF this, of "base_database ''d'' None" 1] show ?thesis
    by (simp add: purge_disabled_def base_database_def)
qed

section \<open>A server without phases\<close>

lemma plain_marks: "plain CHR ''+''" "plain CHR '':''" by code_simp+

lemma plain_itoa: "c \<in> set (itoa n) \<Longrightarrow> plain c"
  using dec_digits plain_digit plain_chars(2) by (auto simp: itoa_def split: if_splits)

lemma plain_fmt02d: "c \<in> set (fmt02d n) \<Longrightarrow> plain c"
  using pad2_digits plain_digit plain_itoa by (auto simp: fmt02d_def split: if_splits)

lemma log_age_word: "no_space (formatLogAge d)" "formatLogAge d \<noteq> []"
proof -
  have "\<forall>c \<in> set (formatLogAge d). plain c"
    using plain_fmt02d plain_itoa plain_marks by (auto simp: formatLogAge_def Let_def)
  then show "no_space (formatLogAge d)" by (rule no_space_plain)
qed (simp add: formatLogAge_def Let_def)

lemma purge_fields:
  assumes "0 < r" and "0 < i"
  shows "str_fields (composePurge r i p) = [formatLogAge r, formatLogAge i] @ (case p of None \<Rightarrow> [] | Some x \<Rightarrow> [formatLogAge x])"
proof -
  let ?ws = "[formatLogAge r, formatLogAge i] @ (case p of None \<Rightarrow> [] | Some x \<Rightarrow> [formatLogAge x])"
  have "composePurge r i p = join '' '' ?ws" using assms by (cases p) (simp_all add: composePurge_def)
  moreover have "\<forall>w \<in> set ?ws. w \<noteq> [] \<and> no_space w" using log_age_word by (auto split: option.splits)
  ultimately show ?thesis using fields_join by metis
qed

text \<open>
  The two kinds of server: one that takes any value, and a stock one that refuses a third field with the
  parser's message and takes every other value.
\<close>

definition cruft :: message where
  "cruft = ldapError 80 ''<olcAccessLogPurge> extra cruft after <age> <interval>''"

definition phase_server :: "ldap_srv \<Rightarrow> string \<Rightarrow> string \<Rightarrow> bool \<Rightarrow> bool" where
  "phase_server srv addr dn supports \<longleftrightarrow>
     (\<forall>h op vals. srv_Write srv h (ModifyReq addr dn [(op, attrOlcAccessLogPurge, vals)]) =
        (if \<not> supports \<and> list_ex (\<lambda>v. length (str_fields v) > 2) vals then Some cruft else None))"

text \<open>The values after requests, each of which the server took or refused.\<close>

fun values_after :: "ldap_srv \<Rightarrow> string \<Rightarrow> history \<Rightarrow> string list \<Rightarrow> history \<Rightarrow> string list" where
  "values_after srv attr h v [] = v"
| "values_after srv attr h v (q # qs) =
     values_after srv attr (h @ [q]) (if srv_Write srv h q = None then after_requests attr v [q] else v) qs"

lemma purge_attr_free [simp]: "\<not> denied attrOlcAccessLogPurge" "stored attrOlcAccessLogPurge vals = vals"
  by code_simp (simp add: stored_def)

lemma cruft_rejected: "isPurgeArityRejection (Some (Msg f (args @ [MMsg cruft])))"
proof -
  define pre where "pre = f @ concat (map argText args) @ ''LDAP Result Code'' @ itoa 80 @ ''<olcAccessLogPurge> ''"
  have "errText (Msg f (args @ [MMsg cruft])) = pre @ ''extra cruft'' @ '' after <age> <interval>''"
    by (simp add: pre_def cruft_def ldapError_def)
  moreover have "str_contains (to_lower (pre @ ''extra cruft'' @ '' after <age> <interval>'')) ''extra cruft''"
    by (rule to_lower_contains) code_simp+
  ultimately show ?thesis unfolding isPurgeArityRejection_def option.case by argo
qed

lemma set_attr:
  assumes "\<not> overlay_ok want live" and "normalizeOverlayAttrValue want \<noteq> []"
  shows "ensureOverlayAttr srv addr dn attrOlcAccessLogPurge live want h =
    (map_option (\<lambda>e. Msg ''set overlay attribute'' [MStr attrOlcAccessLogPurge, MStr dn, MMsg e])
       (srv_Write srv h (ModifyReq addr dn [(OpReplace, attrOlcAccessLogPurge, [normalizeOverlayAttrValue want])])),
     h @ [ModifyReq addr dn [(OpReplace, attrOlcAccessLogPurge, [normalizeOverlayAttrValue want])]])"
proof -
  have "startupOnlyAttrViolation [attrOlcAccessLogPurge] = []" unfolding violation_Nil_iff by simp
  then show ?thesis using assms
    by (simp add: ensureOverlayAttr_def plan_cases wrapErr_def guardedModify_def send_def split: option.splits)
qed

lemma normalize_fields [simp]: "str_fields (normalizeOverlayAttrValue v) = str_fields v"
  by (simp add: normalizeOverlayAttrValue_def fields_idem)

lemma normalize_Nil: "str_fields v \<noteq> [] \<Longrightarrow> normalizeOverlayAttrValue v \<noteq> []"
  using normalize_fields [of v] by (metis fields_join list.set(1) empty_iff join.simps(1))

lemma ok_normalized: "str_fields want \<noteq> [] \<Longrightarrow> overlay_ok want [normalizeOverlayAttrValue want]"
  using normalize_Nil by (simp add: overlay_ok_def)

text \<open>
  C28. The phase where the server has it, the bounded journal where it has not: with phases active, a
  pod whose overlay was read is reported as assessed and the pass succeeds; on a server that knows phases the
  live value becomes the three-field one, on a stock server the two-field one and the pod is marked as not
  supporting phases. At most two requests are sent.
\<close>

theorem phase_or_fallback:
  assumes "PhasesActive plan" and "0 < Interval plan" and "\<not> purge_disabled sd" and "phase_server srv addr dn supports"
    and "ovs h addr dataDN ''olcAccessLogConfig'' = Inr ((dn, e) # es)"
    and "live = e attrOlcAccessLogPurge" and "pp = planPodPurge plan sd ordinal"
    and "kept = (supports \<or> overlay_ok (ppp_Value pp) live)"
  shows "\<exists>reqs. ensureAccesslogPurge srv ovs addr dataDN pp (Some ob) h =
      ((None, h @ reqs), Some (ob\<lparr>ppo_assessed := True, ppo_unsupported := (ppo_unsupported ob \<or> \<not> kept)\<rparr>)) \<and> length reqs \<le> 2 \<and>
    overlay_ok (if kept then ppp_Value pp else ppp_Fallback pp) (values_after srv attrOlcAccessLogPurge h live reqs)"
proof -
  let ?v = "ppp_Value pp" and ?f = "ppp_Fallback pp"
  have r: "0 < fst (resolveRetention sd)" using retention_cases [of sd] assms(3) by auto
  have pp: "?v = composePurge (fst (resolveRetention sd)) (Interval plan) (Some (purgePhase ordinal (Replicas plan) (SlotLength plan)))"
    "?f = composePurge (fst (resolveRetention sd)) (Interval plan) None"
    using r assms(1) unfolding assms(7) planPodPurge_def Let_def by simp_all
  then have fields: "length (str_fields ?v) = 3" "length (str_fields ?f) = 2" "str_fields ?v \<noteq> []" "str_fields ?f \<noteq> []"
    by (simp_all add: purge_fields [OF r assms(2)])
  have "?f \<noteq> []" using pp(2) r assms(2) by (simp add: composePurge_def)
  note fields = fields this
  let ?q = "\<lambda>x. ModifyReq addr dn [(OpReplace, attrOlcAccessLogPurge, [normalizeOverlayAttrValue x])]"
  have wv: "srv_Write srv h' (?q ?v) = (if supports then None else Some cruft)" and wf: "srv_Write srv h' (?q ?f) = None" for h'
    using assms(4) fields by (simp_all add: phase_server_def)
  have marks: "markPurgePhaseUnsupported (markPurgeAssessed (Some ob)) = Some (ob\<lparr>ppo_assessed := True, ppo_unsupported := True\<rparr>)"
    "markPurgeAssessed (Some ob) = Some (ob\<lparr>ppo_assessed := True, ppo_unsupported := ppo_unsupported ob\<rparr>)"
    by (simp_all add: markPurgePhaseUnsupported_def markPurgeAssessed_def)
  note run = ensureAccesslogPurge_def [of srv ovs addr dataDN pp "Some ob" h, unfolded assms(5) sum.case list.case prod.case Let_def assms(6) [symmetric]]
  show ?thesis
  proof (cases "overlay_ok ?v live")
    case True
    then have "ensureOverlayAttr srv addr dn attrOlcAccessLogPurge live ?v h = (None, h)" by (simp add: ensureOverlayAttr_def plan_cases)
    then show ?thesis using True assms(8) unfolding run by (simp add: marks isPurgeArityRejection_def)
  next
    case False
    note first = set_attr [OF False normalize_Nil [OF fields(3)], of srv addr dn h]
    show ?thesis
    proof (cases supports)
      case True
      then show ?thesis using False assms(8) ok_normalized [OF fields(3)] unfolding run first wv
        by (intro exI [of _ "[?q ?v]"]) (simp add: marks isPurgeArityRejection_def wv)
    next
      case ns: False
      have c: "isPurgeArityRejection (Some (Msg ''set overlay attribute'' [MStr attrOlcAccessLogPurge, MStr dn, MMsg cruft]))"
        using cruft_rejected [of _ "[MStr attrOlcAccessLogPurge, MStr dn]"] by simp
      show ?thesis
      proof (cases "overlay_ok ?f live")
        case True
        then have "ensureOverlayAttr srv addr dn attrOlcAccessLogPurge live ?f h' = (None, h')" for h' by (simp add: ensureOverlayAttr_def plan_cases)
        then show ?thesis using ns False True assms(8) fields(5) c unfolding run first wv
          by (intro exI [of _ "[?q ?v]"]) (simp add: marks wv markPurgePhaseUnsupported_def)
      next
        case nf: False
        note second = set_attr [OF nf normalize_Nil [OF fields(4)], of srv addr dn "h @ [?q ?v]"]
        show ?thesis using ns False nf assms(8) fields(5) c ok_normalized [OF fields(4)] second unfolding run first wv
          by (intro exI [of _ "[?q ?v, ?q ?f]"]) (simp add: marks wv wf markPurgePhaseUnsupported_def)
      qed
    qed
  qed
qed

definition stock_srv :: ldap_srv where
  "stock_srv = tree_srv\<lparr>srv_Write := (\<lambda>h q. if list_ex (\<lambda>(op, attr, vals). attr = attrOlcAccessLogPurge \<and> list_ex (\<lambda>v. length (str_fields v) > 2) vals)
     (case q of ModifyReq a dn ch \<Rightarrow> ch | _ \<Rightarrow> []) then Some cruft else None)\<rparr>"

lemma stock_srv_phases: "phase_server stock_srv addr dn False"
  by (simp add: phase_server_def stock_srv_def)

theorem phase_or_fallback_witness:
  "let plan = evaluateRotation (rotating_cluster 3 (21600 * Second) None None);
       pp = planPodPurge plan (base_database ''d'' None) 1
   in \<exists>reqs. ensureAccesslogPurge stock_srv (\<lambda>_ _ _ _. Inr [(''o'', \<lambda>_. [])]) ''a'' ''db'' pp
        (Some \<lparr>ppo_pod = ''p'', ppo_assessed = False, ppo_unsupported = False\<rparr>) [] =
      ((None, [] @ reqs), Some \<lparr>ppo_pod = ''p'', ppo_assessed = True, ppo_unsupported = True\<rparr>) \<and>
      overlay_ok (ppp_Fallback pp) (values_after stock_srv attrOlcAccessLogPurge [] [] reqs)"
proof -
  let ?sc = "rotating_cluster 3 (21600 * Second) None None"
  let ?plan = "evaluateRotation ?sc" and ?sd = "base_database ''d'' None"
  have fits: "rotation_fits ?sc"
    by (simp add: rotating_cluster_def rotation_fits_def formA_def base_cluster_def declaredReplicas_def Second_def)
  have a: "PhasesActive ?plan" by code_simp
  have d: "\<not> purge_disabled ?sd" by (simp add: purge_disabled_def base_database_def)
  have v: "ppp_Value (planPodPurge ?plan ?sd 1) \<noteq> []"
    "\<not> overlay_ok (ppp_Value (planPodPurge ?plan ?sd 1)) []"
  proof -
    have r: "0 < fst (resolveRetention ?sd)" using retention_cases [of ?sd] d by auto
    then have "ppp_Value (planPodPurge ?plan ?sd 1) =
        composePurge (fst (resolveRetention ?sd)) (Interval ?plan) (Some (purgePhase 1 (Replicas ?plan) (SlotLength ?plan)))"
      using a unfolding planPodPurge_def Let_def by simp
    then have "str_fields (ppp_Value (planPodPurge ?plan ?sd 1)) \<noteq> []" by (simp add: purge_fields [OF r interval_pos [OF fits]])
    from normalize_Nil [OF this] show "ppp_Value (planPodPurge ?plan ?sd 1) \<noteq> []" "\<not> overlay_ok (ppp_Value (planPodPurge ?plan ?sd 1)) []"
      by (auto simp: overlay_ok_def normalizeOverlayAttrValue_def str_fields_def fields_word_end)
  qed
  show ?thesis
    using phase_or_fallback [OF a interval_pos [OF fits] d stock_srv_phases [of "''a''" "''o''"] _ refl refl refl,
        where e = "\<lambda>_. []" and es = "[]" and ovs = "\<lambda>_ _ _ _. Inr [(''o'', \<lambda>_. [])]"
          and ob = "\<lparr>ppo_pod = ''p'', ppo_assessed = False, ppo_unsupported = False\<rparr>"
          and h = "[]" and dataDN = "''db''" and ordinal = 1] v(2)
    by (auto simp: Let_def)
qed

text \<open>
  A period that wraps unpurges the journal: with two pods and slots of two million hours the gate
  reports the rotation as in force, the value for every pod of a database that wants its purge is empty - a
  live value is removed - and the published verdict of a fleet that was read is True.
\<close>

theorem wrapped_interval_unpurges:
  "let plan = evaluateRotation (rotating_cluster 2 (7200000000 * Second) None None); sd = base_database ''d'' None in
   \<not> purge_disabled sd \<and> ppp_Value (planPodPurge plan sd ordinal) = [] \<and>
   fst (planOverlayAttr [''7+00:00:00 01:00:00''] (ppp_Value (planPodPurge plan sd ordinal))) = overlayAttrRemove \<and>
   cond_Status (accesslogPurgeConvergedFor now sd plan [\<lparr>ppo_pod = ''p'', ppo_assessed = True, ppo_unsupported = False\<rparr>]) = ConditionTrue"
proof -
  let ?plan = "evaluateRotation (rotating_cluster 2 (7200000000 * Second) None None)" and ?sd = "base_database ''d'' None"
  have P: "pl_Status ?plan = ConditionTrue" "PhasesActive ?plan" "Interval ?plan < 0" by code_simp+
  have d: "\<not> purge_disabled ?sd" by (simp add: purge_disabled_def base_database_def)
  have r: "resolveRetention ?sd = (defaultPurgeRetention, None)" "0 < defaultPurgeRetention"
    by (simp_all add: resolveRetention_def base_database_def defaultPurgeRetention_def Second_def)
  have v: "ppp_Value (planPodPurge ?plan ?sd ordinal) = []"
    using P r unfolding planPodPurge_def r(1) Let_def by (simp add: composePurge_def)
  have n: "fst (planOverlayAttr [''7+00:00:00 01:00:00''] []) = overlayAttrRemove" by code_simp
  show ?thesis using d v n P r(2) unfolding Let_def v accesslogPurgeConvergedFor_def r(1) by (simp add: aggregateAccesslogPurgeConverged_def)
qed

text \<open>
  The purge verdict: True for a database that switched its purge off; otherwise False exactly for an
  unusable retention or a pod that was read and refused the phase, and Unknown exactly when no pod was read. A
  pod that was not read changes neither status nor reason.
\<close>

theorem purge_verdict_exact:
  fixes results :: "purgePhaseObservation list"
  defines "A \<equiv> set (filter ppo_assessed results)"
  shows "(cond_Status (accesslogPurgeConvergedFor now sd plan results) = ConditionFalse \<longleftrightarrow>
      \<not> purge_disabled sd \<and> (snd (resolveRetention sd) \<noteq> None \<or> (\<exists>r \<in> A. ppo_unsupported r))) \<and>
    (cond_Status (accesslogPurgeConvergedFor now sd plan results) = ConditionUnknown \<longleftrightarrow>
      \<not> purge_disabled sd \<and> snd (resolveRetention sd) = None \<and> A = {}) \<and>
    cond_Status (accesslogPurgeConvergedFor now sd plan (filter ppo_assessed results)) = cond_Status (accesslogPurgeConvergedFor now sd plan results) \<and>
    cond_Reason (accesslogPurgeConvergedFor now sd plan (filter ppo_assessed results)) = cond_Reason (accesslogPurgeConvergedFor now sd plan results)"
proof -
  have p: "fst (resolveRetention sd) > 0 \<longleftrightarrow> \<not> purge_disabled sd" using retention_cases [of sd] by auto
  let ?agg = "aggregateAccesslogPurgeConverged plan (snd (resolveRetention sd)) (fst (resolveRetention sd) > 0)"
  have c: "cond_Status (accesslogPurgeConvergedFor now sd plan rs) = fst (?agg rs)"
    "cond_Reason (accesslogPurgeConvergedFor now sd plan rs) = fst (snd (?agg rs))" for rs
    by (simp_all add: accesslogPurgeConvergedFor_def split_beta)
  show ?thesis unfolding c p A_def aggregateAccesslogPurgeConverged_def
    by (cases "snd (resolveRetention sd)") (auto simp: Let_def filter_empty_conv)
qed

theorem purge_verdict_exact_witness:
  "let refusing = \<lparr>ppo_pod = ''p-0'', ppo_assessed = True, ppo_unsupported = True\<rparr>;
       unread = \<lparr>ppo_pod = ''p-1'', ppo_assessed = False, ppo_unsupported = False\<rparr>
   in cond_Status (accesslogPurgeConvergedFor 0 (base_database ''d'' None) (evaluateRotation base_cluster) [refusing, unread]) = ConditionFalse \<and>
      cond_Status (accesslogPurgeConvergedFor 0 (base_database ''d'' None) (evaluateRotation base_cluster) [unread]) = ConditionUnknown"
  using purge_verdict_exact [of 0 "base_database ''d'' None" "evaluateRotation base_cluster"
      "[\<lparr>ppo_pod = ''p-0'', ppo_assessed = True, ppo_unsupported = True\<rparr>,
        \<lparr>ppo_pod = ''p-1'', ppo_assessed = False, ppo_unsupported = False\<rparr>]"]
    purge_verdict_exact [of 0 "base_database ''d'' None" "evaluateRotation base_cluster"
      "[\<lparr>ppo_pod = ''p-1'', ppo_assessed = False, ppo_unsupported = False\<rparr>]"]
  by (simp add: purge_disabled_def base_database_def resolveRetention_def)

end
