(* ===== verification/Ssha.thy ===== *)
theory Ssha
  imports Go_Text
begin

text \<open>
  Salted password hashes: \<open>generateSSHAHash\<close> of \<open>slapddatabase_controller.go\<close> and the two functions that verify one,
  \<open>sshaMatches\<close> of \<open>authdb.go\<close> and \<open>sshaMatches\<close> of \<open>backup/s3.go\<close>, over the parts of \<open>encoding/base64\<close> and \<open>crypto/sha1\<close> they use.
  The random salt is an argument.
\<close>

section \<open>Base 64\<close>

definition b64_char :: "nat \<Rightarrow> char" where
  "b64_char n =
     (if n < 26 then char_of (65 + n) else if n < 52 then char_of (71 + n)
      else if n < 62 then char_of (n - 4) else if n = 62 then CHR ''+'' else CHR ''/'')"

definition b64_val :: "char \<Rightarrow> nat option" where
  "b64_val c =
     (let x = (of_char c :: nat) in
      if 65 \<le> x \<and> x \<le> 90 then Some (x - 65)
      else if 97 \<le> x \<and> x \<le> 122 then Some (x - 71)
      else if 48 \<le> x \<and> x \<le> 57 then Some (x + 4)
      else if x = 43 then Some 62 else if x = 47 then Some 63 else None)"

fun EncodeToString :: "string \<Rightarrow> string" where
  "EncodeToString [] = []"
| "EncodeToString [a] =
     (let x = of_char a in [b64_char (x div 4), b64_char (x mod 4 * 16), CHR ''='', CHR ''=''])"
| "EncodeToString [a, b] =
     (let x = of_char a; y = of_char b in
      [b64_char (x div 4), b64_char (x mod 4 * 16 + y div 16), b64_char (y mod 16 * 4), CHR ''=''])"
| "EncodeToString (a # b # c # rest) =
     (let x = of_char a; y = of_char b; z = of_char c in
      b64_char (x div 4) # b64_char (x mod 4 * 16 + y div 16) # b64_char (y mod 16 * 4 + z div 64) #
      b64_char (z mod 64) # EncodeToString rest)"

text \<open>The decoder works on groups of four and ignores line ends; the bits left over before padding are not looked at.\<close>

fun decode_groups :: "string \<Rightarrow> string option" where
  "decode_groups [] = Some []"
| "decode_groups (a # b # c # d # rest) =
     (case (b64_val a, b64_val b) of
        (Some v0, Some v1) \<Rightarrow>
          if rest = [] \<and> c = CHR ''='' \<and> d = CHR ''='' then Some [char_of (v0 * 4 + v1 div 16)]
          else (case b64_val c of
              None \<Rightarrow> None
            | Some v2 \<Rightarrow>
                let two = [char_of (v0 * 4 + v1 div 16), char_of (v1 mod 16 * 16 + v2 div 4)] in
                if rest = [] \<and> d = CHR ''='' then Some two
                else (case (b64_val d, decode_groups rest) of
                    (Some v3, Some more) \<Rightarrow> Some (two @ char_of (v2 mod 4 * 64 + v3) # more)
                  | _ \<Rightarrow> None))
      | _ \<Rightarrow> None)"
| "decode_groups _ = None"

definition DecodeString :: "string \<Rightarrow> string option" where
  "DecodeString s = decode_groups (filter (\<lambda>c. c \<noteq> CHR 0x0A \<and> c \<noteq> CHR 0x0D) s)"

lemma b64_val_char [simp]: "n < 64 \<Longrightarrow> b64_val (b64_char n) = Some n"
  by (auto simp: b64_val_def b64_char_def Let_def of_char_of)

lemma b64_char_plain:
  "n < 64 \<Longrightarrow> b64_char n \<noteq> CHR ''='' \<and> b64_char n \<noteq> CHR 0x0A \<and> b64_char n \<noteq> CHR 0x0D"
proof -
  assume n: "n < 64"
  have "b64_val CHR ''='' = None" "b64_val CHR 0x0A = None" "b64_val CHR 0x0D = None" by code_simp+
  then show ?thesis using b64_val_char [OF n] by (metis option.distinct(1))
qed

lemma of_char_bound: "(of_char (c :: char) :: nat) < 256"
  by (metis mod_less_divisor of_char_mod_256 zero_less_numeral)

lemma high_bits [simp]:
  fixes x :: nat
  assumes "x < 256"
  shows "x div 4 < 64" "x div 16 < 16" "x div 64 < 4"
  using assms by (simp_all add: div_less_iff_less_mult)

lemma sextets:
  fixes x y z :: nat
  shows "y < 256 \<Longrightarrow> x mod 4 * 16 + y div 16 < 64" "z < 256 \<Longrightarrow> y mod 16 * 4 + z div 64 < 64"
    "x mod 4 * 16 < 64" "y mod 16 * 4 < 64"
proof -
  have m: "x mod 4 < 4" "y mod 16 < 16" by simp_all
  show "y < 256 \<Longrightarrow> x mod 4 * 16 + y div 16 < 64" using m high_bits(2) [of y] by linarith
  show "z < 256 \<Longrightarrow> y mod 16 * 4 + z div 64 < 64" using m high_bits(3) [of z] by linarith
qed (simp_all add: less_mult_imp_div_less)

lemma decode_encode_groups: "decode_groups (EncodeToString s) = Some s"
proof (induction s rule: EncodeToString.induct)
  case (2 a)
  note b = of_char_bound [of a]
  show ?case using b by (simp add: Let_def sextets)
next
  case (3 a b)
  note b = of_char_bound [of a] of_char_bound [of b]
  show ?case using b b64_char_plain [of "of_char b mod 16 * 4"] by (simp add: Let_def sextets)
next
  case (4 a b c rest)
  note b = of_char_bound [of a] of_char_bound [of b] of_char_bound [of c]
  show ?case
    using 4 b b64_char_plain [of "of_char b mod 16 * 4 + of_char c div 64"] b64_char_plain [of "of_char c mod 64"]
    by (simp add: Let_def sextets)
qed simp

lemma encode_chars: "c \<in> set (EncodeToString s) \<Longrightarrow> c \<noteq> CHR 0x0A \<and> c \<noteq> CHR 0x0D"
proof (induction s rule: EncodeToString.induct)
  case (2 a)
  then show ?case using of_char_bound [of a] by (auto simp: Let_def sextets b64_char_plain)
next
  case (3 a b)
  then show ?case using of_char_bound [of a] of_char_bound [of b] by (auto simp: Let_def sextets b64_char_plain)
next
  case (4 a b c rest)
  then show ?case using of_char_bound [of a] of_char_bound [of b] of_char_bound [of c]
    by (auto simp: Let_def sextets b64_char_plain)
qed simp

lemma b64_char_no_space: "n < 64 \<Longrightarrow> plain (b64_char n)"
proof -
  have "\<forall>p \<in> set space_seqs. \<forall>c \<in> set p. b64_val c = None" by code_simp
  then show "n < 64 \<Longrightarrow> plain (b64_char n)" unfolding plain_def by (metis b64_val_char option.distinct(1))
qed

lemma plain_scheme: "\<forall>c \<in> set ''{SSHA}=''. plain c" by code_simp

lemma encode_plain: "\<forall>c \<in> set (EncodeToString s). plain c"
proof (induction s rule: EncodeToString.induct)
  case (2 a)
  then show ?case using of_char_bound [of a] plain_scheme by (auto simp: Let_def sextets b64_char_no_space)
next
  case (3 a b)
  then show ?case using of_char_bound [of a] of_char_bound [of b] plain_scheme by (auto simp: Let_def sextets b64_char_no_space)
next
  case (4 a b c rest)
  then show ?case using of_char_bound [of a] of_char_bound [of b] of_char_bound [of c]
    by (auto simp: Let_def sextets b64_char_no_space)
qed simp

lemma DecodeString_EncodeToString [simp]: "DecodeString (EncodeToString s) = Some s"
proof -
  have "filter (\<lambda>c. c \<noteq> CHR 0x0A \<and> c \<noteq> CHR 0x0D) (EncodeToString s) = EncodeToString s"
    using encode_chars by (simp add: filter_id_conv)
  then show ?thesis by (simp add: DecodeString_def decode_encode_groups)
qed

section \<open>SHA-1\<close>

unbundle bit_operations_syntax

definition word_bytes :: "32 word \<Rightarrow> string" where
  "word_bytes w = map (\<lambda>i. char_of (uint (drop_bit i w))) [24, 16, 8, 0]"

fun bytes_words :: "string \<Rightarrow> 32 word list" where
  "bytes_words (a # b # c # d # rest) =
     (word_of_int (of_char a) * 2 ^ 24 + word_of_int (of_char b) * 2 ^ 16 + word_of_int (of_char c) * 2 ^ 8 +
      word_of_int (of_char d)) # bytes_words rest"
| "bytes_words _ = []"

definition sha1_pad :: "string \<Rightarrow> string" where
  "sha1_pad msg =
     (let n = length msg in
      msg @ CHR 0x80 # replicate ((119 - n mod 64) mod 64) CHR 0x00 @
      word_bytes (word_of_int (int n * 8 div 2 ^ 32)) @ word_bytes (word_of_int (int n * 8)))"

text \<open>The message schedule, newest word first.\<close>

fun sha1_extend :: "nat \<Rightarrow> 32 word list \<Rightarrow> 32 word list" where
  "sha1_extend 0 ws = ws"
| "sha1_extend (Suc n) ws =
     sha1_extend n (word_rotl 1 (ws ! 2 XOR ws ! 7 XOR ws ! 13 XOR ws ! 15) # ws)"

type_synonym sha1_state = "32 word \<times> 32 word \<times> 32 word \<times> 32 word \<times> 32 word"

definition sha1_round :: "nat \<Rightarrow> 32 word \<Rightarrow> sha1_state \<Rightarrow> sha1_state" where
  "sha1_round t w s =
     (case s of (a, b, c, d, e) \<Rightarrow>
        let (f, k) =
          (if t < 20 then (b AND c OR NOT b AND d, 0x5A827999)
           else if t < 40 then (b XOR c XOR d, 0x6ED9EBA1)
           else if t < 60 then (b AND c OR b AND d OR c AND d, 0x8F1BBCDC)
           else (b XOR c XOR d, 0xCA62C1D6)) in
        (word_rotl 5 a + f + e + w + k, a, word_rotl 30 b, c, d))"

fun sha1_rounds :: "nat \<Rightarrow> 32 word list \<Rightarrow> sha1_state \<Rightarrow> sha1_state" where
  "sha1_rounds t [] s = s"
| "sha1_rounds t (w # ws) s = sha1_rounds (Suc t) ws (sha1_round t w s)"

definition sha1_block :: "32 word list \<Rightarrow> sha1_state \<Rightarrow> sha1_state" where
  "sha1_block ws s =
     (case (s, sha1_rounds 0 (rev (sha1_extend 64 (rev ws))) s) of
        ((a, b, c, d, e), (a', b', c', d', e')) \<Rightarrow> (a + a', b + b', c + c', d + d', e + e'))"

function sha1_blocks :: "32 word list \<Rightarrow> sha1_state \<Rightarrow> sha1_state" where
  "sha1_blocks ws s = (if ws = [] then s else sha1_blocks (drop 16 ws) (sha1_block (take 16 ws) s))"
  by pat_completeness auto
termination by (relation "measure (\<lambda>(ws, _). length ws)") auto

declare sha1_blocks.simps [simp del]

definition sha1_Sum :: "string \<Rightarrow> string" where
  "sha1_Sum msg =
     (case sha1_blocks (bytes_words (sha1_pad msg)) (0x67452301, 0xEFCDAB89, 0x98BADCFE, 0x10325476, 0xC3D2E1F0) of
        (a, b, c, d, e) \<Rightarrow> word_bytes a @ word_bytes b @ word_bytes c @ word_bytes d @ word_bytes e)"

lemma sha1_Size: "length (sha1_Sum msg) = 20"
  by (simp add: sha1_Sum_def word_bytes_def split: prod.split)

section \<open>Salted hashes\<close>

definition generateSSHAHash :: "string \<Rightarrow> string \<Rightarrow> string" where
  "generateSSHAHash salt password =
     (let digest = sha1_Sum (password @ salt);
          combined = digest @ salt in
      ''{SSHA}'' @ EncodeToString combined)"

text \<open>\<open>authdb.go\<close>: the scheme in any case.\<close>

definition sshaMatches :: "string \<Rightarrow> string \<Rightarrow> bool" where
  "sshaMatches stored password =
     (if length stored < 6 \<or> \<not> equal_fold (take 6 stored) ''{SSHA}'' then False
      else (case DecodeString (drop 6 stored) of
          None \<Rightarrow> False
        | Some raw \<Rightarrow>
            if length raw \<le> 20 then False
            else
              let digest = take 20 raw; salt = drop 20 raw in
              sha1_Sum (password @ salt) = digest))"

text \<open>\<open>backup/s3.go\<close>: the scheme as the operator writes it.\<close>

definition backup_sshaMatches :: "string \<Rightarrow> string \<Rightarrow> bool" where
  "backup_sshaMatches stored password =
     (case strip_prefix ''{SSHA}'' stored of
        None \<Rightarrow> False
      | Some b64 \<Rightarrow>
          (case DecodeString b64 of
             None \<Rightarrow> False
           | Some raw \<Rightarrow>
               if length raw \<le> 20 then False
               else
                 let digest = take 20 raw; salt = drop 20 raw in
                 sha1_Sum (password @ salt) = digest))"

lemma backup_sshaMatches_scheme:
  "backup_sshaMatches stored password \<longleftrightarrow> take 6 stored = ''{SSHA}'' \<and> sshaMatches stored password"
proof (cases "strip_prefix ''{SSHA}'' stored")
  case None
  then have "take 6 stored \<noteq> ''{SSHA}''" by (metis append_take_drop_id not_Some_eq strip_prefix_iff)
  then show ?thesis using None by (simp add: backup_sshaMatches_def)
next
  case (Some b64)
  then have "stored = ''{SSHA}'' @ b64" by (simp add: strip_prefix_iff)
  then show ?thesis by (simp add: backup_sshaMatches_def sshaMatches_def)
qed

lemma sshaMatches_generated:
  "salt \<noteq> [] \<Longrightarrow> sshaMatches (generateSSHAHash salt password) candidate \<longleftrightarrow>
     sha1_Sum (candidate @ salt) = sha1_Sum (password @ salt)"
  by (simp add: sshaMatches_def generateSSHAHash_def Let_def sha1_Size)

lemma backup_sshaMatches_generated: "salt \<noteq> [] \<Longrightarrow> backup_sshaMatches (generateSSHAHash salt password) password"
  using sshaMatches_generated [of salt password password] unfolding backup_sshaMatches_scheme
  by (simp add: generateSSHAHash_def Let_def)

lemma generated_no_space: "no_space (generateSSHAHash salt password)"
  using encode_plain plain_scheme by (intro no_space_plain) (auto simp: generateSSHAHash_def Let_def)

text \<open>
  A hash the operator generates is verified by both verifiers for the password it was made of, and
  for another one exactly when the two salted passwords have the same SHA-1 sum. On every stored string the backup verifier
  accepts what the other one accepts, and writes the scheme in capitals.
\<close>

theorem ssha_round_trip:
  assumes "length salt = 8"
  shows "(sshaMatches (generateSSHAHash salt password) candidate \<longleftrightarrow>
            sha1_Sum (candidate @ salt) = sha1_Sum (password @ salt)) \<and>
         (backup_sshaMatches (generateSSHAHash salt password) candidate \<longleftrightarrow>
            sha1_Sum (candidate @ salt) = sha1_Sum (password @ salt)) \<and>
         (backup_sshaMatches stored candidate \<longleftrightarrow> take 6 stored = ''{SSHA}'' \<and> sshaMatches stored candidate)"
proof -
  have "salt \<noteq> []" using assms by auto
  note g = sshaMatches_generated [OF this]
  have "take 6 (generateSSHAHash salt password) = ''{SSHA}''" by (simp add: generateSSHAHash_def Let_def)
  then show ?thesis using g backup_sshaMatches_scheme by simp
qed

theorem ssha_round_trip_witness:
  "sshaMatches (generateSSHAHash ''saltsalt'' ''secret'') ''secret'' \<and>
   backup_sshaMatches (generateSSHAHash ''saltsalt'' ''secret'') ''secret''"
  using ssha_round_trip [of "''saltsalt''" "''secret''" "''secret''" "[]"] by simp

end
