(* ===== verification/Auth_Identity.thy ===== *)
theory Auth_Identity
  imports Seed Config_Attr Ssha
begin

text \<open>
  The replication identities: the node-local authentication database (\<open>slapdcluster_authdb.go\<close>, \<open>authdb.go\<close>), the identity entry of a
  database in it (\<open>slapddatabase_authdb.go\<close>), the older bind user of the data tree (\<open>ensureReplicationUser\<close>), their composition
  \<open>reconcileReplicationIdentities\<close>, and the gate \<open>authIdentityReadyForStanzas\<close> of \<open>replidentity.go\<close>.

  The servers are those of the other cn=config passes. The Secret and the salts are arguments: a salt is drawn at a
  point of the history, and drawing may fail.
\<close>

section \<open>The authentication database\<close>

definition AuthSuffix :: string where
  "AuthSuffix = ''cn=slaptain-auth''"

definition AuthDir :: string where
  "AuthDir = ''/data/_slaptain-auth''"

definition authDBACLs :: "string list" where
  "authDBACLs = [''to attrs=userPassword by anonymous auth by * none'', ''to * by * none'']"

definition findAuthDBDN :: "ldap_srv \<Rightarrow> history \<Rightarrow> string \<Rightarrow> message + string" where
  "findAuthDBDN srv h addr = findDataDBDNOptional srv h addr AuthSuffix"

definition ensureAuthDBACLs :: "ldap_srv \<Rightarrow> string \<Rightarrow> string \<Rightarrow> step" where
  "ensureAuthDBACLs srv addr dbDN =
     reading srv addr dbDN ''olcAccess'' (\<lambda>current.
       if aclsMatch current authDBACLs then skip else modify1 srv addr dbDN OpReplace ''olcAccess'' authDBACLs)"

definition ensureAuthSuffixEntry :: "ldap_srv \<Rightarrow> string \<Rightarrow> step" where
  "ensureAuthSuffixEntry srv addr h =
     (case ldapEntryExists srv h addr AuthSuffix of
        Inl err \<Rightarrow> (Some (Msg ''check auth suffix entry'' [MStr addr, MMsg err]), h)
      | Inr True \<Rightarrow> (None, h)
      | Inr False \<Rightarrow>
          (case send srv h (AddReq addr AuthSuffix [(''objectClass'', [''organizationalRole'']), (''cn'', [''slaptain-auth'']),
               (''description'', [''Node-local replication identities - never replicated (ADR-027)''])]) of
             (None, h') \<Rightarrow> (None, h')
           | (Some err, h') \<Rightarrow>
               if IsErrorWithCode err LDAPResultEntryAlreadyExists then (None, h')
               else (Some (Msg ''add auth suffix entry'' [MStr addr, MMsg err]), h')))"

definition authDBEntry :: "(string \<times> string list) list" where
  "authDBEntry = [(''objectClass'', [''olcDatabaseConfig'', ''olcMdbConfig'']), (''olcDatabase'', [''mdb'']),
     (''olcSuffix'', [AuthSuffix]), (''olcRootDN'', [configAdminDN]), (''olcDbDirectory'', [AuthDir]), (''olcAccess'', authDBACLs)]"

definition createAuthDB :: "ldap_srv \<Rightarrow> string \<Rightarrow> history \<Rightarrow> (message + string) \<times> history" where
  "createAuthDB srv addr h =
     (case guardedAdd srv h addr ''olcDatabase=mdb,cn=config'' authDBEntry of
        (e, h') \<Rightarrow>
          if (case e of None \<Rightarrow> False | Some err \<Rightarrow> \<not> IsErrorWithCode err LDAPResultEntryAlreadyExists)
          then (Inl (Msg ''add auth DB'' [MStr addr, MMsg (the e)]), h')
          else (case findAuthDBDN srv h' addr of
              Inl err \<Rightarrow> (Inl (Msg ''re-find auth DB'' [MStr addr, MMsg err]), h')
            | Inr dbDN \<Rightarrow> if dbDN = [] then (Inl (Msg ''auth DB not present after add'' [MStr addr]), h') else (Inr dbDN, h')))"

definition ensureAuthDB :: "ldap_srv \<Rightarrow> string \<Rightarrow> step" where
  "ensureAuthDB srv addr h =
     (case findAuthDBDN srv h addr of
        Inl err \<Rightarrow> (Some (Msg ''search for auth DB'' [MStr addr, MMsg err]), h)
      | Inr dbDN \<Rightarrow>
          (case (if dbDN = [] then createAuthDB srv addr h else (Inr dbDN, h)) of
             (Inl err, h') \<Rightarrow> (Some err, h')
           | (Inr dn, h') \<Rightarrow> andThen (ensureAuthDBACLs srv addr dn) (ensureAuthSuffixEntry srv addr) h'))"

section \<open>The identity of a database\<close>

definition errAuthDBAbsent :: string where
  "errAuthDBAbsent = ''auth database not present on this pod yet''"

definition desiredAuthIdentityAttrs :: "string \<Rightarrow> string \<Rightarrow> (string \<times> string list) list" where
  "desiredAuthIdentityAttrs dbName hash =
     [(''objectClass'', [''simpleSecurityObject'', ''organizationalRole'']), (''cn'', [AuthIdentityCN dbName]),
      (''userPassword'', [hash]), (''description'', [''Syncrepl bind identity for SlapdDatabase '' @ dbName @ '' (ADR-027)''])]"

type_synonym salt_source = "history \<Rightarrow> message + string"

definition ensureAuthIdentity :: "ldap_srv \<Rightarrow> salt_source \<Rightarrow> string \<Rightarrow> string \<Rightarrow> SlapdDatabase \<Rightarrow> step" where
  "ensureAuthIdentity srv salt addr replPassword sd h =
     (let dn = AuthIdentityDN (sd_Name sd) in
      case srv_Read srv h addr dn of
        Inl err \<Rightarrow>
          if \<not> IsErrorWithCode err LDAPResultNoSuchObject then (Some (Msg ''read'' [MStr dn, MMsg err]), h)
          else (case salt h of
              Inl e \<Rightarrow> (Some (Msg ''hash replication password'' [MMsg e]), h)
            | Inr s \<Rightarrow>
                (case send srv h (AddReq addr dn (desiredAuthIdentityAttrs (sd_Name sd) (generateSSHAHash s replPassword))) of
                   (None, h') \<Rightarrow> (None, h')
                 | (Some e, h') \<Rightarrow>
                     if IsErrorWithCode e LDAPResultEntryAlreadyExists then (None, h')
                     else if IsErrorWithCode e LDAPResultNoSuchObject then (Some (Msg errAuthDBAbsent [MStr addr]), h')
                     else (Some (Msg ''add'' [MStr dn, MMsg e]), h')))
      | Inr [] \<Rightarrow> (Some (Msg ''no entry at'' [MStr dn]), h)
      | Inr (entry # _) \<Rightarrow>
          if list_ex (\<lambda>stored. sshaMatches stored replPassword) (entry ''userPassword'') then (None, h)
          else (case salt h of
              Inl e \<Rightarrow> (Some (Msg ''hash replication password'' [MMsg e]), h)
            | Inr s \<Rightarrow>
                (case send srv h (ModifyReq addr dn [(OpReplace, ''userPassword'', [generateSSHAHash s replPassword])]) of
                   (None, h') \<Rightarrow> (None, h')
                 | (Some e, h') \<Rightarrow> (Some (Msg ''set userPassword'' [MStr dn, MMsg e]), h'))))"

definition reconcilePodAuthIdentity ::
  "ldap_srv \<Rightarrow> salt_source \<Rightarrow> string \<Rightarrow> string \<Rightarrow> string \<Rightarrow> SlapdDatabase \<Rightarrow> step" where
  "reconcilePodAuthIdentity srv salt host configPW replPassword sd h =
     (let addr = podAddr host in
      case srv_Dial srv h addr of
        Some err \<Rightarrow> (Some (Msg ''dial'' [MStr addr, MMsg err]), h)
      | None \<Rightarrow>
          (case srv_Bind srv h addr configAdminDN configPW of
             Some err \<Rightarrow> (Some (Msg ''bind'' [MStr host, MMsg err]), h)
           | None \<Rightarrow>
               (case findAuthDBDN srv h addr of
                  Inl err \<Rightarrow> (Some (Msg ''search for auth DB'' [MStr host, MMsg err]), h)
                | Inr dbDN \<Rightarrow>
                    if dbDN = [] then (Some (Msg errAuthDBAbsent []), h)
                    else ensureAuthIdentity srv salt addr replPassword sd h)))"

record authIdentityState =
  ais_AllRWPodsConverged :: bool
  ais_AllROPodsConverged :: bool

definition authIdentityReadyForStanzas :: "authIdentityState \<Rightarrow> bool" where
  "authIdentityReadyForStanzas s = ais_AllRWPodsConverged s"

text \<open>A pod whose step failed, for whatever reason, clears the flag of its fleet.\<close>

fun identityPods ::
  "ldap_srv \<Rightarrow> salt_source \<Rightarrow> string \<Rightarrow> string \<Rightarrow> SlapdDatabase \<Rightarrow> (string \<times> bool) list \<Rightarrow> authIdentityState \<Rightarrow> history
     \<Rightarrow> authIdentityState \<times> history" where
  "identityPods srv salt configPW replPassword sd [] state h = (state, h)"
| "identityPods srv salt configPW replPassword sd ((host, readOnly) # ts) state h =
     (case reconcilePodAuthIdentity srv salt host configPW replPassword sd h of
        (None, h') \<Rightarrow> identityPods srv salt configPW replPassword sd ts state h'
      | (Some err, h') \<Rightarrow>
          identityPods srv salt configPW replPassword sd ts
            (if readOnly then state\<lparr>ais_AllROPodsConverged := False\<rparr> else state\<lparr>ais_AllRWPodsConverged := False\<rparr>) h')"

definition identityTargets :: "SlapdCluster \<Rightarrow> string \<Rightarrow> (string \<times> bool) list" where
  "identityTargets sc domain =
     (let replicas = (if spec_Replicas (sc_Spec sc) = 0 then 1 else spec_Replicas (sc_Spec sc)) in
      map (\<lambda>i. (rwHost sc domain (int i), False)) [0..<nat replicas] @
      map (\<lambda>i. (roHost sc domain (int i), True)) [0..<nat (spec_ReadReplicas (sc_Spec sc))])"

definition reconcileAuthIdentity ::
  "ldap_srv \<Rightarrow> salt_source \<Rightarrow> api_error + string \<Rightarrow> string \<Rightarrow> SlapdCluster \<Rightarrow> SlapdDatabase \<Rightarrow> string \<Rightarrow> history
     \<Rightarrow> authIdentityState \<times> history" where
  "reconcileAuthIdentity srv salt password domain sc sd configPW h =
     (case password of
        Inl err \<Rightarrow> (\<lparr>ais_AllRWPodsConverged = False, ais_AllROPodsConverged = False\<rparr>, h)
      | Inr replPassword \<Rightarrow>
          let converged = \<lparr>ais_AllRWPodsConverged = True, ais_AllROPodsConverged = True\<rparr> in
          if replPassword = [] then (converged, h)
          else identityPods srv salt configPW replPassword sd (identityTargets sc domain) converged h)"

section \<open>The bind user of the data tree\<close>

fun replicationUserLoop ::
  "ldap_srv \<Rightarrow> salt_source \<Rightarrow> string \<Rightarrow> string \<Rightarrow> string \<Rightarrow> string \<Rightarrow> string list \<Rightarrow> step" where
  "replicationUserLoop srv salt rootDN rootPW replDN replPassword [] h =
     (Some (Msg ''no reachable RW pod for replication user creation'' []), h)"
| "replicationUserLoop srv salt rootDN rootPW replDN replPassword (host # hosts) h =
     (let addr = podAddr host in
      if srv_Dial srv h addr \<noteq> None \<or> srv_Bind srv h addr rootDN rootPW \<noteq> None
      then replicationUserLoop srv salt rootDN rootPW replDN replPassword hosts h
      else (case ldapEntryExists srv h addr replDN of
          Inl err \<Rightarrow> replicationUserLoop srv salt rootDN rootPW replDN replPassword hosts h
        | Inr True \<Rightarrow> (None, h)
        | Inr False \<Rightarrow>
            (case salt h of
               Inl e \<Rightarrow> (Some (Msg ''hash replication password'' [MMsg e]), h)
             | Inr s \<Rightarrow>
                 (case send srv h (AddReq addr replDN [(''objectClass'', [''simpleSecurityObject'', ''organizationalRole'']),
                      (''cn'', [''replication'']), (''description'', [''Syncrepl bind account'']),
                      (''userPassword'', [generateSSHAHash s replPassword])]) of
                    (None, h') \<Rightarrow> (None, h')
                  | (Some e, h') \<Rightarrow>
                      if IsErrorWithCode e LDAPResultEntryAlreadyExists then (None, h')
                      else (Some (Msg ''add replication user'' [MStr replDN, MMsg e]), h')))))"

definition ensureReplicationUser ::
  "ldap_srv \<Rightarrow> salt_source \<Rightarrow> api_error + string \<Rightarrow> string \<Rightarrow> SlapdCluster \<Rightarrow> SlapdDatabase \<Rightarrow> string \<Rightarrow> step" where
  "ensureReplicationUser srv salt password domain sc sd rootPW h =
     (case password of
        Inl err \<Rightarrow> (Some (Msg ''read database credentials secret'' []), h)
      | Inr replPassword \<Rightarrow>
          if replPassword = [] then (None, h)
          else
            let rootDN = (if sds_RootDN (sd_Spec sd) = [] then ''cn=admin,'' @ sds_Suffix (sd_Spec sd) else sds_RootDN (sd_Spec sd));
                replDN = ''cn=replication,'' @ sds_Suffix (sd_Spec sd) in
            replicationUserLoop srv salt rootDN rootPW replDN replPassword
              (map (\<lambda>i. rwHost sc domain (int i)) [0..<nat (declaredReplicas sc)]) h)"

section \<open>Both\<close>

definition reconcileReplicationIdentities ::
  "ldap_srv \<Rightarrow> salt_source \<Rightarrow> api_error + string \<Rightarrow> string \<Rightarrow> SlapdCluster \<Rightarrow> SlapdDatabase \<Rightarrow> string \<Rightarrow> string \<Rightarrow> history
     \<Rightarrow> (authIdentityState \<times> bool) \<times> history" where
  "reconcileReplicationIdentities srv salt password domain sc sd configPW rootPW h =
     (let restorePending = (sds_BootstrapFrom (sd_Spec sd) \<noteq> None \<and> \<not> sdst_RestoreApplied (sd_Status sd));
          provider = (repl_Enabled (sc_Replication sc) \<and> ReplicationEnabled sd \<and> \<not> IsConsumerOnly sc);
          (pending, h1) = (if provider \<and> \<not> restorePending
            then (case ensureReplicationUser srv salt password domain sc sd rootPW h of (e, h') \<Rightarrow> (e \<noteq> None, h'))
            else (False, h)) in
      if provider
      then (case reconcileAuthIdentity srv salt password domain sc sd configPW h1 of
          (state, h2) \<Rightarrow>
            ((state, pending \<or> \<not> ais_AllRWPodsConverged state \<or> \<not> ais_AllROPodsConverged state), h2))
      else ((\<lparr>ais_AllRWPodsConverged = True, ais_AllROPodsConverged = True\<rparr>, pending), h1))"

end
