(* ===== verification/Identity_Gate.thy ===== *)
theory Identity_Gate
  imports Auth_Identity Rid_Segment
begin

text \<open>
  Steps 9 to 10 of a SlapdDatabase pass together: the replication identities, the gate on them, and the syncrepl stanzas that
  bind as them (\<open>SlapdDatabaseReconciler.Reconcile\<close>). Shown: against servers that keep what they accept, a stanza is
  written only when every read-write pod holds an entry that verifies the password the stanza carries; and a pass over a
  fleet that answers brings the entry to every pod and the next pass sends nothing.
\<close>

section \<open>The step of the pass\<close>

text \<open>The result is the error the pass ends with, or whether work is pending, with the refusal the phase is computed from.\<close>

definition replicationStep ::
  "get_secret \<Rightarrow> ldap_srv \<Rightarrow> salt_source \<Rightarrow> string \<Rightarrow> time \<Rightarrow> SlapdCluster \<Rightarrow> SlapdDatabase \<Rightarrow> string \<Rightarrow> string \<Rightarrow> string list \<Rightarrow>
   Layout \<Rightarrow> int32 \<Rightarrow> ridSegmentVerdict option \<Rightarrow> history
     \<Rightarrow> (repl_outcome + bool \<times> ridSegmentVerdict option) \<times> SlapdDatabase \<times> history" where
  "replicationStep getSecret srv salt domain now sc sd configPW rootPW healthyPods layout segment refusal h =
     (case reconcileReplicationIdentities srv salt (getDatabaseReplPassword getSecret sd) domain sc sd configPW rootPW h of
        ((identity, identityPending), h1) \<Rightarrow>
          if \<not> (repl_Enabled (sc_Replication sc) \<and> ReplicationEnabled sd) then (Inr (identityPending, refusal), sd, h1)
          else if refusal \<noteq> None then (Inr (True, refusal), sd, h1)
          else if \<not> authIdentityReadyForStanzas identity then (Inr (True, refusal), sd, h1)
          else (case reconcileReplication getSecret srv domain sc sd configPW healthyPods layout segment h1 of
              (ReplReturn skipped None, h2) \<Rightarrow> (Inr (identityPending \<or> skipped, refusal), sd, h2)
            | (ReplReturn skipped (Some v), h2) \<Rightarrow>
                (Inr (identityPending \<or> skipped, Some v),
                 set_sd_Conditions (setCondition (sd_Conditions sd) (ridSegmentCondition now sd v)) sd, h2)
            | (failed, h2) \<Rightarrow> (Inl failed, sd, h2)))"

section \<open>Servers that keep what they accept\<close>

text \<open>
  The passwords stored at an entry, and the documented behaviour of the authentication database of a pod, which only this
  operator writes: an accepted add stores the attributes given, an accepted replacement the values given, a refused
  write and a write that does not concern the passwords of the entry leave them, and an entry that is not there is not
  reported as existing.
\<close>

definition stored_pw :: "ldap_srv \<Rightarrow> history \<Rightarrow> string \<Rightarrow> string \<Rightarrow> string list option" where
  "stored_pw srv h addr dn =
     (case srv_Read srv h addr dn of Inr (e # es) \<Rightarrow> Some (e ''userPassword'') | _ \<Rightarrow> None)"

definition elsewhere :: "string \<Rightarrow> string \<Rightarrow> cfg_request \<Rightarrow> bool" where
  "elsewhere addr dn q \<longleftrightarrow> req_Addr q \<noteq> addr \<or> req_DN q \<noteq> dn \<or>
     (case q of ModifyReq a d changes \<Rightarrow> ''userPassword'' \<notin> set (req_names q) | _ \<Rightarrow> False)"

definition auth_server :: "ldap_srv \<Rightarrow> string \<Rightarrow> bool" where
  "auth_server srv dn \<longleftrightarrow>
     (\<forall>h addr q. elsewhere addr dn q \<or> srv_Write srv h q \<noteq> None \<longrightarrow> stored_pw srv (h @ [q]) addr dn = stored_pw srv h addr dn) \<and>
     (\<forall>h addr attrs. srv_Write srv h (AddReq addr dn attrs) = None \<longrightarrow>
        stored_pw srv (h @ [AddReq addr dn attrs]) addr dn = map_of attrs ''userPassword'') \<and>
     (\<forall>h addr vals. srv_Write srv h (ModifyReq addr dn [(OpReplace, ''userPassword'', vals)]) = None \<longrightarrow>
        stored_pw srv (h @ [ModifyReq addr dn [(OpReplace, ''userPassword'', vals)]]) addr dn = Some vals) \<and>
     (\<forall>h addr attrs e e'. srv_Read srv h addr dn = Inl e \<longrightarrow> IsErrorWithCode e LDAPResultNoSuchObject \<longrightarrow>
        srv_Write srv h (AddReq addr dn attrs) = Some e' \<longrightarrow> \<not> IsErrorWithCode e' LDAPResultEntryAlreadyExists)"

lemma auth_frame: "auth_server srv dn \<Longrightarrow> elsewhere addr dn q \<or> srv_Write srv h q \<noteq> None \<Longrightarrow>
    stored_pw srv (h @ [q]) addr dn = stored_pw srv h addr dn"
  unfolding auth_server_def by blast

lemma auth_frames:
  assumes "auth_server srv dn" and "\<forall>q \<in> set new. elsewhere addr dn q"
  shows "stored_pw srv (h @ new) addr dn = stored_pw srv h addr dn"
  using assms(2)
proof (induction new rule: rev_induct)
  case (snoc q new)
  then show ?case using auth_frame [OF assms(1), of addr q "h @ new"] by simp
qed simp

text \<open>The identity entry of a pod verifies the password.\<close>

definition verified :: "ldap_srv \<Rightarrow> string \<Rightarrow> string \<Rightarrow> history \<Rightarrow> string \<Rightarrow> bool" where
  "verified srv pw dn h addr \<longleftrightarrow> (\<exists>vs. stored_pw srv h addr dn = Some vs \<and> list_ex (\<lambda>stored. sshaMatches stored pw) vs)"

definition salted :: "salt_source \<Rightarrow> bool" where
  "salted salt \<longleftrightarrow> (\<forall>h s. salt h = Inr s \<longrightarrow> s \<noteq> [])"

lemma generated_verifies: "salted salt \<Longrightarrow> salt h = Inr s \<Longrightarrow> sshaMatches (generateSSHAHash s pw) pw"
  using sshaMatches_generated [of s pw pw] by (auto simp: salted_def)

section \<open>One pod\<close>

text \<open>The requests the identity step may send to a pod, and the step on one connection by cases.\<close>

definition identityRequest :: "string \<Rightarrow> string \<Rightarrow> cfg_request \<Rightarrow> bool" where
  "identityRequest addr dn q \<longleftrightarrow> req_Addr q = addr \<and> req_DN q = dn \<and>
     set (req_names q) \<subseteq> {''objectClass'', ''cn'', ''userPassword'', ''description''}"

lemma ensureAuthIdentity_cases:
  assumes "ensureAuthIdentity srv salt addr pw sd h = (res, h')"
  defines "dn \<equiv> AuthIdentityDN (sd_Name sd)"
  shows "(h' = h \<and> (res = None \<longrightarrow> verified srv pw dn h addr)) \<or>
    (\<not> verified srv pw dn h addr \<and>
     (\<exists>s q. salt h = Inr s \<and> h' = h @ [q] \<and> identityRequest addr dn q \<and>
       (q = AddReq addr dn (desiredAuthIdentityAttrs (sd_Name sd) (generateSSHAHash s pw)) \<and>
          (\<exists>e. srv_Read srv h addr dn = Inl e \<and> IsErrorWithCode e LDAPResultNoSuchObject) \<and>
          (res = None \<longrightarrow> srv_Write srv h q = None \<or> (\<exists>e. srv_Write srv h q = Some e \<and> IsErrorWithCode e LDAPResultEntryAlreadyExists)) \<or>
        q = ModifyReq addr dn [(OpReplace, ''userPassword'', [generateSSHAHash s pw])] \<and>
          (res = None \<longrightarrow> srv_Write srv h q = None)) \<and>
       (srv_Write srv h q = None \<longrightarrow> res = None)))"
proof (cases "srv_Read srv h addr dn")
  case (Inl e)
  then have nv: "\<not> verified srv pw dn h addr" by (simp add: verified_def stored_pw_def)
  show ?thesis
  proof (cases "salt h")
    case (Inl e')
    then show ?thesis using assms \<open>srv_Read srv h addr dn = Inl e\<close>
      by (auto simp: ensureAuthIdentity_def Let_def split: if_splits)
  next
    case (Inr s)
    then show ?thesis using assms \<open>srv_Read srv h addr dn = Inl e\<close> nv
      by (auto simp: ensureAuthIdentity_def Let_def send_def identityRequest_def desiredAuthIdentityAttrs_def
          split: if_splits option.splits)
  qed
next
  case (Inr entries)
  show ?thesis
  proof (cases entries)
    case Nil
    then show ?thesis using assms Inr by (auto simp: ensureAuthIdentity_def Let_def)
  next
    case (Cons e es)
    have v: "verified srv pw dn h addr \<longleftrightarrow> list_ex (\<lambda>stored. sshaMatches stored pw) (e ''userPassword'')"
      using Inr Cons by (simp add: verified_def stored_pw_def)
    show ?thesis using assms Inr Cons v
      by (auto simp: ensureAuthIdentity_def Let_def send_def identityRequest_def split: if_splits option.splits sum.splits)
  qed
qed

lemma ensureAuthIdentity_settles:
  assumes "auth_server srv (AuthIdentityDN (sd_Name sd))" and "salted salt"
    and "ensureAuthIdentity srv salt addr pw sd h = (None, h')"
  shows "verified srv pw (AuthIdentityDN (sd_Name sd)) h' addr"
proof -
  let ?dn = "AuthIdentityDN (sd_Name sd)"
  consider "h' = h" "verified srv pw ?dn h addr"
    | s e where "salt h = Inr s" "h' = h @ [AddReq addr ?dn (desiredAuthIdentityAttrs (sd_Name sd) (generateSSHAHash s pw))]"
        "srv_Read srv h addr ?dn = Inl e" "IsErrorWithCode e LDAPResultNoSuchObject"
        "srv_Write srv h (AddReq addr ?dn (desiredAuthIdentityAttrs (sd_Name sd) (generateSSHAHash s pw))) = None \<or>
         (\<exists>e. srv_Write srv h (AddReq addr ?dn (desiredAuthIdentityAttrs (sd_Name sd) (generateSSHAHash s pw))) = Some e \<and>
            IsErrorWithCode e LDAPResultEntryAlreadyExists)"
    | s where "salt h = Inr s" "h' = h @ [ModifyReq addr ?dn [(OpReplace, ''userPassword'', [generateSSHAHash s pw])]]"
        "srv_Write srv h (ModifyReq addr ?dn [(OpReplace, ''userPassword'', [generateSSHAHash s pw])]) = None"
    using ensureAuthIdentity_cases [OF assms(3)] by auto
  then show ?thesis
  proof cases
    case 2
    then have "srv_Write srv h (AddReq addr ?dn (desiredAuthIdentityAttrs (sd_Name sd) (generateSSHAHash s pw))) = None"
      using assms(1) unfolding auth_server_def by metis
    then have "stored_pw srv h' addr ?dn = Some [generateSSHAHash s pw]"
      using assms(1) 2(2) unfolding auth_server_def by (simp add: desiredAuthIdentityAttrs_def)
    then show ?thesis using generated_verifies [OF assms(2) 2(1)] by (simp add: verified_def)
  next
    case 3
    then have "stored_pw srv h' addr ?dn = Some [generateSSHAHash s pw]"
      using assms(1) unfolding auth_server_def by simp
    then show ?thesis using generated_verifies [OF assms(2) 3(1)] by (simp add: verified_def)
  qed simp
qed

lemma pod_identity_cases:
  assumes "reconcilePodAuthIdentity srv salt host cpw pw sd h = (res, h')"
  shows "(res \<noteq> None \<and> h' = h) \<or> ensureAuthIdentity srv salt (podAddr host) pw sd h = (res, h')"
  using assms by (auto simp: reconcilePodAuthIdentity_def Let_def split: option.splits sum.splits if_splits)

lemma pod_identity_requests:
  assumes "reconcilePodAuthIdentity srv salt host cpw pw sd h = (res, h')"
  shows "\<exists>new. h' = h @ new \<and> length new \<le> 1 \<and> (\<forall>q \<in> set new. identityRequest (podAddr host) (AuthIdentityDN (sd_Name sd)) q)"
  using pod_identity_cases [OF assms] ensureAuthIdentity_cases [of srv salt "podAddr host" pw sd h res h'] by fastforce

lemma pod_identity_settles:
  assumes "auth_server srv (AuthIdentityDN (sd_Name sd))" and "salted salt"
    and "reconcilePodAuthIdentity srv salt host cpw pw sd h = (None, h')"
  shows "verified srv pw (AuthIdentityDN (sd_Name sd)) h' (podAddr host)"
  using pod_identity_cases [OF assms(3)] ensureAuthIdentity_settles [OF assms(1,2)] by blast

lemma pod_identity_silent:
  assumes "verified srv pw (AuthIdentityDN (sd_Name sd)) h (podAddr host)"
    and "reconcilePodAuthIdentity srv salt host cpw pw sd h = (res, h')"
  shows "h' = h"
  using pod_identity_cases [OF assms(2)] ensureAuthIdentity_cases [of srv salt "podAddr host" pw sd h res h'] assms(1) by blast

lemma verified_frames:
  assumes "auth_server srv dn" and "\<forall>q \<in> set new. elsewhere addr dn q"
  shows "verified srv pw dn (h @ new) addr = verified srv pw dn h addr"
  using auth_frames [OF assms] by (simp add: verified_def)

lemma pod_identity_keeps:
  assumes "auth_server srv (AuthIdentityDN (sd_Name sd))"
    and "reconcilePodAuthIdentity srv salt host cpw pw sd h = (res, h')"
    and v: "verified srv pw (AuthIdentityDN (sd_Name sd)) h addr"
  shows "verified srv pw (AuthIdentityDN (sd_Name sd)) h' addr"
proof (cases "addr = podAddr host")
  case True
  then show ?thesis using pod_identity_silent [OF _ assms(2)] v by simp
next
  case False
  then show ?thesis using pod_identity_requests [OF assms(2)] verified_frames [OF assms(1)] v
    by (fastforce simp: identityRequest_def elsewhere_def)
qed

section \<open>The fleet\<close>

lemma identityPods_requests:
  "identityPods srv salt cpw pw sd ts st h = (st', h') \<Longrightarrow>
     \<exists>new. h' = h @ new \<and> length new \<le> length ts \<and>
       (\<forall>q \<in> set new. \<exists>(host, ro) \<in> set ts. identityRequest (podAddr host) (AuthIdentityDN (sd_Name sd)) q)"
proof (induction ts arbitrary: st h)
  case (Cons t ts)
  obtain host ro where t: "t = (host, ro)" by (cases t)
  obtain r h1 where p: "reconcilePodAuthIdentity srv salt host cpw pw sd h = (r, h1)" by (cases "reconcilePodAuthIdentity srv salt host cpw pw sd h")
  obtain new1 where 1: "h1 = h @ new1" "length new1 \<le> 1"
    "\<forall>q \<in> set new1. identityRequest (podAddr host) (AuthIdentityDN (sd_Name sd)) q" using pod_identity_requests [OF p] by blast
  obtain st1 where "identityPods srv salt cpw pw sd ts st1 h1 = (st', h')" using Cons.prems t p by (auto split: option.splits)
  then obtain new2 where "h' = h1 @ new2" "length new2 \<le> length ts"
    "\<forall>q \<in> set new2. \<exists>(host, ro) \<in> set ts. identityRequest (podAddr host) (AuthIdentityDN (sd_Name sd)) q" using Cons.IH by blast
  then show ?case using 1 t by (intro exI [of _ "new1 @ new2"]) auto
qed simp

lemma identityPods_keeps:
  assumes "auth_server srv (AuthIdentityDN (sd_Name sd))"
  shows "identityPods srv salt cpw pw sd ts st h = (st', h') \<Longrightarrow> verified srv pw (AuthIdentityDN (sd_Name sd)) h addr \<Longrightarrow>
    verified srv pw (AuthIdentityDN (sd_Name sd)) h' addr"
proof (induction ts arbitrary: st h)
  case (Cons t ts)
  obtain host ro where t: "t = (host, ro)" by (cases t)
  obtain r h1 where p: "reconcilePodAuthIdentity srv salt host cpw pw sd h = (r, h1)" by (cases "reconcilePodAuthIdentity srv salt host cpw pw sd h")
  obtain st1 where "identityPods srv salt cpw pw sd ts st1 h1 = (st', h')" using Cons.prems t p by (auto split: option.splits)
  then show ?case using Cons.IH pod_identity_keeps [OF assms p Cons.prems(2)] by blast
qed simp

text \<open>A flag that is still up at the end was up before, and every pod of its fleet has the entry.\<close>

definition flag :: "bool \<Rightarrow> authIdentityState \<Rightarrow> bool" where
  "flag readOnly st = (if readOnly then ais_AllROPodsConverged st else ais_AllRWPodsConverged st)"

lemma identityPods_flag:
  assumes "auth_server srv (AuthIdentityDN (sd_Name sd))" and "salted salt"
  shows "identityPods srv salt cpw pw sd ts st h = (st', h') \<Longrightarrow> flag ro st' \<Longrightarrow>
    flag ro st \<and> (\<forall>host. (host, ro) \<in> set ts \<longrightarrow> verified srv pw (AuthIdentityDN (sd_Name sd)) h' (podAddr host))"
proof (induction ts arbitrary: st h)
  case (Cons t ts)
  obtain host ro' where t: "t = (host, ro')" by (cases t)
  obtain r h1 where p: "reconcilePodAuthIdentity srv salt host cpw pw sd h = (r, h1)" by (cases "reconcilePodAuthIdentity srv salt host cpw pw sd h")
  let ?st1 = "if r = None then st else if ro' then st\<lparr>ais_AllROPodsConverged := False\<rparr> else st\<lparr>ais_AllRWPodsConverged := False\<rparr>"
  have run: "identityPods srv salt cpw pw sd ts ?st1 h1 = (st', h')" using Cons.prems(1) t p by (auto split: option.splits)
  note ih = Cons.IH [OF run Cons.prems(2)]
  have "r = None" if "ro' = ro" using ih that by (auto simp: flag_def split: if_splits)
  moreover have "verified srv pw (AuthIdentityDN (sd_Name sd)) h' (podAddr host)" if "r = None"
    using pod_identity_settles [OF assms] p that identityPods_keeps [OF assms(1) run] by blast
  moreover have "flag ro st" using ih by (auto simp: flag_def split: if_splits)
  ultimately show ?case using ih t by auto
qed simp

lemma identityPods_silent:
  "(\<forall>(host, ro) \<in> set ts. verified srv pw (AuthIdentityDN (sd_Name sd)) h (podAddr host)) \<Longrightarrow>
     snd (identityPods srv salt cpw pw sd ts st h) = h"
proof (induction ts arbitrary: st)
  case (Cons t ts)
  obtain host ro where t: "t = (host, ro)" by (cases t)
  obtain r h1 where p: "reconcilePodAuthIdentity srv salt host cpw pw sd h = (r, h1)" by (cases "reconcilePodAuthIdentity srv salt host cpw pw sd h")
  have "h1 = h" using pod_identity_silent [OF _ p] Cons.prems t by auto
  then show ?case using Cons t p by (auto split: option.splits)
qed simp

lemma reconcileAuthIdentity_ready:
  assumes "auth_server srv (AuthIdentityDN (sd_Name sd))" and "salted salt" and "pw \<noteq> []"
    and "reconcileAuthIdentity srv salt (Inr pw) domain sc sd cpw h = (st, h')" and "flag ro st"
    and "(host, ro) \<in> set (identityTargets sc domain)"
  shows "verified srv pw (AuthIdentityDN (sd_Name sd)) h' (podAddr host)"
  using identityPods_flag [OF assms(1,2) _ assms(5)] assms(3,4,6) by (auto simp: reconcileAuthIdentity_def Let_def)

lemma rw_target: "0 \<le> spec_Replicas (sc_Spec sc) \<Longrightarrow> i \<in> set [0..declaredReplicas sc - 1] \<Longrightarrow>
    (rwHost sc domain i, False) \<in> set (identityTargets sc domain)"
  by (cases "i = 0") (auto simp: identityTargets_def declaredReplicas_def Let_def image_iff intro!: bexI [of _ "nat i"] split: if_splits)

section \<open>What the steps send\<close>

definition identityNames :: "cfg_request \<Rightarrow> bool" where
  "identityNames q \<longleftrightarrow> ''olcSyncRepl'' \<notin> set (req_names q)"

lemma replicationUserLoop_requests:
  "\<exists>new. snd (replicationUserLoop srv salt rdn rpw udn pw hosts h) = h @ new \<and> list_all identityNames new"
proof (induction hosts arbitrary: h)
  case (Cons host hosts)
  show ?case
    using Cons [of h] by (auto simp: Let_def send_def identityNames_def split: sum.splits option.splits bool.splits)
qed simp

lemma ensureReplicationUser_requests:
  "\<exists>new. snd (ensureReplicationUser srv salt password domain sc sd rpw h) = h @ new \<and> list_all identityNames new"
  using replicationUserLoop_requests by (auto simp: ensureReplicationUser_def Let_def split: sum.splits)

lemma reconcileAuthIdentity_requests:
  "\<exists>new. snd (reconcileAuthIdentity srv salt password domain sc sd cpw h) = h @ new \<and> list_all identityNames new"
proof (cases password)
  case (Inr pw)
  obtain st h' where "identityPods srv salt cpw pw sd (identityTargets sc domain) \<lparr>ais_AllRWPodsConverged = True, ais_AllROPodsConverged = True\<rparr> h = (st, h')"
    by (metis prod.exhaust)
  moreover from identityPods_requests [OF this] obtain new where "h' = h @ new"
    "\<forall>q \<in> set new. \<exists>host. identityRequest (podAddr host) (AuthIdentityDN (sd_Name sd)) q" by blast
  ultimately show ?thesis using Inr
    by (auto simp: reconcileAuthIdentity_def Let_def list_all_iff identityNames_def identityRequest_def)
qed (simp add: reconcileAuthIdentity_def)

lemma reconcileReplicationIdentities_requests:
  "\<exists>new. snd (reconcileReplicationIdentities srv salt password domain sc sd cpw rpw h) = h @ new \<and> list_all identityNames new"
proof -
  obtain e h1 where u: "ensureReplicationUser srv salt password domain sc sd rpw h = (e, h1)" by fastforce
  then obtain n1 where n1: "h1 = h @ n1" "list_all identityNames n1"
    using ensureReplicationUser_requests [of srv salt password domain sc sd rpw h] by auto
  let ?A = "reconcileAuthIdentity srv salt password domain sc sd cpw"
  have "\<exists>new. snd (?A h) = h @ new \<and> list_all identityNames new" "\<exists>new. snd (?A h1) = h @ new \<and> list_all identityNames new"
    using reconcileAuthIdentity_requests [of srv salt password domain sc sd cpw h]
      reconcileAuthIdentity_requests [of srv salt password domain sc sd cpw h1] n1 by auto
  then show ?thesis using u n1
    by (auto simp: reconcileReplicationIdentities_def Let_def split: prod.splits if_splits)
qed

lemma reconcileReplication_touch:
  "\<exists>new. snd (reconcileReplication gs srv domain sc sd cpw healthyPods l segment h) = h @ new \<and> (\<forall>q \<in> set new. \<exists>rids. carries rids q)"
proof -
  let ?R = "reconcileReplication gs srv domain sc sd cpw healthyPods l segment h"
  let ?ps = "repl_ExternalPeers (sc_Replication sc)"
  show ?thesis
  proof (cases "\<exists>rp ocs eps. repl_Enabled (sc_Replication sc) \<and> \<not> (\<not> declaredReplicas sc > 1 \<and> ?ps = []) \<and>
      getDatabaseReplPassword gs sd = Inr rp \<and>
      resolvePeers (resolvePeer gs sc sd rp l segment) ?ps [] [] = Some (ocs, eps) \<and>
      v_OK (judgePeerResolutions ?ps ocs)")
    case False
    then have "snd ?R = h" unfolding reconcileReplication_def Let_def by (auto split: sum.splits option.splits)
    then show ?thesis by simp
  next
    case True
    then obtain rp ocs eps where en: "repl_Enabled (sc_Replication sc)" "\<not> (\<not> declaredReplicas sc > 1 \<and> ?ps = [])"
      and rp: "getDatabaseReplPassword gs sd = Inr rp"
      and r: "resolvePeers (resolvePeer gs sc sd rp l segment) ?ps [] [] = Some (ocs, eps)"
      and ok: "v_OK (judgePeerResolutions ?ps ocs)" by blast
    let ?L1 = "podsLoop (rwStep srv sc sd domain cpw healthyPods l segment rp eps) [0..declaredReplicas sc - 1] h False"
    let ?L2 = "\<lambda>h1 sk. podsLoop (roStep srv sc sd domain cpw healthyPods l segment rp) [0..spec_ReadReplicas (sc_Spec sc) - 1] h1 sk"
    have 1: "\<exists>new. snd ?L1 = h @ new \<and> (\<forall>q \<in> set new. \<exists>rids. carries rids q)"
      using rw.loop_appends [of srv sc sd domain cpw healthyPods l segment rp eps "[0..declaredReplicas sc - 1]" h False]
      by (fastforce simp: rwAllowed_def)
    have 2: "\<exists>new. snd (?L2 h1 sk) = h1 @ new \<and> (\<forall>q \<in> set new. \<exists>rids. carries rids q)" for h1 sk
      using ro.loop_appends [of srv sc sd domain cpw healthyPods l segment rp "[0..spec_ReadReplicas (sc_Spec sc) - 1]" h1 sk]
      by (fastforce simp: roAllowed_def)
    have R: "snd ?R = (case ?L1 of (Inl oc, h1) \<Rightarrow> h1 | (Inr sk, h1) \<Rightarrow> snd (?L2 h1 sk))"
      unfolding reconcileReplication_ready [OF en rp r ok] by (auto split: prod.splits sum.splits)
    obtain res1 h1 where L1: "?L1 = (res1, h1)" by fastforce
    then obtain n1 where n1: "h1 = h @ n1" "\<forall>q \<in> set n1. \<exists>rids. carries rids q" using 1 by auto
    have "\<exists>n2. snd ?R = h1 @ n2 \<and> (\<forall>q \<in> set n2. \<exists>rids. carries rids q)"
      using 2 by (cases res1) (simp_all add: R L1)
    then obtain n2 where "snd ?R = h @ n1 @ n2" "\<forall>q \<in> set (n1 @ n2). \<exists>rids. carries rids q" using n1 by auto
    then show ?thesis by blast
  qed
qed

lemma carries_elsewhere: "carries rids q \<Longrightarrow> elsewhere addr dn q"
  by (fastforce simp: carries_def elsewhere_def)

section \<open>Properties\<close>

text \<open>
  C7. Stanzas wait for the identities they bind as: in a pass of a cluster that is a provider, any write of olcSyncRepl
  implies that at the end of the step the entry \<open>cn=repl-<database>,cn=slaptain-auth\<close> of every read-write pod verifies
  exactly the replication password of the Secret - or that this password is empty: then no entry is asked for, and the stanzas
  are written all the same. The servers are taken to keep what they accept; the replica count is not negative, as the CRD requires.
\<close>

theorem stanzas_wait_for_identities:
  assumes "auth_server srv (AuthIdentityDN (sd_Name sd))" and "salted salt"
    and "getDatabaseReplPassword getSecret sd = Inr pw"
    and "\<not> IsConsumerOnly sc" and "0 \<le> spec_Replicas (sc_Spec sc)"
    and "replicationStep getSecret srv salt domain now sc sd configPW rootPW healthyPods layout segment refusal h = (res, sd', h')"
    and "list_ex (\<lambda>q. ''olcSyncRepl'' \<in> set (req_names q)) (drop (length h) h')"
  shows "pw = [] \<or> list_all (\<lambda>i. verified srv pw (AuthIdentityDN (sd_Name sd)) h' (podAddr (rwHost sc domain i))) [0..declaredReplicas sc - 1]"
proof -
  let ?I = "reconcileReplicationIdentities srv salt (Inr pw) domain sc sd configPW rootPW h"
  obtain st pend h1 where I: "?I = ((st, pend), h1)" by (metis prod.exhaust)
  obtain n1 where n1: "h1 = h @ n1" "list_all identityNames n1"
    using reconcileReplicationIdentities_requests [of srv salt "Inr pw" domain sc sd configPW rootPW h] I by auto
  have "h' \<noteq> h1" using assms(7) n1 by (auto simp: list_ex_iff list_all_iff identityNames_def)
  then have gate: "repl_Enabled (sc_Replication sc)" "ReplicationEnabled sd" "flag False st"
    and h': "h' = snd (reconcileReplication getSecret srv domain sc sd configPW healthyPods layout segment h1)"
    using assms(6) unfolding replicationStep_def assms(3) I
    by (auto simp: authIdentityReadyForStanzas_def flag_def split: if_splits prod.splits repl_outcome.splits option.splits)
  obtain h0 where a: "reconcileAuthIdentity srv salt (Inr pw) domain sc sd configPW h0 = (st, h1)"
    using I gate(1,2) assms(4) unfolding reconcileReplicationIdentities_def Let_def by (auto split: prod.splits)
  obtain n2 where n2: "h' = h1 @ n2" "\<forall>q \<in> set n2. \<exists>rids. carries rids q"
    using reconcileReplication_touch [of getSecret srv domain sc sd configPW healthyPods layout segment h1] h' by auto
  have "list_all (\<lambda>i. verified srv pw (AuthIdentityDN (sd_Name sd)) h' (podAddr (rwHost sc domain i))) [0..declaredReplicas sc - 1]"
    if "pw \<noteq> []" unfolding list_all_iff
  proof
    fix i assume i: "i \<in> set [0..declaredReplicas sc - 1]"
    have "verified srv pw (AuthIdentityDN (sd_Name sd)) h1 (podAddr (rwHost sc domain i))"
      by (rule reconcileAuthIdentity_ready [OF assms(1,2) that a gate(3) rw_target [OF assms(5) i]])
    then show "verified srv pw (AuthIdentityDN (sd_Name sd)) h' (podAddr (rwHost sc domain i))"
      using verified_frames [OF assms(1)] n2 carries_elsewhere by metis
  qed
  then show ?thesis by blast
qed

text \<open>The servers of a fleet that is up: every pod is reached, has the database, and takes the writes.\<close>

definition answering :: "ldap_srv \<Rightarrow> salt_source \<Rightarrow> string \<Rightarrow> string \<Rightarrow> bool" where
  "answering srv salt cpw dn \<longleftrightarrow>
     (\<forall>h. \<exists>s. salt h = Inr s) \<and>
     (\<forall>h addr. srv_Dial srv h addr = None \<and> srv_Bind srv h addr configAdminDN cpw = None \<and>
        (\<exists>d ds. srv_SearchSuffix srv h addr AuthSuffix = Inr (d # ds) \<and> d \<noteq> [])) \<and>
     (\<forall>h addr. (\<exists>e es. srv_Read srv h addr dn = Inr (e # es)) \<or>
        (\<exists>e. srv_Read srv h addr dn = Inl e \<and> IsErrorWithCode e LDAPResultNoSuchObject \<and>
           (\<forall>attrs. srv_Write srv h (AddReq addr dn attrs) = None))) \<and>
     (\<forall>h addr ch. srv_Write srv h (ModifyReq addr dn ch) = None)"

lemma pod_identity_answered:
  assumes "answering srv salt cpw (AuthIdentityDN (sd_Name sd))"
  shows "fst (reconcilePodAuthIdentity srv salt host cpw pw sd h) = None"
proof -
  obtain s where s: "salt h = Inr s" using assms unfolding answering_def by blast
  obtain d ds where d: "srv_SearchSuffix srv h (podAddr host) AuthSuffix = Inr (d # ds)" "d \<noteq> []"
    and up: "srv_Dial srv h (podAddr host) = None" "srv_Bind srv h (podAddr host) configAdminDN cpw = None"
    using assms unfolding answering_def by blast
  have "reconcilePodAuthIdentity srv salt host cpw pw sd h = ensureAuthIdentity srv salt (podAddr host) pw sd h"
    by (simp add: reconcilePodAuthIdentity_def Let_def up d findAuthDBDN_def findDataDBDNOptional_def)
  moreover consider e es where "srv_Read srv h (podAddr host) (AuthIdentityDN (sd_Name sd)) = Inr (e # es)"
    | e where "srv_Read srv h (podAddr host) (AuthIdentityDN (sd_Name sd)) = Inl e" "IsErrorWithCode e LDAPResultNoSuchObject"
        "\<forall>attrs. srv_Write srv h (AddReq (podAddr host) (AuthIdentityDN (sd_Name sd)) attrs) = None"
    using assms unfolding answering_def by metis
  then have "fst (ensureAuthIdentity srv salt (podAddr host) pw sd h) = None"
    using assms s by cases (simp_all add: ensureAuthIdentity_def Let_def send_def answering_def)
  ultimately show ?thesis by simp
qed

lemma identityPods_answered:
  assumes "answering srv salt cpw (AuthIdentityDN (sd_Name sd))"
  shows "fst (identityPods srv salt cpw pw sd ts st h) = st"
proof (induction ts arbitrary: h)
  case (Cons t ts)
  obtain host ro where "t = (host, ro)" by (cases t)
  moreover obtain h1 where "reconcilePodAuthIdentity srv salt host cpw pw sd h = (None, h1)"
    using pod_identity_answered [OF assms, of host pw h] by (metis prod.collapse)
  ultimately show ?case using Cons by simp
qed simp

lemma reconcileAuthIdentity_answered:
  assumes "answering srv salt cpw (AuthIdentityDN (sd_Name sd))"
  shows "fst (reconcileAuthIdentity srv salt (Inr pw) domain sc sd cpw h) = \<lparr>ais_AllRWPodsConverged = True, ais_AllROPodsConverged = True\<rparr>"
  using identityPods_answered [OF assms] by (simp add: reconcileAuthIdentity_def Let_def)

text \<open>
  C15. The identities converge: over a fleet that answers, one pass leaves on every pod, read-write and read-only, an entry that
  verifies the password of the Secret, whatever was there before - nothing, a stripped or an outdated value -, with at most one
  request to a pod; both flags are up, and the next pass sends nothing although every hash is salted afresh.
\<close>

theorem identities_converge:
  assumes "auth_server srv (AuthIdentityDN (sd_Name sd))" and "salted salt" and "pw \<noteq> []"
    and "answering srv salt cpw (AuthIdentityDN (sd_Name sd))"
    and "reconcileAuthIdentity srv salt (Inr pw) domain sc sd cpw h = (st, h')"
  shows "st = \<lparr>ais_AllRWPodsConverged = True, ais_AllROPodsConverged = True\<rparr> \<and>
         length h' \<le> length h + length (identityTargets sc domain) \<and>
         list_all (\<lambda>(host, ro). verified srv pw (AuthIdentityDN (sd_Name sd)) h' (podAddr host)) (identityTargets sc domain) \<and>
         reconcileAuthIdentity srv salt (Inr pw) domain sc sd cpw h' = (st, h')"
proof -
  let ?up = "\<lparr>ais_AllRWPodsConverged = True, ais_AllROPodsConverged = True\<rparr>"
  let ?run = "\<lambda>h. identityPods srv salt cpw pw sd (identityTargets sc domain) ?up h"
  have run: "?run h = (st, h')" using assms(3,5) by (simp add: reconcileAuthIdentity_def Let_def)
  have st: "st = ?up" using reconcileAuthIdentity_answered [OF assms(4), of pw domain sc h] assms(5) by simp
  have v: "verified srv pw (AuthIdentityDN (sd_Name sd)) h' (podAddr host)" if "(host, ro) \<in> set (identityTargets sc domain)" for host ro
    using reconcileAuthIdentity_ready [OF assms(1-3,5) _ that] st by (cases ro) (auto simp: flag_def)
  have "?run h' = (?up, h')"
    using identityPods_answered [OF assms(4), of pw "identityTargets sc domain" ?up h']
      identityPods_silent [of "identityTargets sc domain" srv pw sd h' salt cpw ?up] v by (auto simp: prod_eq_iff)
  moreover have "length h' \<le> length h + length (identityTargets sc domain)" using identityPods_requests [OF run] by auto
  ultimately show ?thesis using st v assms(3) by (auto simp: reconcileAuthIdentity_def Let_def list_all_iff)
qed

section \<open>A concrete fleet\<close>

text \<open>A server that replays the history: the first add of the entry and every replacement of its password take effect.\<close>

fun replayed :: "string \<Rightarrow> string \<Rightarrow> string list option \<Rightarrow> cfg_request \<Rightarrow> string list option" where
  "replayed addr dn st (AddReq a d attrs) = (if a = addr \<and> d = dn \<and> st = None then map_of attrs ''userPassword'' else st)"
| "replayed addr dn st (ModifyReq a d [(OpReplace, attr, vals)]) = (if a = addr \<and> d = dn \<and> attr = ''userPassword'' then Some vals else st)"
| "replayed addr dn st q = st"

definition replay :: "history \<Rightarrow> string \<Rightarrow> string \<Rightarrow> string list option" where
  "replay h addr dn = foldl (replayed addr dn) None h"

definition replay_srv :: "string \<Rightarrow> ldap_srv" where
  "replay_srv dn =
     \<lparr>srv_Dial = \<lambda>h addr. None, srv_Bind = \<lambda>h addr d p. None,
      srv_SearchSuffix = \<lambda>h addr s. Inr [''olcDatabase={1}mdb,cn=config''],
      srv_Read = \<lambda>h addr d. if d \<noteq> dn then Inr [\<lambda>a. []]
        else (case replay h addr d of None \<Rightarrow> Inl (Msg ''LDAP Result Code'' [MInt 32]) | Some vs \<Rightarrow> Inr [\<lambda>a. if a = ''userPassword'' then vs else []]),
      srv_Write = \<lambda>h q. (case q of
          AddReq addr d attrs \<Rightarrow> if replay h addr d = None then None else Some (Msg ''LDAP Result Code'' [MInt 68])
        | _ \<Rightarrow> None)\<rparr>"

lemma replay_snoc: "replay (h @ [q]) addr dn = replayed addr dn (replay h addr dn) q"
  by (simp add: replay_def)

lemma replay_stored: "stored_pw (replay_srv dn) h addr dn = replay h addr dn"
  by (simp add: stored_pw_def replay_srv_def split: option.splits)

lemma replayed_elsewhere: "elsewhere addr dn q \<Longrightarrow> replayed addr dn st q = st"
  by (induction addr dn st q rule: replayed.induct) (auto simp: elsewhere_def)

lemma replay_auth_server: "auth_server (replay_srv dn) dn"
proof -
  have "replayed addr dn (replay h addr dn) q = replay h addr dn" if "srv_Write (replay_srv dn) h q \<noteq> None" for h addr q
    using that by (cases q) (auto simp: replay_srv_def split: if_splits)
  then show ?thesis
    unfolding auth_server_def replay_stored replay_snoc
    by (auto simp: replayed_elsewhere) (auto simp: replay_srv_def split: option.splits if_splits)
qed

lemma replay_answering: "answering (replay_srv dn) (\<lambda>h. Inr ''saltsalt'') cpw dn"
  unfolding answering_def by (auto simp: replay_srv_def IsErrorWithCode_def split: option.splits)

lemma constant_salt: "salted (\<lambda>h. Inr ''saltsalt'')"
  by (simp add: salted_def)

definition demo_secret :: get_secret where
  "demo_secret ns name = Inr [(secretKeyReplicationPassword, ''secret'')]"


text \<open>A pass over a fleet of two pods, the first of which has a stripped entry and the second none.\<close>

definition demo_history :: history where
  "demo_history = [AddReq (podAddr (rwHost (example_cluster 2 []) ''cluster.local'' 0)) (AuthIdentityDN ''a'') [(''userPassword'', [])]]"

definition demo_step :: "(repl_outcome + bool \<times> ridSegmentVerdict option) \<times> SlapdDatabase \<times> history" where
  "demo_step = replicationStep demo_secret (replay_srv (AuthIdentityDN ''a'')) (\<lambda>h. Inr ''saltsalt'') ''cluster.local'' 0
     (example_cluster 2 []) (base_database ''a'' (Some 0)) ''pw'' ''pw'' [''slapd-0''] DefaultLayout 0 None demo_history"

lemma demo_stanzas:
  assumes "length h = n"
  shows "list_ex (\<lambda>q. ''olcSyncRepl'' \<in> set (req_names q))
   (drop n (snd (reconcileReplication demo_secret (replay_srv (AuthIdentityDN ''a'')) ''cluster.local''
     (example_cluster 2 []) (base_database ''a'' (Some 0)) ''pw'' [''slapd-0''] DefaultLayout 0 h)))"
  by (code_simp, simp add: assms [symmetric])

lemma demo_facts:
  "sd_Name (base_database ''a'' (Some 0)) = ''a''" "sds_BootstrapFrom (sd_Spec (base_database ''a'' (Some 0))) = None"
  "getDatabaseReplPassword demo_secret (base_database ''a'' (Some 0)) = Inr ''secret''" "''secret'' \<noteq> []"
  "\<not> IsConsumerOnly (example_cluster 2 [])" "0 \<le> spec_Replicas (sc_Spec (example_cluster 2 []))"
  "repl_Enabled (sc_Replication (example_cluster 2 []))" "ReplicationEnabled (base_database ''a'' (Some 0))"
  by code_simp+

lemma list_ex_drop_mono: "m \<le> n \<Longrightarrow> list_ex P (drop n xs) \<Longrightarrow> list_ex P (drop m xs)"
  using set_drop_subset_set_drop [of m n xs] by (auto simp: list_ex_iff)

lemma demo_written: "list_ex (\<lambda>q. ''olcSyncRepl'' \<in> set (req_names q)) (drop (length demo_history) (snd (snd demo_step)))"
proof -
  let ?srv = "replay_srv (AuthIdentityDN ''a'')" and ?salt = "\<lambda>h. Inr ''saltsalt''" and ?sc = "example_cluster 2 []" and ?sd = "base_database ''a'' (Some 0)"
  let ?I = "reconcileReplicationIdentities ?srv ?salt (Inr ''secret'') ''cluster.local'' ?sc ?sd ''pw'' ''pw'' demo_history"
  obtain st pend h1 where I: "?I = ((st, pend), h1)" by (metis prod.exhaust)
  obtain h0 where "reconcileAuthIdentity ?srv ?salt (Inr ''secret'') ''cluster.local'' ?sc ?sd ''pw'' h0 = (st, h1)"
    using I demo_facts unfolding reconcileReplicationIdentities_def Let_def by (auto split: prod.splits)
  then have "st = \<lparr>ais_AllRWPodsConverged = True, ais_AllROPodsConverged = True\<rparr>"
    using reconcileAuthIdentity_answered [of ?srv ?salt "''pw''" ?sd, unfolded demo_facts(1), OF replay_answering, of "''secret''" "''cluster.local''" ?sc h0]
    by (simp only: fst_conv)
  then have "snd (snd demo_step) = snd (reconcileReplication demo_secret ?srv ''cluster.local'' ?sc ?sd ''pw'' [''slapd-0''] DefaultLayout 0 h1)"
    unfolding demo_step_def replicationStep_def demo_facts(3) I using demo_facts(7,8)
    by (auto simp: authIdentityReadyForStanzas_def split: prod.splits repl_outcome.splits option.splits)
  moreover obtain n1 where "h1 = demo_history @ n1"
    using reconcileReplicationIdentities_requests [of ?srv ?salt "Inr ''secret''" "''cluster.local''" ?sc ?sd "''pw''" "''pw''" demo_history] I by auto
  ultimately show ?thesis using list_ex_drop_mono [OF _ demo_stanzas [OF refl, of h1]] by simp
qed

theorem stanzas_wait_for_identities_witness:
  "list_all (\<lambda>i. verified (replay_srv (AuthIdentityDN ''a'')) ''secret'' (AuthIdentityDN ''a'') (snd (snd demo_step))
     (podAddr (rwHost (example_cluster 2 []) ''cluster.local'' i))) [0..declaredReplicas (example_cluster 2 []) - 1]"
proof -
  have p: "demo_step = (fst demo_step, fst (snd demo_step), snd (snd demo_step))" by simp
  show ?thesis
    using stanzas_wait_for_identities [of "replay_srv (AuthIdentityDN ''a'')" "base_database ''a'' (Some 0)", unfolded demo_facts(1),
      OF replay_auth_server constant_salt demo_facts(3,5,6) p [unfolded demo_step_def], folded demo_step_def, OF demo_written] demo_facts(4)
    by blast
qed

theorem identities_converge_witness:
  "\<exists>st h'. reconcileAuthIdentity (replay_srv (AuthIdentityDN ''a'')) (\<lambda>h. Inr ''saltsalt'') (Inr ''secret'') ''cluster.local''
      (example_cluster 2 []) (base_database ''a'' (Some 0)) ''pw'' demo_history = (st, h') \<and>
    list_all (\<lambda>(host, ro). verified (replay_srv (AuthIdentityDN ''a'')) ''secret'' (AuthIdentityDN ''a'') h' (podAddr host))
      (identityTargets (example_cluster 2 []) ''cluster.local'')"
proof -
  obtain st h' where r: "reconcileAuthIdentity (replay_srv (AuthIdentityDN ''a'')) (\<lambda>h. Inr ''saltsalt'') (Inr ''secret'') ''cluster.local''
      (example_cluster 2 []) (base_database ''a'' (Some 0)) ''pw'' demo_history = (st, h')" by (metis prod.exhaust)
  show ?thesis
    using identities_converge [of "replay_srv (AuthIdentityDN ''a'')" "base_database ''a'' (Some 0)", unfolded demo_facts(1),
      OF replay_auth_server constant_salt demo_facts(4) replay_answering r] r by blast
qed

end
