(* ===== verification/Image_Ref.thy ===== *)
theory Image_Ref
  imports Go_Text Api_Types
begin

text \<open>
  The data-plane images: \<open>imageselector.go\<close> and, of \<open>slapdcluster_controller.go\<close>, \<open>resolveImageRef\<close>,
  \<open>defaultDataPlaneRepo\<close> and \<open>stripImageTag\<close>. A reference is \<open>repository:tag\<close>; the selector of the cluster chooses a
  suffix for a tag that is not pinned.
\<close>

section \<open>References\<close>

definition canonicalRegistryPath :: string where
  "canonicalRegistryPath = ''ghcr.io/chuck-chuck-chuck-net/slaptain''"

definition resolveImageRef :: "SlapdImageConfig \<Rightarrow> string \<Rightarrow> string \<Rightarrow> string" where
  "resolveImageRef img defaultRepo defaultTag =
     (let repo = (if img_Repository img = [] then defaultRepo else img_Repository img);
          tag = (if img_Tag img = [] then defaultTag else img_Tag img);
          tag = (if tag = [] then ''latest'' else tag) in
      repo @ '':'' @ tag)"

definition stripImageTag :: "string \<Rightarrow> string" where
  "stripImageTag imageRef =
     (if imageRef = [] then []
      else
        let i = index_byte CHR ''@'' imageRef;
            imageRef = (if i \<ge> 0 then take (nat i) imageRef else imageRef);
            slash = last_index_byte CHR ''/'' imageRef;
            colon = last_index_byte CHR '':'' imageRef in
        if colon > slash then take (nat colon) imageRef else imageRef)"

definition defaultDataPlaneRepo :: "string \<Rightarrow> string \<Rightarrow> string" where
  "defaultDataPlaneRepo operatorImage component =
     (let base = stripImageTag operatorImage in
      if base = [] then canonicalRegistryPath @ ''/'' @ component
      else let i = last_index_byte CHR ''/'' base in
        if i \<ge> 0 then take (nat (i + 1)) base @ component else component)"

section \<open>The selector\<close>

definition imageTagSuffixes :: "(string \<times> (string \<times> string) list) list" where
  "imageTagSuffixes =
     [(''lmdb1.0'', [(''pure'', []), (''slaptain'', ''-ol2.7.1-slaptain'')]),
      (''lmdb0.9'', [(''pure'', ''-ol26''), (''slaptain'', ''-ol26src'')])]"

definition imageTagSuffixForSelector :: "SlapdImageSelector option \<Rightarrow> message + string" where
  "imageTagSuffixForSelector sel =
     (let format = (case sel of None \<Rightarrow> ''lmdb1.0''
            | Some s \<Rightarrow> if sel_StorageFormat s \<noteq> [] then sel_StorageFormat s else ''lmdb1.0'');
          flavour = (case sel of None \<Rightarrow> ''pure''
            | Some s \<Rightarrow> if sel_Flavour s \<noteq> [] then sel_Flavour s else ''pure'') in
      case map_of imageTagSuffixes format of
        None \<Rightarrow> Inl (Msg ''unknown storageFormat'' [MStr format])
      | Some byFlavour \<Rightarrow>
          (case map_of byFlavour flavour of
             None \<Rightarrow> Inl (Msg ''unknown flavour'' [MStr flavour])
           | Some suffix \<Rightarrow> Inr suffix))"

definition resolveImageRefSelected :: "SlapdImageConfig \<Rightarrow> string \<Rightarrow> string \<Rightarrow> string \<Rightarrow> string" where
  "resolveImageRefSelected img defaultRepo defaultTag suffix =
     (if img_Tag img \<noteq> [] then resolveImageRef img defaultRepo defaultTag
      else
        let tag = (if defaultTag = [] then ''latest'' else defaultTag) in
        resolveImageRef \<lparr>img_Repository = img_Repository img, img_Tag = tag @ suffix\<rparr> defaultRepo defaultTag)"

abbreviation "componentSlapd \<equiv> ''slapd''"
abbreviation "componentSlapdInit \<equiv> ''slapd-init''"

definition dataPlaneImage :: "SlapdCluster \<Rightarrow> string \<Rightarrow> string \<Rightarrow> string \<Rightarrow> message + string" where
  "dataPlaneImage sc component operatorImage defaultTag =
     (let images = spec_Images (sc_Spec sc) in
      case imageTagSuffixForSelector (imgs_Select images) of
        Inl err \<Rightarrow> Inl err
      | Inr suffix \<Rightarrow>
          let resolve = (\<lambda>img. Inr (resolveImageRefSelected img (defaultDataPlaneRepo operatorImage component) defaultTag suffix)) in
          if component = componentSlapd then resolve (imgs_Slapd images)
          else if component = componentSlapdInit then resolve (imgs_Init images)
          else Inl (Msg ''not a data-plane image component'' [MStr component]))"

section \<open>Stripping a reference\<close>

lemma strip_tag:
  assumes "CHR ''@'' \<notin> set (repo @ tag)" and "CHR '':'' \<notin> set tag" and "CHR ''/'' \<notin> set tag"
  shows "stripImageTag (repo @ '':'' @ tag) = repo"
proof -
  let ?r = "repo @ CHR '':'' # tag"
  have "\<not> index_byte CHR ''@'' ?r \<ge> 0" using assms(1) by (simp add: not_le)
  moreover have "last_index_byte CHR '':'' ?r = int (length repo)" using assms(2) by (rule last_index_byte_append)
  moreover have "last_index_byte CHR ''/'' ?r = last_index_byte CHR ''/'' repo"
    using assms(3) by (intro last_index_byte_left) auto
  ultimately show ?thesis
    using last_index_byte_less [of "CHR ''/''" repo] by (simp add: stripImageTag_def Let_def)
qed

lemma strip_digest:
  assumes "CHR ''@'' \<notin> set repo" and "repo \<noteq> []"
  shows "stripImageTag (repo @ ''@'' @ digest) = stripImageTag repo"
proof -
  have "\<not> 0 \<le> index_byte CHR ''@'' repo" using assms(1) by (simp add: not_le)
  then show ?thesis
    using assms index_byte_append [of "CHR ''@''" repo digest] by (simp add: stripImageTag_def Let_def)
qed

lemma sibling_repo:
  assumes "CHR ''@'' \<notin> set (path @ name @ tag)" and "CHR '':'' \<notin> set tag" and "CHR ''/'' \<notin> set (name @ tag)"
  shows "defaultDataPlaneRepo (path @ ''/'' @ name @ '':'' @ tag) component = path @ ''/'' @ component"
proof -
  have "stripImageTag ((path @ ''/'' @ name) @ '':'' @ tag) = path @ ''/'' @ name"
    using assms by (intro strip_tag) auto
  moreover have "last_index_byte CHR ''/'' (path @ CHR ''/'' # name) = int (length path)"
    using assms(3) by (intro last_index_byte_append) auto
  ultimately show ?thesis by (simp add: defaultDataPlaneRepo_def Let_def nat_add_distrib)
qed

section \<open>Properties\<close>

text \<open>
  C20. The images the operator derives are siblings of its own: from an operator image
  \<open>path/name:tag\<close>, whose registry may carry a port, the repository of a component is \<open>path/component\<close>; and a rendered
  reference strips back to its repository.
\<close>

theorem images_are_siblings:
  assumes "CHR ''@'' \<notin> set (path @ name @ tag @ component)" and "CHR '':'' \<notin> set tag" and "CHR ''/'' \<notin> set (name @ tag)"
    and "img_Repository img = []" and "img_Tag img = []" and "tag \<noteq> []"
  shows "let ref = resolveImageRef img (defaultDataPlaneRepo (path @ ''/'' @ name @ '':'' @ tag) component) tag in
         ref = path @ ''/'' @ component @ '':'' @ tag \<and> stripImageTag ref = path @ ''/'' @ component \<and>
         stripImageTag (path @ ''/'' @ component @ ''@'' @ digest) = stripImageTag (path @ ''/'' @ component)"
proof -
  have repo: "defaultDataPlaneRepo (path @ ''/'' @ name @ '':'' @ tag) component = path @ ''/'' @ component"
    using assms by (intro sibling_repo) auto
  have ref: "resolveImageRef img (path @ ''/'' @ component) tag = path @ ''/'' @ component @ '':'' @ tag"
    using assms by (simp add: resolveImageRef_def Let_def)
  have strip: "stripImageTag ((path @ ''/'' @ component) @ '':'' @ tag) = path @ ''/'' @ component"
    using assms by (intro strip_tag) auto
  have digest: "stripImageTag ((path @ ''/'' @ component) @ ''@'' @ digest) = stripImageTag (path @ ''/'' @ component)"
    using assms by (intro strip_digest) auto
  show ?thesis unfolding repo ref Let_def using strip digest by simp
qed

theorem images_are_siblings_witness:
  "defaultDataPlaneRepo ''reg.lan:5000/slaptain/operator:v1'' ''slapd'' = ''reg.lan:5000/slaptain/slapd'' \<and>
   resolveImageRef \<lparr>img_Repository = [], img_Tag = []\<rparr>
     (defaultDataPlaneRepo ''reg.lan:5000/slaptain/operator:v1'' ''slapd'') ''v1'' = ''reg.lan:5000/slaptain/slapd:v1''"
  using images_are_siblings [of "''reg.lan:5000/slaptain''" "''operator''" "''v1''" "''slapd''"
      "\<lparr>img_Repository = [], img_Tag = []\<rparr>" "''sha256:0''"]
  by (simp add: resolveImageRef_def Let_def)

text \<open>
  One selector governs both data-plane images: with neither tag pinned the two references carry the
  same tag, the default followed by the selector's suffix, and an unknown selector refuses both with the same error; a
  pinned image keeps its tag as written.
\<close>

theorem one_build_for_both:
  "(case imageTagSuffixForSelector (imgs_Select (spec_Images (sc_Spec sc))) of
      Inl err \<Rightarrow> dataPlaneImage sc componentSlapd op t = Inl err \<and> dataPlaneImage sc componentSlapdInit op t = Inl err
    | Inr suffix \<Rightarrow>
        (let build = (if t = [] then ''latest'' else t) @ suffix;
             repo = (\<lambda>img c. if img_Repository img = [] then defaultDataPlaneRepo op c else img_Repository img);
             ref = (\<lambda>img c. repo img c @ '':'' @ (if img_Tag img = [] then build else img_Tag img)) in
         dataPlaneImage sc componentSlapd op t = Inr (ref (imgs_Slapd (spec_Images (sc_Spec sc))) componentSlapd) \<and>
         dataPlaneImage sc componentSlapdInit op t
           = Inr (ref (imgs_Init (spec_Images (sc_Spec sc))) componentSlapdInit)))"
  by (cases "imageTagSuffixForSelector (imgs_Select (spec_Images (sc_Spec sc)))")
    (simp_all add: dataPlaneImage_def resolveImageRefSelected_def resolveImageRef_def Let_def)

end
