(* ===== verification/Backup_Artifact.thy ===== *)
theory Backup_Artifact
  imports Ssha Api_Types
begin

text \<open>
  The validation of a backup artifact, \<open>operator/internal/backup/s3.go\<close>: \<open>Preflight\<close>, \<open>validateSuffixEntry\<close>, \<open>suffixRDNAttr\<close>,
  \<open>ldifValue\<close>, \<open>metaValue\<close> and \<open>ReplicationHashFromLDIF\<close>.

  The object store is an argument: what \<open>GetObject\<close> answers for a bucket and a key. An object has its user metadata, in
  the order the loop over the map meets it, and a body that is not gzip or decompresses to a stream of lines. A stream is
  what \<open>bufio.Scanner\<close> makes of it: the lines its \<open>Scan\<close> delivers, one a call, and what its \<open>Err\<close> answers after a
  number of calls.
\<close>

section \<open>Objects and streams\<close>

record S3Config =
  cfg_Bucket :: string
  cfg_Endpoint :: string
  cfg_Region :: string
  cfg_InsecureTLS :: bool
  cfg_AccessKeyID :: string
  cfg_SecretAccessKey :: string

record line_stream =
  ls_Lines :: "string list"
  ls_Err :: "nat \<Rightarrow> message option"

record s3_object =
  obj_Metadata :: "(string \<times> string) list"
  obj_Body :: "message + line_stream"

type_synonym object_store = "S3Config \<Rightarrow> string \<Rightarrow> message + s3_object"

section \<open>LDIF lines\<close>

definition ldifValue :: "string \<Rightarrow> string \<Rightarrow> string option" where
  "ldifValue line attr =
     (case strip_prefix (attr @ '':: '') line of
        Some b64 \<Rightarrow> DecodeString (trim_space b64)
      | None \<Rightarrow>
          (case strip_prefix (attr @ '': '') line of
             Some v \<Rightarrow> Some (trim_space v)
           | None \<Rightarrow> None))"

definition suffixRDNAttr :: "string \<Rightarrow> string" where
  "suffixRDNAttr suffix =
     (let i = index_byte CHR '','' suffix;
          rdn = (if i \<ge> 0 then take (nat i) suffix else suffix);
          i = index_byte CHR ''+'' rdn;
          rdn = (if i \<ge> 0 then take (nat i) rdn else rdn);
          eq = index_byte CHR ''='' rdn in
      if eq \<le> 0 then [] else trim_space (take (nat eq) rdn))"

text \<open>One line of the reading loop that unfolds continuation lines.\<close>

definition unfold_line :: "string list \<Rightarrow> string \<Rightarrow> string list" where
  "unfold_line logical raw =
     (if strip_prefix '' '' raw \<noteq> None \<and> logical \<noteq> []
      then butlast logical @ [last logical @ drop 1 raw]
      else logical @ [raw])"

section \<open>The suffix entry\<close>

abbreviation "maxLines \<equiv> (1000 :: nat)"

text \<open>
  The first loop: the count of lines passed when the DN line is met, and the lines left. \<open>None\<close> when it is not met; the
  number beside it counts the calls of \<open>Scan\<close>.
\<close>

fun find_dn :: "string \<Rightarrow> nat \<Rightarrow> string list \<Rightarrow> (nat \<times> string list) option \<times> nat" where
  "find_dn want lines [] = (None, Suc lines)"
| "find_dn want lines (l # ls) =
     (if lines < maxLines
      then (if equal_fold (trim_space l) want then (Some (lines, ls), Suc lines) else find_dn want (Suc lines) ls)
      else (None, Suc lines))"

text \<open>The second loop: the logical lines up to the blank line, and the calls of \<open>Scan\<close>.\<close>

fun read_entry :: "nat \<Rightarrow> nat \<Rightarrow> string list \<Rightarrow> string list \<Rightarrow> string list \<times> nat" where
  "read_entry calls lines logical [] = (logical, Suc calls)"
| "read_entry calls lines logical (raw # ls) =
     (if lines < maxLines
      then (if trim_space raw = [] then (logical, Suc calls)
            else read_entry (Suc calls) (Suc lines) (unfold_line logical raw) ls)
      else (logical, Suc calls))"

text \<open>The loop that judges the entry: an error, or whether the RDN attribute was seen.\<close>

definition is_glue :: "string \<Rightarrow> string \<Rightarrow> bool" where
  "is_glue line attr = (case ldifValue line attr of Some v \<Rightarrow> equal_fold (trim_space v) ''glue'' | None \<Rightarrow> False)"

fun judge_entry :: "string \<Rightarrow> string \<Rightarrow> bool \<Rightarrow> string list \<Rightarrow> message + bool" where
  "judge_entry suffix rdnAttr rdnPresent [] = Inr rdnPresent"
| "judge_entry suffix rdnAttr rdnPresent (line # rest) =
     (if is_glue line ''objectClass'' then Inl (Msg ''suffix entry is a glue entry'' [MStr suffix])
      else if is_glue line ''structuralObjectClass''
      then Inl (Msg ''suffix entry has structuralObjectClass glue'' [MStr suffix])
      else judge_entry suffix rdnAttr (rdnPresent \<or> rdnAttr \<noteq> [] \<and> ldifValue line rdnAttr \<noteq> None) rest)"

definition validateSuffixEntry :: "line_stream \<Rightarrow> string \<Rightarrow> message option" where
  "validateSuffixEntry r suffix =
     (let want = ''dn: '' @ suffix in
      case find_dn want 0 (ls_Lines r) of
        (None, calls) \<Rightarrow>
          (case ls_Err r calls of
             Some err \<Rightarrow> Some (Msg ''read backup stream'' [MMsg err])
           | None \<Rightarrow> Some (Msg ''does not contain suffix entry'' [MStr suffix]))
      | (Some (lines, rest), calls) \<Rightarrow>
          (case read_entry calls lines [] rest of
             (logical, calls) \<Rightarrow>
               (case ls_Err r calls of
                  Some err \<Rightarrow> Some (Msg ''read backup stream'' [MMsg err])
                | None \<Rightarrow>
                    let rdnAttr = suffixRDNAttr suffix in
                    (case judge_entry suffix rdnAttr False logical of
                       Inl err \<Rightarrow> Some err
                     | Inr rdnPresent \<Rightarrow>
                         if rdnAttr \<noteq> [] \<and> \<not> rdnPresent
                         then Some (Msg ''suffix entry lacks its RDN attribute'' [MStr suffix, MStr rdnAttr])
                         else None))))"

section \<open>Preflight\<close>

fun metaValue :: "(string \<times> string) list \<Rightarrow> string \<Rightarrow> string" where
  "metaValue [] key = []"
| "metaValue ((k, v) # meta) key = (if equal_fold k key then trim_space v else metaValue meta key)"

abbreviation "MetaReplHashKey \<equiv> ''replication-pw-hash''"

definition Preflight :: "object_store \<Rightarrow> S3Config \<Rightarrow> string \<Rightarrow> string \<Rightarrow> string \<Rightarrow> message option" where
  "Preflight GetObject cfg key suffix replPassword =
     (case GetObject cfg key of
        Inl err \<Rightarrow> Some (Msg ''download'' [MStr (cfg_Bucket cfg), MStr key, MMsg err])
      | Inr resp \<Rightarrow>
          let replHash = metaValue (obj_Metadata resp) MetaReplHashKey in
          if replPassword \<noteq> [] \<and> replHash \<noteq> [] \<and> \<not> backup_sshaMatches replHash replPassword
          then Some (Msg ''could not verify the replication-password against backup'' [MStr (cfg_Bucket cfg), MStr key])
          else (case obj_Body resp of
              Inl err \<Rightarrow> Some (Msg ''backup is not valid gzip'' [MStr (cfg_Bucket cfg), MStr key, MMsg err])
            | Inr gz \<Rightarrow>
                (case validateSuffixEntry gz suffix of
                   Some err \<Rightarrow> Some (Msg ''backup'' [MStr (cfg_Bucket cfg), MStr key, MMsg err])
                 | None \<Rightarrow> None)))"

text \<open>The backup side: the verifier of the replication entry is read from a targeted dump.\<close>

definition trim_right_cr :: "string \<Rightarrow> string" where
  "trim_right_cr s = rev (dropWhile (\<lambda>c. c = CHR 0x0D) (rev s))"

definition ReplicationHashFromLDIF :: "message + string option \<Rightarrow> message + string" where
  "ReplicationHashFromLDIF file =
     (case file of
        Inl err \<Rightarrow> Inl err
      | Inr None \<Rightarrow> Inr []
      | Inr (Some data) \<Rightarrow>
          let logical = foldl unfold_line [] (map trim_right_cr (split_on CHR 0x0A data)) in
          (case find (\<lambda>line. ldifValue line ''userPassword'' \<noteq> None) logical of
             None \<Rightarrow> Inr []
           | Some line \<Rightarrow> Inr (trim_space (the (ldifValue line ''userPassword'')))))"

section \<open>What the loops compute\<close>

text \<open>A reading of a stream without loops: the first DN line, and the lines of its entry.\<close>

definition is_dn_line :: "string \<Rightarrow> string \<Rightarrow> bool" where
  "is_dn_line suffix l \<longleftrightarrow> equal_fold (trim_space l) (''dn: '' @ suffix)"

definition entry_lines :: "string list \<Rightarrow> nat \<Rightarrow> string list" where
  "entry_lines ls i = takeWhile (\<lambda>l. trim_space l \<noteq> []) (take (maxLines - i) (drop (Suc i) ls))"

definition entry_ok :: "string \<Rightarrow> line_stream \<Rightarrow> nat \<Rightarrow> bool" where
  "entry_ok suffix r i \<longleftrightarrow>
     (let raw = entry_lines (ls_Lines r) i; entry = foldl unfold_line [] raw; rdn = suffixRDNAttr suffix in
      ls_Err r (i + 2 + length raw) = None \<and>
      (\<forall>line \<in> set entry. \<not> is_glue line ''objectClass'' \<and> \<not> is_glue line ''structuralObjectClass'') \<and>
      (rdn = [] \<or> (\<exists>line \<in> set entry. ldifValue line rdn \<noteq> None)))"

definition restorable :: "string \<Rightarrow> line_stream \<Rightarrow> bool" where
  "restorable suffix r \<longleftrightarrow>
     (\<exists>i. i < length (ls_Lines r) \<and> i < maxLines \<and> is_dn_line suffix (ls_Lines r ! i) \<and>
        (\<forall>j < i. \<not> is_dn_line suffix (ls_Lines r ! j)) \<and> entry_ok suffix r i)"

lemma find_dn_hit:
  assumes "i < length ls" and "n + i < maxLines" and "is_dn_line suffix (ls ! i)"
    and "\<forall>j < i. \<not> is_dn_line suffix (ls ! j)"
  shows "find_dn (''dn: '' @ suffix) n ls = (Some (n + i, drop (Suc i) ls), Suc (n + i))"
  using assms
proof (induction ls arbitrary: n i)
  case (Cons l ls)
  show ?case
  proof (cases i)
    case 0
    then show ?thesis using Cons.prems by (simp add: is_dn_line_def)
  next
    case (Suc k)
    then have "\<not> is_dn_line suffix l" and "\<forall>j < k. \<not> is_dn_line suffix (ls ! j)" using Cons.prems(4) by force+
    moreover have "find_dn (''dn: '' @ suffix) (Suc n) ls = (Some (Suc n + k, drop (Suc k) ls), Suc (Suc n + k))"
      by (rule Cons.IH) (use Cons.prems Suc calculation in auto)
    ultimately show ?thesis using Cons.prems(2) Suc by (simp add: is_dn_line_def)
  qed
qed simp

lemma find_dn_miss:
  assumes "\<forall>i < length ls. n + i < maxLines \<longrightarrow> \<not> is_dn_line suffix (ls ! i)"
  shows "fst (find_dn (''dn: '' @ suffix) n ls) = None"
  using assms
proof (induction ls arbitrary: n)
  case (Cons l ls)
  have "\<forall>i < length ls. Suc n + i < maxLines \<longrightarrow> \<not> is_dn_line suffix (ls ! i)" using Cons.prems by force
  then have "fst (find_dn (''dn: '' @ suffix) (Suc n) ls) = None" by (rule Cons.IH)
  moreover have "n < maxLines \<Longrightarrow> \<not> is_dn_line suffix l" using Cons.prems by force
  ultimately show ?case by (simp add: is_dn_line_def)
qed simp

lemma read_entry_body:
  "read_entry calls lines logical ls =
     (let body = takeWhile (\<lambda>l. trim_space l \<noteq> []) (take (maxLines - lines) ls) in
      (foldl unfold_line logical body, Suc (calls + length body)))"
proof (induction ls arbitrary: calls lines logical)
  case (Cons l ls)
  show ?case
  proof (cases "lines < maxLines")
    case True
    then have "maxLines - lines = Suc (maxLines - Suc lines)" by simp
    then show ?thesis using True Cons.IH [of "Suc calls" "Suc lines"] by (simp add: Let_def)
  qed (simp add: Let_def)
qed (simp add: Let_def)

lemma judge_entry_iff:
  "judge_entry suffix rdn seen ls = Inr b \<longleftrightarrow>
     (\<forall>line \<in> set ls. \<not> is_glue line ''objectClass'' \<and> \<not> is_glue line ''structuralObjectClass'') \<and>
     b = (seen \<or> rdn \<noteq> [] \<and> (\<exists>line \<in> set ls. ldifValue line rdn \<noteq> None))"
  by (induction ls arbitrary: seen) auto

lemma validateSuffixEntry_exact: "validateSuffixEntry r suffix = None \<longleftrightarrow> restorable suffix r"
proof (cases "\<exists>i. i < length (ls_Lines r) \<and> i < maxLines \<and> is_dn_line suffix (ls_Lines r ! i)")
  case True
  let ?P = "\<lambda>i. i < length (ls_Lines r) \<and> i < maxLines \<and> is_dn_line suffix (ls_Lines r ! i)"
  define i where "i = (LEAST i. ?P i)"
  have i: "?P i" unfolding i_def using True by (rule LeastI_ex)
  have least: "\<not> is_dn_line suffix (ls_Lines r ! j)" if "j < i" for j
    using not_less_Least [of j ?P] that i by (auto simp: i_def [symmetric])
  define raw where "raw = entry_lines (ls_Lines r) i"
  have only: "k = i" if "?P k" "\<forall>j < k. \<not> is_dn_line suffix (ls_Lines r ! j)" for k
    using that i least by (metis linorder_neqE_nat)
  have f: "find_dn (''dn: '' @ suffix) 0 (ls_Lines r) = (Some (i, drop (Suc i) (ls_Lines r)), Suc i)"
    using find_dn_hit [of i "ls_Lines r" 0 suffix] i least by simp
  have e: "read_entry (Suc i) i [] (drop (Suc i) (ls_Lines r)) = (foldl unfold_line [] raw, i + 2 + length raw)"
    by (simp add: read_entry_body Let_def raw_def entry_lines_def)
  have v: "validateSuffixEntry r suffix = None \<longleftrightarrow>
      ls_Err r (i + 2 + length raw) = None \<and>
      (\<exists>b. judge_entry suffix (suffixRDNAttr suffix) False (foldl unfold_line [] raw) = Inr b \<and> (suffixRDNAttr suffix = [] \<or> b))"
    unfolding validateSuffixEntry_def Let_def f prod.case option.case e by (auto split: option.splits sum.splits)
  have "restorable suffix r \<longleftrightarrow> (\<exists>k. ?P k \<and> (\<forall>j < k. \<not> is_dn_line suffix (ls_Lines r ! j)) \<and> entry_ok suffix r k)"
    unfolding restorable_def by blast
  also have "\<dots> \<longleftrightarrow> entry_ok suffix r i" using i least only by metis
  also have "\<dots> \<longleftrightarrow> validateSuffixEntry r suffix = None"
    unfolding v judge_entry_iff entry_ok_def Let_def raw_def [symmetric] by blast
  finally show ?thesis by blast
next
  case False
  then have "fst (find_dn (''dn: '' @ suffix) 0 (ls_Lines r)) = None" by (intro find_dn_miss) auto
  moreover have "\<not> restorable suffix r" using False by (auto simp: restorable_def)
  ultimately show ?thesis by (auto simp: validateSuffixEntry_def split: prod.splits option.splits)
qed

section \<open>Properties\<close>

text \<open>
  Preflight lets a restore begin exactly when the object can be fetched and decompressed, the entry of
  the suffix is found within the first thousand lines, the unfolded entry is not glue and carries the RDN attribute,
  the stream was read without error, and a stored verifier matches the replication password that is to be checked.
\<close>

lemma preflight_exact:
  "Preflight store cfg key suffix pw = None \<longleftrightarrow>
     (\<exists>resp gz. store cfg key = Inr resp \<and> obj_Body resp = Inr gz \<and> restorable suffix gz \<and>
        (pw = [] \<or> metaValue (obj_Metadata resp) MetaReplHashKey = [] \<or>
         backup_sshaMatches (metaValue (obj_Metadata resp) MetaReplHashKey) pw))"
proof (cases "store cfg key")
  case (Inr resp)
  then show ?thesis
    by (cases "obj_Body resp") (auto simp: Preflight_def Let_def validateSuffixEntry_exact [symmetric] split: option.splits)
qed (simp add: Preflight_def)

section \<open>Folded lines\<close>

abbreviation continues :: "string \<Rightarrow> bool" where
  "continues l \<equiv> (\<exists>t. l = CHR '' '' # t)"

lemma strip_blank [simp]: "strip_prefix '' '' l \<noteq> None \<longleftrightarrow> continues l"
  by (cases l) auto

lemma unfold_new: "\<not> continues l \<Longrightarrow> unfold_line lg l = lg @ [l]"
  unfolding unfold_line_def strip_blank by simp

lemma unfold_more: "unfold_line (lg @ [x]) (CHR '' '' # t) = lg @ [x @ t]"
  by (simp add: unfold_line_def)

lemma foldl_unfold_last: "foldl unfold_line (lg @ [x]) ls = lg @ foldl unfold_line [x] ls"
proof (induction ls arbitrary: lg x)
  case (Cons l ls)
  show ?case
  proof (cases "continues l")
    case True
    then obtain t where "l = CHR '' '' # t" by blast
    then show ?thesis using Cons.IH [of lg "x @ t"] unfold_more [of lg x t] unfold_more [of "[]" x t] by simp
  next
    case False
    then show ?thesis
      using Cons.IH [of "lg @ [x]" l] Cons.IH [of "[x]" l] by (simp add: unfold_new)
  qed
qed simp

lemma foldl_unfold_new: "\<forall>l \<in> set ls. \<not> continues l \<Longrightarrow> foldl unfold_line lg ls = lg @ ls"
  by (induction ls arbitrary: lg) (auto simp: unfold_new)

lemma foldl_unfold_chunks: "foldl unfold_line [x] (map ((#) CHR '' '') cs) = [x @ concat cs]"
proof (induction cs arbitrary: x)
  case (Cons c cs)
  then show ?case using unfold_more [of "[]" x c] by simp
qed simp

text \<open>An entry printed with one value folded over several lines reads back as its unfolded lines.\<close>

lemma unfold_entry:
  assumes "\<forall>l \<in> set before. \<not> continues l" and "\<not> continues first" and "\<forall>l \<in> set after. \<not> continues l"
  shows "foldl unfold_line [] (before @ first # map ((#) CHR '' '') cs @ after) = before @ (first @ concat cs) # after"
proof -
  have "foldl unfold_line [] (before @ first # map ((#) CHR '' '') cs @ after)
      = foldl unfold_line (foldl unfold_line (before @ [first]) (map ((#) CHR '' '') cs)) after"
    using foldl_unfold_new [OF assms(1), of "[]"] assms(2) by (simp add: unfold_new)
  also have "\<dots> = before @ (first @ concat cs) # after"
    using foldl_unfold_new [OF assms(3)] by (simp add: foldl_unfold_last [of before] foldl_unfold_chunks)
  finally show ?thesis .
qed

lemma trim_right_cr_id: "CHR 0x0D \<notin> set l \<Longrightarrow> trim_right_cr l = l"
proof -
  assume "CHR 0x0D \<notin> set l"
  then have "dropWhile (\<lambda>c. c = CHR 0x0D) (rev l) = rev l" by (cases l rule: rev_cases) auto
  then show ?thesis by (simp add: trim_right_cr_def)
qed

text \<open>
  C22. The verifier a backup stamps on its object is the one preflight checks: from a dump of the replication
  entry in which slapcat printed the hash in base 64, folded anywhere, the hash is read back as the operator
  generated it, and it verifies the password it was generated from.
\<close>

theorem stamped_hash_verifies:
  assumes "length salt = 8" and "h = generateSSHAHash salt pw"
    and "first @ concat cs = EncodeToString h"
    and "lines = before @ (''userPassword:: '' @ first) # map ((#) CHR '' '') cs @ after"
    and "\<forall>l \<in> set (before @ after). \<not> continues l" and "\<forall>l \<in> set before. ldifValue l ''userPassword'' = None"
    and "\<forall>l \<in> set lines. CHR 0x0A \<notin> set l \<and> CHR 0x0D \<notin> set l"
  shows "ReplicationHashFromLDIF (Inr (Some (join [CHR 0x0A] lines))) = Inr h \<and>
         metaValue [(MetaReplHashKey, h)] MetaReplHashKey = h \<and> backup_sshaMatches h pw"
proof -
  let ?line = "''userPassword:: '' @ EncodeToString h"
  have "split_on CHR 0x0A (join [CHR 0x0A] lines) = lines" using assms(4,7) by (intro split_join) auto
  moreover have "map trim_right_cr lines = lines" using assms(7) by (intro map_idI) (simp add: trim_right_cr_id)
  moreover have "foldl unfold_line [] lines = before @ ?line # after"
    using unfold_entry [of before "''userPassword:: '' @ first" after cs] assms(3-5) by simp
  moreover have val: "ldifValue ?line ''userPassword'' = Some h"
  proof -
    have "no_space (EncodeToString h)" using encode_plain by (rule no_space_plain)
    then show ?thesis by (simp add: ldifValue_def)
  qed
  moreover have "find (\<lambda>l. ldifValue l ''userPassword'' \<noteq> None) (before @ ?line # after) = Some ?line"
    using assms(6) val by (induction before) auto
  moreover have "trim_space h = h" using generated_no_space assms(2) by simp
  moreover have "backup_sshaMatches h pw"
    unfolding assms(2) using assms(1) by (intro backup_sshaMatches_generated) auto
  ultimately show ?thesis by (simp add: ReplicationHashFromLDIF_def)
qed

text \<open>A dump in which the value of the password is folded after 61 characters, as slapcat folds it.\<close>

theorem stamped_hash_verifies_witness:
  "let h = generateSSHAHash ''saltsalt'' ''secret''; e = EncodeToString h in
   ReplicationHashFromLDIF (Inr (Some (join [CHR 0x0A]
     [''dn: cn=replication,dc=example'', ''userPassword:: '' @ take 61 e, CHR '' '' # drop 61 e]))) = Inr h"
proof -
  define h where "h = generateSSHAHash ''saltsalt'' ''secret''"
  define e where "e = EncodeToString h"
  define lines where "lines = [''dn: cn=replication,dc=example''] @ (''userPassword:: '' @ take 61 e) # map ((#) CHR '' '') [drop 61 e] @ []"
  have "\<forall>c \<in> set e. c \<noteq> CHR 0x0A \<and> c \<noteq> CHR 0x0D" using encode_chars by (auto simp: e_def)
  then have "\<forall>c \<in> set (take 61 e) \<union> set (drop 61 e). c \<noteq> CHR 0x0A \<and> c \<noteq> CHR 0x0D"
    by (meson UnE in_set_dropD in_set_takeD)
  then have plain: "\<forall>l \<in> set lines. CHR 0x0A \<notin> set l \<and> CHR 0x0D \<notin> set l" by (auto simp: lines_def)
  have e: "take 61 e @ concat [drop 61 e] = EncodeToString h" by (simp add: e_def)
  have none: "\<forall>l \<in> set [''dn: cn=replication,dc=example'']. ldifValue l ''userPassword'' = None" by code_simp
  have "ReplicationHashFromLDIF (Inr (Some (join [CHR 0x0A] lines))) = Inr h"
    using stamped_hash_verifies [OF _ h_def e lines_def _ none plain] by simp
  then show ?thesis by (simp add: lines_def Let_def h_def e_def)
qed

section \<open>Two artifacts that are refused\<close>

definition dump :: "string list \<Rightarrow> line_stream" where
  "dump ls = \<lparr>ls_Lines = ls, ls_Err = \<lambda>_. None\<rparr>"

text \<open>The DN is compared without regard to case, the name of the RDN attribute with regard to it.\<close>

lemma capital_rdn_refused:
  "validateSuffixEntry (dump [''dn: dc=example,dc=org'', ''objectClass: dcObject'', ''dc: example'']) ''DC=example,DC=org''
     = Some (Msg ''suffix entry lacks its RDN attribute'' [MStr ''DC=example,DC=org'', MStr ''DC''])"
  by code_simp

lemma small_rdn_accepted:
  "validateSuffixEntry (dump [''dn: dc=example,dc=org'', ''objectClass: dcObject'', ''dc: example'']) ''dc=example,dc=org'' = None"
  by code_simp

text \<open>The DN line is compared before unfolding.\<close>

lemma folded_dn_refused:
  "validateSuffixEntry (dump [''dn: dc=example,dc='', '' org'', ''objectClass: dcObject'', ''dc: example'']) ''dc=example,dc=org''
     = Some (Msg ''does not contain suffix entry'' [MStr ''dc=example,dc=org''])"
  by code_simp

end
