(* ===== verification/Restore_Job.thy ===== *)
theory Restore_Job
  imports Image_Ref Backup_Artifact
begin

text \<open>
  The Jobs of a restore: the pods a restore fans out to (\<open>restorePodTargets\<close> of \<open>slapdcluster_restore.go\<close>), the Job of one
  pod (\<open>restore_job.go\<close>), what a Job's conditions say (\<open>jobTerminalState\<close>, \<open>jobFailureSummary\<close>, \<open>firstFailedContainer\<close>) and the
  deletion of the Jobs of one restore (\<open>job_reap.go\<close>).

  Of a Job the records keep the name, the labels, the containers with their commands, arguments, environment and mounts,
  the volumes, the deadline, the conditions and whether it is being deleted. A container or a Job has no security
  context, pull policy or pull secrets here: they are copied from the cluster and nothing depends on them.
\<close>

section \<open>Jobs\<close>

datatype env_source = EnvValue string | EnvSecret string string

record VolumeMount =
  vm_Name :: string
  vm_MountPath :: string
  vm_ReadOnly :: bool

record Container =
  ctr_Name :: string
  ctr_Image :: string
  ctr_Command :: "string list"
  ctr_Args :: "string list"
  ctr_Env :: "(string \<times> env_source) list"
  ctr_Mounts :: "VolumeMount list"

datatype volume_source = PVC string | EmptyDir

record JobCondition =
  jc_Type :: string
  jc_Status :: ConditionStatus
  jc_Reason :: string
  jc_Message :: string

record Job =
  job_Name :: string
  job_Labels :: "(string \<times> string) list"
  job_BackoffLimit :: int32
  job_TTLSecondsAfterFinished :: int32
  job_InitContainers :: "Container list"
  job_Containers :: "Container list"
  job_Volumes :: "(string \<times> volume_source) list"
  job_PodAffinity :: "(string \<times> string) list option"
  job_Deleting :: bool
  job_Conditions :: "JobCondition list"

abbreviation "restoreIDLabel \<equiv> ''ldap.chuck-chuck-chuck.net/restore-id''"
abbreviation "databaseLabel \<equiv> ''ldap.chuck-chuck-chuck.net/database''"

text \<open>The loop keeps the two flags over the conditions that are true.\<close>

definition jobTerminalState :: "Job \<Rightarrow> bool \<times> bool" where
  "jobTerminalState job =
     foldl (\<lambda>(complete, failed) c.
        if jc_Status c \<noteq> ConditionTrue then (complete, failed)
        else if jc_Type c = ''Complete'' then (True, failed)
        else if jc_Type c = ''Failed'' then (complete, True)
        else (complete, failed)) (False, False) (job_Conditions job)"

section \<open>The pods of a restore\<close>

record restorePodTarget =
  rpt_jobName :: string
  rpt_dataPVC :: string
  rpt_configPVC :: string
  rpt_accesslogPVC :: string
  rpt_loadData :: bool

text \<open>The bounds of \<open>range n\<close> over an \<open>int32\<close>.\<close>

definition ordinals :: "int32 \<Rightarrow> int32 list" where
  "ordinals n = map int [0..<nat n]"

definition restorePodTargets ::
  "SlapdCluster \<Rightarrow> SlapdClusterRestoreStatus \<Rightarrow> SlapdDatabase \<Rightarrow> int32 \<Rightarrow> int32 \<Rightarrow> restorePodTarget list" where
  "restorePodTargets sc rst sd rwN roN =
     (let base = (if length (sd_Name sd) > 24 then take 24 (sd_Name sd) else sd_Name sd);
          id = rst_ID rst;
          mountAccesslog = NeedsAccesslogVolume sc in
      map (\<lambda>i. \<lparr>rpt_jobName = base @ ''-restore-'' @ id @ ''-rw-'' @ itoa i,
                rpt_dataPVC = ''data-'' @ sc_Name sc @ ''-'' @ itoa i,
                rpt_configPVC = ''config-'' @ sc_Name sc @ ''-'' @ itoa i,
                rpt_accesslogPVC = (if mountAccesslog then ''accesslog-'' @ sc_Name sc @ ''-'' @ itoa i else []),
                rpt_loadData = True\<rparr>) (ordinals rwN) @
      map (\<lambda>j. \<lparr>rpt_jobName = base @ ''-restore-'' @ id @ ''-ro-'' @ itoa j,
                rpt_dataPVC = ''data-'' @ sc_Name sc @ ''-readonly-'' @ itoa j,
                rpt_configPVC = [], rpt_accesslogPVC = [], rpt_loadData = False\<rparr>) (ordinals roN))"

section \<open>The Job of one pod\<close>

definition databaseDataDir :: "SlapdDatabase \<Rightarrow> string" where
  "databaseDataDir sd = (if sds_DataDirectory (sd_Spec sd) \<noteq> [] then sds_DataDirectory (sd_Spec sd) else sd_Name sd)"

definition AccesslogDir :: "string \<Rightarrow> string" where
  "AccesslogDir dbName = ''/accesslog/'' @ dbName"

text \<open>The verb \<open>%q\<close> on printable ASCII.\<close>

definition quoted :: "string \<Rightarrow> string" where
  "quoted s = CHR 0x22 # concat (map (\<lambda>c. if c = CHR 0x22 \<or> c = CHR 0x5C then [CHR 0x5C, c] else [c]) s) @ [CHR 0x22]"

abbreviation newline :: string where
  "newline \<equiv> [CHR 0x0A]"

abbreviation "restoreLDIFFile \<equiv> ''/staging/restore.ldif.gz''"

definition wipe_script :: "SlapdDatabase \<Rightarrow> restorePodTarget \<Rightarrow> string" where
  "wipe_script sd t =
     ''rm -f '' @ quoted ''/data/$DATADIR/data.mdb'' @ '' '' @ quoted ''/data/$DATADIR/lock.mdb'' @
     (if rpt_accesslogPVC t \<noteq> []
      then let logDir = AccesslogDir (sd_Name sd) in
        newline @ ''rm -f '' @ quoted (logDir @ ''/data.mdb'') @ '' '' @ quoted (logDir @ ''/lock.mdb'')
      else [])"

definition downloadArgs :: "S3StorageSpec \<Rightarrow> string \<Rightarrow> string list" where
  "downloadArgs st objectKey =
     [''restore-download'', ''--bucket'', s3_Bucket st, ''--key'', objectKey, ''--out'', restoreLDIFFile] @
     (if s3_Endpoint st \<noteq> [] then [''--endpoint'', s3_Endpoint st] else []) @
     (if s3_Region st \<noteq> [] then [''--region'', s3_Region st] else []) @
     (if s3_InsecureTLS st then [''--insecure-tls''] else [])"

definition buildRestoreJob ::
  "SlapdCluster \<Rightarrow> SlapdClusterRestoreStatus \<Rightarrow> SlapdDatabase \<Rightarrow> S3StorageSpec \<Rightarrow> string \<Rightarrow> string \<Rightarrow> string
     \<Rightarrow> restorePodTarget \<Rightarrow> Job" where
  "buildRestoreJob sc rst sd st objectKey initImage operatorImage t =
     (let dataDir = databaseDataDir sd;
          wipe = wipe_script sd t;
          secretRef = EnvSecret (s3_CredentialsSecretName st);
          accesslog = rpt_accesslogPVC t \<noteq> [];
          dataVolume = [(''data'', PVC (rpt_dataPVC t))];
          volumes = (if rpt_loadData t
            then dataVolume @ [(''config'', PVC (rpt_configPVC t)), (''staging'', EmptyDir)] @
              (if accesslog then [(''accesslog'', PVC (rpt_accesslogPVC t))] else [])
            else dataVolume);
          initContainers = (if rpt_loadData t
            then [\<lparr>ctr_Name = ''download'', ctr_Image = operatorImage, ctr_Command = [''/manager''],
                   ctr_Args = downloadArgs st objectKey,
                   ctr_Env = [(''AWS_ACCESS_KEY_ID'', secretRef ''access-key-id''),
                     (''AWS_SECRET_ACCESS_KEY'', secretRef ''secret-access-key'')],
                   ctr_Mounts = [\<lparr>vm_Name = ''staging'', vm_MountPath = ''/staging'', vm_ReadOnly = False\<rparr>]\<rparr>]
            else []);
          containers = (if rpt_loadData t
            then [\<lparr>ctr_Name = ''restore'', ctr_Image = initImage,
                   ctr_Command = [''bash'', ''-c'', ''set -eo pipefail'' @ newline @ wipe @ newline @ ''gunzip -c '' @
                     restoreLDIFFile @ '' | slapadd -q -F /config/slapd.d -b '' @ quoted ''$SUFFIX''],
                   ctr_Args = [],
                   ctr_Env = [(''SUFFIX'', EnvValue (sds_Suffix (sd_Spec sd))), (''DATADIR'', EnvValue dataDir)],
                   ctr_Mounts = [\<lparr>vm_Name = ''config'', vm_MountPath = ''/config'', vm_ReadOnly = True\<rparr>,
                     \<lparr>vm_Name = ''data'', vm_MountPath = ''/data'', vm_ReadOnly = False\<rparr>,
                     \<lparr>vm_Name = ''staging'', vm_MountPath = ''/staging'', vm_ReadOnly = True\<rparr>] @
                     (if accesslog then [\<lparr>vm_Name = ''accesslog'', vm_MountPath = ''/accesslog'', vm_ReadOnly = False\<rparr>]
                      else [])\<rparr>]
            else [\<lparr>ctr_Name = ''wipe'', ctr_Image = initImage,
                   ctr_Command = [''bash'', ''-c'', ''set -eo pipefail'' @ newline @ wipe], ctr_Args = [],
                   ctr_Env = [(''DATADIR'', EnvValue dataDir)],
                   ctr_Mounts = [\<lparr>vm_Name = ''data'', vm_MountPath = ''/data'', vm_ReadOnly = False\<rparr>]\<rparr>]) in
      \<lparr>job_Name = rpt_jobName t,
       job_Labels = [(''app.kubernetes.io/name'', ''slapd''), (''app.kubernetes.io/instance'', sc_Name sc),
         (''app.kubernetes.io/component'', ''restore''), (databaseLabel, sd_Name sd), (restoreIDLabel, rst_ID rst)],
       job_BackoffLimit = 2, job_TTLSecondsAfterFinished = 600, job_InitContainers = initContainers,
       job_Containers = containers, job_Volumes = volumes, job_PodAffinity = None, job_Deleting = False, job_Conditions = []\<rparr>)"

section \<open>Failures\<close>

record Terminated =
  tm_ExitCode :: int32
  tm_Reason :: string

record ContainerStatus =
  cs_Name :: string
  cs_Terminated :: "Terminated option"

record PodStatus =
  ps_InitContainerStatuses :: "ContainerStatus list"
  ps_ContainerStatuses :: "ContainerStatus list"

definition container_failed :: "ContainerStatus \<Rightarrow> bool" where
  "container_failed cs = (case cs_Terminated cs of None \<Rightarrow> False | Some t \<Rightarrow> tm_ExitCode t \<noteq> 0)"

definition firstFailedContainer :: "PodStatus list \<Rightarrow> string" where
  "firstFailedContainer pods =
     (case find container_failed (concat (map (\<lambda>p. ps_InitContainerStatuses p @ ps_ContainerStatuses p) pods)) of
        None \<Rightarrow> []
      | Some cs \<Rightarrow>
          let t = the (cs_Terminated cs) in
          if tm_Reason t \<noteq> []
          then ''(container '' @ quoted (cs_Name cs) @ '' exited '' @ itoa (tm_ExitCode t) @ '': '' @ tm_Reason t @ '')''
          else ''(container '' @ quoted (cs_Name cs) @ '' exited '' @ itoa (tm_ExitCode t) @ '')'')"

definition jobFailureSummary :: "Job option \<Rightarrow> PodStatus list \<Rightarrow> string" where
  "jobFailureSummary job pods =
     (let condition = (case job of
            None \<Rightarrow> []
          | Some j \<Rightarrow>
              (case find (\<lambda>c. jc_Type c = ''Failed'' \<and> jc_Status c = ConditionTrue) (job_Conditions j) of
                 None \<Rightarrow> []
               | Some c \<Rightarrow>
                   if jc_Reason c \<noteq> [] \<and> jc_Message c \<noteq> [] then [jc_Reason c @ '': '' @ jc_Message c]
                   else if jc_Message c \<noteq> [] then [jc_Message c]
                   else if jc_Reason c \<noteq> [] then [jc_Reason c]
                   else []));
          ex = firstFailedContainer pods;
          parts = condition @ (if ex \<noteq> [] then [ex] else []) in
      if parts = [] then ''job failed (no condition or container status recorded)'' else join '' '' parts)"

section \<open>Conditions and names\<close>

definition job_complete :: "Job \<Rightarrow> bool" where
  "job_complete j \<longleftrightarrow> (\<exists>c \<in> set (job_Conditions j). jc_Status c = ConditionTrue \<and> jc_Type c = ''Complete'')"

definition job_failed :: "Job \<Rightarrow> bool" where
  "job_failed j \<longleftrightarrow> (\<exists>c \<in> set (job_Conditions j). jc_Status c = ConditionTrue \<and> jc_Type c = ''Failed'')"

lemma jobTerminalState_flags: "jobTerminalState j = (job_complete j, job_failed j)"
proof -
  let ?f = "\<lambda>(complete, failed) c.
        if jc_Status c \<noteq> ConditionTrue then (complete, failed)
        else if jc_Type c = ''Complete'' then (True, failed)
        else if jc_Type c = ''Failed'' then (complete, True)
        else (complete, failed)"
  have "foldl ?f (a, b) cs =
      (a \<or> (\<exists>c \<in> set cs. jc_Status c = ConditionTrue \<and> jc_Type c = ''Complete''),
       b \<or> (\<exists>c \<in> set cs. jc_Status c = ConditionTrue \<and> jc_Type c = ''Failed''))" for a b cs
    by (induction cs arbitrary: a b) auto
  from this [of False False "job_Conditions j"] show ?thesis
    unfolding jobTerminalState_def job_complete_def job_failed_def by simp
qed

lemma ordinals_set: "set (ordinals n) = {i. 0 \<le> i \<and> i < n}"
proof (rule set_eqI)
  fix i :: int
  have "i \<in> set (ordinals n) \<longleftrightarrow> (\<exists>k < nat n. i = int k)" by (auto simp: ordinals_def)
  also have "\<dots> \<longleftrightarrow> 0 \<le> i \<and> i < n"
  proof
    assume "0 \<le> i \<and> i < n"
    then show "\<exists>k < nat n. i = int k" by (intro exI [of _ "nat i"]) auto
  qed auto
  finally show "i \<in> set (ordinals n) \<longleftrightarrow> i \<in> {i. 0 \<le> i \<and> i < n}" by simp
qed

lemma ordinals_distinct [simp]: "distinct (ordinals n)"
  by (simp add: ordinals_def distinct_map inj_on_def)

lemma ordinals_length [simp]: "length (ordinals n) = nat n"
  by (simp add: ordinals_def)

text \<open>The part of a Job name in front of the ordinal is the same for two databases whose names agree on 24 bytes.\<close>

definition job_base :: "SlapdClusterRestoreStatus \<Rightarrow> string \<Rightarrow> string" where
  "job_base rst name = take 24 name @ ''-restore-'' @ rst_ID rst"

lemma target_names:
  "map rpt_jobName (restorePodTargets sc rst sd rwN roN) =
     map (\<lambda>i. job_base rst (sd_Name sd) @ ''-rw-'' @ itoa i) (ordinals rwN) @
     map (\<lambda>j. job_base rst (sd_Name sd) @ ''-ro-'' @ itoa j) (ordinals roN)"
  by (simp add: restorePodTargets_def Let_def job_base_def)

lemma target_names_distinct: "distinct (map rpt_jobName (restorePodTargets sc rst sd rwN roN))"
  unfolding target_names by (auto simp: distinct_map inj_on_def dest: itoa_inj)

lemma itoa_not_word: "itoa i \<noteq> CHR ''r'' # s"
proof -
  have "hd (dec n) \<noteq> CHR ''r''" for n
  proof -
    have "\<not> is_digit CHR ''r''" by code_simp
    then show ?thesis using hd_dec_digit [of n] by auto
  qed
  then have "dec n \<noteq> CHR ''r'' # s" for n by (metis list.sel(1))
  then show ?thesis by (simp add: itoa_def)
qed

lemma target_claims_distinct: "distinct (map rpt_dataPVC (restorePodTargets sc rst sd rwN roN))"
proof -
  have "map rpt_dataPVC (restorePodTargets sc rst sd rwN roN) =
      map (\<lambda>i. ''data-'' @ sc_Name sc @ ''-'' @ itoa i) (ordinals rwN) @
      map (\<lambda>j. ''data-'' @ sc_Name sc @ ''-readonly-'' @ itoa j) (ordinals roN)"
    by (simp add: restorePodTargets_def Let_def)
  then show ?thesis by (auto simp: distinct_map inj_on_def itoa_not_word dest: itoa_inj)
qed

text \<open>
  A restore reaches every pod of the fleet once: for one database the Jobs have distinct names and distinct
  data claims, one for each read-write ordinal and one for each read-only ordinal. The Job of a read-write pod downloads and loads
  into that pod's data and config claims and wipes the journal of this database only when the pod has one; the Job of a
  read-only pod mounts its data claim and nothing else and downloads nothing.
\<close>

theorem restore_fan_out:
  "let ts = restorePodTargets sc rst sd rwN roN; jobs = map (buildRestoreJob sc rst sd st key img op) ts in
   distinct (map job_Name jobs) \<and> distinct (map rpt_dataPVC ts) \<and> length jobs = nat rwN + nat roN \<and>
   map job_Volumes jobs =
     map (\<lambda>i. [(''data'', PVC (''data-'' @ sc_Name sc @ ''-'' @ itoa i)), (''config'', PVC (''config-'' @ sc_Name sc @ ''-'' @ itoa i)),
               (''staging'', EmptyDir)] @
              (if NeedsAccesslogVolume sc then [(''accesslog'', PVC (''accesslog-'' @ sc_Name sc @ ''-'' @ itoa i))] else []))
       (ordinals rwN) @
     map (\<lambda>j. [(''data'', PVC (''data-'' @ sc_Name sc @ ''-readonly-'' @ itoa j))]) (ordinals roN) \<and>
   map (\<lambda>j. map ctr_Args (job_InitContainers j)) jobs =
     replicate (nat rwN) [downloadArgs st key] @ replicate (nat roN) []"
proof -
  let ?ts = "restorePodTargets sc rst sd rwN roN"
  have names: "map job_Name (map (buildRestoreJob sc rst sd st key img op) ?ts) = map rpt_jobName ?ts"
    by (simp add: buildRestoreJob_def Let_def)
  have const: "map (\<lambda>i. x) (ordinals n) = replicate (nat n) x" for x :: "string list list" and n
    by (simp add: map_replicate_const)
  show ?thesis
    unfolding Let_def names
    by (simp add: target_names_distinct target_claims_distinct)
      (simp add: restorePodTargets_def buildRestoreJob_def Let_def const comp_def)
qed

end
