(* ===== verification/Restore.thy ===== *)
theory Restore
  imports Restore_Job
begin

text \<open>
  The restore state machine, \<open>slapdcluster_restore.go\<close>: \<open>reconcileRestore\<close> with everything it calls, and
  \<open>reapJobsByLabel\<close> of \<open>job_reap.go\<close>.

  The namespace is explicit: its databases, restore requests, backups and restore Jobs, which the code reads and
  changes. What the API server answers beyond that is an argument: a request can fail (\<open>re_Fault\<close>), Secrets are read
  through \<open>re_Secret\<close>, artifacts through \<open>re_Store\<close>. The random token of a restore and the clock are arguments too.
  A status update on a missing object fails, an object is found by its name. A requeue of 0 asks for none.
\<close>

section \<open>The namespace and what is around it\<close>

datatype k8s_request =
    ListDatabases
  | ListRestores
  | ListJobs
  | GetDatabase string
  | GetRestore string
  | GetBackup string
  | GetJob string
  | CreateJob string
  | DeleteJob string
  | UpdateRestore string
  | ApplyDatabaseStatus string
  | ApplyBackupStatus string
  | ListBackups
  | CreateBackup string
  | DeleteBackup string
  | ApplyScheduleStatus string

record restore_world =
  w_Databases :: "SlapdDatabase list"
  w_Restores :: "SlapdRestore list"
  w_Backups :: "SlapdBackup list"
  w_Jobs :: "Job list"

record restore_env =
  re_Fault :: "k8s_request \<Rightarrow> message option"
  re_Secret :: "string \<Rightarrow> api_error + (string \<Rightarrow> string)"
  re_Store :: object_store
  re_JobPods :: "string \<Rightarrow> PodStatus list"
  re_OperatorImage :: string
  re_DefaultImageTag :: string
  re_ID :: string
  re_Now :: time

record sts_status =
  sts_Replicas :: int32
  sts_ReadyReplicas :: int32

definition k8s_get :: "restore_env \<Rightarrow> k8s_request \<Rightarrow> ('a \<Rightarrow> string) \<Rightarrow> 'a list \<Rightarrow> string \<Rightarrow> api_error + 'a" where
  "k8s_get env req name_of objs name =
     (case re_Fault env req of
        Some m \<Rightarrow> Inl (ApiError m)
      | None \<Rightarrow> (case find (\<lambda>x. name_of x = name) objs of None \<Rightarrow> Inl ApiNotFound | Some x \<Rightarrow> Inr x))"

definition api_message :: "api_error \<Rightarrow> message" where
  "api_message e = (case e of ApiNotFound \<Rightarrow> Msg ''not found'' [] | ApiError m \<Rightarrow> m)"

definition get_database :: "restore_env \<Rightarrow> restore_world \<Rightarrow> string \<Rightarrow> api_error + SlapdDatabase" where
  "get_database env w name = k8s_get env (GetDatabase name) sd_Name (w_Databases w) name"

definition get_restore :: "restore_env \<Rightarrow> restore_world \<Rightarrow> string \<Rightarrow> api_error + SlapdRestore" where
  "get_restore env w name = k8s_get env (GetRestore name) sr_Name (w_Restores w) name"

definition get_job :: "restore_env \<Rightarrow> restore_world \<Rightarrow> string \<Rightarrow> api_error + Job" where
  "get_job env w name = k8s_get env (GetJob name) job_Name (w_Jobs w) name"

section \<open>Sources\<close>

definition s3ConfigFromStorage :: "restore_env \<Rightarrow> S3StorageSpec \<Rightarrow> message + S3Config" where
  "s3ConfigFromStorage env st =
     (case re_Secret env (s3_CredentialsSecretName st) of
        Inl err \<Rightarrow> Inl (Msg ''read S3 credentials secret'' [MStr (s3_CredentialsSecretName st), MMsg (api_message err)])
      | Inr secret \<Rightarrow>
          Inr \<lparr>cfg_Bucket = s3_Bucket st, cfg_Endpoint = s3_Endpoint st, cfg_Region = s3_Region st,
            cfg_InsecureTLS = s3_InsecureTLS st, cfg_AccessKeyID = secret ''access-key-id'',
            cfg_SecretAccessKey = secret ''secret-access-key''\<rparr>)"

definition databaseReplPassword :: "restore_env \<Rightarrow> SlapdDatabase \<Rightarrow> message + string" where
  "databaseReplPassword env sd =
     (let name = (if sds_CredentialsSecretName (sd_Spec sd) = [] then sd_Name sd @ ''-credentials''
                  else sds_CredentialsSecretName (sd_Spec sd)) in
      case re_Secret env name of
        Inl ApiNotFound \<Rightarrow> Inr []
      | Inl (ApiError m) \<Rightarrow> Inl (Msg ''read credentials secret'' [MStr name, MMsg m])
      | Inr secret \<Rightarrow> Inr (secret ''replication-password''))"

definition resolveSourceObject ::
  "restore_env \<Rightarrow> restore_world \<Rightarrow> string \<Rightarrow> BootstrapS3Source option \<Rightarrow> message + S3StorageSpec \<times> string" where
  "resolveSourceObject env w backupRef s3src =
     (case s3src of
        Some s3 \<Rightarrow> Inr (bs3_Storage s3, bs3_Key s3)
      | None \<Rightarrow>
          if backupRef \<noteq> [] then
            (case k8s_get env (GetBackup backupRef) sb_Name (w_Backups w) backupRef of
               Inl err \<Rightarrow> Inl (Msg ''get SlapdBackup'' [MStr backupRef, MMsg (api_message err)])
             | Inr sb \<Rightarrow>
                 if sb_Phase sb \<noteq> ''Completed'' \<or> sb_Path sb = []
                 then Inl (Msg ''SlapdBackup is not Completed'' [MStr backupRef])
                 else Inr (sb_Storage sb, sb_Path sb))
          else Inl (Msg ''restore source has neither backupRef nor s3'' []))"

definition resolveBootstrapSource :: "restore_env \<Rightarrow> restore_world \<Rightarrow> SlapdDatabase \<Rightarrow> message + S3StorageSpec \<times> string" where
  "resolveBootstrapSource env w sd =
     (case sds_BootstrapFrom (sd_Spec sd) of
        None \<Rightarrow> Inl (Msg ''bootstrapFrom is nil'' [])
      | Some b \<Rightarrow> resolveSourceObject env w (boot_BackupRef b) (boot_S3 b))"

definition resolveRestoreSource ::
  "restore_env \<Rightarrow> restore_world \<Rightarrow> SlapdClusterRestoreStatus \<Rightarrow> SlapdDatabase \<Rightarrow> message + S3StorageSpec \<times> string \<times> bool" where
  "resolveRestoreSource env w rst sd =
     (let req = rst_RequestRef rst in
      if req \<noteq> [] then
        (case get_restore env w req of
           Inl err \<Rightarrow> Inl (Msg ''get SlapdRestore'' [MStr req, MMsg (api_message err)])
         | Inr sr \<Rightarrow>
             (case resolveSourceObject env w (sr_SourceBackupRef sr) (sr_SourceS3 sr) of
                Inl err \<Rightarrow> Inl err
              | Inr (st, key) \<Rightarrow> Inr (st, key, sr_SkipReplicationPasswordCheck sr)))
      else
        (case resolveBootstrapSource env w sd of
           Inl err \<Rightarrow> Inl err
         | Inr (st, key) \<Rightarrow>
             Inr (st, key, (case sds_BootstrapFrom (sd_Spec sd) of
                None \<Rightarrow> False | Some b \<Rightarrow> boot_SkipReplicationPasswordCheck b))))"

section \<open>Restore requests\<close>

definition put_restore :: "SlapdRestore \<Rightarrow> restore_world \<Rightarrow> restore_world" where
  "put_restore sr w = w\<lparr>w_Restores := map (\<lambda>x. if sr_Name x = sr_Name sr then sr else x) (w_Restores w)\<rparr>"

definition setRestoreRequestPhase ::
  "restore_env \<Rightarrow> restore_world \<Rightarrow> SlapdRestore \<Rightarrow> string \<Rightarrow> message \<Rightarrow> restore_world \<times> message option" where
  "setRestoreRequestPhase env w sr phase msg =
     (if sr_Phase sr = phase \<and> sr_Message sr = msg then (w, None)
      else
        let sr' = sr\<lparr>sr_Phase := phase, sr_Message := msg, sr_ObservedGeneration := sr_Generation sr\<rparr>;
            sr' = (if phase = ''Preflight'' \<and> sr_StartedAt sr' = None then sr'\<lparr>sr_StartedAt := Some (re_Now env)\<rparr> else sr');
            sr' = (if (phase = ''Completed'' \<or> phase = ''Failed'') \<and> sr_CompletedAt sr' = None
                   then sr'\<lparr>sr_CompletedAt := Some (re_Now env)\<rparr> else sr') in
        case re_Fault env (UpdateRestore (sr_Name sr)) of
          Some err \<Rightarrow> (w, Some (Msg ''update SlapdRestore status'' [MStr (sr_Name sr), MMsg err]))
        | None \<Rightarrow> (put_restore sr' w, None))"

definition updateRestoreRequest ::
  "restore_env \<Rightarrow> restore_world \<Rightarrow> string \<Rightarrow> string \<Rightarrow> message \<Rightarrow> restore_world \<times> message option" where
  "updateRestoreRequest env w name phase msg =
     (if name = [] then (w, None)
      else (case get_restore env w name of
          Inl ApiNotFound \<Rightarrow> (w, None)
        | Inl (ApiError err) \<Rightarrow> (w, Some (Msg ''get SlapdRestore'' [MStr name, MMsg err]))
        | Inr sr \<Rightarrow> setRestoreRequestPhase env w sr phase msg))"

text \<open>The loop over the requests keeps the oldest so far.\<close>

type_synonym chosen_request = "(SlapdRestore \<times> SlapdDatabase) option"

fun choose_request ::
  "restore_env \<Rightarrow> restore_world \<Rightarrow> SlapdCluster \<Rightarrow> chosen_request \<Rightarrow> SlapdRestore list \<Rightarrow> message + chosen_request" where
  "choose_request env w sc chosen [] = Inr chosen"
| "choose_request env w sc chosen (sr # rest) =
     (if IsTerminal sr then choose_request env w sc chosen rest
      else (case get_database env w (sr_DatabaseRef sr) of
          Inl ApiNotFound \<Rightarrow> choose_request env w sc chosen rest
        | Inl (ApiError err) \<Rightarrow> Inl err
        | Inr sd \<Rightarrow>
            if sd_ClusterRef sd \<noteq> sc_Name sc \<or> sdst_Phase (sd_Status sd) \<noteq> ''Running''
            then choose_request env w sc chosen rest
            else (case chosen of
                None \<Rightarrow> choose_request env w sc (Some (sr, sd)) rest
              | Some (best, bestDB) \<Rightarrow>
                  if sr_CreationTimestamp sr < sr_CreationTimestamp best
                  then choose_request env w sc (Some (sr, sd)) rest
                  else choose_request env w sc chosen rest)))"

definition pendingRestoreRequest :: "restore_env \<Rightarrow> restore_world \<Rightarrow> SlapdCluster \<Rightarrow> message + chosen_request" where
  "pendingRestoreRequest env w sc =
     (case re_Fault env ListRestores of
        Some err \<Rightarrow> Inl (Msg ''list SlapdRestores'' [MMsg err])
      | None \<Rightarrow> choose_request env w sc None (w_Restores w))"

section \<open>Starting a restore\<close>

definition databasesNeedingRestore ::
  "restore_env \<Rightarrow> restore_world \<Rightarrow> SlapdCluster \<Rightarrow> message + SlapdDatabase list \<times> bool" where
  "databasesNeedingRestore env w sc =
     (case re_Fault env ListDatabases of
        Some err \<Rightarrow> Inl (Msg ''list SlapdDatabases'' [MMsg err])
      | None \<Rightarrow>
          let needing = filter (\<lambda>sd. \<not> (sd_ClusterRef sd \<noteq> sc_Name sc \<or> sds_BootstrapFrom (sd_Spec sd) = None \<or>
                sdst_RestoreApplied (sd_Status sd))) (w_Databases w) in
          Inr (needing, list_all (\<lambda>sd. sdst_Phase (sd_Status sd) = ''Running'') needing))"

definition set_restore :: "string \<Rightarrow> SlapdClusterRestoreStatus option \<Rightarrow> SlapdCluster \<Rightarrow> SlapdCluster" where
  "set_restore phase r sc = sc\<lparr>sc_Status := (sc_Status sc)\<lparr>scs_Phase := phase, scs_Restore := r\<rparr>\<rparr>"

definition new_restore :: "restore_env \<Rightarrow> SlapdCluster \<Rightarrow> string list \<Rightarrow> string \<Rightarrow> message \<Rightarrow> SlapdClusterRestoreStatus" where
  "new_restore env sc names requestRef msg =
     \<lparr>rst_Phase = RestorePreflight, rst_ID = re_ID env, rst_OriginalReplicas = spec_Replicas (sc_Spec sc),
      rst_OriginalReadReplicas = spec_ReadReplicas (sc_Spec sc), rst_Databases = names, rst_RequestRef = requestRef,
      rst_StartedAt = Some (re_Now env), rst_Message = msg\<rparr>"

type_synonym pass_result = "message + bool \<times> duration"
type_synonym pass = "SlapdCluster \<times> restore_world \<times> pass_result"

definition maybeStartRequestedRestore :: "restore_env \<Rightarrow> restore_world \<Rightarrow> SlapdCluster \<Rightarrow> pass" where
  "maybeStartRequestedRestore env w sc =
     (case pendingRestoreRequest env w sc of
        Inl err \<Rightarrow> (sc, w, Inl err)
      | Inr None \<Rightarrow> (sc, w, Inr (False, 0))
      | Inr (Some (sr, sd)) \<Rightarrow>
          if re_OperatorImage env = []
          then (sc, fst (setRestoreRequestPhase env w sr ''Pending'' (Msg ''waiting: operator image unset'' [])),
                Inr (False, 30 * Second))
          else
            (set_restore ''Running''
               (Some (new_restore env sc [sd_Name sd] (sr_Name sr) (Msg ''validating backup source for SlapdRestore'' [MStr (sr_Name sr)]))) sc,
             fst (setRestoreRequestPhase env w sr ''Preflight'' (Msg ''validating backup source'' [])),
             Inr (True, 2 * Second)))"

section \<open>Preflight\<close>

datatype preflight = PreflightPassed | PreflightRetry message | PreflightError message

definition replication_password ::
  "restore_env \<Rightarrow> SlapdCluster \<Rightarrow> SlapdDatabase \<Rightarrow> bool \<Rightarrow> message + string" where
  "replication_password env sc sd skipReplCheck =
     (if skipReplCheck then Inr []
      else if repl_Enabled (sc_Replication sc) \<and> ReplicationEnabled sd then databaseReplPassword env sd
      else Inr [])"

definition preflight_database ::
  "restore_env \<Rightarrow> restore_world \<Rightarrow> SlapdCluster \<Rightarrow> SlapdClusterRestoreStatus \<Rightarrow> string \<Rightarrow> preflight" where
  "preflight_database env w sc rst name =
     (case get_database env w name of
        Inl err \<Rightarrow> PreflightError (api_message err)
      | Inr sd \<Rightarrow>
          (case resolveRestoreSource env w rst sd of
             Inl err \<Rightarrow> PreflightRetry (Msg ''preflight'' [MStr name, MMsg err])
           | Inr (st, key, skipReplCheck) \<Rightarrow>
               (case s3ConfigFromStorage env st of
                  Inl err \<Rightarrow> PreflightRetry (Msg ''preflight'' [MStr name, MMsg err])
                | Inr cfg \<Rightarrow>
                    (case replication_password env sc sd skipReplCheck of
                       Inl err \<Rightarrow> PreflightRetry (Msg ''preflight'' [MStr name, MMsg err])
                     | Inr replPW \<Rightarrow>
                         (case Preflight (re_Store env) cfg key (sds_Suffix (sd_Spec sd)) replPW of
                            Some err \<Rightarrow> PreflightRetry (Msg ''preflight failed'' [MStr name, MMsg err])
                          | None \<Rightarrow> PreflightPassed)))))"

fun preflight_databases ::
  "restore_env \<Rightarrow> restore_world \<Rightarrow> SlapdCluster \<Rightarrow> SlapdClusterRestoreStatus \<Rightarrow> string list \<Rightarrow> preflight" where
  "preflight_databases env w sc rst [] = PreflightPassed"
| "preflight_databases env w sc rst (name # names) =
     (case preflight_database env w sc rst name of
        PreflightPassed \<Rightarrow> preflight_databases env w sc rst names
      | verdict \<Rightarrow> verdict)"

type_synonym restore_result = "SlapdClusterRestoreStatus \<times> restore_world \<times> pass_result"

definition reconcileRestorePreflight ::
  "restore_env \<Rightarrow> restore_world \<Rightarrow> SlapdCluster \<Rightarrow> SlapdClusterRestoreStatus \<Rightarrow> restore_result" where
  "reconcileRestorePreflight env w sc rst =
     (case preflight_databases env w sc rst (rst_Databases rst) of
        PreflightError err \<Rightarrow> (rst, w, Inl err)
      | PreflightRetry msg \<Rightarrow> (rst\<lparr>rst_Message := msg\<rparr>, w, Inr (True, 30 * Second))
      | PreflightPassed \<Rightarrow>
          let rst' = rst\<lparr>rst_Phase := RestoreScalingDown,
                rst_Message := Msg ''preflight passed; scaling down for offline restore'' []\<rparr> in
          (case updateRestoreRequest env w (rst_RequestRef rst) ''Restoring'' (Msg ''preflight passed; scaling down for offline restore'' []) of
             (w', Some err) \<Rightarrow> (rst', w', Inl err)
           | (w', None) \<Rightarrow> (rst', w', Inr (True, 5 * Second))))"

section \<open>Running the Jobs\<close>

definition isAlreadyExists :: "message \<Rightarrow> bool" where
  "isAlreadyExists e = (case e of Msg f args \<Rightarrow> f = ''AlreadyExists'')"

type_synonym jobs_result = "restore_world \<times> (message + bool \<times> message option)"

fun run_targets ::
  "restore_env \<Rightarrow> (restorePodTarget \<Rightarrow> Job) \<Rightarrow> restore_world \<Rightarrow> bool \<Rightarrow> restorePodTarget list \<Rightarrow> jobs_result" where
  "run_targets env build w allDone [] = (w, Inr (allDone, None))"
| "run_targets env build w allDone (t # ts) =
     (case get_job env w (rpt_jobName t) of
        Inl ApiNotFound \<Rightarrow>
          (case re_Fault env (CreateJob (rpt_jobName t)) of
             Some err \<Rightarrow>
               if isAlreadyExists err then run_targets env build w False ts
               else (w, Inl (Msg ''create restore Job'' [MStr (rpt_jobName t), MMsg err]))
           | None \<Rightarrow> run_targets env build (w\<lparr>w_Jobs := w_Jobs w @ [build t]\<rparr>) False ts)
      | Inl (ApiError err) \<Rightarrow> (w, Inl err)
      | Inr job \<Rightarrow>
          (case jobTerminalState job of
             (complete, failed) \<Rightarrow>
               if failed
               then (w, Inr (False, Some (Msg ''restore Job failed''
                       [MStr (rpt_jobName t), MStr (jobFailureSummary (Some job) (re_JobPods env (rpt_jobName t)))])))
               else run_targets env build w (allDone \<and> complete) ts))"

fun run_databases ::
  "restore_env \<Rightarrow> SlapdCluster \<Rightarrow> SlapdClusterRestoreStatus \<Rightarrow> int32 \<Rightarrow> int32 \<Rightarrow> restore_world \<Rightarrow> bool \<Rightarrow> string list
     \<Rightarrow> jobs_result" where
  "run_databases env sc rst rwN roN w allDone [] = (w, Inr (allDone, None))"
| "run_databases env sc rst rwN roN w allDone (name # names) =
     (case get_database env w name of
        Inl err \<Rightarrow> (w, Inl (Msg ''get SlapdDatabase'' [MStr name, MMsg (api_message err)]))
      | Inr sd \<Rightarrow>
          (case resolveRestoreSource env w rst sd of
             Inl err \<Rightarrow> (w, Inl (Msg ''resolve restore source'' [MStr name, MMsg err]))
           | Inr (st, key, _) \<Rightarrow>
               (case dataPlaneImage sc componentSlapdInit (re_OperatorImage env) (re_DefaultImageTag env) of
                  Inl err \<Rightarrow> (w, Inl err)
                | Inr initImage \<Rightarrow>
                    (case run_targets env (buildRestoreJob sc rst sd st key initImage (re_OperatorImage env)) w allDone
                            (restorePodTargets sc rst sd rwN roN) of
                       (w', Inr (done, None)) \<Rightarrow> run_databases env sc rst rwN roN w' done names
                     | stopped \<Rightarrow> stopped))))"

definition runRestoreJobs ::
  "restore_env \<Rightarrow> restore_world \<Rightarrow> SlapdCluster \<Rightarrow> SlapdClusterRestoreStatus \<Rightarrow> string list \<Rightarrow> jobs_result" where
  "runRestoreJobs env w sc rst dbNames =
     (let rwN = (if rst_OriginalReplicas rst = 0 then 1 else rst_OriginalReplicas rst);
          roN = rst_OriginalReadReplicas rst in
      run_databases env sc rst rwN roN w True dbNames)"

section \<open>Ending a restore\<close>

definition mark_applied :: "string \<Rightarrow> restore_world \<Rightarrow> restore_world" where
  "mark_applied name w =
     w\<lparr>w_Databases := map (\<lambda>sd. if sd_Name sd = name then sd\<lparr>sd_Status := (sd_Status sd)\<lparr>sdst_RestoreApplied := True\<rparr>\<rparr> else sd)
        (w_Databases w)\<rparr>"

fun markRestored :: "restore_env \<Rightarrow> restore_world \<Rightarrow> string list \<Rightarrow> restore_world \<times> message option" where
  "markRestored env w [] = (w, None)"
| "markRestored env w (name # names) =
     (case re_Fault env (ApplyDatabaseStatus name) of
        Some err \<Rightarrow> (w, Some (Msg ''mark restoreApplied'' [MStr name, MMsg err]))
      | None \<Rightarrow>
          if name \<in> set (map sd_Name (w_Databases w)) then markRestored env (mark_applied name w) names
          else (w, Some (Msg ''mark restoreApplied'' [MStr name, MMsg (Msg ''not found'' [])])))"

fun delete_jobs :: "restore_env \<Rightarrow> restore_world \<Rightarrow> message list \<Rightarrow> Job list \<Rightarrow> restore_world \<times> message list" where
  "delete_jobs env w errs [] = (w, errs)"
| "delete_jobs env w errs (j # js) =
     (if job_Deleting j then delete_jobs env w errs js
      else (case re_Fault env (DeleteJob (job_Name j)) of
          Some err \<Rightarrow> delete_jobs env w (errs @ [Msg ''reap Job'' [MStr (job_Name j), MMsg err]]) js
        | None \<Rightarrow> delete_jobs env (w\<lparr>w_Jobs := filter (\<lambda>x. job_Name x \<noteq> job_Name j) (w_Jobs w)\<rparr>) errs js))"

definition reapJobsByLabel :: "restore_env \<Rightarrow> restore_world \<Rightarrow> string \<Rightarrow> string \<Rightarrow> restore_world \<times> message option" where
  "reapJobsByLabel env w key val =
     (case re_Fault env ListJobs of
        Some err \<Rightarrow> (w, Some (Msg ''list Jobs'' [MStr key, MStr val, MMsg err]))
      | None \<Rightarrow>
          (case delete_jobs env w [] (filter (\<lambda>j. map_of (job_Labels j) key = Some val) (w_Jobs w)) of
             (w', []) \<Rightarrow> (w', None)
           | (w', e # es) \<Rightarrow> (w', Some (Msg ''joined'' (map MMsg (e # es))))))"

section \<open>The machine\<close>

definition start_restore :: "restore_env \<Rightarrow> restore_world \<Rightarrow> SlapdCluster \<Rightarrow> pass" where
  "start_restore env w sc =
     (case databasesNeedingRestore env w sc of
        Inl err \<Rightarrow> (sc, w, Inl err)
      | Inr (dbs, allDefined) \<Rightarrow>
          if dbs = [] then maybeStartRequestedRestore env w sc
          else if re_OperatorImage env = [] then (sc, w, Inr (False, 30 * Second))
          else if \<not> allDefined then (sc, w, Inr (False, 0))
          else
            (set_restore ''Running''
               (Some (new_restore env sc (map sd_Name dbs) [] (Msg ''validating backup source(s) before scaling down'' []))) sc,
             w, Inr (True, 2 * Second)))"

definition scaling_down :: "restore_world \<Rightarrow> SlapdClusterRestoreStatus \<Rightarrow> sts_status \<Rightarrow> restore_result" where
  "scaling_down w rst sts =
     (if sts_Replicas sts > 0
      then (rst\<lparr>rst_Message := Msg ''waiting for pod(s) to terminate'' [MInt (sts_Replicas sts)]\<rparr>, w, Inr (True, 5 * Second))
      else (rst\<lparr>rst_Phase := RestoreInProgress, rst_Message := Msg ''running restore jobs'' []\<rparr>, w, Inr (True, 2 * Second)))"

definition in_progress :: "restore_env \<Rightarrow> restore_world \<Rightarrow> SlapdCluster \<Rightarrow> SlapdClusterRestoreStatus \<Rightarrow> restore_result" where
  "in_progress env w sc rst =
     (case runRestoreJobs env w sc rst (rst_Databases rst) of
        (w', Inl err) \<Rightarrow> (rst, w', Inl err)
      | (w', Inr (allDone, Some failure)) \<Rightarrow>
          let msg = Msg ''cluster held at 0 replicas'' [MMsg failure];
              rst' = rst\<lparr>rst_Phase := RestoreFailed, rst_Message := msg\<rparr> in
          (case updateRestoreRequest env w' (rst_RequestRef rst) ''Failed'' msg of
             (w'', Some err) \<Rightarrow> (rst', w'', Inl err)
           | (w'', None) \<Rightarrow> (rst', w'', Inr (True, 0)))
      | (w', Inr (allDone, None)) \<Rightarrow>
          if \<not> allDone then (rst, w', Inr (True, 10 * Second))
          else
            (case (if rst_RequestRef rst = [] then markRestored env w' (rst_Databases rst) else (w', None)) of
               (w'', Some err) \<Rightarrow> (rst, w'', Inl err)
             | (w'', None) \<Rightarrow>
                 (rst\<lparr>rst_Phase := RestoreScalingUp, rst_Message := Msg ''scaling back up'' []\<rparr>, w'', Inr (True, 5 * Second))))"

definition scaling_up ::
  "restore_env \<Rightarrow> restore_world \<Rightarrow> SlapdClusterRestoreStatus \<Rightarrow> sts_status
     \<Rightarrow> SlapdClusterRestoreStatus option \<times> restore_world \<times> pass_result" where
  "scaling_up env w rst sts =
     (let desired = (if rst_OriginalReplicas rst = 0 then 1 else rst_OriginalReplicas rst) in
      if sts_ReadyReplicas sts < desired
      then (Some (rst\<lparr>rst_Message := Msg ''scaling up: ready'' [MInt (sts_ReadyReplicas sts), MInt desired]\<rparr>), w,
            Inr (True, 10 * Second))
      else
        (case reapJobsByLabel env w restoreIDLabel (rst_ID rst) of
           (w', Some err) \<Rightarrow> (Some rst, w', Inl err)
         | (w', None) \<Rightarrow>
             (case updateRestoreRequest env w' (rst_RequestRef rst) ''Completed''
                     (Msg ''restore complete; cluster scaled back up'' []) of
                (w'', Some err) \<Rightarrow> (Some rst, w'', Inl err)
              | (w'', None) \<Rightarrow> (None, w'', Inr (False, 0)))))"

definition restore_failed :: "restore_env \<Rightarrow> restore_world \<Rightarrow> SlapdClusterRestoreStatus \<Rightarrow> restore_result" where
  "restore_failed env w rst =
     (case reapJobsByLabel env w restoreIDLabel (rst_ID rst) of
        (w', Some err) \<Rightarrow> (rst, w', Inl err)
      | (w', None) \<Rightarrow> (rst, w', Inr (True, 0)))"

definition reconcileRestore :: "restore_env \<Rightarrow> restore_world \<Rightarrow> SlapdCluster \<Rightarrow> sts_status \<Rightarrow> pass" where
  "reconcileRestore env w sc sts =
     (case scs_Restore (sc_Status sc) of
        None \<Rightarrow> start_restore env w sc
      | Some rst \<Rightarrow>
          let phase = (if rst_Phase rst = RestorePreflight then ''Running'' else ''Restoring'');
              keep = (\<lambda>(r, w', res). (set_restore phase (Some r) sc, w', res)) in
          (case rst_Phase rst of
             RestorePreflight \<Rightarrow> keep (reconcileRestorePreflight env w sc rst)
           | RestoreScalingDown \<Rightarrow> keep (scaling_down w rst sts)
           | RestoreInProgress \<Rightarrow> keep (in_progress env w sc rst)
           | RestoreScalingUp \<Rightarrow>
               (case scaling_up env w rst sts of (r, w', res) \<Rightarrow> (set_restore phase r sc, w', res))
           | RestoreFailed \<Rightarrow> keep (restore_failed env w rst)))"

text \<open>
  The part of \<open>Reconcile\<close> around it. A pass keeps the status it computed when it ends without an error: after a handled
  restore the status is applied at once; otherwise the rest of the pass runs and applies it at its end. \<open>persists\<close> says
  whether that succeeded. The replica counts come from \<open>buildStatefulSetSpec\<close>, which runs before, on the status the pass
  started from.
\<close>

definition desiredReplicas :: "SlapdCluster \<Rightarrow> bool \<Rightarrow> int32" where
  "desiredReplicas sc readOnly =
     (let replicas = (if readOnly then spec_ReadReplicas (sc_Spec sc)
            else if spec_Replicas (sc_Spec sc) = 0 then 1 else spec_Replicas (sc_Spec sc)) in
      if RestoreHoldsDown sc then 0 else replicas)"

definition restorePass :: "restore_env \<Rightarrow> bool \<Rightarrow> restore_world \<Rightarrow> SlapdCluster \<Rightarrow> sts_status \<Rightarrow> SlapdCluster \<times> restore_world" where
  "restorePass env persists w sc sts =
     (case reconcileRestore env w sc sts of
        (sc', w', Inl err) \<Rightarrow> (sc, w')
      | (sc', w', Inr (handled, requeue)) \<Rightarrow> (if persists then sc' else sc, w'))"

section \<open>One pass of an active restore\<close>

lemma set_restore_simps [simp]:
  "scs_Restore (sc_Status (set_restore p r sc)) = r" "sc_Spec (set_restore p r sc) = sc_Spec sc"
  "sc_Name (set_restore p r sc) = sc_Name sc" "sc_Replication (set_restore p r sc) = sc_Replication sc"
  by (simp_all add: set_restore_def)

abbreviation sc_Restore :: "SlapdCluster \<Rightarrow> SlapdClusterRestoreStatus option" where
  "sc_Restore sc \<equiv> scs_Restore (sc_Status sc)"

text \<open>What a window carries from its first pass to its last, and the moves between phases.\<close>

definition same_window :: "SlapdClusterRestoreStatus \<Rightarrow> SlapdClusterRestoreStatus \<Rightarrow> bool" where
  "same_window r r' \<longleftrightarrow> r' = r\<lparr>rst_Phase := rst_Phase r', rst_Message := rst_Message r'\<rparr>"

inductive phase_move :: "SlapdClusterRestorePhase \<Rightarrow> SlapdClusterRestorePhase \<Rightarrow> bool" where
  "phase_move RestorePreflight RestoreScalingDown"
| "phase_move RestoreScalingDown RestoreInProgress"
| "phase_move RestoreInProgress RestoreScalingUp"
| "phase_move RestoreInProgress RestoreFailed"

inductive_simps phase_move_simps [simp]:
  "phase_move RestorePreflight q" "phase_move RestoreScalingDown q" "phase_move RestoreInProgress q"
  "phase_move RestoreScalingUp q" "phase_move RestoreFailed q"

code_pred phase_move .

fun phases_left :: "SlapdClusterRestorePhase \<Rightarrow> nat" where
  "phases_left RestorePreflight = 3"
| "phases_left RestoreScalingDown = 2"
| "phases_left RestoreInProgress = 1"
| "phases_left RestoreScalingUp = 0"
| "phases_left RestoreFailed = 0"

lemma phase_move_left: "phase_move p q \<Longrightarrow> phases_left q < phases_left p"
  by (induction rule: phase_move.induct) auto

lemma same_window_update [simp]:
  "same_window r (r\<lparr>rst_Message := m\<rparr>)" "same_window r (r\<lparr>rst_Phase := p, rst_Message := m\<rparr>)" "same_window r r"
  by (simp_all add: same_window_def)

lemma same_window_fields:
  assumes "same_window r r'"
  shows "rst_ID r' = rst_ID r" "rst_Databases r' = rst_Databases r" "rst_RequestRef r' = rst_RequestRef r"
    "rst_OriginalReplicas r' = rst_OriginalReplicas r" "rst_OriginalReadReplicas r' = rst_OriginalReadReplicas r"
proof -
  obtain p m where "r' = r\<lparr>rst_Phase := p, rst_Message := m\<rparr>" using assms unfolding same_window_def by blast
  then show "rst_ID r' = rst_ID r" "rst_Databases r' = rst_Databases r" "rst_RequestRef r' = rst_RequestRef r"
    "rst_OriginalReplicas r' = rst_OriginalReplicas r" "rst_OriginalReadReplicas r' = rst_OriginalReadReplicas r"
    by simp_all
qed

definition next_of :: "SlapdClusterRestoreStatus \<Rightarrow> SlapdClusterRestoreStatus \<Rightarrow> bool" where
  "next_of r r' \<longleftrightarrow> same_window r r' \<and> (rst_Phase r' = rst_Phase r \<or> phase_move (rst_Phase r) (rst_Phase r'))"

lemma preflight_next:
  "rst_Phase r = RestorePreflight \<Longrightarrow> reconcileRestorePreflight env w sc r = (r', w', res) \<Longrightarrow> next_of r r'"
  by (auto simp: reconcileRestorePreflight_def next_of_def Let_def split: preflight.splits prod.splits option.splits)

lemma scaling_down_next:
  "rst_Phase r = RestoreScalingDown \<Longrightarrow> scaling_down w r sts = (r', w', res) \<Longrightarrow> next_of r r'"
  by (auto simp: scaling_down_def next_of_def split: if_splits)

lemma in_progress_next:
  "rst_Phase r = RestoreInProgress \<Longrightarrow> in_progress env w sc r = (r', w', res) \<Longrightarrow> next_of r r'"
  by (auto simp: in_progress_def next_of_def Let_def split: prod.splits sum.splits option.splits if_splits)

lemma scaling_up_next:
  "rst_Phase r = RestoreScalingUp \<Longrightarrow> scaling_up env w r sts = (Some r', w', res) \<Longrightarrow> next_of r r'"
  by (auto simp: scaling_up_def next_of_def Let_def split: prod.splits option.splits if_splits)

lemma restore_failed_next:
  "restore_failed env w r = (r', w', res) \<Longrightarrow> next_of r r'"
  by (auto simp: restore_failed_def next_of_def split: prod.splits option.splits)

lemma reconcileRestore_next:
  assumes "sc_Restore sc = Some r" and "reconcileRestore env w sc sts = (sc', w', res)"
  shows "(case sc_Restore sc' of None \<Rightarrow> rst_Phase r = RestoreScalingUp | Some r' \<Rightarrow> next_of r r')"
proof (cases "rst_Phase r")
  case RestorePreflight
  obtain r' where "reconcileRestorePreflight env w sc r = (r', w', res)" and "sc_Restore sc' = Some r'"
    using assms RestorePreflight by (auto simp: reconcileRestore_def split: prod.splits)
  then show ?thesis using RestorePreflight preflight_next by auto
next
  case RestoreScalingDown
  obtain r' where "scaling_down w r sts = (r', w', res)" and "sc_Restore sc' = Some r'"
    using assms RestoreScalingDown by (auto simp: reconcileRestore_def split: prod.splits)
  then show ?thesis using RestoreScalingDown scaling_down_next by auto
next
  case RestoreInProgress
  obtain r' where "in_progress env w sc r = (r', w', res)" and "sc_Restore sc' = Some r'"
    using assms RestoreInProgress by (auto simp: reconcileRestore_def split: prod.splits)
  then show ?thesis using RestoreInProgress in_progress_next by auto
next
  case RestoreScalingUp
  obtain r' where "scaling_up env w r sts = (r', w', res)" and "sc_Restore sc' = r'"
    using assms RestoreScalingUp by (auto simp: reconcileRestore_def split: prod.splits)
  then show ?thesis using RestoreScalingUp scaling_up_next by (auto split: option.splits)
next
  case RestoreFailed
  obtain r' where "restore_failed env w r = (r', w', res)" and "sc_Restore sc' = Some r'"
    using assms RestoreFailed by (auto simp: reconcileRestore_def split: prod.splits)
  then show ?thesis using restore_failed_next by auto
qed

lemma restorePass_next:
  assumes "sc_Restore sc = Some r" and "restorePass env persists w sc sts = (sc', w')"
  shows "(case sc_Restore sc' of None \<Rightarrow> rst_Phase r = RestoreScalingUp | Some r' \<Rightarrow> next_of r r')"
proof -
  obtain sc1 w1 res where rr: "reconcileRestore env w sc sts = (sc1, w1, res)" using prod_cases3 by blast
  have "next_of r r" by (simp add: next_of_def)
  moreover have "sc' = sc \<or> sc' = sc1"
    using assms(2) rr by (cases res) (auto simp: restorePass_def split: if_splits)
  ultimately show ?thesis using reconcileRestore_next [OF assms(1) rr] assms(1) by auto
qed

section \<open>A concrete restore\<close>

text \<open>One database with a bootstrap source, an artifact for it, an environment without faults, and the cluster in a phase.\<close>

definition demo_storage :: S3StorageSpec where
  "demo_storage = \<lparr>s3_Bucket = ''b'', s3_Prefix = [], s3_Endpoint = [], s3_Region = [], s3_CredentialsSecretName = ''s'',
     s3_InsecureTLS = False\<rparr>"

definition demo_database :: "string \<Rightarrow> SlapdDatabase" where
  "demo_database name =
     (let sd = base_database name (Some 0) in
      sd\<lparr>sd_Spec := (sd_Spec sd)\<lparr>sds_Suffix := ''o=x'', sds_BootstrapFrom :=
           Some \<lparr>boot_BackupRef = [], boot_S3 = Some \<lparr>bs3_Storage = demo_storage, bs3_Key = ''k''\<rparr>,
             boot_SkipReplicationPasswordCheck = False\<rparr>\<rparr>,
         sd_Status := (sd_Status sd)\<lparr>sdst_Phase := ''Running''\<rparr>\<rparr>)"

definition demo_env :: restore_env where
  "demo_env = \<lparr>re_Fault = \<lambda>_. None, re_Secret = \<lambda>_. Inr (\<lambda>_. ''v''),
     re_Store = \<lambda>_ _. Inr \<lparr>obj_Metadata = [], obj_Body = Inr (dump [''dn: o=x'', ''o: x''])\<rparr>,
     re_JobPods = \<lambda>_. [], re_OperatorImage = ''r/o:1'', re_DefaultImageTag = ''1'', re_ID = ''i'', re_Now = 0\<rparr>"

definition demo_world :: "Job list \<Rightarrow> restore_world" where
  "demo_world jobs = \<lparr>w_Databases = [demo_database ''a''], w_Restores = [], w_Backups = [], w_Jobs = jobs\<rparr>"

definition demo_status :: "SlapdClusterRestorePhase \<Rightarrow> SlapdClusterRestoreStatus" where
  "demo_status phase = \<lparr>rst_Phase = phase, rst_ID = ''i'', rst_OriginalReplicas = 1, rst_OriginalReadReplicas = 0,
     rst_Databases = [''a''], rst_RequestRef = [], rst_StartedAt = None, rst_Message = noMsg\<rparr>"

definition demo_cluster :: "SlapdClusterRestorePhase option \<Rightarrow> SlapdCluster" where
  "demo_cluster phase = set_restore ''Running'' (map_option demo_status phase)
     (base_cluster\<lparr>sc_Spec := (sc_Spec base_cluster)\<lparr>spec_Replicas := 1\<rparr>\<rparr>)"

definition demo_job :: Job where
  "demo_job = \<lparr>job_Name = ''a-restore-i-rw-0'', job_Labels = [(restoreIDLabel, ''i'')], job_BackoffLimit = 2,
     job_TTLSecondsAfterFinished = 600, job_InitContainers = [], job_Containers = [], job_Volumes = [], job_PodAffinity = None, job_Deleting = False,
     job_Conditions = [\<lparr>jc_Type = ''Complete'', jc_Status = ConditionTrue, jc_Reason = [], jc_Message = []\<rparr>]\<rparr>"

definition demo_sts :: "int32 \<Rightarrow> sts_status" where
  "demo_sts n = \<lparr>sts_Replicas = n, sts_ReadyReplicas = n\<rparr>"

end
