(* ===== verification/Restore_Window.thy ===== *)
theory Restore_Window
  imports Restore
begin

text \<open>
  What a restore window does over its passes: it moves forward through its phases and comes to an end, it scales nothing down before every
  artifact was validated, it marks a database restored after its Jobs completed, and it serves the oldest request first.
\<close>

section \<open>Phases of a window\<close>

text \<open>
  One pass of the controller as the window sees it: the answers of the environment, whether the status could be written, the
  namespace and the cluster's spec as they are at that time, and the observed StatefulSet.
\<close>

record tick =
  t_Env :: restore_env
  t_Persists :: bool
  t_World :: restore_world
  t_Spec :: SlapdClusterSpec
  t_Sts :: sts_status

definition tick_pass :: "tick \<Rightarrow> SlapdCluster \<Rightarrow> SlapdCluster" where
  "tick_pass t sc = fst (restorePass (t_Env t) (t_Persists t) (t_World t) (sc\<lparr>sc_Spec := t_Spec t\<rparr>) (t_Sts t))"

fun window :: "tick list \<Rightarrow> SlapdCluster \<Rightarrow> SlapdClusterRestorePhase list" where
  "window [] sc = (case sc_Restore sc of None \<Rightarrow> [] | Some r \<Rightarrow> [rst_Phase r])"
| "window (t # ts) sc = (case sc_Restore sc of None \<Rightarrow> [] | Some r \<Rightarrow> rst_Phase r # window ts (tick_pass t sc))"

lemma tick_pass_next:
  assumes "sc_Restore sc = Some r"
  shows "(case sc_Restore (tick_pass t sc) of None \<Rightarrow> rst_Phase r = RestoreScalingUp | Some r' \<Rightarrow> next_of r r')"
proof -
  obtain sc' w' where p: "restorePass (t_Env t) (t_Persists t) (t_World t) (sc\<lparr>sc_Spec := t_Spec t\<rparr>) (t_Sts t) = (sc', w')"
    using prod.exhaust by blast
  show ?thesis using restorePass_next [OF _ p] assms by (simp add: tick_pass_def p)
qed

lemma window_chain:
  "sorted_wrt (\<lambda>p q. phases_left q < phases_left p) (remdups_adj (window ts sc)) \<and>
   (\<forall>q \<in> set (window ts sc). case sc_Restore sc of None \<Rightarrow> False | Some r \<Rightarrow> phases_left q \<le> phases_left (rst_Phase r))"
proof (induction ts arbitrary: sc)
  case Nil
  then show ?case by (simp split: option.split)
next
  case (Cons t ts)
  show ?case
  proof (cases "sc_Restore sc")
    case (Some r)
    let ?rest = "window ts (tick_pass t sc)"
    note IH = Cons.IH [of "tick_pass t sc"]
    show ?thesis
    proof (cases "sc_Restore (tick_pass t sc)")
      case None
      then have "?rest = []" by (cases ts) simp_all
      then show ?thesis using Some by simp
    next
      case (Some r')
      then have nx: "next_of r r'" using tick_pass_next [OF \<open>sc_Restore sc = Some r\<close>, of t] by simp
      have hd: "\<exists>more. ?rest = rst_Phase r' # more" using Some by (cases ts) simp_all
      then obtain more where more: "?rest = rst_Phase r' # more" by blast
      have le: "\<forall>q \<in> set ?rest. phases_left q \<le> phases_left (rst_Phase r')" using IH Some by simp
      from nx consider "rst_Phase r' = rst_Phase r" | "phases_left (rst_Phase r') < phases_left (rst_Phase r)"
        using phase_move_left by (auto simp: next_of_def)
      then show ?thesis
      proof cases
        case 1
        then show ?thesis using IH more le \<open>sc_Restore sc = Some r\<close> by simp
      next
        case 2
        then have "remdups_adj (rst_Phase r # ?rest) = rst_Phase r # remdups_adj ?rest" using more by auto
        moreover have "\<forall>q \<in> set ?rest. phases_left q < phases_left (rst_Phase r)" using le 2 by force
        ultimately show ?thesis using IH \<open>sc_Restore sc = Some r\<close> by (auto simp: less_imp_le)
      qed
    qed
  qed simp
qed

lemma descending_length:
  "sorted_wrt (\<lambda>p q. f q < f p) (x # xs) \<Longrightarrow> length xs \<le> (f x :: nat)"
proof (induction xs arbitrary: x)
  case (Cons y ys)
  then have "length ys \<le> f y" and "f y < f x" by auto
  then show ?case by simp
qed simp

text \<open>
  C20. A restore window cannot loop. However the environment behaves between and during its passes, each change of
  phase lowers a measure: the phases a window goes through never return to an earlier one, and there are at most four.
\<close>

theorem window_bounded:
  "sorted_wrt (\<lambda>p q. phases_left q < phases_left p) (remdups_adj (window ts sc)) \<and>
   length (remdups_adj (window ts sc)) \<le> 4"
proof -
  have sorted: "sorted_wrt (\<lambda>p q. phases_left q < phases_left p) (remdups_adj (window ts sc))"
    using window_chain by blast
  moreover have "length (remdups_adj (window ts sc)) \<le> 4"
  proof (cases "remdups_adj (window ts sc)")
    case (Cons p ps)
    have "phases_left p \<le> 3" by (cases p) simp_all
    then show ?thesis using sorted Cons descending_length [of phases_left p ps] by simp
  qed simp
  ultimately show ?thesis by blast
qed

section \<open>When the Jobs are done\<close>

definition loaded :: "restore_env \<Rightarrow> restore_world \<Rightarrow> string \<Rightarrow> bool" where
  "loaded env w name \<longleftrightarrow> (\<exists>j. get_job env w name = Inr j \<and> job_complete j \<and> \<not> job_failed j)"

lemma run_targets_not_done: "run_targets env build w False ts \<noteq> (w', Inr (True, f))"
  by (induction ts arbitrary: w) (auto split: sum.splits api_error.splits option.splits prod.splits if_splits)

lemma run_targets_done:
  "run_targets env build w d ts = (w', Inr (True, f)) \<longleftrightarrow>
     f = None \<and> d \<and> w' = w \<and> (\<forall>t \<in> set ts. loaded env w (rpt_jobName t))"
proof (induction ts arbitrary: d)
  case (Cons t ts)
  show ?case
  proof (cases "get_job env w (rpt_jobName t)")
    case (Inl e)
    then show ?thesis using run_targets_not_done
      by (cases e) (auto simp: loaded_def split: option.splits if_splits)
  next
    case (Inr j)
    then show ?thesis using Cons.IH run_targets_not_done [of env build w ts w' f]
      by (auto simp: loaded_def jobTerminalState_flags)
  qed
qed auto

definition db_loaded :: "restore_env \<Rightarrow> restore_world \<Rightarrow> SlapdCluster \<Rightarrow> SlapdClusterRestoreStatus \<Rightarrow> string \<Rightarrow> bool" where
  "db_loaded env w sc rst name \<longleftrightarrow>
     (\<exists>sd st key skip img. get_database env w name = Inr sd \<and> resolveRestoreSource env w rst sd = Inr (st, key, skip) \<and>
        dataPlaneImage sc componentSlapdInit (re_OperatorImage env) (re_DefaultImageTag env) = Inr img \<and>
        (\<forall>t \<in> set (restorePodTargets sc rst sd (if rst_OriginalReplicas rst = 0 then 1 else rst_OriginalReplicas rst)
              (rst_OriginalReadReplicas rst)). loaded env w (rpt_jobName t)))"

lemma run_databases_not_done: "run_databases env sc rst rwN roN w False names \<noteq> (w', Inr (True, f))"
proof (induction names arbitrary: w)
  case (Cons name names)
  have step: "run_targets env b w False ts = (w1, Inr (d, f1)) \<Longrightarrow> \<not> d" for b ts w1 d f1
    using run_targets_not_done [of env b w ts w1 f1] by (cases d) auto
  show ?case
  proof
    assume a: "run_databases env sc rst rwN roN w False (name # names) = (w', Inr (True, f))"
    then obtain sd st key skip img where
      p: "get_database env w name = Inr sd" "resolveRestoreSource env w rst sd = Inr (st, key, skip)"
        "dataPlaneImage sc componentSlapdInit (re_OperatorImage env) (re_DefaultImageTag env) = Inr img"
      by (auto split: sum.splits prod.splits)
    obtain w1 res where r: "run_targets env (buildRestoreJob sc rst sd st key img (re_OperatorImage env)) w False
        (restorePodTargets sc rst sd rwN roN) = (w1, res)" using prod.exhaust by blast
    show False
    proof (cases res)
      case (Inr df)
      obtain d1 f1 where df: "df = (d1, f1)" by (cases df)
      then have "\<not> d1" using step r Inr by blast
      then show False using a p r Inr df Cons.IH [of w1] by (cases f1) auto
    qed (use a p r in auto)
  qed
qed simp

lemma run_databases_done:
  assumes "rwN = (if rst_OriginalReplicas rst = 0 then 1 else rst_OriginalReplicas rst)" and "roN = rst_OriginalReadReplicas rst"
  shows "run_databases env sc rst rwN roN w d names = (w', Inr (True, f)) \<longleftrightarrow>
           f = None \<and> d \<and> w' = w \<and> (\<forall>name \<in> set names. db_loaded env w sc rst name)"
proof (induction names arbitrary: d)
  case (Cons name names)
  show ?case
  proof (cases "\<exists>sd st key skip img. get_database env w name = Inr sd \<and> resolveRestoreSource env w rst sd = Inr (st, key, skip) \<and>
        dataPlaneImage sc componentSlapdInit (re_OperatorImage env) (re_DefaultImageTag env) = Inr img")
    case True
    then obtain sd st key skip img where
      p: "get_database env w name = Inr sd" "resolveRestoreSource env w rst sd = Inr (st, key, skip)"
        "dataPlaneImage sc componentSlapdInit (re_OperatorImage env) (re_DefaultImageTag env) = Inr img" by blast
    let ?ts = "restorePodTargets sc rst sd rwN roN"
    let ?run = "run_targets env (buildRestoreJob sc rst sd st key img (re_OperatorImage env)) w d ?ts"
    have l: "db_loaded env w sc rst name \<longleftrightarrow> (\<forall>t \<in> set ?ts. loaded env w (rpt_jobName t))"
      using p by (simp add: db_loaded_def assms)
    obtain w1 res where r: "?run = (w1, res)" using prod.exhaust by blast
    show ?thesis
    proof (cases res)
      case (Inl e)
      then have "\<not> (d \<and> (\<forall>t \<in> set ?ts. loaded env w (rpt_jobName t)))"
        using r run_targets_done [of env "buildRestoreJob sc rst sd st key img (re_OperatorImage env)" w d ?ts w None] by auto
      then show ?thesis using p r Inl l by auto
    next
      case (Inr df)
      obtain d1 f1 where df: "df = (d1, f1)" by (cases df)
      note fin = run_targets_done [of env "buildRestoreJob sc rst sd st key img (re_OperatorImage env)" w d ?ts]
      show ?thesis
      proof (cases d1)
        case True
        then have "f1 = None \<and> d \<and> w1 = w \<and> (\<forall>t \<in> set ?ts. loaded env w (rpt_jobName t))"
          using fin [of w1 f1] r Inr df by simp
        then show ?thesis using p r Inr df l Cons.IH [of True] True by auto
      next
        case False
        then have no: "\<not> (d \<and> db_loaded env w sc rst name)" using fin [of w None] r Inr df l by auto
        have "run_databases env sc rst rwN roN w d (name # names) \<noteq> (w', Inr (True, f))"
          using p r Inr df False run_databases_not_done [of env sc rst rwN roN w1 names w' f] by (cases f1) auto
        then show ?thesis using no by auto
      qed
    qed
  next
    case False
    then have "\<not> db_loaded env w sc rst name" by (auto simp: db_loaded_def)
    moreover have "run_databases env sc rst rwN roN w d (name # names) \<noteq> (w', Inr (True, f))"
      using False by (auto split: sum.splits)
    ultimately show ?thesis by auto
  qed
qed auto

lemma runRestoreJobs_done:
  "runRestoreJobs env w sc rst names = (w', Inr (True, f)) \<longleftrightarrow>
     f = None \<and> w' = w \<and> (\<forall>name \<in> set names. db_loaded env w sc rst name)"
  unfolding runRestoreJobs_def Let_def by (subst run_databases_done) auto

section \<open>What a pass leaves alone\<close>

named_theorems restore_frame "the parts of the namespace an operation does not change"

lemma setRestoreRequestPhase_frame [restore_frame]:
  "setRestoreRequestPhase env w sr phase msg = (w', e) \<Longrightarrow>
     w_Databases w' = w_Databases w \<and> w_Backups w' = w_Backups w \<and> w_Jobs w' = w_Jobs w"
  by (auto simp: setRestoreRequestPhase_def put_restore_def Let_def split: if_splits option.splits)

lemma updateRestoreRequest_frame [restore_frame]:
  "updateRestoreRequest env w name phase msg = (w', e) \<Longrightarrow>
     w_Databases w' = w_Databases w \<and> w_Backups w' = w_Backups w \<and> w_Jobs w' = w_Jobs w"
  unfolding updateRestoreRequest_def
  by (auto split: if_splits sum.splits api_error.splits dest: setRestoreRequestPhase_frame)

lemma run_targets_frame [restore_frame]:
  "run_targets env build w d ts = (w', res) \<Longrightarrow>
     w_Databases w' = w_Databases w \<and> w_Backups w' = w_Backups w \<and> w_Restores w' = w_Restores w"
proof (induction ts arbitrary: w d)
  case (Cons t ts)
  then show ?case
    by (cases "get_job env w (rpt_jobName t)")
      (force split: api_error.splits option.splits prod.splits if_splits)+
qed auto

lemma run_databases_frame [restore_frame]:
  "run_databases env sc rst rwN roN w d names = (w', res) \<Longrightarrow>
     w_Databases w' = w_Databases w \<and> w_Backups w' = w_Backups w \<and> w_Restores w' = w_Restores w"
proof (induction names arbitrary: w d)
  case (Cons name names)
  show ?case
  proof (cases "\<exists>sd st key skip img. get_database env w name = Inr sd \<and> resolveRestoreSource env w rst sd = Inr (st, key, skip) \<and>
        dataPlaneImage sc componentSlapdInit (re_OperatorImage env) (re_DefaultImageTag env) = Inr img")
    case True
    then obtain sd st key skip img where
      p: "get_database env w name = Inr sd" "resolveRestoreSource env w rst sd = Inr (st, key, skip)"
        "dataPlaneImage sc componentSlapdInit (re_OperatorImage env) (re_DefaultImageTag env) = Inr img" by blast
    obtain w1 res1 where r: "run_targets env (buildRestoreJob sc rst sd st key img (re_OperatorImage env)) w d
        (restorePodTargets sc rst sd rwN roN) = (w1, res1)" using prod.exhaust by blast
    note fr = run_targets_frame [OF r]
    show ?thesis using Cons p r fr by (auto split: sum.splits prod.splits option.splits)
  next
    case False
    then show ?thesis using Cons.prems by (auto split: sum.splits)
  qed
qed auto

lemma runRestoreJobs_frame [restore_frame]:
  "runRestoreJobs env w sc rst names = (w', res) \<Longrightarrow>
     w_Databases w' = w_Databases w \<and> w_Backups w' = w_Backups w \<and> w_Restores w' = w_Restores w"
  unfolding runRestoreJobs_def Let_def by (rule run_databases_frame)

lemma delete_jobs_frame:
  "delete_jobs env w errs js = (w', errs') \<Longrightarrow>
     w_Databases w' = w_Databases w \<and> w_Backups w' = w_Backups w \<and> w_Restores w' = w_Restores w \<and>
     set (w_Jobs w') \<subseteq> set (w_Jobs w)"
proof (induction js arbitrary: w errs)
  case (Cons j js)
  show ?case
  proof (cases "job_Deleting j \<or> re_Fault env (DeleteJob (job_Name j)) \<noteq> None")
    case True
    then show ?thesis using Cons by (auto split: if_splits option.splits)
  next
    case False
    then have "delete_jobs env (w\<lparr>w_Jobs := filter (\<lambda>x. job_Name x \<noteq> job_Name j) (w_Jobs w)\<rparr>) errs js = (w', errs')"
      using Cons.prems by simp
    from Cons.IH [OF this] show ?thesis by auto
  qed
qed auto

lemma reapJobsByLabel_frame [restore_frame]:
  "reapJobsByLabel env w key val = (w', e) \<Longrightarrow>
     w_Databases w' = w_Databases w \<and> w_Backups w' = w_Backups w \<and> w_Restores w' = w_Restores w \<and>
     set (w_Jobs w') \<subseteq> set (w_Jobs w)"
  unfolding reapJobsByLabel_def
  by (auto split: option.splits prod.splits list.splits dest: delete_jobs_frame)

section \<open>The one-shot mark\<close>

definition apply_marks :: "string set \<Rightarrow> SlapdDatabase \<Rightarrow> SlapdDatabase" where
  "apply_marks N sd =
     (if sd_Name sd \<in> N then sd\<lparr>sd_Status := (sd_Status sd)\<lparr>sdst_RestoreApplied := True\<rparr>\<rparr> else sd)"

lemma sd_Name_apply_marks [simp]: "sd_Name (apply_marks N sd) = sd_Name sd"
  by (simp add: apply_marks_def)

lemma mark_applied_marks: "w_Databases (mark_applied name w) = map (apply_marks {name}) (w_Databases w)"
  by (simp add: mark_applied_def apply_marks_def)

lemma apply_marks_comp: "apply_marks N (apply_marks M sd) = apply_marks (M \<union> N) sd"
  by (auto simp: apply_marks_def)

lemma markRestored_marks:
  "markRestored env w names = (w', e) \<Longrightarrow>
     \<exists>N \<subseteq> set names. w_Databases w' = map (apply_marks N) (w_Databases w) \<and> (e = None \<longrightarrow> N = set names) \<and>
       w_Jobs w' = w_Jobs w \<and> w_Restores w' = w_Restores w"
proof (induction names arbitrary: w)
  case (Cons name names)
  show ?case
  proof (cases "re_Fault env (ApplyDatabaseStatus name) = None \<and> name \<in> set (map sd_Name (w_Databases w))")
    case True
    then have "markRestored env (mark_applied name w) names = (w', e)" using Cons.prems by simp
    from Cons.IH [OF this] obtain N where N: "N \<subseteq> set names"
      "w_Databases w' = map (apply_marks N) (map (apply_marks {name}) (w_Databases w))" "e = None \<longrightarrow> N = set names"
      "w_Jobs w' = w_Jobs w" "w_Restores w' = w_Restores w"
      unfolding mark_applied_marks by (auto simp: mark_applied_def)
    then show ?thesis by (intro exI [of _ "insert name N"]) (auto simp: apply_marks_comp)
  next
    case False
    then have "w' = w \<and> e \<noteq> None" using Cons.prems by (auto split: option.splits if_splits)
    moreover have "map (apply_marks {}) (w_Databases w) = w_Databases w" by (intro map_idI) (simp add: apply_marks_def)
    ultimately show ?thesis by (intro exI [of _ "{}"]) auto
  qed
qed (auto simp: apply_marks_def map_idI)

lemma in_progress_cases:
  assumes "in_progress env w sc r = (r', w', res)" and "w_Databases w' \<noteq> w_Databases w"
  shows "rst_RequestRef r = [] \<and> (\<forall>name \<in> set (rst_Databases r). db_loaded env w sc r name) \<and>
         (\<exists>N \<subseteq> set (rst_Databases r). w_Databases w' = map (apply_marks N) (w_Databases w))"
proof -
  obtain w1 run where run: "runRestoreJobs env w sc r (rst_Databases r) = (w1, run)" using prod.exhaust by blast
  have same: "w_Databases w1 = w_Databases w" using runRestoreJobs_frame [OF run] by blast
  show ?thesis
  proof (cases run)
    case (Inl e)
    then show ?thesis using assms run same by (auto simp: in_progress_def)
  next
    case (Inr df)
    obtain d f where df: "df = (d, f)" by (cases df)
    show ?thesis
    proof (cases "f = None \<and> d \<and> rst_RequestRef r = []")
      case True
      obtain w2 e where m: "markRestored env w1 (rst_Databases r) = (w2, e)" using prod.exhaust by blast
      have "w' = w2" using assms(1) run Inr df True m by (auto simp: in_progress_def split: option.splits)
      moreover have "runRestoreJobs env w sc r (rst_Databases r) = (w1, Inr (True, None))" using run Inr df True by simp
      ultimately show ?thesis using True markRestored_marks [OF m] same unfolding runRestoreJobs_done by auto
    next
      case False
      have "w_Databases w' = w_Databases w1"
        using assms(1) run Inr df False
        by (auto simp: in_progress_def Let_def split: option.splits prod.splits if_splits dest: updateRestoreRequest_frame)
      then show ?thesis using assms(2) same by simp
    qed
  qed
qed

lemma start_restore_databases: "start_restore env w sc = (sc', w', res) \<Longrightarrow> w_Databases w' = w_Databases w"
proof -
  have f: "w_Databases (fst (setRestoreRequestPhase env w sr p m)) = w_Databases w" for sr p m
    using setRestoreRequestPhase_frame prod.exhaust_sel by blast
  then show "start_restore env w sc = (sc', w', res) \<Longrightarrow> w_Databases w' = w_Databases w"
    by (auto simp: start_restore_def maybeStartRequestedRestore_def f
        split: sum.splits prod.splits option.splits if_splits)
qed

text \<open>
  C11. The one-shot mark: a pass changes the databases of the namespace only in a restore that a bootstrap
  source started, while its Jobs run, when every pod of every database of the restore has a Job that completed and
  did not fail; and the only change is that \<open>restoreApplied\<close> becomes true on databases of this restore. An in-place
  restore never sets it.
\<close>

theorem applied_only_after_load:
  assumes "reconcileRestore env w sc sts = (sc', w', res)" and "w_Databases w' \<noteq> w_Databases w"
  shows "\<exists>r N. sc_Restore sc = Some r \<and> rst_Phase r = RestoreInProgress \<and> rst_RequestRef r = [] \<and>
           list_all (db_loaded env w sc r) (rst_Databases r) \<and> N \<subseteq> set (rst_Databases r) \<and>
           w_Databases w' = map (apply_marks N) (w_Databases w)"
proof (cases "sc_Restore sc")
  case None
  then show ?thesis using assms start_restore_databases by (auto simp: reconcileRestore_def)
next
  case (Some r)
  show ?thesis
  proof (cases "rst_Phase r = RestoreInProgress")
    case True
    then obtain r' where "in_progress env w sc r = (r', w', res)"
      using assms(1) Some by (auto simp: reconcileRestore_def split: prod.splits)
    from in_progress_cases [OF this assms(2)] show ?thesis using Some True by (auto simp: list_all_iff)
  next
    case False
    then have "w_Databases w' = w_Databases w"
      using assms(1) Some
      by (cases "rst_Phase r")
        (auto simp: reconcileRestore_def reconcileRestorePreflight_def scaling_down_def scaling_up_def restore_failed_def Let_def
          split: prod.splits preflight.splits option.splits if_splits dest!: updateRestoreRequest_frame reapJobsByLabel_frame)
    with assms(2) show ?thesis by simp
  qed
qed

theorem applied_only_after_load_witness:
  "let p = reconcileRestore demo_env (demo_world [demo_job]) (demo_cluster (Some RestoreInProgress)) (demo_sts 0) in
   map (sdst_RestoreApplied \<circ> sd_Status) (w_Databases (fst (snd p))) = [True] \<and>
   (\<exists>r N. sc_Restore (demo_cluster (Some RestoreInProgress)) = Some r \<and>
      list_all (db_loaded demo_env (demo_world [demo_job]) (demo_cluster (Some RestoreInProgress)) r) (rst_Databases r) \<and>
      w_Databases (fst (snd p)) = map (apply_marks N) (w_Databases (demo_world [demo_job])))"
proof -
  let ?p = "reconcileRestore demo_env (demo_world [demo_job]) (demo_cluster (Some RestoreInProgress)) (demo_sts 0)"
  have p: "?p = (fst ?p, fst (snd ?p), snd (snd ?p))" by simp
  have t: "map (sdst_RestoreApplied \<circ> sd_Status) (w_Databases (fst (snd ?p))) = [True]" by code_simp
  have "map (sdst_RestoreApplied \<circ> sd_Status) (w_Databases (demo_world [demo_job])) = [False]" by code_simp
  then have "w_Databases (fst (snd ?p)) \<noteq> w_Databases (demo_world [demo_job])" using t by auto
  from applied_only_after_load [OF p this] show ?thesis using t unfolding Let_def by blast
qed

section \<open>Nothing is taken down before the artifacts are validated\<close>

lemma preflight_databases_passed:
  "preflight_databases env w sc r names = PreflightPassed \<longleftrightarrow>
     (\<forall>name \<in> set names. preflight_database env w sc r name = PreflightPassed)"
  by (induction names) (auto split: preflight.splits)

text \<open>
  What preflight asks of the artifact of a database: it is there, fetched and decompressed, and its suffix entry is a real one;
  and where the database replicates and the check is not skipped, it verifies the replication password, unless that is empty or the
  artifact carries no hash.
\<close>

definition artifact_ok ::
  "restore_env \<Rightarrow> restore_world \<Rightarrow> SlapdCluster \<Rightarrow> SlapdClusterRestoreStatus \<Rightarrow> string \<Rightarrow> bool" where
  "artifact_ok env w sc r name \<longleftrightarrow>
     (\<exists>sd st key skip cfg resp gz.
        get_database env w name = Inr sd \<and> resolveRestoreSource env w r sd = Inr (st, key, skip) \<and>
        s3ConfigFromStorage env st = Inr cfg \<and>
        re_Store env cfg key = Inr resp \<and> obj_Body resp = Inr gz \<and> restorable (sds_Suffix (sd_Spec sd)) gz \<and>
        (skip \<or> \<not> repl_Enabled (sc_Replication sc) \<or> \<not> ReplicationEnabled sd \<or>
         (\<exists>pw. databaseReplPassword env sd = Inr pw \<and>
            (pw = [] \<or> metaValue (obj_Metadata resp) MetaReplHashKey = [] \<or>
             backup_sshaMatches (metaValue (obj_Metadata resp) MetaReplHashKey) pw))))"

lemma preflight_database_passed: "preflight_database env w sc r name = PreflightPassed \<longleftrightarrow> artifact_ok env w sc r name"
proof -
  have "preflight_database env w sc r name = PreflightPassed \<longleftrightarrow>
      (\<exists>sd st key skip cfg pw. get_database env w name = Inr sd \<and> resolveRestoreSource env w r sd = Inr (st, key, skip) \<and>
        s3ConfigFromStorage env st = Inr cfg \<and> replication_password env sc sd skip = Inr pw \<and>
        Preflight (re_Store env) cfg key (sds_Suffix (sd_Spec sd)) pw = None)"
    by (auto simp: preflight_database_def split: sum.splits prod.splits option.splits)
  also have "\<dots> \<longleftrightarrow> (\<exists>sd st key skip cfg resp gz. get_database env w name = Inr sd \<and> resolveRestoreSource env w r sd = Inr (st, key, skip) \<and>
        s3ConfigFromStorage env st = Inr cfg \<and> re_Store env cfg key = Inr resp \<and> obj_Body resp = Inr gz \<and>
        restorable (sds_Suffix (sd_Spec sd)) gz \<and> (\<exists>pw. replication_password env sc sd skip = Inr pw \<and>
          (pw = [] \<or> metaValue (obj_Metadata resp) MetaReplHashKey = [] \<or> backup_sshaMatches (metaValue (obj_Metadata resp) MetaReplHashKey) pw)))"
    unfolding preflight_exact by blast
  also have "\<dots> \<longleftrightarrow> artifact_ok env w sc r name"
  proof -
    have "(\<exists>pw. replication_password env sc sd skip = Inr pw \<and> (pw = [] \<or> A \<or> P pw)) \<longleftrightarrow>
        (skip \<or> \<not> repl_Enabled (sc_Replication sc) \<or> \<not> ReplicationEnabled sd \<or>
         (\<exists>pw. databaseReplPassword env sd = Inr pw \<and> (pw = [] \<or> A \<or> P pw)))" for sd skip A P
      by (auto simp: replication_password_def)
    then show ?thesis unfolding artifact_ok_def by simp
  qed
  finally show ?thesis .
qed

lemma start_preflight:
  "start_restore env w sc = (sc', w', res) \<Longrightarrow> sc_Restore sc = None \<Longrightarrow> sc_Restore sc' = Some r \<Longrightarrow>
     rst_Phase r = RestorePreflight"
  unfolding start_restore_def maybeStartRequestedRestore_def
  by (auto simp: new_restore_def split: sum.splits prod.splits option.splits if_splits)

text \<open>
  C5. Destroy last: a pass that turns a cluster that is not held down into one that is held at zero replicas was a preflight
  pass, and in that pass the artifact of every database of the restore was found, fetched and decompressed, its suffix entry
  was a real one, and its stored hash verified the replication password - where the check is not skipped, the database
  replicates, its password is not empty and the artifact carries a hash.
\<close>

theorem destroy_last:
  assumes "reconcileRestore env w sc sts = (sc', w', res)" and "\<not> RestoreHoldsDown sc" and "RestoreHoldsDown sc'"
  shows "\<exists>r. sc_Restore sc = Some r \<and> rst_Phase r = RestorePreflight \<and> list_all (artifact_ok env w sc r) (rst_Databases r)"
proof (cases "sc_Restore sc")
  case None
  then show ?thesis using assms(1,3) start_preflight [of env w sc sc' w' res]
    by (auto simp: reconcileRestore_def RestoreHoldsDown_def split: option.splits)
next
  case (Some r)
  obtain r' where r': "sc_Restore sc' = Some r'" using assms(3) by (auto simp: RestoreHoldsDown_def split: option.splits)
  then have "next_of r r'" using reconcileRestore_next [OF Some assms(1)] by simp
  with assms(2,3) Some r' have "rst_Phase r = RestorePreflight" "rst_Phase r' \<noteq> RestorePreflight"
    by (cases "rst_Phase r"; auto simp: RestoreHoldsDown_def next_of_def)+
  moreover from this have "preflight_databases env w sc r (rst_Databases r) = PreflightPassed"
    using assms(1) Some r'
    by (auto simp: reconcileRestore_def reconcileRestorePreflight_def split: prod.splits preflight.splits)
  ultimately show ?thesis using Some
    by (simp add: preflight_databases_passed preflight_database_passed list_all_iff)
qed

theorem destroy_last_witness:
  "RestoreHoldsDown (fst (reconcileRestore demo_env (demo_world []) (demo_cluster (Some RestorePreflight)) (demo_sts 1))) \<and>
   list_all (artifact_ok demo_env (demo_world []) (demo_cluster (Some RestorePreflight)) (demo_status RestorePreflight)) [''a'']"
proof -
  let ?p = "reconcileRestore demo_env (demo_world []) (demo_cluster (Some RestorePreflight)) (demo_sts 1)"
  have p: "?p = (fst ?p, fst (snd ?p), snd (snd ?p))" by simp
  have a: "\<not> RestoreHoldsDown (demo_cluster (Some RestorePreflight))" and b: "RestoreHoldsDown (fst ?p)" by code_simp+
  have c: "sc_Restore (demo_cluster (Some RestorePreflight)) = Some (demo_status RestorePreflight)"
    by (simp add: demo_cluster_def)
  have d: "rst_Databases (demo_status RestorePreflight) = [''a'']" by (simp add: demo_status_def)
  show ?thesis using destroy_last [OF p a b] b unfolding c option.inject by (metis d)
qed

section \<open>Which restore is started\<close>

definition eligible :: "restore_env \<Rightarrow> restore_world \<Rightarrow> SlapdCluster \<Rightarrow> SlapdRestore \<Rightarrow> SlapdDatabase \<Rightarrow> bool" where
  "eligible env w sc sr sd \<longleftrightarrow>
     \<not> IsTerminal sr \<and> get_database env w (sr_DatabaseRef sr) = Inr sd \<and> sd_ClusterRef sd = sc_Name sc \<and>
     sdst_Phase (sd_Status sd) = ''Running''"

definition oldest :: "restore_env \<Rightarrow> restore_world \<Rightarrow> SlapdCluster \<Rightarrow> SlapdRestore \<Rightarrow> SlapdDatabase \<Rightarrow> bool" where
  "oldest env w sc sr sd \<longleftrightarrow> sr \<in> set (w_Restores w) \<and> eligible env w sc sr sd \<and>
     (\<forall>sr' \<in> set (w_Restores w). \<forall>sd'. eligible env w sc sr' sd' \<longrightarrow> sr_CreationTimestamp sr \<le> sr_CreationTimestamp sr')"

definition best_of :: "restore_env \<Rightarrow> restore_world \<Rightarrow> SlapdCluster \<Rightarrow> SlapdRestore set \<Rightarrow> chosen_request \<Rightarrow> bool" where
  "best_of env w sc S c \<longleftrightarrow>
     (case c of
        None \<Rightarrow> \<forall>sr \<in> S. \<forall>sd. \<not> eligible env w sc sr sd
      | Some (sr, sd) \<Rightarrow> sr \<in> S \<and> eligible env w sc sr sd \<and>
          (\<forall>sr' \<in> S. \<forall>sd'. eligible env w sc sr' sd' \<longrightarrow> sr_CreationTimestamp sr \<le> sr_CreationTimestamp sr'))"

lemma best_of_skip: "best_of env w sc S c \<Longrightarrow> (\<And>sd. \<not> eligible env w sc sr sd) \<Longrightarrow> best_of env w sc (insert sr S) c"
  by (auto simp: best_of_def split: option.splits)

lemma best_of_take:
  assumes "best_of env w sc S c" and "eligible env w sc sr sd"
  shows "best_of env w sc (insert sr S)
     (case c of None \<Rightarrow> Some (sr, sd)
      | Some (best, bestDB) \<Rightarrow> if sr_CreationTimestamp sr < sr_CreationTimestamp best then Some (sr, sd) else c)"
  using assms unfolding best_of_def by (fastforce split: option.splits)

lemma choose_request_best:
  "choose_request env w sc c srs = Inr c' \<Longrightarrow> best_of env w sc S c \<Longrightarrow> best_of env w sc (S \<union> set srs) c'"
proof (induction srs arbitrary: c S)
  case (Cons sr srs)
  show ?case
  proof (cases "\<exists>sd. eligible env w sc sr sd")
    case True
    then obtain sd where e: "eligible env w sc sr sd" ..
    define c1 where "c1 = (case c of None \<Rightarrow> Some (sr, sd)
      | Some (best, bestDB) \<Rightarrow> if sr_CreationTimestamp sr < sr_CreationTimestamp best then Some (sr, sd) else c)"
    have "choose_request env w sc c1 srs = Inr c'"
      using Cons.prems(1) e by (auto simp: eligible_def c1_def split: option.splits if_splits)
    moreover have "best_of env w sc (insert sr S) c1" unfolding c1_def using Cons.prems(2) e by (rule best_of_take)
    ultimately show ?thesis using Cons.IH [of c1 "insert sr S"] by simp
  next
    case False
    then have "choose_request env w sc c srs = Inr c'"
      using Cons.prems(1) by (auto simp: eligible_def split: if_splits sum.splits api_error.splits)
    then show ?thesis using Cons.IH [of c "insert sr S"] best_of_skip [OF Cons.prems(2)] False by simp
  qed
qed simp

lemma pendingRestoreRequest_oldest:
  "pendingRestoreRequest env w sc = Inr (Some (sr, sd)) \<Longrightarrow> oldest env w sc sr sd"
  using choose_request_best [of env w sc None "w_Restores w" "Some (sr, sd)" "{}"]
  by (auto simp: pendingRestoreRequest_def oldest_def best_of_def split: option.splits)

definition calm :: "restore_env \<Rightarrow> bool" where
  "calm env \<longleftrightarrow> re_Fault env = (\<lambda>_. None)"

lemma calm_fault [simp]: "calm env \<Longrightarrow> re_Fault env req = None"
  by (simp add: calm_def)

lemma choose_request_calm: "calm env \<Longrightarrow> \<exists>c'. choose_request env w sc c srs = Inr c'"
proof (induction srs arbitrary: c)
  case (Cons sr srs)
  then show ?case
    by (auto simp: get_database_def k8s_get_def split: option.splits prod.splits)
qed simp

lemma pendingRestoreRequest_calm:
  assumes "calm env" and "sr \<in> set (w_Restores w)" and "eligible env w sc sr sd"
  shows "\<exists>sr' sd'. pendingRestoreRequest env w sc = Inr (Some (sr', sd'))"
proof -
  obtain c where c: "choose_request env w sc None (w_Restores w) = Inr c" using choose_request_calm [OF assms(1)] by blast
  have "best_of env w sc (set (w_Restores w)) c"
    using choose_request_best [OF c, of "{}"] by (simp add: best_of_def)
  then have "c = None \<Longrightarrow> False" using assms(2,3) by (simp add: best_of_def)
  then obtain sr' sd' where "c = Some (sr', sd')" by (cases c) auto
  then show ?thesis using c assms(1) by (simp add: pendingRestoreRequest_def)
qed

lemma databasesNeedingRestore_iff:
  "databasesNeedingRestore env w sc = Inr (dbs, d) \<longleftrightarrow> re_Fault env ListDatabases = None \<and>
     dbs = filter (\<lambda>sd. sds_ClusterRef (sd_Spec sd) = sc_Name sc \<and> sds_BootstrapFrom (sd_Spec sd) \<noteq> None \<and>
       \<not> sdst_RestoreApplied (sd_Status sd)) (w_Databases w) \<and> d = list_all (\<lambda>sd. sdst_Phase (sd_Status sd) = ''Running'') dbs"
  by (auto simp: databasesNeedingRestore_def Let_def split: option.splits)

text \<open>
  C21. Which restore a pass starts. A window opens only in preflight, under the token of the pass, and for one of two reasons: the
  cluster has databases with a bootstrap source that were not restored yet, all of them are defined, and the window is for exactly
  these; or it has none, and the window is for the database of one request, the oldest of those that are not finished and
  whose database is a running one of this cluster. And where one of the two holds, the operator knows its own image and no
  request to the API fails, a window does open.
\<close>

theorem start_exact:
  assumes "sc_Restore sc = None" and "reconcileRestore env w sc sts = (sc', w', res)"
  shows "let needing = filter (\<lambda>sd. sds_ClusterRef (sd_Spec sd) = sc_Name sc \<and> sds_BootstrapFrom (sd_Spec sd) \<noteq> None \<and>
               \<not> sdst_RestoreApplied (sd_Status sd)) (w_Databases w);
             defined = list_all (\<lambda>sd. sdst_Phase (sd_Status sd) = ''Running'') needing in
     (\<forall>r. sc_Restore sc' = Some r \<longrightarrow>
        rst_Phase r = RestorePreflight \<and> rst_ID r = re_ID env \<and> rst_OriginalReplicas r = spec_Replicas (sc_Spec sc) \<and>
        rst_OriginalReadReplicas r = spec_ReadReplicas (sc_Spec sc) \<and>
        (if needing \<noteq> [] then defined \<and> rst_Databases r = map sd_Name needing \<and> rst_RequestRef r = []
         else \<exists>sr sd. oldest env w sc sr sd \<and> rst_Databases r = [sd_Name sd] \<and> rst_RequestRef r = sr_Name sr)) \<and>
     (calm env \<and> re_OperatorImage env \<noteq> [] \<and>
        (if needing \<noteq> [] then defined else \<exists>sr \<in> set (w_Restores w). \<exists>sd. eligible env w sc sr sd) \<longrightarrow> sc_Restore sc' \<noteq> None)"
proof -
  define needing where n: "needing = filter (\<lambda>sd. sds_ClusterRef (sd_Spec sd) = sc_Name sc \<and> sds_BootstrapFrom (sd_Spec sd) \<noteq> None \<and>
    \<not> sdst_RestoreApplied (sd_Status sd)) (w_Databases w)"
  define defined where d: "defined = list_all (\<lambda>sd. sdst_Phase (sd_Status sd) = ''Running'') needing"
  have st: "start_restore env w sc = (sc', w', res)" using assms by (simp add: reconcileRestore_def)
  have "rst_Phase r = RestorePreflight \<and> rst_ID r = re_ID env \<and> rst_OriginalReplicas r = spec_Replicas (sc_Spec sc) \<and>
        rst_OriginalReadReplicas r = spec_ReadReplicas (sc_Spec sc) \<and>
        (if needing \<noteq> [] then defined \<and> rst_Databases r = map sd_Name needing \<and> rst_RequestRef r = []
         else \<exists>sr sd. oldest env w sc sr sd \<and> rst_Databases r = [sd_Name sd] \<and> rst_RequestRef r = sr_Name sr)"
    if r: "sc_Restore sc' = Some r" for r
  proof -
    obtain dbs df where "databasesNeedingRestore env w sc = Inr (dbs, df)"
      using st assms(1) r by (auto simp: start_restore_def split: sum.splits)
    then have need: "databasesNeedingRestore env w sc = Inr (needing, defined)"
      unfolding databasesNeedingRestore_iff n d by simp
    show ?thesis
    proof (cases "needing = []")
      case True
      then have m: "maybeStartRequestedRestore env w sc = (sc', w', res)" using st need by (simp add: start_restore_def)
      then obtain sr sd where pend: "pendingRestoreRequest env w sc = Inr (Some (sr, sd))"
        using assms(1) r by (auto simp: maybeStartRequestedRestore_def split: sum.splits option.splits)
      have "r = new_restore env sc [sd_Name sd] (sr_Name sr) (Msg ''validating backup source for SlapdRestore'' [MStr (sr_Name sr)])"
        using m assms(1) r pend by (auto simp: maybeStartRequestedRestore_def split: if_splits)
      then show ?thesis using True pendingRestoreRequest_oldest [OF pend] by (auto simp: new_restore_def)
    next
      case False
      then show ?thesis using st assms(1) r need by (auto simp: start_restore_def new_restore_def split: if_splits)
    qed
  qed
  moreover have "sc_Restore sc' \<noteq> None" if c: "calm env" and i: "re_OperatorImage env \<noteq> []"
    and g: "if needing \<noteq> [] then defined else \<exists>sr \<in> set (w_Restores w). \<exists>sd. eligible env w sc sr sd"
  proof -
    have need: "databasesNeedingRestore env w sc = Inr (needing, defined)"
      unfolding databasesNeedingRestore_iff n d using c by simp
    show ?thesis
    proof (cases "needing = []")
      case True
      then obtain sr sd where "pendingRestoreRequest env w sc = Inr (Some (sr, sd))"
        using g pendingRestoreRequest_calm [OF c] by (metis (full_types))
      then show ?thesis using st need True i by (auto simp: start_restore_def maybeStartRequestedRestore_def)
    next
      case False
      then show ?thesis using st need g i by (auto simp: start_restore_def)
    qed
  qed
  ultimately show ?thesis unfolding Let_def n [symmetric] d [symmetric] by blast
qed

theorem start_exact_witness:
  "\<exists>r. sc_Restore (fst (reconcileRestore demo_env (demo_world []) (demo_cluster None) (demo_sts 1))) = Some r \<and>
     rst_Phase r = RestorePreflight \<and> rst_ID r = ''i''"
proof -
  let ?p = "reconcileRestore demo_env (demo_world []) (demo_cluster None) (demo_sts 1)"
  have p: "?p = (fst ?p, fst (snd ?p), snd (snd ?p))" by simp
  have n: "sc_Restore (demo_cluster None) = None" by code_simp
  have "sc_Restore (fst ?p) \<noteq> None" by code_simp
  then obtain r where r: "sc_Restore (fst ?p) = Some r" by blast
  have "re_ID demo_env = ''i''" by (simp add: demo_env_def)
  then show ?thesis using start_exact [OF n p] r unfolding Let_def by metis
qed

section \<open>Restores that hold the cluster down\<close>

lemma run_databases_unresolved:
  "(\<And>sd. \<exists>err. resolveRestoreSource env w rst sd = Inl err) \<Longrightarrow> names \<noteq> [] \<Longrightarrow>
     \<exists>err. run_databases env sc rst rwN roN w d names = (w, Inl err)"
proof (cases names)
  case (Cons name more)
  assume r: "\<And>sd. \<exists>err. resolveRestoreSource env w rst sd = Inl err"
  show ?thesis
  proof (cases "get_database env w name")
    case (Inr sd)
    then show ?thesis using r [of sd] Cons by auto
  qed (use Cons in simp)
qed simp

lemma missing_request_unresolved:
  assumes "rst_RequestRef r \<noteq> []" and "rst_RequestRef r \<notin> set (map sr_Name (w_Restores w))"
  shows "\<exists>err. resolveRestoreSource env w r sd = Inl err"
proof -
  have "find (\<lambda>x. sr_Name x = rst_RequestRef r) (w_Restores w) = None" using assms(2) by (force simp: find_None_iff)
  then have "\<exists>e. get_restore env w (rst_RequestRef r) = Inl e"
    by (simp add: get_restore_def k8s_get_def split: option.split)
  then show ?thesis using assms(1) by (auto simp: resolveRestoreSource_def Let_def)
qed

text \<open>
  C23. Two situations the machine does not leave by itself, whatever the environment answers: a failed restore
  keeps its window and looks at no request, so a new one is not picked up; and an in-place restore whose request was
  deleted while its Jobs ran changes nothing any more, its pass ends in an error each time. In both the fleet is held
  at zero replicas.
\<close>

theorem held_down_for_good:
  assumes "sc_Restore sc = Some r"
    and "rst_Phase r = RestoreFailed \<or>
         (rst_Phase r = RestoreInProgress \<and> rst_RequestRef r \<noteq> [] \<and> rst_RequestRef r \<notin> set (map sr_Name (w_Restores w)) \<and>
          rst_Databases r \<noteq> [])"
    and "restorePass env persists w sc sts = (sc', w')"
  shows "sc_Restore sc' = Some r \<and> w_Restores w' = w_Restores w \<and> w_Databases w' = w_Databases w \<and>
         desiredReplicas sc' readOnly = 0 \<and>
         (rst_Phase r = RestoreInProgress \<longrightarrow> w' = w \<and> (\<exists>err. snd (snd (reconcileRestore env w sc sts)) = Inl err))"
proof (cases "rst_Phase r = RestoreFailed")
  case True
  obtain w1 e where reap: "reapJobsByLabel env w restoreIDLabel (rst_ID r) = (w1, e)" using prod.exhaust by blast
  have "(sc' = sc \<or> sc' = set_restore ''Restoring'' (Some r) sc) \<and> w' = w1"
    using assms(1,3) True reap
    by (cases e) (auto simp: restorePass_def reconcileRestore_def restore_failed_def split: if_splits)
  then show ?thesis using assms(1) True reapJobsByLabel_frame [OF reap]
    by (auto simp: desiredReplicas_def RestoreHoldsDown_def)
next
  case False
  then have r: "rst_Phase r = RestoreInProgress" "rst_RequestRef r \<noteq> []" "rst_Databases r \<noteq> []"
    "rst_RequestRef r \<notin> set (map sr_Name (w_Restores w))" using assms(2) by auto
  obtain err where "runRestoreJobs env w sc r (rst_Databases r) = (w, Inl err)"
    unfolding runRestoreJobs_def Let_def
    using run_databases_unresolved [OF missing_request_unresolved [OF r(2,4)] r(3)] by blast
  then have "reconcileRestore env w sc sts = (set_restore ''Restoring'' (Some r) sc, w, Inl err)"
    using assms(1) r(1) by (simp add: reconcileRestore_def in_progress_def)
  moreover from this have "sc' = sc \<and> w' = w" using assms(3) by (simp add: restorePass_def)
  ultimately show ?thesis using assms(1) r(1) by (simp add: desiredReplicas_def RestoreHoldsDown_def)
qed

theorem held_down_for_good_witness:
  "let p = restorePass demo_env True (demo_world [demo_job]) (demo_cluster (Some RestoreFailed)) (demo_sts 0) in
   sc_Restore (fst p) = Some (demo_status RestoreFailed) \<and> w_Restores (snd p) = [] \<and> desiredReplicas (fst p) False = 0"
proof -
  let ?p = "restorePass demo_env True (demo_world [demo_job]) (demo_cluster (Some RestoreFailed)) (demo_sts 0)"
  have p: "?p = (fst ?p, snd ?p)" by simp
  have c: "sc_Restore (demo_cluster (Some RestoreFailed)) = Some (demo_status RestoreFailed)" by (simp add: demo_cluster_def)
  have f: "rst_Phase (demo_status RestoreFailed) = RestoreFailed" by (simp add: demo_status_def)
  show ?thesis using held_down_for_good [OF c _ p, of False] f by (simp add: Let_def demo_world_def)
qed

end
