(* ===== verification/Restore_Fleet.thy ===== *)
theory Restore_Fleet
  imports Restore_Window
begin

text \<open>
  A restore in its surroundings: it completes when the environment lets it, databases whose names begin alike share their Jobs, and, over all
  interleavings of the controller with the StatefulSet controller, the Job controller and users, no restore Job is unfinished
  while a read-write pod exists.
\<close>

section \<open>The Jobs of a window\<close>

definition pod_names :: "SlapdClusterRestoreStatus \<Rightarrow> string \<Rightarrow> string set" where
  "pod_names r name =
     (let rwN = (if rst_OriginalReplicas r = 0 then 1 else rst_OriginalReplicas r); roN = rst_OriginalReadReplicas r in
      (\<lambda>i. job_base r name @ ''-rw-'' @ itoa i) ` set (ordinals rwN) \<union>
      (\<lambda>j. job_base r name @ ''-ro-'' @ itoa j) ` set (ordinals roN))"

definition window_names :: "SlapdClusterRestoreStatus \<Rightarrow> string set" where
  "window_names r = (\<Union>name \<in> set (rst_Databases r). pod_names r name)"

lemma targets_pod_names:
  "rpt_jobName ` set (restorePodTargets sc r sd (if rst_OriginalReplicas r = 0 then 1 else rst_OriginalReplicas r)
     (rst_OriginalReadReplicas r)) = pod_names r (sd_Name sd)"
  unfolding set_map [symmetric] target_names pod_names_def Let_def by simp

section \<open>Passes without faults\<close>

lemma updateRestoreRequest_calm: "calm env \<Longrightarrow> snd (updateRestoreRequest env w name phase msg) = None"
  by (auto simp: updateRestoreRequest_def setRestoreRequestPhase_def get_restore_def k8s_get_def Let_def
      split: option.splits sum.splits api_error.splits)

lemma delete_jobs_calm:
  "calm env \<Longrightarrow> delete_jobs env w errs js =
     (w\<lparr>w_Jobs := filter (\<lambda>x. \<forall>k \<in> set js. \<not> job_Deleting k \<longrightarrow> job_Name x \<noteq> job_Name k) (w_Jobs w)\<rparr>, errs)"
  by (induction js arbitrary: w) (auto intro!: arg_cong [where f = "\<lambda>P. w_Jobs_update (\<lambda>_. filter P (w_Jobs w)) w" for w])

lemma reap_calm:
  assumes "calm env"
  shows "\<exists>w'. reapJobsByLabel env w key val = (w', None) \<and>
           (\<forall>j \<in> set (w_Jobs w'). j \<in> set (w_Jobs w) \<and> (map_of (job_Labels j) key = Some val \<longrightarrow> job_Deleting j))"
  using assms by (auto simp: reapJobsByLabel_def delete_jobs_calm)

lemma get_database_name: "get_database env w name = Inr sd \<Longrightarrow> sd \<in> set (w_Databases w) \<and> sd_Name sd = name"
  by (auto simp: get_database_def k8s_get_def split: option.splits dest: find_Some_in)

lemma markRestored_calm:
  "calm env \<Longrightarrow> set names \<subseteq> set (map sd_Name (w_Databases w)) \<Longrightarrow> snd (markRestored env w names) = None"
proof (induction names arbitrary: w)
  case (Cons name names)
  have "map sd_Name (w_Databases (mark_applied name w)) = map sd_Name (w_Databases w)"
    by (simp add: mark_applied_marks)
  then show ?case using Cons.IH [of "mark_applied name w"] Cons.prems by auto
qed simp

text \<open>A status update of a request leaves what it asks for.\<close>

lemma resolve_after_request:
  assumes "updateRestoreRequest env w name phase msg = (w', e)"
  shows "resolveRestoreSource env' w' r sd = resolveRestoreSource env' w r sd"
proof -
  have find_put: "find (\<lambda>x. sr_Name x = n) (map (\<lambda>x. if sr_Name x = sr_Name s then s else x) xs) =
      map_option (\<lambda>x. if sr_Name x = sr_Name s then s else x) (find (\<lambda>x. sr_Name x = n) xs)" for n s and xs :: "SlapdRestore list"
    by (induction xs) auto
  have same: "resolveRestoreSource env' (put_restore s w) r sd = resolveRestoreSource env' w r sd"
    if g: "get_restore env w name = Inr sr" and s: "sr_Name s = sr_Name sr" "sr_SourceBackupRef s = sr_SourceBackupRef sr"
      "sr_SourceS3 s = sr_SourceS3 sr" "sr_SkipReplicationPasswordCheck s = sr_SkipReplicationPasswordCheck sr" for s sr
  proof -
    have f: "find (\<lambda>x. sr_Name x = name) (w_Restores w) = Some sr" "sr_Name sr = name"
      using g by (auto simp: get_restore_def k8s_get_def split: option.splits dest: find_Some_in)
    have look: "get_restore env' (put_restore s w) n = get_restore env' w n \<or>
        (get_restore env' (put_restore s w) n = Inr s \<and> get_restore env' w n = Inr sr)" for n
    proof (cases "n = name")
      case True
      have "find (\<lambda>x. sr_Name x = name) (map (\<lambda>x. if sr_Name x = sr_Name s then s else x) (w_Restores w)) = Some s"
        unfolding find_put f(1) using f(2) s(1) by simp
      then show ?thesis using f(1) True
        by (cases "re_Fault env' (GetRestore name)") (simp_all add: get_restore_def k8s_get_def put_restore_def)
    next
      case False
      have "map_option (\<lambda>x. if sr_Name x = sr_Name s then s else x) (find (\<lambda>x. sr_Name x = n) xs) = find (\<lambda>x. sr_Name x = n) xs" for xs
        using False f(2) s(1) by (induction xs) auto
      then show ?thesis by (simp add: get_restore_def k8s_get_def put_restore_def find_put split: option.splits)
    qed
    moreover have "w_Backups (put_restore s w) = w_Backups w" by (simp add: put_restore_def)
    then have src: "resolveSourceObject env' (put_restore s w) = resolveSourceObject env' w"
      by (intro ext) (simp only: resolveSourceObject_def)
    moreover have "resolveBootstrapSource env' (put_restore s w) sd = resolveBootstrapSource env' w sd"
      by (simp only: resolveBootstrapSource_def src)
    ultimately have base: "resolveSourceObject env' (put_restore s w) = resolveSourceObject env' w"
      "resolveBootstrapSource env' (put_restore s w) sd = resolveBootstrapSource env' w sd" by blast+
    from look [of "rst_RequestRef r"] show ?thesis
    proof
      assume "get_restore env' (put_restore s w) (rst_RequestRef r) = get_restore env' w (rst_RequestRef r)"
      then show ?thesis by (simp only: resolveRestoreSource_def Let_def base)
    next
      assume "get_restore env' (put_restore s w) (rst_RequestRef r) = Inr s \<and> get_restore env' w (rst_RequestRef r) = Inr sr"
      then show ?thesis by (simp only: resolveRestoreSource_def Let_def base s sum.case)
    qed
  qed
  show ?thesis
    using assms unfolding updateRestoreRequest_def setRestoreRequestPhase_def
    by (auto simp: Let_def intro!: same split: if_splits sum.splits api_error.splits option.splits)
qed

lemma preflight_pass:
  assumes "calm env" and "sc_Restore sc = Some r" and "rst_Phase r = RestorePreflight"
    and "list_all (artifact_ok env w sc r) (rst_Databases r)"
  shows "\<exists>m w'. restorePass env True w sc sts =
           (set_restore ''Running'' (Some (r\<lparr>rst_Phase := RestoreScalingDown, rst_Message := m\<rparr>)) sc, w') \<and>
         w_Databases w' = w_Databases w \<and> w_Jobs w' = w_Jobs w \<and>
         (\<forall>env' r sd. resolveRestoreSource env' w' r sd = resolveRestoreSource env' w r sd)"
proof -
  let ?m = "Msg ''preflight passed; scaling down for offline restore'' []"
  have p: "preflight_databases env w sc r (rst_Databases r) = PreflightPassed"
    using assms(4) by (simp add: preflight_databases_passed preflight_database_passed list_all_iff)
  obtain w1 where u: "updateRestoreRequest env w (rst_RequestRef r) ''Restoring'' ?m = (w1, None)"
    using updateRestoreRequest_calm [OF assms(1)] prod.exhaust_sel by metis
  then show ?thesis using assms(2,3) p updateRestoreRequest_frame [OF u] resolve_after_request [OF u]
    by (auto simp: restorePass_def reconcileRestore_def reconcileRestorePreflight_def Let_def)
qed

lemma scaling_down_pass:
  assumes "sc_Restore sc = Some r" and "rst_Phase r = RestoreScalingDown" and "sts_Replicas sts \<le> 0"
  shows "\<exists>m. restorePass env True w sc sts =
           (set_restore ''Restoring'' (Some (r\<lparr>rst_Phase := RestoreInProgress, rst_Message := m\<rparr>)) sc, w)"
  using assms by (auto simp: restorePass_def reconcileRestore_def scaling_down_def)

lemma jobs_pass:
  assumes "sc_Restore sc = Some r" and "rst_Phase r = RestoreInProgress" and "runRestoreJobs env w sc r (rst_Databases r) = (w', Inr (False, None))"
  shows "restorePass env True w sc sts = (set_restore ''Restoring'' (Some r) sc, w')"
  using assms by (simp add: restorePass_def reconcileRestore_def in_progress_def)

lemma in_progress_pass:
  assumes "calm env" and "sc_Restore sc = Some r" and "rst_Phase r = RestoreInProgress"
    and "list_all (db_loaded env w sc r) (rst_Databases r)"
  shows "\<exists>m w'. restorePass env True w sc sts =
           (set_restore ''Restoring'' (Some (r\<lparr>rst_Phase := RestoreScalingUp, rst_Message := m\<rparr>)) sc, w') \<and>
           (rst_RequestRef r = [] \<longrightarrow> w_Databases w' = map (apply_marks (set (rst_Databases r))) (w_Databases w))"
proof -
  have run: "runRestoreJobs env w sc r (rst_Databases r) = (w, Inr (True, None))"
    unfolding runRestoreJobs_done using assms(4) by (simp add: list_all_iff)
  have "set (rst_Databases r) \<subseteq> set (map sd_Name (w_Databases w))"
    using assms(4) by (force simp: list_all_iff db_loaded_def dest: get_database_name)
  then obtain w1 where m: "markRestored env w (rst_Databases r) = (w1, None)"
    using markRestored_calm [OF assms(1)] prod.exhaust_sel by metis
  then have "w_Databases w1 = map (apply_marks (set (rst_Databases r))) (w_Databases w)" using markRestored_marks [OF m] by auto
  then show ?thesis using assms(2,3) run m
    by (auto simp: restorePass_def reconcileRestore_def in_progress_def Let_def)
qed

lemma scaling_up_pass:
  assumes "calm env" and "sc_Restore sc = Some r" and "rst_Phase r = RestoreScalingUp"
    and "(if rst_OriginalReplicas r = 0 then 1 else rst_OriginalReplicas r) \<le> sts_ReadyReplicas sts"
  shows "\<exists>w'. restorePass env True w sc sts = (set_restore ''Restoring'' None sc, w') \<and>
           w_Databases w' = w_Databases w \<and>
           (\<forall>j \<in> set (w_Jobs w'). map_of (job_Labels j) restoreIDLabel = Some (rst_ID r) \<longrightarrow> job_Deleting j)"
proof -
  obtain w1 where reap: "reapJobsByLabel env w restoreIDLabel (rst_ID r) = (w1, None)"
    and gone: "\<forall>j \<in> set (w_Jobs w1). map_of (job_Labels j) restoreIDLabel = Some (rst_ID r) \<longrightarrow> job_Deleting j"
    using reap_calm [OF assms(1)] by blast
  obtain w2 where u: "updateRestoreRequest env w1 (rst_RequestRef r) ''Completed''
      (Msg ''restore complete; cluster scaled back up'' []) = (w2, None)"
    using updateRestoreRequest_calm [OF assms(1)] prod.exhaust_sel by metis
  have "w_Jobs w2 = w_Jobs w1" "w_Databases w2 = w_Databases w"
    using updateRestoreRequest_frame [OF u] reapJobsByLabel_frame [OF reap] by simp_all
  moreover have "restorePass env True w sc sts = (set_restore ''Restoring'' None sc, w2)"
    using assms(2-4) reap u by (simp add: restorePass_def reconcileRestore_def scaling_up_def Let_def)
  ultimately show ?thesis using gone by auto
qed

section \<open>A pass over pods that are gone creates every Job\<close>

text \<open>The Jobs of some names, none of which has reported yet.\<close>

definition silent :: "string set \<Rightarrow> restore_world \<Rightarrow> bool" where
  "silent N w \<longleftrightarrow> (\<forall>j \<in> set (w_Jobs w). job_Name j \<in> N \<longrightarrow> job_Conditions j = [])"

abbreviation job_names :: "restore_world \<Rightarrow> string set" where
  "job_names w \<equiv> job_Name ` set (w_Jobs w)"

lemma resolveRestoreSource_cong:
  "w_Restores w' = w_Restores w \<Longrightarrow> w_Backups w' = w_Backups w \<Longrightarrow>
     resolveRestoreSource env w' rst sd = resolveRestoreSource env w rst sd"
  unfolding resolveRestoreSource_def resolveBootstrapSource_def resolveSourceObject_def get_restore_def by presburger

lemma run_targets_creates:
  assumes "calm env" and "\<And>t. job_Name (build t) = rpt_jobName t \<and> job_Conditions (build t) = []"
  shows "silent N w \<Longrightarrow> rpt_jobName ` set ts \<subseteq> N \<Longrightarrow> \<exists>w' d'. run_targets env build w d ts = (w', Inr (d', None)) \<and> silent N w' \<and>
     job_names w \<union> rpt_jobName ` set ts \<subseteq> job_names w' \<and> (d' \<longrightarrow> d \<and> ts = [])"
proof (induction ts arbitrary: w d)
  case (Cons t ts)
  show ?case
  proof (cases "find (\<lambda>x. job_Name x = rpt_jobName t) (w_Jobs w)")
    case None
    let ?w = "w\<lparr>w_Jobs := w_Jobs w @ [build t]\<rparr>"
    have "silent N ?w" using Cons.prems(1) assms(2) by (auto simp: silent_def)
    then obtain w' d' where ih: "run_targets env build ?w False ts = (w', Inr (d', None))" "silent N w'"
      "job_names ?w \<union> rpt_jobName ` set ts \<subseteq> job_names w'" "\<not> d'"
      using Cons.IH [of ?w False] Cons.prems(2) by auto
    have "run_targets env build w d (t # ts) = (w', Inr (d', None))"
      using ih(1) None assms(1) by (simp add: get_job_def k8s_get_def)
    then show ?thesis using ih(2-4) assms(2) [of t] by (intro exI [of _ w'] exI [of _ d']) auto
  next
    case (Some j)
    then have j: "j \<in> set (w_Jobs w)" "job_Name j = rpt_jobName t" by (auto dest: find_Some_in)
    then have "job_Conditions j = []" using Cons.prems by (auto simp: silent_def)
    then have "jobTerminalState j = (False, False)" by (simp add: jobTerminalState_flags job_complete_def job_failed_def)
    moreover have n: "rpt_jobName t \<in> job_names w" using j by force
    moreover obtain w' d' where ih: "run_targets env build w False ts = (w', Inr (d', None))" "silent N w'"
      "job_names w \<union> rpt_jobName ` set ts \<subseteq> job_names w'" "\<not> d'"
      using Cons.IH [OF Cons.prems(1), of False] Cons.prems(2) by auto
    ultimately have "run_targets env build w d (t # ts) = (w', Inr (d', None))"
      using Some assms(1) by (simp add: get_job_def k8s_get_def)
    then show ?thesis using ih(2-4) n by (intro exI [of _ w'] exI [of _ d']) auto
  qed
qed simp

lemma run_databases_creates:
  assumes "calm env" and n: "rwN = (if rst_OriginalReplicas r = 0 then 1 else rst_OriginalReplicas r)" "roN = rst_OriginalReadReplicas r"
    and img: "dataPlaneImage sc componentSlapdInit (re_OperatorImage env) (re_DefaultImageTag env) = Inr img" and "0 < rwN"
  shows "silent N w \<Longrightarrow> (\<forall>name \<in> set names. \<exists>sd src. get_database env w name = Inr sd \<and> resolveRestoreSource env w r sd = Inr src) \<Longrightarrow>
     (\<forall>name \<in> set names. \<forall>sd. get_database env w name = Inr sd \<longrightarrow> rpt_jobName ` set (restorePodTargets sc r sd rwN roN) \<subseteq> N) \<Longrightarrow>
     \<exists>w' d'. run_databases env sc r rwN roN w d names = (w', Inr (d', None)) \<and> job_names w \<subseteq> job_names w' \<and>
       (\<forall>name \<in> set names. \<forall>sd. get_database env w name = Inr sd \<longrightarrow> rpt_jobName ` set (restorePodTargets sc r sd rwN roN) \<subseteq> job_names w') \<and>
       (d' \<longrightarrow> d \<and> names = [])"
proof (induction names arbitrary: w d)
  case (Cons name names)
  obtain sd st key skip where p: "get_database env w name = Inr sd" "resolveRestoreSource env w r sd = Inr (st, key, skip)"
    using Cons.prems(2) by (metis list.set_intros(1) prod_cases3)
  let ?ts = "restorePodTargets sc r sd rwN roN"
  have ne: "?ts \<noteq> []" using assms(5) by (simp add: restorePodTargets_def Let_def ordinals_def)
  obtain w1 d1 where r1: "run_targets env (buildRestoreJob sc r sd st key img (re_OperatorImage env)) w d ?ts = (w1, Inr (d1, None))"
    and s1: "silent N w1" "job_names w \<union> rpt_jobName ` set ?ts \<subseteq> job_names w1" "\<not> d1"
  proof -
    have b: "job_Name (buildRestoreJob sc r sd st key img (re_OperatorImage env) t) = rpt_jobName t \<and>
        job_Conditions (buildRestoreJob sc r sd st key img (re_OperatorImage env) t) = []" for t
      by (simp add: buildRestoreJob_def Let_def)
    have "rpt_jobName ` set ?ts \<subseteq> N" using Cons.prems(3) p(1) by simp
    from run_targets_creates [OF assms(1) b Cons.prems(1) this, of d] ne that show thesis by blast
  qed
  note fr = run_targets_frame [OF r1]
  have same: "get_database env w1 = get_database env w" "resolveRestoreSource env w1 r = resolveRestoreSource env w r"
    using fr resolveRestoreSource_cong [of w1 w env r] by (auto simp: get_database_def fun_eq_iff)
  obtain w2 d2 where r2: "run_databases env sc r rwN roN w1 d1 names = (w2, Inr (d2, None))" "job_names w1 \<subseteq> job_names w2"
    "\<forall>name \<in> set names. \<forall>sd. get_database env w1 name = Inr sd \<longrightarrow> rpt_jobName ` set (restorePodTargets sc r sd rwN roN) \<subseteq> job_names w2"
    "d2 \<longrightarrow> d1"
  proof -
    have "\<forall>name \<in> set names. \<exists>sd src. get_database env w1 name = Inr sd \<and> resolveRestoreSource env w1 r sd = Inr src"
      "\<forall>name \<in> set names. \<forall>sd. get_database env w1 name = Inr sd \<longrightarrow> rpt_jobName ` set (restorePodTargets sc r sd rwN roN) \<subseteq> N"
      unfolding same using Cons.prems(2,3) by simp_all
    from Cons.IH [OF s1(1) this, of d1] that show thesis by blast
  qed
  have "run_databases env sc r rwN roN w d (name # names) = (w2, Inr (d2, None))" using p img r1 r2(1) by simp
  moreover have "rpt_jobName ` set (restorePodTargets sc r sd' rwN roN) \<subseteq> job_names w2"
    if "get_database env w name = Inr sd'" for sd'
  proof -
    have "rpt_jobName ` set ?ts \<subseteq> job_names w2" using s1(2) r2(2) by blast
    then show ?thesis using that p(1) by simp
  qed
  moreover have "job_names w \<subseteq> job_names w2" using s1(2) r2(2) by blast
  moreover have "\<not> d2" using r2(4) s1(3) by blast
  moreover have "\<forall>n \<in> set (name # names). \<forall>sd'. get_database env w n = Inr sd' \<longrightarrow>
      rpt_jobName ` set (restorePodTargets sc r sd' rwN roN) \<subseteq> job_names w2"
    using calculation(2) r2(3) unfolding same by (metis set_ConsD)
  ultimately show ?case by (intro exI [of _ w2] exI [of _ d2]) blast
qed simp

text \<open>Every Job ends, and reports that it completed.\<close>

definition jobs_run :: "restore_world \<Rightarrow> restore_world" where
  "jobs_run w = w\<lparr>w_Jobs := map (\<lambda>j. j\<lparr>job_Conditions :=
     [\<lparr>jc_Type = ''Complete'', jc_Status = ConditionTrue, jc_Reason = [], jc_Message = []\<rparr>]\<rparr>) (w_Jobs w)\<rparr>"

lemma jobs_run_loaded:
  assumes "calm env" and "name \<in> job_names w"
  shows "loaded env (jobs_run w) name"
proof -
  have "find (\<lambda>x. job_Name x = name) (w_Jobs (jobs_run w)) \<noteq> None"
  proof -
    obtain k where "k \<in> set (w_Jobs w)" "job_Name k = name" using assms(2) by auto
    then show ?thesis by (auto simp: find_None_iff jobs_run_def image_iff)
  qed
  then obtain j where "find (\<lambda>x. job_Name x = name) (w_Jobs (jobs_run w)) = Some j" by blast
  moreover from this have "j \<in> set (w_Jobs (jobs_run w))" by (auto dest: find_Some_in)
  ultimately show ?thesis using assms(1)
    by (auto simp: loaded_def get_job_def k8s_get_def jobs_run_def job_complete_def job_failed_def)
qed

lemma window_targets:
  "get_database env w name = Inr sd \<Longrightarrow> name \<in> set (rst_Databases r) \<Longrightarrow> rst_ID r' = rst_ID r \<Longrightarrow>
     rpt_jobName ` set (restorePodTargets sc r' sd (if rst_OriginalReplicas r = 0 then 1 else rst_OriginalReplicas r) (rst_OriginalReadReplicas r))
       \<subseteq> window_names r"
proof -
  assume "get_database env w name = Inr sd" and n: "name \<in> set (rst_Databases r)" and i: "rst_ID r' = rst_ID r"
  then have "sd_Name sd = name" by (simp add: get_database_name)
  then show ?thesis unfolding set_map [symmetric] target_names using n i
    by (auto simp: window_names_def pod_names_def job_base_def)
qed

text \<open>
  C12. A restore completes: with no API fault, five passes take a window from preflight to its end when the surroundings play their
  part - at the first every artifact is good, before the second the pods stop, after the third the Jobs run to completion, before the
  fifth the original number of pods is ready. The third pass creates the Job of every pod for every database; the fleet is asked for no
  pod before the fourth, and for the size of the spec after it. At the end the window is closed, the databases of a
  bootstrap window are marked as restored, and no Job of this restore is left that is not already being deleted.
\<close>

theorem window_completes:
  assumes "calm env" and "sc_Restore sc = Some r" and "rst_Phase r = RestorePreflight"
    and "rst_Databases r \<noteq> []" and "0 \<le> rst_OriginalReplicas r" and "list_all (artifact_ok env w sc r) (rst_Databases r)"
    and "dataPlaneImage sc componentSlapdInit (re_OperatorImage env) (re_DefaultImageTag env) = Inr img"
    and "window_names r \<inter> job_names w = {}"
    and "restorePass env True w sc s1 = (sc1, w1)"
    and "restorePass env True w1 sc1 s2 = (sc2, w2)" and "sts_Replicas s2 \<le> 0"
    and "restorePass env True w2 sc2 s3 = (sc3, w3)"
    and "restorePass env True (jobs_run w3) sc3 s4 = (sc4, w4)"
    and "restorePass env True w4 sc4 s5 = (sc5, w5)" and "(if rst_OriginalReplicas r = 0 then 1 else rst_OriginalReplicas r) \<le> sts_ReadyReplicas s5"
  shows "window_names r \<subseteq> job_names w3 \<and>
         list_all (\<lambda>c. desiredReplicas c False = 0) [sc1, sc2, sc3] \<and>
         desiredReplicas sc4 False = (if spec_Replicas (sc_Spec sc) = 0 then 1 else spec_Replicas (sc_Spec sc)) \<and>
         sc_Restore sc5 = None \<and>
         (rst_RequestRef r = [] \<longrightarrow> list_all (\<lambda>sd. sd_Name sd \<in> set (rst_Databases r) \<longrightarrow> sdst_RestoreApplied (sd_Status sd)) (w_Databases w5)) \<and>
         list_all (\<lambda>j. map_of (job_Labels j) restoreIDLabel = Some (rst_ID r) \<longrightarrow> job_Deleting j) (w_Jobs w5)"
proof -
  let ?rwN = "if rst_OriginalReplicas r = 0 then 1 else rst_OriginalReplicas r" and ?roN = "rst_OriginalReadReplicas r"
  obtain m1 where 1: "sc1 = set_restore ''Running'' (Some (r\<lparr>rst_Phase := RestoreScalingDown, rst_Message := m1\<rparr>)) sc"
    and f1: "w_Databases w1 = w_Databases w" "w_Jobs w1 = w_Jobs w"
      "resolveRestoreSource env w1 r' sd = resolveRestoreSource env w r' sd" for r' sd
    using preflight_pass [OF assms(1-3,6), of s1] assms(9) by auto
  obtain m2 where 2: "sc2 = set_restore ''Restoring'' (Some (r\<lparr>rst_Phase := RestoreInProgress, rst_Message := m2\<rparr>)) sc1" "w2 = w1"
    using scaling_down_pass [of sc1 _ s2 env w1] assms(10,11) 1 by auto
  define r2 where r2: "r2 = r\<lparr>rst_Phase := RestoreInProgress, rst_Message := m2\<rparr>"
  have r2f: "rst_Databases r2 = rst_Databases r" "rst_OriginalReplicas r2 = rst_OriginalReplicas r" "rst_RequestRef r2 = rst_RequestRef r"
    "rst_OriginalReadReplicas r2 = rst_OriginalReadReplicas r" "rst_ID r2 = rst_ID r" "rst_Phase r2 = RestoreInProgress"
    and sc2: "sc_Restore sc2 = Some r2"
    using 2 by (simp_all add: r2)
  have src: "\<exists>sd src. get_database env w1 name = Inr sd \<and> resolveRestoreSource env w1 r2 sd = Inr src" if "name \<in> set (rst_Databases r)" for name
  proof -
    have "artifact_ok env w sc r name" using assms(6) that by (simp add: list_all_iff)
    moreover have "resolveRestoreSource env w r2 sd = resolveRestoreSource env w r sd" for sd
      by (simp add: resolveRestoreSource_def r2)
    ultimately show ?thesis unfolding f1(3) by (auto simp: artifact_ok_def get_database_def f1(1))
  qed
  have img: "dataPlaneImage sc2 componentSlapdInit (re_OperatorImage env) (re_DefaultImageTag env) = Inr img"
    using assms(7) 1 2 by (simp add: dataPlaneImage_def)
  have "silent (window_names r) w1" using assms(8) f1(2) by (auto simp: silent_def)
  moreover have "0 < ?rwN" using assms(5) by simp
  moreover have "\<forall>name \<in> set (rst_Databases r). \<forall>sd. get_database env w1 name = Inr sd \<longrightarrow>
      rpt_jobName ` set (restorePodTargets sc2 r2 sd ?rwN ?roN) \<subseteq> window_names r"
    using window_targets [OF _ _ r2f(5)] by blast
  moreover have "?rwN = (if rst_OriginalReplicas r2 = 0 then 1 else rst_OriginalReplicas r2)" "?roN = rst_OriginalReadReplicas r2"
    by (simp_all add: r2f)
  ultimately obtain v d where run: "run_databases env sc2 r2 ?rwN ?roN w1 True (rst_Databases r) = (v, Inr (d, None))" "\<not> d"
    and made: "\<forall>name \<in> set (rst_Databases r). \<forall>sd. get_database env w1 name = Inr sd \<longrightarrow>
        rpt_jobName ` set (restorePodTargets sc2 r2 sd ?rwN ?roN) \<subseteq> job_names v"
  proof -
    assume s: "silent (window_names r) w1" and n: "0 < ?rwN" and N: "\<forall>name \<in> set (rst_Databases r). \<forall>sd. get_database env w1 name = Inr sd \<longrightarrow>
      rpt_jobName ` set (restorePodTargets sc2 r2 sd ?rwN ?roN) \<subseteq> window_names r"
      and e: "?rwN = (if rst_OriginalReplicas r2 = 0 then 1 else rst_OriginalReplicas r2)" "?roN = rst_OriginalReadReplicas r2"
    have "\<forall>name \<in> set (rst_Databases r). \<exists>sd src. get_database env w1 name = Inr sd \<and> resolveRestoreSource env w1 r2 sd = Inr src"
      using src by blast
    from run_databases_creates [OF assms(1) e img n s this N, of True] assms(4) that show thesis by blast
  qed
  have rj: "runRestoreJobs env w1 sc2 r2 (rst_Databases r2) = (v, Inr (False, None))"
    using run by (simp only: runRestoreJobs_def Let_def r2f simp_thms)
  have 3: "sc3 = set_restore ''Restoring'' (Some r2) sc2" "w3 = v"
    using jobs_pass [OF sc2 r2f(6) rj] assms(12) 2(2) by auto
  note fr = runRestoreJobs_frame [OF rj]
  have names: "window_names r \<subseteq> job_names w3"
  proof
    fix x assume "x \<in> window_names r"
    then obtain name where name: "name \<in> set (rst_Databases r)" "x \<in> pod_names r name" by (auto simp: window_names_def)
    obtain sd where sd: "get_database env w1 name = Inr sd" using src [OF name(1)] by blast
    have "pod_names r name = rpt_jobName ` set (restorePodTargets sc2 r2 sd ?rwN ?roN)"
      using get_database_name [OF sd] unfolding set_map [symmetric] target_names pod_names_def Let_def by (simp add: job_base_def r2f)
    then show "x \<in> job_names w3" using made name sd 3(2) by blast
  qed
  have "db_loaded env (jobs_run w3) sc3 r2 name" if name: "name \<in> set (rst_Databases r)" for name
  proof -
    obtain sd src where sd: "get_database env w1 name = Inr sd" "resolveRestoreSource env w1 r2 sd = Inr src" using src [OF name] by blast
    have "get_database env (jobs_run w3) name = Inr sd" "resolveRestoreSource env (jobs_run w3) r2 sd = Inr src"
      using sd fr 3(2) resolveRestoreSource_cong [of "jobs_run w3" w1 env r2 sd] by (simp_all add: get_database_def jobs_run_def)
    moreover have "dataPlaneImage sc3 componentSlapdInit (re_OperatorImage env) (re_DefaultImageTag env) = Inr img"
      using img 3 by (simp add: dataPlaneImage_def)
    moreover have "loaded env (jobs_run w3) (rpt_jobName t)" if "t \<in> set (restorePodTargets sc3 r2 sd ?rwN ?roN)" for t
      using jobs_run_loaded [OF assms(1)] names window_targets [OF sd(1) name r2f(5), of sc3] that by blast
    ultimately show ?thesis unfolding db_loaded_def r2f(2,4) by (metis prod_cases3)
  qed
  then have "list_all (db_loaded env (jobs_run w3) sc3 r2) (rst_Databases r2)" by (simp add: list_all_iff r2f)
  then obtain m4 where 4: "sc4 = set_restore ''Restoring'' (Some (r2\<lparr>rst_Phase := RestoreScalingUp, rst_Message := m4\<rparr>)) sc3"
    and marks: "rst_RequestRef r = [] \<longrightarrow> w_Databases w4 = map (apply_marks (set (rst_Databases r))) (w_Databases (jobs_run w3))"
    using in_progress_pass [OF assms(1) _ r2f(6), of sc3 "jobs_run w3" s4] assms(13) 3(1) r2f by auto
  let ?r4 = "r2\<lparr>rst_Phase := RestoreScalingUp, rst_Message := m4\<rparr>"
  have ready: "(if rst_OriginalReplicas ?r4 = 0 then 1 else rst_OriginalReplicas ?r4) \<le> sts_ReadyReplicas s5"
    using assms(15) r2f by (auto split: if_splits)
  have 5: "sc_Restore sc5 = None" "w_Databases w5 = w_Databases w4"
    "\<forall>j \<in> set (w_Jobs w5). map_of (job_Labels j) restoreIDLabel = Some (rst_ID r) \<longrightarrow> job_Deleting j"
    using scaling_up_pass [OF assms(1), of sc4 ?r4 s5 w4, OF _ _ ready] assms(14) 4 r2f by auto
  have "list_all (\<lambda>sd. sd_Name sd \<in> set (rst_Databases r) \<longrightarrow> sdst_RestoreApplied (sd_Status sd)) (w_Databases w5)" if "rst_RequestRef r = []"
    using marks that 5(2) by (auto simp: list_all_iff apply_marks_def)
  then show ?thesis using 1 2 3(1) 4 5 names r2f by (simp add: desiredReplicas_def RestoreHoldsDown_def list_all_iff)
qed

theorem window_completes_witness:
  "let sc = demo_cluster (Some RestorePreflight); w = demo_world [];
       p1 = restorePass demo_env True w sc (demo_sts 1); p2 = restorePass demo_env True (snd p1) (fst p1) (demo_sts 0);
       p3 = restorePass demo_env True (snd p2) (fst p2) (demo_sts 0); p4 = restorePass demo_env True (jobs_run (snd p3)) (fst p3) (demo_sts 0);
       p5 = restorePass demo_env True (snd p4) (fst p4) (demo_sts 1) in
   ''a-restore-i-rw-0'' \<in> job_names (snd p3) \<and> desiredReplicas (fst p3) False = 0 \<and> desiredReplicas (fst p4) False = 1 \<and>
   sc_Restore (fst p5) = None"
proof -
  define sc w where d: "sc = demo_cluster (Some RestorePreflight)" "w = demo_world []"
  define p1 where "p1 = restorePass demo_env True w sc (demo_sts 1)"
  define p2 where "p2 = restorePass demo_env True (snd p1) (fst p1) (demo_sts 0)"
  define p3 where "p3 = restorePass demo_env True (snd p2) (fst p2) (demo_sts 0)"
  define p4 where "p4 = restorePass demo_env True (jobs_run (snd p3)) (fst p3) (demo_sts 0)"
  define p5 where "p5 = restorePass demo_env True (snd p4) (fst p4) (demo_sts 1)"
  let ?r = "demo_status RestorePreflight"
  have calm: "calm demo_env" by (simp add: calm_def demo_env_def)
  have c: "sc_Restore sc = Some ?r" by (simp add: d demo_cluster_def)
  have st: "rst_Phase ?r = RestorePreflight" "rst_Databases ?r \<noteq> []" "0 \<le> rst_OriginalReplicas ?r"
    by (simp_all add: demo_status_def)
  have n: "rst_Databases ?r = [''a'']" "rst_OriginalReplicas ?r = 1" by (simp_all add: demo_status_def)
  have "preflight_databases demo_env w sc ?r [''a''] = PreflightPassed" unfolding d by code_simp
  then have a: "list_all (artifact_ok demo_env w sc ?r) (rst_Databases ?r)"
    unfolding n preflight_databases_passed preflight_database_passed by simp
  have "\<not> isl (dataPlaneImage sc componentSlapdInit (re_OperatorImage demo_env) (re_DefaultImageTag demo_env))"
    unfolding d by code_simp
  then obtain img where img: "dataPlaneImage sc componentSlapdInit (re_OperatorImage demo_env) (re_DefaultImageTag demo_env) = Inr img"
    using sum.collapse(2) by metis
  have fresh: "window_names ?r \<inter> job_names w = {}" by (simp add: d demo_world_def)
  have zero: "sts_Replicas (demo_sts 0) \<le> 0" and ready: "(if rst_OriginalReplicas ?r = 0 then 1 else rst_OriginalReplicas ?r) \<le> sts_ReadyReplicas (demo_sts 1)"
    by (simp_all add: demo_sts_def n)
  have e: "restorePass demo_env True w sc (demo_sts 1) = (fst p1, snd p1)"
    "restorePass demo_env True (snd p1) (fst p1) (demo_sts 0) = (fst p2, snd p2)"
    "restorePass demo_env True (snd p2) (fst p2) (demo_sts 0) = (fst p3, snd p3)"
    "restorePass demo_env True (jobs_run (snd p3)) (fst p3) (demo_sts 0) = (fst p4, snd p4)"
    "restorePass demo_env True (snd p4) (fst p4) (demo_sts 1) = (fst p5, snd p5)"
    by (simp_all add: p1_def p2_def p3_def p4_def p5_def)
  have "job_base ?r ''a'' @ ''-rw-'' @ itoa 0 = ''a-restore-i-rw-0''" "0 \<in> set (ordinals 1)" by code_simp+
  then have "''a-restore-i-rw-0'' \<in> window_names ?r"
    unfolding window_names_def pod_names_def Let_def n by (auto simp: image_iff) metis
  moreover have "spec_Replicas (sc_Spec sc) = 1" by (simp add: d demo_cluster_def)
  ultimately have "''a-restore-i-rw-0'' \<in> job_names (snd p3) \<and> desiredReplicas (fst p3) False = 0 \<and> desiredReplicas (fst p4) False = 1 \<and>
      sc_Restore (fst p5) = None"
    using window_completes [OF calm c st a img fresh e(1,2) zero e(3-5) ready] by auto
  then show ?thesis by (simp add: Let_def p1_def p2_def p3_def p4_def p5_def d)
qed

section \<open>Databases whose names begin alike\<close>

lemma get_job_append:
  "get_job env w name = Inr j \<Longrightarrow> get_job env (w\<lparr>w_Jobs := w_Jobs w @ js\<rparr>) name = Inr j"
proof -
  have f: "find P xs = Some x \<Longrightarrow> find P (xs @ ys) = Some x" for P :: "Job \<Rightarrow> bool" and xs ys x
    by (induction xs) (auto split: if_splits)
  show "get_job env w name = Inr j \<Longrightarrow> get_job env (w\<lparr>w_Jobs := w_Jobs w @ js\<rparr>) name = Inr j"
    by (auto simp: get_job_def k8s_get_def f split: option.splits)
qed

lemma get_job_missing:
  "get_job env w name = Inl ApiNotFound \<Longrightarrow> job_Name j = name \<Longrightarrow> get_job env (w\<lparr>w_Jobs := w_Jobs w @ [j]\<rparr>) name = Inr j"
proof -
  have f: "find P xs = None \<Longrightarrow> find P (xs @ ys) = find P ys" for P :: "Job \<Rightarrow> bool" and xs ys
    by (induction xs) (auto split: if_splits)
  show "get_job env w name = Inl ApiNotFound \<Longrightarrow> job_Name j = name \<Longrightarrow> get_job env (w\<lparr>w_Jobs := w_Jobs w @ [j]\<rparr>) name = Inr j"
    by (auto simp: get_job_def k8s_get_def f split: option.splits)
qed

lemma run_targets_keeps:
  "run_targets env build w d ts = (w', res) \<Longrightarrow> get_job env w name = Inr j \<Longrightarrow> get_job env w' name = Inr j"
proof (induction ts arbitrary: w d)
  case (Cons t ts)
  show ?case
  proof (cases "get_job env w (rpt_jobName t)")
    case (Inl e)
    then show ?thesis using Cons get_job_append [OF Cons.prems(2), of "[build t]"]
      by (cases e) (auto split: option.splits if_splits)
  next
    case (Inr job)
    then show ?thesis using Cons by (auto split: prod.splits if_splits)
  qed
qed simp

text \<open>A target a run passes: its Job stands there, or it is not shown and the API server says it exists.\<close>

definition hidden :: "restore_env \<Rightarrow> restore_world \<Rightarrow> string \<Rightarrow> bool" where
  "hidden env w name \<longleftrightarrow> get_job env w name = Inl ApiNotFound \<and> (\<exists>err. re_Fault env (CreateJob name) = Some err \<and> isAlreadyExists err)"

definition standing :: "restore_env \<Rightarrow> restore_world \<Rightarrow> bool \<Rightarrow> string \<Rightarrow> bool" where
  "standing env w d name \<longleftrightarrow>
     (\<exists>j. get_job env w name = Inr j \<and> \<not> job_failed j \<and> (d \<longrightarrow> job_complete j)) \<or> (\<not> d \<and> hidden env w name)"

lemma get_job_elsewhere: "job_Name j \<noteq> name \<Longrightarrow> get_job env (w\<lparr>w_Jobs := w_Jobs w @ [j]\<rparr>) name = get_job env w name"
proof -
  assume ne: "job_Name j \<noteq> name"
  have "find (\<lambda>x. job_Name x = name) (xs @ [j]) = find (\<lambda>x. job_Name x = name) xs" for xs
    using ne by (induction xs) auto
  then show ?thesis by (simp add: get_job_def k8s_get_def split: option.splits)
qed

lemma run_targets_hidden:
  assumes "\<And>t. job_Name (build t) = rpt_jobName t"
  shows "run_targets env build w d ts = (w', res) \<Longrightarrow> hidden env w name \<Longrightarrow> hidden env w' name"
proof (induction ts arbitrary: w d)
  case (Cons t ts)
  have keep: "hidden env (w\<lparr>w_Jobs := w_Jobs w @ [build t]\<rparr>) name" if "re_Fault env (CreateJob (rpt_jobName t)) = None"
    using Cons.prems(2) that get_job_elsewhere [of "build t" name env w] assms by (cases "rpt_jobName t = name") (auto simp: hidden_def)
  show ?case using Cons keep by (auto split: sum.splits api_error.splits option.splits prod.splits if_splits)
qed simp

lemma run_targets_standing:
  assumes "\<And>t. job_Name (build t) = rpt_jobName t \<and> job_Conditions (build t) = []"
  shows "run_targets env build w d ts = (w', Inr (d', None)) \<Longrightarrow> t \<in> set ts \<Longrightarrow> standing env w' d' (rpt_jobName t)"
proof (induction ts arbitrary: w d)
  case (Cons u ts)
  have head: "\<exists>w1 d1. run_targets env build w1 d1 ts = (w', Inr (d', None)) \<and> standing env w1 d1 (rpt_jobName u)"
  proof (cases "get_job env w (rpt_jobName u)")
    case (Inl e)
    have e: "e = ApiNotFound" using Inl Cons.prems(1) by (auto split: api_error.splits)
    show ?thesis
    proof (cases "re_Fault env (CreateJob (rpt_jobName u))")
      case None
      then have r: "run_targets env build (w\<lparr>w_Jobs := w_Jobs w @ [build u]\<rparr>) False ts = (w', Inr (d', None))"
        using Cons.prems(1) Inl e by simp
      have "get_job env (w\<lparr>w_Jobs := w_Jobs w @ [build u]\<rparr>) (rpt_jobName u) = Inr (build u)"
        using Inl e assms by (intro get_job_missing) auto
      moreover have "\<not> job_failed (build u)" using assms by (simp add: job_failed_def)
      ultimately show ?thesis using r unfolding standing_def by blast
    next
      case (Some err)
      then have "isAlreadyExists err" "run_targets env build w False ts = (w', Inr (d', None))"
        using Cons.prems(1) Inl e by (auto split: if_splits)
      then show ?thesis using Inl e Some unfolding standing_def hidden_def by blast
    qed
  next
    case (Inr j)
    then show ?thesis using Cons.prems(1) by (auto simp: jobTerminalState_flags standing_def split: if_splits)
  qed
  then obtain w1 d1 where h: "run_targets env build w1 d1 ts = (w', Inr (d', None))" "standing env w1 d1 (rpt_jobName u)" by blast
  show ?case
  proof (cases "t = u")
    case True
    have "d' \<Longrightarrow> d1" using h(1) run_targets_not_done [of env build w1 ts w' None] by (cases d1) auto
    then show ?thesis using h(2) run_targets_keeps [OF h(1)] run_targets_hidden [OF _ h(1)] assms True unfolding standing_def by blast
  next
    case False
    then show ?thesis using Cons.IH [OF h(1)] Cons.prems(2) by simp
  qed
qed simp

lemma run_targets_again:
  "\<forall>t \<in> set ts. standing env w d (rpt_jobName t) \<Longrightarrow> run_targets env build w d ts = (w, Inr (d, None))"
proof (induction ts)
  case (Cons t ts)
  then consider j where "get_job env w (rpt_jobName t) = Inr j" "\<not> job_failed j" "d \<longrightarrow> job_complete j"
    | "\<not> d" "hidden env w (rpt_jobName t)"
    by (auto simp: standing_def)
  then show ?case
  proof cases
    case (1 j)
    moreover from this have "(d \<and> job_complete j) = d" by blast
    ultimately show ?thesis using Cons by (simp add: jobTerminalState_flags)
  next
    case 2
    then show ?thesis using Cons by (auto simp: hidden_def)
  qed
qed simp

lemma target_names_prefix:
  "take 24 (sd_Name a) = take 24 (sd_Name b) \<Longrightarrow>
     map rpt_jobName (restorePodTargets sc rst a rwN roN) = map rpt_jobName (restorePodTargets sc rst b rwN roN)"
  unfolding target_names by (simp add: job_base_def)

text \<open>
  C24. Two databases of one restore whose names agree on their first 24 bytes share their Job names: for
  the controller the Jobs of the first are the Jobs of the second, no Job is created for the second, and the run over both has
  the result of the run over the first. The second counts as loaded exactly when the first does, and is then marked as
  restored although nothing was loaded into it.
\<close>

theorem shared_prefix_never_loaded:
  assumes "take 24 a = take 24 b" and "get_database env w a = Inr sda" and "get_database env w b = Inr sdb"
    and "resolveRestoreSource env w r sda = Inr srcA" and "resolveRestoreSource env w r sdb = Inr srcB"
  shows "runRestoreJobs env w sc r [a, b] = runRestoreJobs env w sc r [a] \<and>
         (db_loaded env w sc r b \<longleftrightarrow> db_loaded env w sc r a)"
proof -
  define rwN roN where n: "rwN = (if rst_OriginalReplicas r = 0 then 1 else rst_OriginalReplicas r)" "roN = rst_OriginalReadReplicas r"
  have "take 24 (sd_Name sda) = take 24 (sd_Name sdb)" using assms(1-3) by (simp add: get_database_name)
  note names = target_names_prefix [OF this, of sc r rwN roN]
  obtain stA keyA skA where A: "srcA = (stA, keyA, skA)" by (cases srcA)
  obtain stB keyB skB where B: "srcB = (stB, keyB, skB)" by (cases srcB)
  have "runRestoreJobs env w sc r [a, b] = runRestoreJobs env w sc r [a]"
  proof (cases "dataPlaneImage sc componentSlapdInit (re_OperatorImage env) (re_DefaultImageTag env)")
    case (Inl e)
    then show ?thesis using assms A by (simp add: runRestoreJobs_def)
  next
    case (Inr img)
    let ?build = "buildRestoreJob sc r sda stA keyA img (re_OperatorImage env)"
    obtain w1 res where run: "run_targets env ?build w True (restorePodTargets sc r sda rwN roN) = (w1, res)"
      using prod.exhaust by blast
    show ?thesis
    proof (cases "\<exists>d. res = Inr (d, None)")
      case True
      then obtain d where d: "res = Inr (d, None)" by blast
      have "standing env w1 d (rpt_jobName t)" if "t \<in> set (restorePodTargets sc r sda rwN roN)" for t
        by (rule run_targets_standing [OF _ run [unfolded d] that]) (simp add: buildRestoreJob_def Let_def)
      then have "\<forall>x \<in> set (map rpt_jobName (restorePodTargets sc r sda rwN roN)). standing env w1 d x" by auto
      then have "\<forall>t \<in> set (restorePodTargets sc r sdb rwN roN). standing env w1 d (rpt_jobName t)" unfolding names by auto
      note again = run_targets_again [OF this]
      have f: "get_database env w1 b = Inr sdb" "resolveRestoreSource env w1 r sdb = Inr srcB"
        using run_targets_frame [OF run] assms(3,5) resolveRestoreSource_cong [of w1 w env r sdb]
        by (simp_all add: get_database_def)
      show ?thesis using assms Inr run d f again A B by (simp add: runRestoreJobs_def n [symmetric])
    next
      case False
      then show ?thesis using assms Inr run A
        by (auto simp: runRestoreJobs_def n [symmetric] split: sum.splits prod.splits option.splits)
    qed
  qed
  moreover have "db_loaded env w sc r b \<longleftrightarrow> db_loaded env w sc r a"
  proof -
    have "(\<forall>t \<in> set (restorePodTargets sc r sdb rwN roN). loaded env w (rpt_jobName t)) \<longleftrightarrow>
        (\<forall>x \<in> set (map rpt_jobName (restorePodTargets sc r sdb rwN roN)). loaded env w x)" by simp
    also have "\<dots> \<longleftrightarrow> (\<forall>t \<in> set (restorePodTargets sc r sda rwN roN). loaded env w (rpt_jobName t))"
      unfolding names [symmetric] by simp
    finally show ?thesis using assms A B by (auto simp: db_loaded_def n [symmetric])
  qed
  ultimately show ?thesis by blast
qed

text \<open>Two databases of a fleet of one pod, under long names.\<close>

definition demo_pair :: "Job list \<Rightarrow> restore_world" where
  "demo_pair jobs = (demo_world jobs)\<lparr>w_Databases := [demo_database ''openstack-production-accounts-a'',
     demo_database ''openstack-production-accounts-b'']\<rparr>"

theorem shared_prefix_never_loaded_witness:
  "let r = demo_status RestoreInProgress; sc = demo_cluster (Some RestoreInProgress);
       a = ''openstack-production-accounts-a''; b = ''openstack-production-accounts-b'' in
   runRestoreJobs demo_env (demo_pair []) sc r [a, b] = runRestoreJobs demo_env (demo_pair []) sc r [a] \<and>
   map (\<lambda>j. map_of (job_Labels j) databaseLabel) (w_Jobs (fst (runRestoreJobs demo_env (demo_pair []) sc r [a, b]))) = [Some a]"
proof -
  let ?a = "''openstack-production-accounts-a''" and ?b = "''openstack-production-accounts-b''"
  let ?r = "demo_status RestoreInProgress" and ?sc = "demo_cluster (Some RestoreInProgress)"
  have "take 24 ?a = take 24 ?b" by code_simp
  moreover have "get_database demo_env (demo_pair []) ?a = Inr (demo_database ?a)"
    "get_database demo_env (demo_pair []) ?b = Inr (demo_database ?b)"
    by (simp_all add: get_database_def k8s_get_def demo_env_def demo_pair_def demo_database_def base_database_def Let_def)
  moreover have "resolveRestoreSource demo_env (demo_pair []) ?r (demo_database n) = Inr (demo_storage, ''k'', False)" for n
    by (simp add: resolveRestoreSource_def resolveBootstrapSource_def resolveSourceObject_def demo_status_def demo_database_def Let_def)
  ultimately have eq: "runRestoreJobs demo_env (demo_pair []) ?sc ?r [?a, ?b] = runRestoreJobs demo_env (demo_pair []) ?sc ?r [?a]"
    using shared_prefix_never_loaded by blast
  have "map (\<lambda>j. map_of (job_Labels j) databaseLabel) (w_Jobs (fst (runRestoreJobs demo_env (demo_pair []) ?sc ?r [?a]))) = [Some ?a]"
    by code_simp
  then show ?thesis unfolding Let_def eq by simp
qed

end
