(* ===== verification/Restore_Trace.thy ===== *)
theory Restore_Trace
  imports Restore_Fleet
begin

text \<open>
  All interleavings of the controller's passes with the other actors of a restore: the StatefulSet controller that starts and stops
  pods, the Job controller that finishes Jobs, the TTL and the garbage collector that remove them, and users who edit every
  object but the cluster's status. The reads of a pass are current; a pass may stop at any error.
\<close>

section \<open>Operations that create no Job\<close>

locale job_keeper =
  fixes op :: "restore_world \<Rightarrow> restore_world"
  assumes keeps: "\<exists>P. w_Jobs (op w) = filter P (w_Jobs w)"
begin

lemma names_distinct: "distinct (map job_Name (w_Jobs w)) \<Longrightarrow> distinct (map job_Name (w_Jobs (op w)))"
  using keeps [of w] by (auto simp: distinct_map_filter)

lemma kept_all: "\<forall>j \<in> set (w_Jobs w). Q j \<Longrightarrow> \<forall>j \<in> set (w_Jobs (op w)). Q j"
  using keeps [of w] by auto

end

lemma keeps_same: "w_Jobs w' = w_Jobs w \<Longrightarrow> \<exists>P. w_Jobs w' = filter P (w_Jobs w)"
  by (intro exI [of _ "\<lambda>_. True"]) simp

interpretation mark_op: job_keeper "\<lambda>w. fst (markRestored env w names)" for env names
proof
  fix w
  obtain w' e where "markRestored env w names = (w', e)" using prod.exhaust by blast
  with markRestored_marks [OF this] show "\<exists>P. w_Jobs (fst (markRestored env w names)) = filter P (w_Jobs w)"
    by (auto intro: keeps_same)
qed

interpretation request_op: job_keeper "\<lambda>w. fst (updateRestoreRequest env w name phase msg)" for env name phase msg
proof
  fix w
  obtain w' e where "updateRestoreRequest env w name phase msg = (w', e)" using prod.exhaust by blast
  with updateRestoreRequest_frame [OF this]
  show "\<exists>P. w_Jobs (fst (updateRestoreRequest env w name phase msg)) = filter P (w_Jobs w)" by (auto intro: keeps_same)
qed

lemma delete_jobs_filter: "\<exists>P. w_Jobs (fst (delete_jobs env w errs js)) = filter P (w_Jobs w)"
proof (induction js arbitrary: w errs)
  case (Cons j js)
  show ?case
  proof (cases "job_Deleting j \<or> re_Fault env (DeleteJob (job_Name j)) \<noteq> None")
    case True
    then show ?thesis using Cons.IH by (auto split: option.splits)
  next
    case False
    obtain P where "w_Jobs (fst (delete_jobs env (w\<lparr>w_Jobs := filter (\<lambda>x. job_Name x \<noteq> job_Name j) (w_Jobs w)\<rparr>) errs js))
        = filter P (filter (\<lambda>x. job_Name x \<noteq> job_Name j) (w_Jobs w))"
      using Cons.IH [of "w\<lparr>w_Jobs := filter (\<lambda>x. job_Name x \<noteq> job_Name j) (w_Jobs w)\<rparr>" errs] by auto
    then show ?thesis using False by (auto simp: filter_filter)
  qed
qed (auto intro: keeps_same)

interpretation reap_op: job_keeper "\<lambda>w. fst (reapJobsByLabel env w key val)" for env key val
proof
  fix w
  show "\<exists>P. w_Jobs (fst (reapJobsByLabel env w key val)) = filter P (w_Jobs w)"
    using delete_jobs_filter [of env w "[]" "filter (\<lambda>j. map_of (job_Labels j) key = Some val) (w_Jobs w)"]
    by (auto simp: reapJobsByLabel_def intro: keeps_same split: option.splits prod.splits list.splits)
qed

interpretation start_op: job_keeper "\<lambda>w. fst (snd (start_restore env w sc))" for env sc
proof
  fix w
  have "w_Jobs (fst (setRestoreRequestPhase env w sr p m)) = w_Jobs w" for sr p m
    using setRestoreRequestPhase_frame prod.exhaust_sel by blast
  then have "w_Jobs (fst (snd (start_restore env w sc))) = w_Jobs w"
    by (auto simp: start_restore_def maybeStartRequestedRestore_def split: sum.splits prod.splits option.splits)
  then show "\<exists>P. w_Jobs (fst (snd (start_restore env w sc))) = filter P (w_Jobs w)" by (rule keeps_same)
qed

section \<open>The Jobs a running restore creates\<close>

definition finished :: "Job \<Rightarrow> bool" where
  "finished j \<longleftrightarrow> job_complete j \<or> job_failed j"

definition jobs_ok :: "string set \<Rightarrow> restore_world \<Rightarrow> bool" where
  "jobs_ok N w \<longleftrightarrow> distinct (map job_Name (w_Jobs w)) \<and> (\<forall>j \<in> set (w_Jobs w). finished j \<or> job_Name j \<in> N)"

lemma jobs_ok_create:
  assumes "jobs_ok N w" and "get_job env w (job_Name j) = Inl ApiNotFound" and "job_Name j \<in> N"
  shows "jobs_ok N (w\<lparr>w_Jobs := w_Jobs w @ [j]\<rparr>)"
proof -
  have "find (\<lambda>x. job_Name x = job_Name j) (w_Jobs w) = None"
    using assms(2) by (auto simp: get_job_def k8s_get_def split: option.splits)
  then have "job_Name j \<notin> set (map job_Name (w_Jobs w))" by (auto simp: find_None_iff)
  then show ?thesis using assms(1,3) by (auto simp: jobs_ok_def)
qed

lemma run_targets_jobs_ok:
  assumes "\<And>t. job_Name (build t) = rpt_jobName t"
  shows "run_targets env build w d ts = (w', res) \<Longrightarrow> jobs_ok N w \<Longrightarrow> rpt_jobName ` set ts \<subseteq> N \<Longrightarrow> jobs_ok N w'"
proof (induction ts arbitrary: w d)
  case (Cons t ts)
  show ?case
  proof (cases "get_job env w (rpt_jobName t)")
    case (Inl e)
    show ?thesis
    proof (cases "e = ApiNotFound \<and> re_Fault env (CreateJob (rpt_jobName t)) = None")
      case True
      have "jobs_ok N (w\<lparr>w_Jobs := w_Jobs w @ [build t]\<rparr>)"
        using Cons.prems True Inl assms by (intro jobs_ok_create [of N w env]) auto
      then show ?thesis using Cons True Inl by simp
    next
      case False
      then show ?thesis using Cons Inl by (auto split: api_error.splits option.splits if_splits)
    qed
  next
    case (Inr j)
    then show ?thesis using Cons by (auto split: prod.splits if_splits)
  qed
qed simp

lemma run_databases_jobs_ok:
  assumes n: "rwN = (if rst_OriginalReplicas r = 0 then 1 else rst_OriginalReplicas r)" "roN = rst_OriginalReadReplicas r"
  shows "run_databases env sc r rwN roN w d names = (w', res) \<Longrightarrow> jobs_ok (window_names r) w \<Longrightarrow>
     set names \<subseteq> set (rst_Databases r) \<Longrightarrow> jobs_ok (window_names r) w'"
proof (induction names arbitrary: w d)
  case (Cons name names)
  show ?case
  proof (cases "\<exists>sd st key skip img. get_database env w name = Inr sd \<and> resolveRestoreSource env w r sd = Inr (st, key, skip) \<and>
        dataPlaneImage sc componentSlapdInit (re_OperatorImage env) (re_DefaultImageTag env) = Inr img")
    case True
    then obtain sd st key skip img where
      p: "get_database env w name = Inr sd" "resolveRestoreSource env w r sd = Inr (st, key, skip)"
        "dataPlaneImage sc componentSlapdInit (re_OperatorImage env) (re_DefaultImageTag env) = Inr img" by blast
    obtain w1 res1 where run: "run_targets env (buildRestoreJob sc r sd st key img (re_OperatorImage env)) w d
        (restorePodTargets sc r sd rwN roN) = (w1, res1)" using prod.exhaust by blast
    have "sd_Name sd \<in> set (rst_Databases r)" using p(1) Cons.prems(3) by (auto dest: get_database_name)
    then have "rpt_jobName ` set (restorePodTargets sc r sd rwN roN) \<subseteq> window_names r"
      unfolding n targets_pod_names window_names_def by blast
    then have "jobs_ok (window_names r) w1"
      using run_targets_jobs_ok [OF _ run Cons.prems(2)] by (simp add: buildRestoreJob_def Let_def)
    then show ?thesis using Cons.prems p run Cons.IH by (auto split: sum.splits prod.splits option.splits)
  next
    case False
    then show ?thesis using Cons.prems by (auto split: sum.splits)
  qed
qed simp

lemma runRestoreJobs_jobs_ok:
  "runRestoreJobs env w sc r (rst_Databases r) = (w', res) \<Longrightarrow> jobs_ok (window_names r) w \<Longrightarrow> jobs_ok (window_names r) w'"
  unfolding runRestoreJobs_def Let_def by (rule run_databases_jobs_ok) auto

section \<open>The fleet\<close>

text \<open>
  The cluster as it is stored, its namespace, and for the two StatefulSets, read-write and read-only, the replica count of the spec and the
  pods that exist. A pass applies both before the restore machine runs; the read-only one is left alone while the cluster asks
  for no read replicas. The machine is handed the read-write pod count only.
\<close>

record fleet =
  f_Cluster :: SlapdCluster
  f_World :: restore_world
  f_Spec :: int32
  f_Pods :: int32
  f_RoSpec :: int32
  f_RoPods :: int32

definition roSpec :: "fleet \<Rightarrow> int32" where
  "roSpec s = (if spec_ReadReplicas (sc_Spec (f_Cluster s)) = 0 then f_RoSpec s else desiredReplicas (f_Cluster s) True)"

definition set_conditions :: "string \<Rightarrow> JobCondition list \<Rightarrow> restore_world \<Rightarrow> restore_world" where
  "set_conditions name cs w = w\<lparr>w_Jobs := map (\<lambda>j. if job_Name j = name then j\<lparr>job_Conditions := cs\<rparr> else j) (w_Jobs w)\<rparr>"

inductive fleet_step :: "fleet \<Rightarrow> fleet \<Rightarrow> bool" where
  apply_spec: "fleet_step s (s\<lparr>f_Spec := desiredReplicas (f_Cluster s) False\<rparr>)"
| apply_specs: "fleet_step s (s\<lparr>f_Spec := desiredReplicas (f_Cluster s) False, f_RoSpec := roSpec s\<rparr>)"
| pass: "restorePass env persists (f_World s) (f_Cluster s) \<lparr>sts_Replicas = f_Pods s, sts_ReadyReplicas = ready\<rparr> = (sc', w') \<Longrightarrow>
     fleet_step s (s\<lparr>f_Spec := desiredReplicas (f_Cluster s) False, f_RoSpec := roSpec s, f_Cluster := sc', f_World := w'\<rparr>)"
| pod_starts: "f_Pods s < f_Spec s \<Longrightarrow> fleet_step s (s\<lparr>f_Pods := f_Pods s + 1\<rparr>)"
| pod_stops: "0 < f_Pods s \<Longrightarrow> fleet_step s (s\<lparr>f_Pods := f_Pods s - 1\<rparr>)"
| ro_pod_starts: "f_RoPods s < f_RoSpec s \<Longrightarrow> fleet_step s (s\<lparr>f_RoPods := f_RoPods s + 1\<rparr>)"
| ro_pod_stops: "0 < f_RoPods s \<Longrightarrow> fleet_step s (s\<lparr>f_RoPods := f_RoPods s - 1\<rparr>)"
| job_moves: "j \<in> set (w_Jobs (f_World s)) \<Longrightarrow> \<not> finished j \<Longrightarrow>
     fleet_step s (s\<lparr>f_World := set_conditions (job_Name j) cs (f_World s)\<rparr>)"
| job_removed: "fleet_step s (s\<lparr>f_World := (f_World s)\<lparr>w_Jobs := filter P (w_Jobs (f_World s))\<rparr>\<rparr>)"
| user_edits: "fleet_step s (s\<lparr>f_World := (f_World s)\<lparr>w_Databases := dbs, w_Restores := srs, w_Backups := sbs\<rparr>,
       f_Cluster := (f_Cluster s)\<lparr>sc_Spec := spec\<rparr>\<rparr>)"

inductive fleet_reachable :: "fleet \<Rightarrow> bool" where
  start: "sc_Restore (f_Cluster s) = None \<Longrightarrow> w_Jobs (f_World s) = [] \<Longrightarrow> 0 \<le> f_Pods s \<Longrightarrow> 0 \<le> f_RoPods s \<Longrightarrow> fleet_reachable s"
| step: "fleet_reachable s \<Longrightarrow> fleet_step s s' \<Longrightarrow> fleet_reachable s'"

definition creating :: "SlapdCluster \<Rightarrow> string set" where
  "creating sc = (case sc_Restore sc of
     None \<Rightarrow> {}
   | Some r \<Rightarrow> if rst_Phase r = RestoreInProgress then window_names r else if rst_Phase r = RestoreFailed then UNIV else {})"

definition emptied :: "SlapdCluster \<Rightarrow> bool" where
  "emptied sc \<longleftrightarrow> (case sc_Restore sc of
     None \<Rightarrow> False | Some r \<Rightarrow> rst_Phase r = RestoreInProgress \<or> rst_Phase r = RestoreFailed)"

definition fleet_inv :: "fleet \<Rightarrow> bool" where
  "fleet_inv s \<longleftrightarrow> 0 \<le> f_Pods s \<and> jobs_ok (creating (f_Cluster s)) (f_World s) \<and>
     (emptied (f_Cluster s) \<longrightarrow> f_Pods s = 0 \<and> f_Spec s \<le> 0)"

lemma emptied_desired: "emptied sc \<Longrightarrow> desiredReplicas sc False = 0"
  by (auto simp: emptied_def desiredReplicas_def RestoreHoldsDown_def split: option.splits)

lemma jobs_ok_mono: "jobs_ok N w \<Longrightarrow> N \<subseteq> M \<Longrightarrow> jobs_ok M w"
  by (auto simp: jobs_ok_def)

lemma jobs_ok_filter: "\<exists>P. w_Jobs w' = filter P (w_Jobs w) \<Longrightarrow> jobs_ok N w \<Longrightarrow> jobs_ok N w'"
  by (auto simp: jobs_ok_def distinct_map_filter)

lemma jobs_ok_loaded:
  assumes "jobs_ok (window_names r) w" and "list_all (db_loaded env w sc r) (rst_Databases r)"
  shows "jobs_ok {} w"
proof -
  have "finished j" if j: "j \<in> set (w_Jobs w)" "job_Name j \<in> window_names r" for j
  proof -
    obtain name where name: "name \<in> set (rst_Databases r)" "job_Name j \<in> pod_names r name"
      using j(2) by (auto simp: window_names_def)
    then obtain sd where sd: "get_database env w name = Inr sd"
      "\<forall>t \<in> set (restorePodTargets sc r sd (if rst_OriginalReplicas r = 0 then 1 else rst_OriginalReplicas r) (rst_OriginalReadReplicas r)).
         loaded env w (rpt_jobName t)"
      using assms(2) by (auto simp: list_all_iff db_loaded_def)
    have "sd_Name sd = name" using get_database_name [OF sd(1)] by blast
    then have "job_Name j \<in> rpt_jobName ` set (restorePodTargets sc r sd
        (if rst_OriginalReplicas r = 0 then 1 else rst_OriginalReplicas r) (rst_OriginalReadReplicas r))"
      unfolding targets_pod_names using name(2) by simp
    then obtain k where k: "get_job env w (job_Name j) = Inr k" "job_complete k"
      using sd(2) by (auto simp: loaded_def)
    then have "k \<in> set (w_Jobs w)" "job_Name k = job_Name j"
      by (auto simp: get_job_def k8s_get_def split: option.splits dest: find_Some_in)
    then have "k = j" using assms(1) j(1) by (auto simp: jobs_ok_def distinct_map inj_on_def)
    then show ?thesis using k(2) by (simp add: finished_def)
  qed
  then show ?thesis using assms(1) by (auto simp: jobs_ok_def)
qed

lemma jobs_ok_ops:
  "jobs_ok N w \<Longrightarrow> updateRestoreRequest env w name phase msg = (w', e) \<Longrightarrow> jobs_ok N w'"
  "jobs_ok N w \<Longrightarrow> markRestored env w names = (w', e) \<Longrightarrow> jobs_ok N w'"
  "jobs_ok N w \<Longrightarrow> reapJobsByLabel env w key val = (w', e) \<Longrightarrow> jobs_ok N w'"
  "jobs_ok N w \<Longrightarrow> start_restore env w sc = (sc', w', res) \<Longrightarrow> jobs_ok N w'"
  using jobs_ok_filter request_op.keeps mark_op.keeps reap_op.keeps start_op.keeps by (metis fst_conv snd_conv)+

lemma creating_simps:
  "sc_Restore sc = Some r \<Longrightarrow> creating sc =
     (if rst_Phase r = RestoreInProgress then window_names r else if rst_Phase r = RestoreFailed then UNIV else {})"
  "sc_Restore sc = None \<Longrightarrow> creating sc = {}"
  by (simp_all add: creating_def)

lemma window_names_update [simp]:
  "window_names (r\<lparr>rst_Phase := p\<rparr>) = window_names r" "window_names (r\<lparr>rst_Message := m\<rparr>) = window_names r"
  by (simp_all add: window_names_def pod_names_def job_base_def)

lemma in_progress_jobs_ok:
  assumes "in_progress env w sc r = (r', w', res)" and "rst_Phase r = RestoreInProgress" and "jobs_ok (window_names r) w"
  shows "jobs_ok (window_names r) w' \<and> (rst_Phase r' = RestoreScalingUp \<longrightarrow> jobs_ok {} w')"
proof -
  obtain w1 run where run: "runRestoreJobs env w sc r (rst_Databases r) = (w1, run)" using prod.exhaust by blast
  have ok: "jobs_ok (window_names r) w1" using runRestoreJobs_jobs_ok [OF run assms(3)] .
  show ?thesis
  proof (cases "\<exists>f. run = Inr (True, f)")
    case True
    then have r: "run = Inr (True, None)" "w1 = w" and l: "list_all (db_loaded env w sc r) (rst_Databases r)"
      using run by (auto simp: runRestoreJobs_done list_all_iff)
    have "jobs_ok {} w" using assms(3) l by (rule jobs_ok_loaded)
    moreover have "w' = w \<or> (\<exists>e. markRestored env w (rst_Databases r) = (w', e))"
      using assms(1) run r by (auto simp: in_progress_def split: prod.splits option.splits if_splits)
    ultimately have "jobs_ok {} w'" using jobs_ok_ops(2) by blast
    then show ?thesis using jobs_ok_mono by blast
  next
    case False
    then have "rst_Phase r' \<noteq> RestoreScalingUp" and "w' = w1 \<or> (\<exists>n p m e. updateRestoreRequest env w1 n p m = (w', e))"
      using assms(1,2) run by (auto simp: in_progress_def Let_def split: sum.splits prod.splits option.splits if_splits)
    then show ?thesis using ok jobs_ok_ops(1) by blast
  qed
qed

lemma reconcileRestore_jobs_ok:
  assumes "reconcileRestore env w sc sts = (sc', w', res)" and "jobs_ok (creating sc) w"
  shows "jobs_ok (creating sc) w' \<and> jobs_ok (creating sc') w'"
proof (cases "sc_Restore sc")
  case None
  then have st: "start_restore env w sc = (sc', w', res)" using assms(1) by (simp add: reconcileRestore_def)
  have "creating sc' = {}"
    using start_preflight [OF st None] by (cases "sc_Restore sc'") (simp_all add: creating_simps)
  then show ?thesis using jobs_ok_ops(4) [OF assms(2) st] None by (simp add: creating_simps)
next
  case (Some r)
  show ?thesis
  proof (cases "rst_Phase r")
    case RestorePreflight
    obtain r' where h: "reconcileRestorePreflight env w sc r = (r', w', res)" "sc_Restore sc' = Some r'"
      using assms(1) Some RestorePreflight by (auto simp: reconcileRestore_def split: prod.splits)
    then have "next_of r r'" using RestorePreflight preflight_next by blast
    then have "creating sc' = {}" using h(2) RestorePreflight by (auto simp: next_of_def creating_simps)
    moreover have "w' = w \<or> (\<exists>n p m e. updateRestoreRequest env w n p m = (w', e))"
      using h(1) by (auto simp: reconcileRestorePreflight_def Let_def split: preflight.splits prod.splits option.splits)
    ultimately show ?thesis using assms(2) jobs_ok_ops(1) Some RestorePreflight by (auto simp: creating_simps)
  next
    case RestoreScalingDown
    obtain r' where h: "scaling_down w r sts = (r', w', res)" "sc_Restore sc' = Some r'"
      using assms(1) Some RestoreScalingDown by (auto simp: reconcileRestore_def split: prod.splits)
    then have "w' = w" by (auto simp: scaling_down_def split: if_splits)
    then show ?thesis using assms(2) Some RestoreScalingDown jobs_ok_mono [of "{}" w "creating sc'"] by (simp add: creating_simps(1) [OF Some])
  next
    case RestoreInProgress
    obtain r' where h: "in_progress env w sc r = (r', w', res)" "sc_Restore sc' = Some r'"
      using assms(1) Some RestoreInProgress by (auto simp: reconcileRestore_def split: prod.splits)
    have nx: "next_of r r'" using h(1) RestoreInProgress in_progress_next by blast
    then obtain p m where "r' = r\<lparr>rst_Phase := p, rst_Message := m\<rparr>" unfolding next_of_def same_window_def by blast
    then have "window_names r' = window_names r" by simp
    moreover have "jobs_ok (window_names r) w' \<and> (rst_Phase r' = RestoreScalingUp \<longrightarrow> jobs_ok {} w')"
      using in_progress_jobs_ok [OF h(1) RestoreInProgress] assms(2) Some RestoreInProgress by (simp add: creating_simps(1) [OF Some])
    ultimately show ?thesis using nx Some h(2) RestoreInProgress jobs_ok_mono [of "window_names r" w' UNIV]
      by (auto simp: next_of_def creating_simps(1) [OF Some] creating_simps(1) [OF h(2)])
  next
    case RestoreScalingUp
    obtain q where h: "scaling_up env w r sts = (q, w', res)" "sc_Restore sc' = q"
      using assms(1) Some RestoreScalingUp by (auto simp: reconcileRestore_def split: prod.splits)
    then have "creating sc' = {}" using scaling_up_next [OF RestoreScalingUp] RestoreScalingUp
      by (cases q) (auto simp: next_of_def creating_simps)
    moreover have none: "creating sc = {}" using RestoreScalingUp by (simp add: creating_simps(1) [OF Some])
    moreover have "jobs_ok {} w'"
    proof -
      obtain w1 e where reap: "reapJobsByLabel env w restoreIDLabel (rst_ID r) = (w1, e)" using prod.exhaust by blast
      have w: "jobs_ok {} w" using assms(2) none by simp
      have w1: "jobs_ok {} w1" using w reap by (rule jobs_ok_ops(3))
      have "w' = w \<or> w' = w1 \<or> (\<exists>n p m e. updateRestoreRequest env w1 n p m = (w', e))"
        using h(1) reap by (auto simp: scaling_up_def Let_def split: prod.splits option.splits if_splits)
      then show ?thesis using w w1 jobs_ok_ops(1) [OF w1] by blast
    qed
    ultimately show ?thesis by simp
  next
    case RestoreFailed
    obtain r' where h: "restore_failed env w r = (r', w', res)" "sc_Restore sc' = Some r'"
      using assms(1) Some RestoreFailed by (auto simp: reconcileRestore_def split: prod.splits)
    then have "r' = r" "\<exists>e. reapJobsByLabel env w restoreIDLabel (rst_ID r) = (w', e)"
      by (auto simp: restore_failed_def split: prod.splits option.splits)
    then show ?thesis using assms(2) jobs_ok_ops(3) Some h(2) RestoreFailed by (auto simp: creating_simps(1))
  qed
qed

lemma reconcileRestore_emptied:
  assumes "reconcileRestore env w sc sts = (sc', w', res)" and "emptied sc'" and "\<not> emptied sc"
  shows "desiredReplicas sc False = 0 \<and> sts_Replicas sts \<le> 0"
proof (cases "sc_Restore sc")
  case None
  then show ?thesis using assms start_preflight [of env w sc sc' w' res]
    by (auto simp: reconcileRestore_def emptied_def split: option.splits)
next
  case (Some r)
  obtain r' where r': "sc_Restore sc' = Some r'" using assms(2) by (auto simp: emptied_def split: option.splits)
  then have "next_of r r'" using reconcileRestore_next [OF Some assms(1)] by simp
  then have d: "rst_Phase r = RestoreScalingDown" "rst_Phase r' = RestoreInProgress"
    using assms(2,3) Some r' by (cases "rst_Phase r"; auto simp: emptied_def next_of_def)+
  then have "sts_Replicas sts \<le> 0"
    using assms(1) Some r' by (auto simp: reconcileRestore_def scaling_down_def split: if_splits)
  then show ?thesis using Some d(1) by (simp add: desiredReplicas_def RestoreHoldsDown_def)
qed

lemma restorePass_inv:
  assumes "restorePass env persists w sc sts = (sc', w')" and "jobs_ok (creating sc) w"
  shows "jobs_ok (creating sc') w' \<and> (emptied sc' \<longrightarrow> emptied sc \<or> desiredReplicas sc False = 0 \<and> sts_Replicas sts \<le> 0)"
proof -
  obtain sc1 w1 res where rr: "reconcileRestore env w sc sts = (sc1, w1, res)" using prod_cases3 by blast
  have "w' = w1" and "sc' = sc \<or> sc' = sc1"
    using assms(1) rr by (cases res; auto simp: restorePass_def split: if_splits)+
  then show ?thesis using reconcileRestore_jobs_ok [OF rr assms(2)] reconcileRestore_emptied [OF rr] by blast
qed

lemma fleet_step_inv: "fleet_step s s' \<Longrightarrow> fleet_inv s \<Longrightarrow> fleet_inv s'"
proof (induction rule: fleet_step.induct)
  case (apply_spec s)
  then show ?case using emptied_desired by (auto simp: fleet_inv_def)
next
  case (apply_specs s)
  then show ?case using emptied_desired by (auto simp: fleet_inv_def)
next
  case (pass env persists s ready sc' w')
  have "jobs_ok (creating (f_Cluster s)) (f_World s)" using pass.prems by (simp add: fleet_inv_def)
  from restorePass_inv [OF pass.hyps this] show ?case
    using pass.prems emptied_desired [of "f_Cluster s"] by (auto simp: fleet_inv_def)
next
  case (pod_starts s)
  then show ?case by (auto simp: fleet_inv_def)
next
  case (pod_stops s)
  then show ?case by (auto simp: fleet_inv_def)
next
  case (ro_pod_starts s)
  then show ?case by (auto simp: fleet_inv_def)
next
  case (ro_pod_stops s)
  then show ?case by (auto simp: fleet_inv_def)
next
  case (job_moves j s cs)
  let ?w = "set_conditions (job_Name j) cs (f_World s)"
  have names: "map job_Name (w_Jobs ?w) = map job_Name (w_Jobs (f_World s))" by (simp add: set_conditions_def)
  have "jobs_ok (creating (f_Cluster s)) (f_World s)" using job_moves.prems by (simp add: fleet_inv_def)
  moreover from this have "job_Name j \<in> creating (f_Cluster s)" using job_moves.hyps by (auto simp: jobs_ok_def)
  ultimately have "jobs_ok (creating (f_Cluster s)) ?w" unfolding jobs_ok_def names by (auto simp: set_conditions_def)
  then show ?case using job_moves.prems by (simp add: fleet_inv_def)
next
  case (job_removed s P)
  then show ?case using jobs_ok_filter [of "(f_World s)\<lparr>w_Jobs := filter P (w_Jobs (f_World s))\<rparr>" "f_World s"]
    by (auto simp: fleet_inv_def)
next
  case (user_edits s dbs srs sbs spec)
  then show ?case by (simp add: fleet_inv_def jobs_ok_def creating_def emptied_def)
qed

lemma fleet_reachable_inv: "fleet_reachable s \<Longrightarrow> fleet_inv s"
proof (induction rule: fleet_reachable.induct)
  case (start s)
  then show ?case by (simp add: fleet_inv_def jobs_ok_def creating_def emptied_def)
qed (rule fleet_step_inv)

section \<open>Properties\<close>

text \<open>
  C4. No restore Job works beside a live read-write server: in every state that the passes of the controller, the
  starting and stopping of pods of both kinds, the progress and removal of Jobs and the edits of users can reach, every restore Job
  is finished while a read-write pod exists; and while the Jobs of a restore may run, and after a restore failed, no read-write pod
  exists and the read-write StatefulSet asks for none. Read-only pods are not part of the promise: the controller waits for the
  read-write pods only, and the witness reaches a state in which a read-only pod exists beside the unfinished Job that wipes its volume.
\<close>

theorem jobs_never_beside_pods:
  assumes "fleet_reachable s"
  shows "(0 < f_Pods s \<longrightarrow> list_all finished (w_Jobs (f_World s))) \<and>
         (emptied (f_Cluster s) \<longrightarrow> f_Pods s = 0 \<and> f_Spec s \<le> 0) \<and> distinct (map job_Name (w_Jobs (f_World s)))"
proof -
  have inv: "fleet_inv s" using assms by (rule fleet_reachable_inv)
  have "list_all finished (w_Jobs (f_World s))" if "0 < f_Pods s"
  proof -
    have "\<not> emptied (f_Cluster s)" using inv that by (auto simp: fleet_inv_def)
    then have "creating (f_Cluster s) = {}" by (auto simp: emptied_def creating_def split: option.splits)
    then show ?thesis using inv by (auto simp: fleet_inv_def jobs_ok_def list_all_iff)
  qed
  then show ?thesis using inv by (auto simp: fleet_inv_def jobs_ok_def)
qed

text \<open>Four passes of the controller on a fleet whose pods are gone, as a function.\<close>

definition demo_pass :: "fleet \<Rightarrow> fleet" where
  "demo_pass s =
     (case restorePass demo_env True (f_World s) (f_Cluster s) (demo_sts (f_Pods s)) of
        (sc', w') \<Rightarrow> s\<lparr>f_Spec := desiredReplicas (f_Cluster s) False, f_RoSpec := roSpec s, f_Cluster := sc', f_World := w'\<rparr>)"

lemma demo_pass_reachable: "fleet_reachable s \<Longrightarrow> fleet_reachable (demo_pass s)"
proof -
  obtain sc' w' where p: "restorePass demo_env True (f_World s) (f_Cluster s)
      \<lparr>sts_Replicas = f_Pods s, sts_ReadyReplicas = f_Pods s\<rparr> = (sc', w')" using prod.exhaust by blast
  have "fleet_step s (demo_pass s)" using fleet_step.pass [OF p] p by (simp add: demo_pass_def demo_sts_def)
  then show "fleet_reachable s \<Longrightarrow> fleet_reachable (demo_pass s)" using fleet_reachable.step by blast
qed

definition demo_fleet :: fleet where
  "demo_fleet = \<lparr>f_Cluster = (let sc = demo_cluster None in sc\<lparr>sc_Spec := (sc_Spec sc)\<lparr>spec_ReadReplicas := 1\<rparr>\<rparr>), f_World = demo_world [],
     f_Spec = 1, f_Pods = 0, f_RoSpec = 1, f_RoPods = 1\<rparr>"

lemma demo_fleet_reachable: "fleet_reachable (demo_pass (demo_pass (demo_pass (demo_pass demo_fleet))))"
proof -
  have "fleet_reachable demo_fleet"
    by (rule fleet_reachable.start) (simp_all add: demo_fleet_def demo_cluster_def demo_world_def)
  then show ?thesis by (intro demo_pass_reachable)
qed

theorem jobs_never_beside_pods_witness:
  "let s = demo_pass (demo_pass (demo_pass (demo_pass demo_fleet))) in
   map job_Name (w_Jobs (f_World s)) = [''a-restore-i-rw-0'', ''a-restore-i-ro-0''] \<and> \<not> list_all finished (w_Jobs (f_World s)) \<and>
   emptied (f_Cluster s) \<and> f_Pods s = 0 \<and> f_Spec s \<le> 0 \<and> f_RoPods s = 1 \<and> f_RoSpec s = 0"
proof -
  let ?s = "demo_pass (demo_pass (demo_pass (demo_pass demo_fleet)))"
  have e: "emptied (f_Cluster ?s)" "map job_Name (w_Jobs (f_World ?s)) = [''a-restore-i-rw-0'', ''a-restore-i-ro-0'']"
    "\<not> list_all finished (w_Jobs (f_World ?s))" "f_RoPods ?s = 1" "f_RoSpec ?s = 0" by code_simp+
  show ?thesis using jobs_never_beside_pods [OF demo_fleet_reachable] e by (simp add: Let_def)
qed

end
