(* ===== verification/Restore_Types.thy ===== *)
theory Restore_Types
  imports Restore_Trace
begin

text \<open>
  What is always true of the objects a restore leaves in the namespace: the window stored in the status and the
  Jobs. The invariant is carried by the same step relation as the safety of the Jobs.
\<close>

text \<open>A Job the API server and the kubelet can run, and a window the machine can go on with.\<close>

definition wf_container :: "string list \<Rightarrow> Container \<Rightarrow> bool" where
  "wf_container volumes c \<longleftrightarrow> list_all (\<lambda>m. vm_Name m \<in> set volumes) (ctr_Mounts c) \<and> distinct (map vm_MountPath (ctr_Mounts c))"

definition wf_job :: "Job \<Rightarrow> bool" where
  "wf_job j \<longleftrightarrow> distinct (map fst (job_Volumes j)) \<and>
     list_all (wf_container (map fst (job_Volumes j))) (job_InitContainers j @ job_Containers j) \<and>
     length (job_Containers j) = 1 \<and> length (job_InitContainers j) \<le> 1 \<and>
     (\<exists>claim. map_of (job_Volumes j) ''data'' = Some (PVC claim)) \<and>
     map_of (job_Labels j) restoreIDLabel \<noteq> None \<and> map_of (job_Labels j) databaseLabel \<noteq> None"

definition wf_window :: "SlapdClusterRestoreStatus \<Rightarrow> bool" where
  "wf_window r \<longleftrightarrow> rst_Databases r \<noteq> [] \<and> (rst_RequestRef r \<noteq> [] \<longrightarrow> length (rst_Databases r) = 1)"

lemma wf_built: "wf_job (buildRestoreJob sc r sd st key img op t)"
  by (auto simp: wf_job_def wf_container_def buildRestoreJob_def Let_def)

lemma wf_job_conditions [simp]: "wf_job (j\<lparr>job_Conditions := cs\<rparr>) = wf_job j"
  by (simp add: wf_job_def)

section \<open>The Jobs of a pass\<close>

definition jobs_wf :: "restore_world \<Rightarrow> bool" where
  "jobs_wf w \<longleftrightarrow> (\<forall>j \<in> set (w_Jobs w). wf_job j)"

lemma run_targets_wf:
  assumes "\<And>t. wf_job (build t)"
  shows "run_targets env build w d ts = (w', res) \<Longrightarrow> jobs_wf w \<Longrightarrow> jobs_wf w'"
proof (induction ts arbitrary: w d)
  case (Cons t ts)
  have "jobs_wf (w\<lparr>w_Jobs := w_Jobs w @ [build t]\<rparr>)" using Cons.prems(2) assms by (auto simp: jobs_wf_def)
  then show ?case using Cons by (auto split: sum.splits api_error.splits option.splits prod.splits if_splits)
qed simp

lemma run_databases_wf:
  "run_databases env sc r rwN roN w d names = (w', res) \<Longrightarrow> jobs_wf w \<Longrightarrow> jobs_wf w'"
proof (induction names arbitrary: w d)
  case (Cons name names)
  show ?case
  proof (cases "\<exists>sd st key skip img. get_database env w name = Inr sd \<and> resolveRestoreSource env w r sd = Inr (st, key, skip) \<and>
        dataPlaneImage sc componentSlapdInit (re_OperatorImage env) (re_DefaultImageTag env) = Inr img")
    case True
    then obtain sd st key skip img where
      p: "get_database env w name = Inr sd" "resolveRestoreSource env w r sd = Inr (st, key, skip)"
        "dataPlaneImage sc componentSlapdInit (re_OperatorImage env) (re_DefaultImageTag env) = Inr img" by blast
    obtain w1 res1 where run: "run_targets env (buildRestoreJob sc r sd st key img (re_OperatorImage env)) w d
        (restorePodTargets sc r sd rwN roN) = (w1, res1)" using prod.exhaust by blast
    have "jobs_wf w1" by (rule run_targets_wf [OF wf_built run Cons.prems(2)])
    then show ?thesis using Cons.prems p run Cons.IH by (auto split: sum.splits prod.splits option.splits)
  next
    case False
    then show ?thesis using Cons.prems by (auto split: sum.splits)
  qed
qed simp

lemma jobs_wf_ops:
  "jobs_wf w \<Longrightarrow> updateRestoreRequest env w name phase msg = (w', e) \<Longrightarrow> jobs_wf w'"
  "jobs_wf w \<Longrightarrow> markRestored env w names = (w', e) \<Longrightarrow> jobs_wf w'"
  "jobs_wf w \<Longrightarrow> reapJobsByLabel env w key val = (w', e) \<Longrightarrow> jobs_wf w'"
  "jobs_wf w \<Longrightarrow> start_restore env w sc = (sc', w', res) \<Longrightarrow> jobs_wf w'"
  unfolding jobs_wf_def using request_op.kept_all mark_op.kept_all reap_op.kept_all start_op.kept_all by (metis fst_conv snd_conv)+

lemma in_progress_wf:
  assumes "in_progress env w sc r = (r', w', res)" and "jobs_wf w"
  shows "jobs_wf w'"
proof -
  obtain w1 run where run: "runRestoreJobs env w sc r (rst_Databases r) = (w1, run)" using prod.exhaust by blast
  then have "jobs_wf w1" using run_databases_wf assms(2) unfolding runRestoreJobs_def Let_def by blast
  moreover have "w' = w1 \<or> (\<exists>n p m e. updateRestoreRequest env w1 n p m = (w', e)) \<or> (\<exists>ns e. markRestored env w1 ns = (w', e))"
    using assms(1) run by (auto simp: in_progress_def Let_def split: sum.splits prod.splits option.splits if_splits)
  ultimately show ?thesis using jobs_wf_ops by blast
qed

lemma scaling_up_wf:
  assumes "scaling_up env w r sts = (q, w', res)" and "jobs_wf w"
  shows "jobs_wf w'"
proof -
  obtain w1 e where reap: "reapJobsByLabel env w restoreIDLabel (rst_ID r) = (w1, e)" using prod.exhaust by blast
  then have "jobs_wf w1" using jobs_wf_ops(3) assms(2) by blast
  moreover have "w' = w \<or> w' = w1 \<or> (\<exists>n p m e. updateRestoreRequest env w1 n p m = (w', e))"
    using assms(1) reap by (auto simp: scaling_up_def Let_def split: prod.splits option.splits if_splits)
  ultimately show ?thesis using assms(2) jobs_wf_ops(1) by blast
qed

lemma reconcileRestore_jobs_wf:
  assumes "reconcileRestore env w sc sts = (sc', w', res)" and "jobs_wf w"
  shows "jobs_wf w'"
proof (cases "sc_Restore sc")
  case None
  then show ?thesis using assms jobs_wf_ops(4) by (simp add: reconcileRestore_def)
next
  case (Some r)
  have "w' = w \<or> (\<exists>n p m e. updateRestoreRequest env w n p m = (w', e)) \<or> (\<exists>q s. in_progress env w sc r = (q, w', s)) \<or>
      (\<exists>q s. scaling_up env w r sts = (q, w', s)) \<or> (\<exists>k v e. reapJobsByLabel env w k v = (w', e))"
    using assms(1) Some
    by (cases "rst_Phase r")
      (auto simp: reconcileRestore_def reconcileRestorePreflight_def scaling_down_def restore_failed_def Let_def
        split: preflight.splits prod.splits option.splits if_splits)
  then show ?thesis using assms(2)
    by (elim disjE exE) (auto intro: jobs_wf_ops(1,3) in_progress_wf scaling_up_wf)
qed

section \<open>The window of a pass\<close>

lemma start_wf:
  assumes "start_restore env w sc = (sc', w', res)" and "sc_Restore sc = None" and "sc_Restore sc' = Some r"
  shows "wf_window r"
proof -
  obtain dbs defined where need: "databasesNeedingRestore env w sc = Inr (dbs, defined)"
    using assms by (auto simp: start_restore_def split: sum.splits)
  show ?thesis
  proof (cases "dbs = []")
    case True
    then have "maybeStartRequestedRestore env w sc = (sc', w', res)" using assms(1) need by (simp add: start_restore_def)
    then show ?thesis using assms(2,3)
      by (auto simp: maybeStartRequestedRestore_def new_restore_def wf_window_def split: sum.splits option.splits prod.splits if_splits)
  next
    case False
    then show ?thesis using assms need by (auto simp: start_restore_def new_restore_def wf_window_def split: if_splits)
  qed
qed

lemma wf_window_next: "next_of r r' \<Longrightarrow> wf_window r \<Longrightarrow> wf_window r'"
  using same_window_fields [of r r'] by (simp add: next_of_def wf_window_def)

lemma reconcileRestore_wf_window:
  assumes "reconcileRestore env w sc sts = (sc', w', res)" and "\<And>r. sc_Restore sc = Some r \<Longrightarrow> wf_window r"
    and "sc_Restore sc' = Some r'"
  shows "wf_window r'"
proof (cases "sc_Restore sc")
  case None
  then show ?thesis using assms(1,3) start_wf by (simp add: reconcileRestore_def)
next
  case (Some r)
  then show ?thesis using reconcileRestore_next [OF Some assms(1)] assms(2,3) wf_window_next by simp
qed

section \<open>Every reachable fleet\<close>

definition fleet_wf :: "fleet \<Rightarrow> bool" where
  "fleet_wf s \<longleftrightarrow> jobs_wf (f_World s) \<and> (\<forall>r. sc_Restore (f_Cluster s) = Some r \<longrightarrow> wf_window r)"

lemma fleet_step_wf: "fleet_step s s' \<Longrightarrow> fleet_wf s \<Longrightarrow> fleet_wf s'"
proof (induction rule: fleet_step.induct)
  case (pass env persists s ready sc' w')
  let ?sts = "\<lparr>sts_Replicas = f_Pods s, sts_ReadyReplicas = ready\<rparr>"
  obtain sc1 w1 res where rr: "reconcileRestore env (f_World s) (f_Cluster s) ?sts = (sc1, w1, res)" using prod_cases3 by blast
  have "w' = w1" and "sc' = f_Cluster s \<or> sc' = sc1"
    using pass.hyps rr by (cases res; auto simp: restorePass_def split: if_splits)+
  then show ?case using pass.prems reconcileRestore_jobs_wf [OF rr] reconcileRestore_wf_window [OF rr] by (auto simp: fleet_wf_def)
qed (auto simp: fleet_wf_def jobs_wf_def set_conditions_def)

text \<open>
  C39. The objects of a restore are well formed in every state the fleet can reach: a stored window names at
  least one database, and exactly one when a request started it; and every restore Job can be scheduled and found again: its
  volumes are distinct, every mount of its containers names one of them at a path of its own, it has one main and at most one
  init container, a data claim, and the labels it is listed and reaped by.
\<close>

theorem restore_objects_well_formed:
  assumes "fleet_reachable s"
  shows "list_all wf_job (w_Jobs (f_World s)) \<and> (\<forall>r. sc_Restore (f_Cluster s) = Some r \<longrightarrow> wf_window r)"
proof -
  have "fleet_wf s" using assms
  proof (induction rule: fleet_reachable.induct)
    case (start s)
    then show ?case by (simp add: fleet_wf_def jobs_wf_def)
  qed (rule fleet_step_wf)
  then show ?thesis by (simp add: fleet_wf_def jobs_wf_def list_all_iff)
qed

theorem restore_objects_well_formed_witness:
  "let s = demo_pass (demo_pass (demo_pass (demo_pass demo_fleet))) in
   length (w_Jobs (f_World s)) = 2 \<and> list_all wf_job (w_Jobs (f_World s)) \<and> sc_Restore (f_Cluster s) \<noteq> None"
proof -
  let ?s = "demo_pass (demo_pass (demo_pass (demo_pass demo_fleet)))"
  have "length (w_Jobs (f_World ?s)) = 2" "sc_Restore (f_Cluster ?s) \<noteq> None" by code_simp+
  then show ?thesis using restore_objects_well_formed [OF demo_fleet_reachable] by (simp add: Let_def)
qed

end
