(* ===== verification/Go_Time.thy ===== *)
theory Go_Time
  imports Csn
begin

text \<open>
  Instants in UTC taken apart: the calendar date of a day number, and the one layout the operator renders,
  \<open>20060102T150405Z\<close>. Shown: taking apart inverts \<open>time.Date\<close>, and two instants render alike exactly when they lie in the
  same second, over the years 1 to 9999 of the layout.
\<close>

section \<open>The civil date\<close>

text \<open>Days are counted from 1 January of year 1. The quotient is off by at most one year.\<close>

definition civil_year :: "int \<Rightarrow> int" where
  "civil_year n =
     (let y = (400 * n) div 146097 + 1 in
      if n < days_before_year y then y - 1 else if n < days_before_year (y + 1) then y else y + 1)"

definition civil_month :: "int \<Rightarrow> int \<Rightarrow> nat" where
  "civil_month y yd = last (filter (\<lambda>m. days_before_month m y \<le> yd) [1..<13])"

definition day_of :: "time \<Rightarrow> int" where
  "day_of t = t div 86400000000000 + 719162"

definition second_of_day :: "time \<Rightarrow> int" where
  "second_of_day t = t mod 86400000000000 div 1000000000"

lemma div_pred:
  assumes "0 < (k :: int)"
  shows "(y - 1) div k = (if y mod k = 0 then y div k - 1 else y div k)"
proof (cases "y mod k = 0")
  case True
  have "y - 1 = k * (y div k - 1) + (k - 1)" using True mult_div_mod_eq [of k y] by (simp add: algebra_simps)
  then have "(y - 1) div k = y div k - 1" by (rule int_div_pos_eq) (use assms in auto)
  then show ?thesis using True by simp
next
  case False
  have r: "0 < y mod k" "y mod k < k" using False assms pos_mod_sign [of k y] pos_mod_bound [of k y] by linarith+
  have "y - 1 = k * (y div k) + (y mod k - 1)" using mult_div_mod_eq [of k y] by (simp add: algebra_simps)
  then have "(y - 1) div k = y div k" by (rule int_div_pos_eq) (use r in auto)
  then show ?thesis using False by simp
qed

lemma mod_dvd_zero: "(y :: int) mod 400 = 0 \<Longrightarrow> y mod 100 = 0 \<and> y mod 4 = 0" "y mod 100 = 0 \<Longrightarrow> y mod 4 = 0"
  by presburger+

lemma days_before_year_Suc: "days_before_year (y + 1) = days_before_year y + (if is_leap y then 366 else 365)"
  unfolding days_before_year_def is_leap_def Let_def
  using div_pred [of 4 y] div_pred [of 100 y] div_pred [of 400 y] mod_dvd_zero [of y] by (simp add: algebra_simps)

lemma days_before_year_bounds:
  "146097 * (y - 1) - 1200 \<le> 400 * days_before_year y" "400 * days_before_year y \<le> 146097 * (y - 1) + 400"
proof -
  let ?p = "y - 1"
  have d: "k * (?p div k) \<le> ?p \<and> ?p - k < k * (?p div k)" if "0 < k" for k
    using mult_div_mod_eq [of k ?p] that pos_mod_bound [of k ?p] pos_mod_sign [of k ?p] by linarith
  show "146097 * (y - 1) - 1200 \<le> 400 * days_before_year y" "400 * days_before_year y \<le> 146097 * (y - 1) + 400"
    using d [of 4] d [of 100] d [of 400] unfolding days_before_year_def Let_def by simp_all
qed

lemma civil_year_exact: "days_before_year (civil_year n) \<le> n \<and> n < days_before_year (civil_year n + 1)"
proof -
  define y where "y = (400 * n) div 146097 + 1"
  have q: "146097 * (y - 1) \<le> 400 * n" "400 * n < 146097 * y"
    using mult_div_mod_eq [of 146097 "400 * n"] pos_mod_bound [of 146097 "400 * n"] pos_mod_sign [of 146097 "400 * n"]
    unfolding y_def by (simp_all add: algebra_simps)
  have lo: "days_before_year (y - 1) \<le> n" using days_before_year_bounds(2) [of "y - 1"] q(1) by (simp add: algebra_simps)
  have hi: "n < days_before_year (y + 1 + 1)" using days_before_year_bounds(1) [of "y + 1 + 1"] q(2) by (simp add: algebra_simps)
  have "civil_year n = (if n < days_before_year y then y - 1 else if n < days_before_year (y + 1) then y else y + 1)"
    by (simp add: civil_year_def Let_def y_def)
  then show ?thesis using lo hi by auto
qed

text \<open>The date and time of an instant, and the layout.\<close>

definition year_day :: "time \<Rightarrow> int" where
  "year_day t = day_of t - days_before_year (civil_year (day_of t))"

definition month_of :: "time \<Rightarrow> nat" where
  "month_of t = civil_month (civil_year (day_of t)) (year_day t)"

definition day_of_month :: "time \<Rightarrow> int" where
  "day_of_month t = year_day t - days_before_month (month_of t) (civil_year (day_of t)) + 1"

definition pad :: "nat \<Rightarrow> int \<Rightarrow> string" where
  "pad w x = (let d = dec (nat x) in replicate (w - length d) CHR ''0'' @ d)"

definition format_stamp :: "time \<Rightarrow> string" where
  "format_stamp t =
     (let s = second_of_day t in
      pad 4 (civil_year (day_of t)) @ pad 2 (int (month_of t)) @ pad 2 (day_of_month t) @ ''T'' @
      pad 2 (s div 3600) @ pad 2 (s div 60 mod 60) @ pad 2 (s mod 60) @ ''Z'')"

lemma last_filter_upt:
  "P a \<Longrightarrow> a < b \<Longrightarrow> P (last (filter P [a..<b])) \<and> last (filter P [a..<b]) \<in> {a..<b} \<and>
     (\<forall>m. last (filter P [a..<b]) < m \<and> m < b \<longrightarrow> \<not> P m)"
proof (induction b)
  case (Suc b)
  show ?case
  proof (cases "P b")
    case True
    then show ?thesis using Suc.prems by auto
  next
    case False
    then have "a < b" using Suc.prems by (cases "a = b") auto
    have f: "filter P [a..<Suc b] = filter P [a..<b]" using False by simp
    obtain l where l: "l = last (filter P [a..<b])" by simp
    have ih: "P l" "l \<in> {a..<b}" "\<forall>m. l < m \<and> m < b \<longrightarrow> \<not> P m"
      using Suc.IH [OF Suc.prems(1) \<open>a < b\<close>] unfolding l by blast+
    have "\<not> P m" if "l < m \<and> m < Suc b" for m
      using ih(3) that False by (cases "m = b") auto
    then show ?thesis unfolding f l [symmetric] using ih(1,2) by simp
  qed
qed simp

lemma days_before_month_Suc:
  "1 \<le> m \<Longrightarrow> m < 12 \<Longrightarrow> days_before_month (Suc m) y = days_before_month m y + daysIn m y"
proof -
  assume "1 \<le> m" "m < 12"
  then have "m \<in> set [1..<12]" by simp
  then show ?thesis by (auto simp: upt_rec days_before_month_def month_days_def daysIn_def)
qed

lemma civil_month_range:
  assumes "0 \<le> yd" and "yd < (if is_leap y then 366 else 365)"
  shows "1 \<le> civil_month y yd \<and> civil_month y yd \<le> 12 \<and> days_before_month (civil_month y yd) y \<le> yd \<and>
         yd < days_before_month (civil_month y yd) y + daysIn (civil_month y yd) y"
proof -
  let ?m = "civil_month y yd"
  have z: "days_before_month 1 y \<le> yd" using assms(1) by (simp add: days_before_month_def)
  note l = last_filter_upt [of "\<lambda>m. days_before_month m y \<le> yd" 1 13, OF z, folded civil_month_def]
  then have r: "1 \<le> ?m" "?m \<le> 12" "days_before_month ?m y \<le> yd" by auto
  moreover have "yd < days_before_month ?m y + daysIn ?m y"
  proof (cases "?m = 12")
    case True
    then show ?thesis using assms(2) by (simp add: days_before_month_def month_days_def daysIn_def split: if_splits)
  next
    case False
    then have "\<not> days_before_month (Suc ?m) y \<le> yd" using l r by auto
    then show ?thesis using days_before_month_Suc [of ?m y] r False by simp
  qed
  ultimately show ?thesis by simp
qed

lemma mixed_radix: "s = 60 * q + r \<Longrightarrow> q = 60 * a + b \<Longrightarrow> s = a * 3600 + b * 60 + (r :: int)"
  by simp

lemma clock_split: "(s :: int) = (s div 3600) * 3600 + (s div 60 mod 60) * 60 + s mod 60"
  using mixed_radix [OF mult_div_mod_eq [symmetric] mult_div_mod_eq [symmetric], of s] zdiv_zmult2_eq [of 60 s 60] by simp

lemma instant_split: "(t :: int) = 86400000000000 * (t div 86400000000000) + 1000000000 * second_of_day t + t mod 1000000000"
proof -
  have "t mod 86400000000000 mod 1000000000 = t mod 1000000000" by (rule mod_mod_cancel) simp
  then have "t mod 86400000000000 = 1000000000 * second_of_day t + t mod 1000000000"
    using mult_div_mod_eq [of 1000000000 "t mod 86400000000000"] unfolding second_of_day_def by simp
  then show ?thesis using mult_div_mod_eq [of 86400000000000 t] by (simp only: add.assoc)
qed

lemma radix_days:
  "t = 86400000000000 * n + 1000000000 * s + r \<Longrightarrow> y + m + d - 719162 = n \<Longrightarrow> s = a * 3600 + b * 60 + c \<Longrightarrow>
     ((((y + m + d - 719162) * 24 + a) * 60 + b) * 60 + c) * 1000000000 + 0 = t - (r :: int)"
  by simp

lemma date_time_inverts:
  "date_time (civil_year (day_of t)) (month_of t) (day_of_month t) (second_of_day t div 3600)
     (second_of_day t div 60 mod 60) (second_of_day t mod 60) 0 = t - t mod 1000000000"
  unfolding date_time_def
proof (rule radix_days [OF instant_split _ clock_split])
  show "days_before_year (civil_year (day_of t)) + days_before_month (month_of t) (civil_year (day_of t)) +
      (day_of_month t - 1) - 719162 = t div 86400000000000"
    unfolding day_of_month_def year_day_def day_of_def by simp
qed

section \<open>Rendering\<close>

text \<open>The instants whose year has four digits.\<close>

definition four_digit_year :: "time \<Rightarrow> bool" where
  "four_digit_year t \<longleftrightarrow> 0 \<le> civil_year (day_of t) \<and> civil_year (day_of t) \<le> 9999"

lemma dec_length: "0 < w \<Longrightarrow> n < 10 ^ w \<Longrightarrow> length (dec n) \<le> w"
proof (induction w arbitrary: n)
  case (Suc w)
  show ?case
  proof (cases "n < 10")
    case False
    then have "0 < w" and "n div 10 < 10 ^ w" using Suc.prems by (cases w; simp; linarith)+
    then show ?thesis using Suc.IH [of "n div 10"] False by (simp add: dec.simps [of n])
  qed (simp add: dec.simps [of n])
qed simp

lemma pad_length [simp]: "0 < w \<Longrightarrow> x < 10 ^ w \<Longrightarrow> length (pad w x) = w"
  using dec_length [of w "nat x"] by (cases "0 \<le> x") (simp_all add: pad_def Let_def nat_less_iff zero_less_power)

lemma pad_inj: "0 \<le> x \<Longrightarrow> 0 \<le> y \<Longrightarrow> pad w x = pad w y \<Longrightarrow> x = y"
  by (metis pad_def dec_val_zeros dec_val_dec eq_nat_nat_iff)

lemma seconds_range: "0 \<le> a \<Longrightarrow> a < 86400000000000 \<Longrightarrow> 0 \<le> a div 1000000000 \<and> a div 1000000000 < (86400 :: int)"
  by (simp add: div_int_pos_iff)

lemma six_fields:
  "a @ b @ c @ ''T'' @ d @ e @ f @ ''Z'' = a' @ b' @ c' @ ''T'' @ d' @ e' @ f' @ ''Z'' \<Longrightarrow>
     length a = length a' \<Longrightarrow> length b = length b' \<Longrightarrow> length c = length c' \<Longrightarrow> length d = length d' \<Longrightarrow>
     length e = length e' \<Longrightarrow> a = a' \<and> b = b' \<and> c = c' \<and> d = d' \<and> e = e' \<and> f = f'"
  by simp

lemma stamp_fields:
  "1 \<le> month_of t \<and> month_of t \<le> 12" "1 \<le> day_of_month t \<and> day_of_month t \<le> 31"
  "0 \<le> second_of_day t \<and> second_of_day t < 86400"
proof -
  have y: "0 \<le> year_day t" "year_day t < (if is_leap (civil_year (day_of t)) then 366 else 365)"
    using civil_year_exact [of "day_of t"] days_before_year_Suc [of "civil_year (day_of t)"] unfolding year_day_def by simp_all
  note m = civil_month_range [OF y, folded month_of_def]
  then show "1 \<le> month_of t \<and> month_of t \<le> 12" by simp
  then have "month_of t \<in> set [1..<13]" by simp
  then have "daysIn (month_of t) (civil_year (day_of t)) \<le> 31" by (auto simp: upt_rec daysIn_def month_days_def)
  then show "1 \<le> day_of_month t \<and> day_of_month t \<le> 31" using m unfolding day_of_month_def by simp
  show "0 \<le> second_of_day t \<and> second_of_day t < 86400"
    unfolding second_of_day_def by (rule seconds_range) simp_all
qed

lemma clock_fields:
  "0 \<le> s \<and> s < (86400 :: int) \<Longrightarrow> 0 \<le> s div 3600 \<and> s div 3600 < 24 \<and> 0 \<le> s div 60 mod 60 \<and> s div 60 mod 60 < 60 \<and>
     0 \<le> s mod 60 \<and> s mod 60 < 60"
  by (auto simp: div_int_pos_iff)

lemma format_stamp_exact:
  assumes "four_digit_year t" and "four_digit_year t'"
  shows "format_stamp t = format_stamp t' \<longleftrightarrow> t div 1000000000 = t' div 1000000000"
proof
  assume eq: "format_stamp t = format_stamp t'"
  let ?y = "\<lambda>t. civil_year (day_of t)"
  have len: "length (pad 4 (?y u)) = 4" "length (pad 2 (int (month_of u))) = 2" "length (pad 2 (day_of_month u)) = 2"
    "length (pad 2 (second_of_day u div 3600)) = 2" "length (pad 2 (second_of_day u div 60 mod 60)) = 2"
    "length (pad 2 (second_of_day u mod 60)) = 2" if "four_digit_year u" for u
    using that stamp_fields [of u] clock_fields [OF stamp_fields(3), of u] by (simp_all add: four_digit_year_def)
  note p = six_fields [OF eq [unfolded format_stamp_def Let_def]]
  have p: "pad 4 (?y t) = pad 4 (?y t')" "pad 2 (int (month_of t)) = pad 2 (int (month_of t'))"
    "pad 2 (day_of_month t) = pad 2 (day_of_month t')"
    "pad 2 (second_of_day t div 3600) = pad 2 (second_of_day t' div 3600)"
    "pad 2 (second_of_day t div 60 mod 60) = pad 2 (second_of_day t' div 60 mod 60)"
    "pad 2 (second_of_day t mod 60) = pad 2 (second_of_day t' mod 60)"
    using p len [OF assms(1)] len [OF assms(2)] by presburger+
  note c = clock_fields [OF stamp_fields(3)]
  have f: "?y t = ?y t'" "int (month_of t) = int (month_of t')" "day_of_month t = day_of_month t'"
    "second_of_day t div 3600 = second_of_day t' div 3600" "second_of_day t div 60 mod 60 = second_of_day t' div 60 mod 60"
    "second_of_day t mod 60 = second_of_day t' mod 60"
    using pad_inj [OF _ _ p(1)] pad_inj [OF _ _ p(2)] pad_inj [OF _ _ p(3)] pad_inj [OF _ _ p(4)] pad_inj [OF _ _ p(5)] pad_inj [OF _ _ p(6)]
      assms [unfolded four_digit_year_def] stamp_fields(2) [of t] stamp_fields(2) [of t'] c [of t] c [of t'] of_nat_0_le_iff by (meson order_trans zero_le_one)+
  have m: "month_of t = month_of t'" using f(2) by simp
  have "t - t mod 1000000000 = t' - t' mod 1000000000"
    using date_time_inverts [of t] date_time_inverts [of t'] unfolding f(1) m f(3-6) by simp
  then show "t div 1000000000 = t' div 1000000000" by (simp add: minus_mod_eq_mult_div)
next
  assume s: "t div 1000000000 = t' div 1000000000"
  have "u div 86400000000000 = u div 1000000000 div 86400" for u :: int using zdiv_zmult2_eq [of 86400 u 1000000000] by simp
  then have d: "day_of t = day_of t'" using s by (simp add: day_of_def)
  have "second_of_day u = u div 1000000000 mod 86400" for u
  proof -
    have "u mod 86400000000000 = 1000000000 * (u div 1000000000 mod 86400) + u mod 1000000000"
      using zmod_zmult2_eq [of 86400 u 1000000000] by simp
    then show ?thesis unfolding second_of_day_def by (rule int_div_pos_eq) simp_all
  qed
  then have "second_of_day t = second_of_day t'" using s by simp
  with d show "format_stamp t = format_stamp t'"
    by (simp add: format_stamp_def month_of_def day_of_month_def year_day_def)
qed

end
