(* ===== verification/Backup.thy ===== *)
theory Backup
  imports Restore_Trace Config_Attr Data_Present Mesh_Resolve Go_Time
begin

text \<open>
  The SlapdBackup controller, \<open>slapdbackup_controller.go\<close> with \<open>backup_source.go\<close> and \<open>backup_job.go\<close>: the circumstances
  recorded on a backup, the Job that takes it, and the pass \<open>reconcileBackup\<close> over the namespace of the restores. The API server, the
  object store, the LDAP servers and the clock are arguments. A status update that fails is logged and nothing else
  happens, as in the code. A requeue of 0 asks for none.
\<close>

section \<open>The source of a backup\<close>

definition backupSourcePod :: "SlapdCluster \<Rightarrow> string" where
  "backupSourcePod sc = sc_Name sc @ ''-0''"

definition isReplicationParticipant :: "SlapdCluster \<Rightarrow> bool" where
  "isReplicationParticipant sc =
     (if \<not> repl_Enabled (sc_Replication sc) then False
      else spec_Replicas (sc_Spec sc) > 1 \<or> repl_ExternalPeers (sc_Replication sc) \<noteq> [] \<or> spec_MeshRef (sc_Spec sc) \<noteq> [])"

abbreviation "backupSourceConvergedCondition \<equiv> ''SourceConverged''"
abbreviation "backupSuffixHealthyCondition \<equiv> ''SourceSuffixHealthy''"
abbreviation "replicationConvergedCondition \<equiv> ''ReplicationConverged''"

definition sourceConvergedCondition :: "SlapdCluster \<Rightarrow> int64 \<Rightarrow> time \<Rightarrow> Condition" where
  "sourceConvergedCondition sc generation now =
     (let cond = (\<lambda>status reason msg. \<lparr>cond_Type = backupSourceConvergedCondition, cond_Status = status, cond_Reason = reason,
            cond_Message = msg, cond_LastTransitionTime = now, cond_ObservedGeneration = generation\<rparr>) in
      case condition_of (scs_Conditions (sc_Status sc)) replicationConvergedCondition of
        Some rc \<Rightarrow>
          cond (cond_Status rc)
            (case cond_Status rc of ConditionTrue \<Rightarrow> ''ClusterConverged'' | ConditionFalse \<Rightarrow> ''ClusterDiverged''
               | ConditionUnknown \<Rightarrow> ''ConvergenceUnknown'')
            (Msg ''SlapdCluster reported ReplicationConverged'' [MStr (sc_Name sc), MStr (cond_Reason rc),
               MInt (cond_LastTransitionTime rc), MMsg (cond_Message rc)])
      | None \<Rightarrow>
          if \<not> isReplicationParticipant sc
          then cond ConditionTrue ''NotReplicated'' (Msg ''not replicated; the backup source is the only writable copy'' [MStr (sc_Name sc)])
          else cond ConditionUnknown ''NoConvergenceSignal'' (Msg ''a replication participant but reports no condition yet'' [MStr (sc_Name sc)]))"

definition sourceSuffixHealthyCondition :: "Outcome \<Rightarrow> message \<Rightarrow> int64 \<Rightarrow> time \<Rightarrow> Condition" where
  "sourceSuffixHealthyCondition outcome detail generation now =
     (let cond = (\<lambda>status reason msg. \<lparr>cond_Type = backupSuffixHealthyCondition, cond_Status = status, cond_Reason = reason,
            cond_Message = Msg msg [MMsg detail], cond_LastTransitionTime = now, cond_ObservedGeneration = generation\<rparr>) in
      case outcome of
        OutcomeVisible \<Rightarrow> cond ConditionTrue ''SuffixEntryVisible'' ''a real entry, visible to ordinary searches''
      | OutcomeGlue \<Rightarrow> cond ConditionFalse reasonGlueSuffix ''a hidden GLUE entry: this artifact will FAIL restore preflight''
      | OutcomeMissing \<Rightarrow> cond ConditionFalse ''SuffixMissing'' ''no suffix entry at all''
      | OutcomeError \<Rightarrow> cond ConditionUnknown ''CheckFailed'' ''could not probe the suffix entry of the source pod'')"

fun dropSeen :: "string list \<Rightarrow> string list \<Rightarrow> string list \<Rightarrow> string list" where
  "dropSeen [] seen out = out"
| "dropSeen (c # cs) seen out =
     (let c' = trim_space c in
      if c' = [] \<or> c' \<in> set seen then dropSeen cs seen out else dropSeen cs (c' # seen) (out @ [c']))"

definition normalizedCSNVector :: "string list \<Rightarrow> string list" where
  "normalizedCSNVector csns = (let out = dropSeen csns [] [] in if out = [] then [] else sort out)"

definition shouldRecordSourceCircumstances :: "SlapdBackup \<Rightarrow> bool" where
  "shouldRecordSourceCircumstances sb =
     list_ex (\<lambda>want. condition_of (sb_Conditions sb) want = None) [backupSourceConvergedCondition, backupSuffixHealthyCondition]"

definition recordedSourceConvergedCondition :: "SlapdCluster \<Rightarrow> int64 \<Rightarrow> time \<Rightarrow> bool \<Rightarrow> Condition" where
  "recordedSourceConvergedCondition sc generation now late =
     (let cond = sourceConvergedCondition sc generation now in
      if late then cond\<lparr>cond_Message := Msg ''NOTE: recorded after the backup Job already existed'' [MMsg (cond_Message cond)]\<rparr> else cond)"

section \<open>The key and the Job\<close>

definition trim_char :: "char \<Rightarrow> string \<Rightarrow> string" where
  "trim_char c s = rev (dropWhile (\<lambda>x. x = c) (rev (dropWhile (\<lambda>x. x = c) s)))"

definition backupObjectKey :: "SlapdBackup \<Rightarrow> SlapdCluster \<Rightarrow> SlapdDatabase \<Rightarrow> string" where
  "backupObjectKey sb sc sd =
     (let key = sc_Name sc @ ''/'' @ sd_Name sd @ ''/'' @ format_stamp (sb_CreationTimestamp sb) @ ''.ldif.gz'';
          p = trim_char CHR ''/'' (s3_Prefix (sb_Storage sb)) in
      if p \<noteq> [] then p @ ''/'' @ key else key)"

abbreviation "backupDumpFile \<equiv> ''/staging/dump.ldif.gz''"
abbreviation "backupReplEntryFile \<equiv> ''/staging/replentry.ldif''"

definition uploadArgs :: "S3StorageSpec \<Rightarrow> string \<Rightarrow> string list" where
  "uploadArgs st objectKey =
     [''backup-upload'', ''--bucket'', s3_Bucket st, ''--key'', objectKey, ''--file'', backupDumpFile, ''--repl-entry'', backupReplEntryFile] @
     (if s3_Endpoint st \<noteq> [] then [''--endpoint'', s3_Endpoint st] else []) @
     (if s3_Region st \<noteq> [] then [''--region'', s3_Region st] else []) @
     (if s3_InsecureTLS st then [''--insecure-tls''] else [])"

definition mountsWithAccesslog :: "SlapdCluster \<Rightarrow> VolumeMount list \<Rightarrow> VolumeMount list" where
  "mountsWithAccesslog sc base =
     base @ (if NeedsAccesslogVolume sc then [\<lparr>vm_Name = ''accesslog'', vm_MountPath = ''/accesslog'', vm_ReadOnly = False\<rparr>] else [])"

definition volumesWithAccesslog :: "SlapdCluster \<Rightarrow> (string \<times> volume_source) list \<Rightarrow> (string \<times> volume_source) list" where
  "volumesWithAccesslog sc base =
     base @ (if NeedsAccesslogVolume sc then [(''accesslog'', PVC (''accesslog-'' @ sc_Name sc @ ''-0''))] else [])"

abbreviation "backupLabel \<equiv> ''ldap.chuck-chuck-chuck.net/backup''"

definition slapcatScript :: string where
  "slapcatScript = ''set -eo pipefail'' @ newline @
     ''slapcat -F /config/slapd.d -b '' @ quoted ''$SUFFIX'' @ '' | gzip -c > '' @ backupDumpFile @ newline @
     ''slapcat -F /config/slapd.d -b '' @ quoted ''$SUFFIX'' @ '' -a '' @ [CHR 0x27] @ ''(cn=replication)'' @ [CHR 0x27] @ '' > '' @ backupReplEntryFile"

definition buildBackupJob ::
  "SlapdBackup \<Rightarrow> SlapdDatabase \<Rightarrow> SlapdCluster \<Rightarrow> string \<Rightarrow> string \<Rightarrow> string \<Rightarrow> Job" where
  "buildBackupJob sb sd sc initImage operatorImage objectKey =
     (let st = sb_Storage sb;
          secretRef = EnvSecret (s3_CredentialsSecretName st);
          mounts = mountsWithAccesslog sc
            [\<lparr>vm_Name = ''config'', vm_MountPath = ''/config'', vm_ReadOnly = True\<rparr>,
             \<lparr>vm_Name = ''data'', vm_MountPath = ''/data'', vm_ReadOnly = False\<rparr>,
             \<lparr>vm_Name = ''staging'', vm_MountPath = ''/staging'', vm_ReadOnly = False\<rparr>];
          volumes = volumesWithAccesslog sc
            [(''config'', PVC (''config-'' @ sc_Name sc @ ''-0'')), (''data'', PVC (''data-'' @ sc_Name sc @ ''-0'')), (''staging'', EmptyDir)];
          slapcat = \<lparr>ctr_Name = ''slapcat'', ctr_Image = initImage, ctr_Command = [''bash'', ''-c'', slapcatScript],
            ctr_Args = [], ctr_Env = [(''SUFFIX'', EnvValue (sds_Suffix (sd_Spec sd)))], ctr_Mounts = mounts\<rparr>;
          upload = \<lparr>ctr_Name = ''upload'', ctr_Image = operatorImage, ctr_Command = [''/manager''], ctr_Args = uploadArgs st objectKey,
            ctr_Env = [(''AWS_ACCESS_KEY_ID'', secretRef ''access-key-id''), (''AWS_SECRET_ACCESS_KEY'', secretRef ''secret-access-key'')],
            ctr_Mounts = [\<lparr>vm_Name = ''staging'', vm_MountPath = ''/staging'', vm_ReadOnly = True\<rparr>]\<rparr> in
      \<lparr>job_Name = sb_Name sb @ ''-backup'',
       job_Labels = [(''app.kubernetes.io/name'', ''slapd''), (''app.kubernetes.io/instance'', sc_Name sc),
         (''app.kubernetes.io/component'', ''backup''), (backupLabel, sb_Name sb)],
       job_BackoffLimit = 2, job_TTLSecondsAfterFinished = 600, job_InitContainers = [slapcat], job_Containers = [upload],
       job_Volumes = volumes,
       job_PodAffinity = (if PodAffinityEnabled sb
         then Some [(''app.kubernetes.io/instance'', sc_Name sc), (''statefulset.kubernetes.io/pod-name'', sc_Name sc @ ''-0'')] else None),
       job_Deleting = False, job_Conditions = []\<rparr>)"

section \<open>Recording the source\<close>

record backup_env =
  be_Api :: restore_env
  be_Cluster :: "string \<Rightarrow> api_error + SlapdCluster"
  be_Mesh :: "string \<Rightarrow> string \<Rightarrow> api_error + SlapdMeshSpec"
  be_SiteName :: string
  be_Domain :: string
  be_Servers :: ldap_srv
  be_Dsa :: dsa_search
  be_CSN :: csn_conn
  be_ObjectSize :: "S3Config \<Rightarrow> string \<Rightarrow> message + int64"

definition csnBindDNs :: "string \<Rightarrow> string \<Rightarrow> string list" where
  "csnBindDNs dbName suffix = [replicationBindDN dbName, legacyReplicationBindDN suffix]"

definition backupPassword :: "backup_env \<Rightarrow> SlapdDatabase \<Rightarrow> message + string" where
  "backupPassword env sd =
     (let secretName = credentialsSecretName sd in
      case re_Secret (be_Api env) secretName of
        Inl err \<Rightarrow> Inl (Msg ''read'' [MStr secretName, MMsg (api_message err)])
      | Inr secret \<Rightarrow>
          (let pw = secret secretKeyReplicationPassword in
           if pw = [] then Inl (Msg ''secret has no replication-password'' [MStr secretName]) else Inr pw))"

definition sourceHost :: "backup_env \<Rightarrow> SlapdCluster \<Rightarrow> string \<Rightarrow> string" where
  "sourceHost env sc sourcePod =
     sourcePod @ ''.'' @ sc_Name sc @ ''-headless.'' @ sc_Namespace sc @ ''.svc.'' @ be_Domain env"

definition ldapsContainerPort :: int32 where
  "ldapsContainerPort = 1025"

definition sourcePort :: "SlapdCluster \<Rightarrow> int32" where
  "sourcePort sc = (if spec_TLSEnabled (sc_Spec sc) then ldapsContainerPort else ldapContainerPort)"

fun bindFirst :: "ldap_srv \<Rightarrow> string \<Rightarrow> string \<Rightarrow> string list \<Rightarrow> message option \<Rightarrow> message option" where
  "bindFirst srv addr pw [] bindErr = bindErr"
| "bindFirst srv addr pw (dn # dns) bindErr =
     (case srv_Bind srv [] addr dn pw of None \<Rightarrow> None | Some e \<Rightarrow> bindFirst srv addr pw dns (Some e))"

definition probeSourceSuffix :: "backup_env \<Rightarrow> SlapdDatabase \<Rightarrow> SlapdCluster \<Rightarrow> string \<Rightarrow> Outcome \<times> message" where
  "probeSourceSuffix env sd sc sourcePod =
     (if sds_Suffix (sd_Spec sd) = [] then (OutcomeError, Msg ''database has no suffix'' [MStr (sd_Name sd)])
      else case backupPassword env sd of
        Inl err \<Rightarrow> (OutcomeError, err)
      | Inr pw \<Rightarrow>
          (let srv = be_Servers env;
               addr = (if spec_TLSEnabled (sc_Spec sc) then ''ldaps'' else ''ldap'') @ ''://'' @ sourceHost env sc sourcePod @ '':'' @ itoa (sourcePort sc) in
           case srv_Dial srv [] addr of
             Some err \<Rightarrow> (OutcomeError, err)
           | None \<Rightarrow>
               (case bindFirst srv addr pw (csnBindDNs (sd_Name sd) (sds_Suffix (sd_Spec sd))) None of
                  Some err \<Rightarrow> (OutcomeError, err)
                | None \<Rightarrow> (let obs = Probe srv (be_Dsa env) [] addr (sds_Suffix (sd_Spec sd)) in (obs_Outcome obs, obs_Detail obs)))))"

definition readSourceContextCSN :: "backup_env \<Rightarrow> SlapdDatabase \<Rightarrow> SlapdCluster \<Rightarrow> string \<Rightarrow> message + string list" where
  "readSourceContextCSN env sd sc sourcePod =
     (if sds_Suffix (sd_Spec sd) = [] then Inl (Msg ''database has no suffix'' [MStr (sd_Name sd)])
      else case backupPassword env sd of
        Inl err \<Rightarrow> Inl err
      | Inr pw \<Rightarrow> queryContextCSN (be_CSN env) (sourceHost env sc sourcePod) (sourcePort sc) (spec_TLSEnabled (sc_Spec sc))
          (sds_Suffix (sd_Spec sd)) (csnBindDNs (sd_Name sd) (sds_Suffix (sd_Spec sd))) pw)"

definition recordSource :: "backup_env \<Rightarrow> SlapdBackup \<Rightarrow> SlapdDatabase \<Rightarrow> SlapdCluster \<Rightarrow> bool \<Rightarrow> SlapdBackup" where
  "recordSource env sb sd sc late =
     (let sourcePod = backupSourcePod sc; now = re_Now (be_Api env);
          converged = recordedSourceConvergedCondition sc (sb_Generation sb) now late;
          (outcome, detail) = probeSourceSuffix env sd sc sourcePod;
          healthy = sourceSuffixHealthyCondition outcome detail (sb_Generation sb) now;
          sb' = sb\<lparr>sb_Conditions := setCondition (setCondition (sb_Conditions sb) converged) healthy\<rparr> in
      case readSourceContextCSN env sd sc sourcePod of
        Inl err \<Rightarrow> sb'
      | Inr csns \<Rightarrow> sb'\<lparr>sb_SourceContextCSN := normalizedCSNVector csns\<rparr>)"

section \<open>Status\<close>

definition put_backup :: "SlapdBackup \<Rightarrow> restore_world \<Rightarrow> restore_world" where
  "put_backup sb w = w\<lparr>w_Backups := map (\<lambda>x. if sb_Name x = sb_Name sb then sb else x) (w_Backups w)\<rparr>"

definition patchBackupStatus :: "backup_env \<Rightarrow> restore_world \<Rightarrow> SlapdBackup \<Rightarrow> ConditionStatus \<Rightarrow> string \<Rightarrow> message \<Rightarrow> restore_world" where
  "patchBackupStatus env w sb condStatus reason msg =
     (let sb' = sb\<lparr>sb_ObservedGeneration := sb_Generation sb,
            sb_Conditions := setCondition (sb_Conditions sb)
              \<lparr>cond_Type = ''Complete'', cond_Status = condStatus, cond_Reason = reason, cond_Message = msg,
               cond_LastTransitionTime = re_Now (be_Api env), cond_ObservedGeneration = sb_Generation sb\<rparr>\<rparr> in
      if re_Fault (be_Api env) (ApplyBackupStatus (sb_Name sb)) \<noteq> None then w else put_backup sb' w)"

definition setPending :: "backup_env \<Rightarrow> restore_world \<Rightarrow> SlapdBackup \<Rightarrow> string \<Rightarrow> message \<Rightarrow> restore_world" where
  "setPending env w sb reason msg = patchBackupStatus env w (sb\<lparr>sb_Phase := ''Pending''\<rparr>) ConditionFalse reason msg"

definition setRunning :: "backup_env \<Rightarrow> restore_world \<Rightarrow> SlapdBackup \<Rightarrow> string \<Rightarrow> string \<Rightarrow> string \<Rightarrow> message \<Rightarrow> restore_world" where
  "setRunning env w sb jobName key reason msg =
     patchBackupStatus env w (sb\<lparr>sb_Phase := ''Running'', sb_JobName := jobName, sb_Path := key\<rparr>) ConditionFalse reason msg"

definition setTerminal ::
  "backup_env \<Rightarrow> restore_world \<Rightarrow> SlapdBackup \<Rightarrow> string \<Rightarrow> string \<Rightarrow> string \<Rightarrow> string \<Rightarrow> message \<Rightarrow> restore_world" where
  "setTerminal env w sb phase jobName key reason msg =
     patchBackupStatus env w (sb\<lparr>sb_Phase := phase, sb_JobName := jobName, sb_Path := key\<rparr>)
       (if phase = ''Completed'' then ConditionTrue else ConditionFalse) reason msg"

definition reapJob :: "restore_env \<Rightarrow> restore_world \<Rightarrow> string \<Rightarrow> restore_world \<times> message option" where
  "reapJob env w name =
     (case re_Fault env (DeleteJob name) of
        Some err \<Rightarrow> (w, Some (Msg ''reap Job'' [MStr name, MMsg err]))
      | None \<Rightarrow> (w\<lparr>w_Jobs := filter (\<lambda>j. job_Name j \<noteq> name) (w_Jobs w)\<rparr>, None))"

section \<open>The pass\<close>

type_synonym backup_result = "restore_world \<times> (message + duration)"

text \<open>An existing Job: the first of its conditions that is true and terminal decides.\<close>

definition observeBackupJob :: "backup_env \<Rightarrow> restore_world \<Rightarrow> SlapdBackup \<Rightarrow> Job \<Rightarrow> string \<Rightarrow> backup_result" where
  "observeBackupJob env w sb job objectKey =
     (let api = be_Api env in
      case find (\<lambda>c. jc_Status c = ConditionTrue \<and> (jc_Type c = ''Complete'' \<or> jc_Type c = ''Failed'')) (job_Conditions job) of
        None \<Rightarrow> (setRunning env w sb (job_Name job) objectKey ''BackupRunning'' (Msg ''backup Job in progress'' []), Inr (10 * Second))
      | Some c \<Rightarrow>
          if jc_Type c = ''Complete''
          then (let sb1 = sb\<lparr>sb_CompletedAt := Some (re_Now api)\<rparr>;
                    sb2 = (case s3ConfigFromStorage api (sb_Storage sb) of
                        Inl err \<Rightarrow> sb1
                      | Inr cfg \<Rightarrow> (case be_ObjectSize env cfg objectKey of Inl err \<Rightarrow> sb1 | Inr n \<Rightarrow> sb1\<lparr>sb_SizeBytes := n\<rparr>)) in
                (setTerminal env w sb2 ''Completed'' (job_Name job) objectKey ''BackupCompleted'' (Msg ''backup uploaded to S3'' []), Inr 0))
          else (setTerminal env w (sb\<lparr>sb_CompletedAt := Some (re_Now api)\<rparr>) ''Failed'' (job_Name job) objectKey ''BackupFailed''
                  (Msg (jobFailureSummary (Some job) (re_JobPods api (job_Name job))) []), Inr 0))"

definition createBackupJob ::
  "backup_env \<Rightarrow> restore_world \<Rightarrow> SlapdBackup \<Rightarrow> SlapdDatabase \<Rightarrow> SlapdCluster \<Rightarrow> string \<Rightarrow> backup_result" where
  "createBackupJob env w sb sd sc objectKey =
     (let api = be_Api env; jobName = sb_Name sb @ ''-backup'' in
      case dataPlaneImage sc componentSlapdInit (re_OperatorImage api) (re_DefaultImageTag api) of
        Inl err \<Rightarrow> (w, Inl err)
      | Inr initImage \<Rightarrow>
          (let started = (\<lambda>w'. (setRunning env w' (sb\<lparr>sb_StartedAt := Some (re_Now api)\<rparr>) jobName objectKey ''BackupStarted''
                 (Msg ''backup Job created'' []), Inr (10 * Second))) in
           case re_Fault api (CreateJob jobName) of
             Some err \<Rightarrow> if isAlreadyExists err then started w else (w, Inl (Msg ''create backup Job'' [MMsg err]))
           | None \<Rightarrow> started (w\<lparr>w_Jobs := w_Jobs w @ [buildBackupJob sb sd sc initImage (re_OperatorImage api) objectKey]\<rparr>)))"

text \<open>The pass once the database and the running cluster are known, the wiring of the mesh applied where it resolves.\<close>

definition runBackup :: "backup_env \<Rightarrow> restore_world \<Rightarrow> SlapdBackup \<Rightarrow> SlapdDatabase \<Rightarrow> SlapdCluster \<Rightarrow> backup_result" where
  "runBackup env w sb0 sd sc =
     (let objectKey = backupObjectKey sb0 sc sd;
          sb = sb0\<lparr>sb_SourcePod := backupSourcePod sc\<rparr>;
          found = get_job (be_Api env) w (sb_Name sb @ ''-backup'') in
      case found of
        Inl (ApiError err) \<Rightarrow> (w, Inl err)
      | Inl ApiNotFound \<Rightarrow>
          createBackupJob env w (if shouldRecordSourceCircumstances sb then recordSource env sb sd sc False else sb) sd sc objectKey
      | Inr job \<Rightarrow>
          observeBackupJob env w (if shouldRecordSourceCircumstances sb then recordSource env sb sd sc True else sb) job objectKey)"

definition reconcileBackup :: "backup_env \<Rightarrow> restore_world \<Rightarrow> string \<Rightarrow> backup_result" where
  "reconcileBackup env w name =
     (let api = be_Api env in
      case k8s_get api (GetBackup name) sb_Name (w_Backups w) name of
        Inl ApiNotFound \<Rightarrow> (w, Inr 0)
      | Inl (ApiError err) \<Rightarrow> (w, Inl err)
      | Inr sb \<Rightarrow>
          if sb_Phase sb = ''Completed'' \<or> sb_Phase sb = ''Failed''
          then (if sb_JobName sb = [] then (w, Inr 0)
                else (case reapJob api w (sb_JobName sb) of (w', Some err) \<Rightarrow> (w', Inl err) | (w', None) \<Rightarrow> (w', Inr 0)))
          else (case get_database api w (sb_DatabaseRef sb) of
              Inl ApiNotFound \<Rightarrow> (setPending env w sb ''DatabaseNotFound'' (Msg ''SlapdDatabase not found'' [MStr (sb_DatabaseRef sb)]), Inr (10 * Second))
            | Inl (ApiError err) \<Rightarrow> (w, Inl err)
            | Inr sd \<Rightarrow>
                (case be_Cluster env (sds_ClusterRef (sd_Spec sd)) of
                   Inl ApiNotFound \<Rightarrow>
                     (setPending env w sb ''ClusterNotFound'' (Msg ''SlapdCluster not found'' [MStr (sds_ClusterRef (sd_Spec sd))]), Inr (10 * Second))
                 | Inl (ApiError err) \<Rightarrow> (w, Inl err)
                 | Inr sc0 \<Rightarrow>
                     (let sc = snd (resolveMeshWiring (be_Mesh env) sc0 (be_SiteName env)) in
                      if scs_Phase (sc_Status sc) \<noteq> ''Running''
                      then (setPending env w sb ''ClusterNotReady'' (Msg ''SlapdCluster not Running'' [MStr (sc_Name sc)]), Inr (10 * Second))
                      else if re_OperatorImage api = []
                      then (setPending env w sb ''OperatorImageUnset'' (Msg ''operator image not configured'' []), Inr (30 * Second))
                      else runBackup env w sb sd sc))))"

end
