(* ===== verification/Backup_Trace.thy ===== *)
theory Backup_Trace
  imports Backup
begin

text \<open>
  What holds of the backups of a namespace over any sequence of passes, whatever the API server, the object store and
  the pods answer and whichever status updates are lost: finished backups are final, and a backup that ever ran carries
  the record of its source. And the artifact a restore is pointed at is the one the backup uploaded.
\<close>

section \<open>Conditions and records\<close>

definition recorded :: "SlapdBackup \<Rightarrow> bool" where
  "recorded sb \<longleftrightarrow> condition_of (sb_Conditions sb) backupSourceConvergedCondition \<noteq> None \<and>
     condition_of (sb_Conditions sb) backupSuffixHealthyCondition \<noteq> None"

lemma shouldRecord_recorded: "shouldRecordSourceCircumstances sb \<longleftrightarrow> \<not> recorded sb"
  by (auto simp: shouldRecordSourceCircumstances_def recorded_def)

lemma condition_types [simp]:
  "cond_Type (recordedSourceConvergedCondition sc g now late) = backupSourceConvergedCondition"
  "cond_Type (sourceSuffixHealthyCondition oc d g now) = backupSuffixHealthyCondition"
  by (auto simp: recordedSourceConvergedCondition_def sourceConvergedCondition_def sourceSuffixHealthyCondition_def Let_def
      split: option.splits Outcome.splits)

lemma recordSource_recorded: "recorded (recordSource env sb sd sc late)"
  by (auto simp: recordSource_def Let_def recorded_def split: prod.splits sum.splits)

text \<open>What a pass never changes of a backup.\<close>

definition same_request :: "SlapdBackup \<Rightarrow> SlapdBackup \<Rightarrow> bool" where
  "same_request sb sb' \<longleftrightarrow> sb_Name sb' = sb_Name sb \<and> sb_Labels sb' = sb_Labels sb \<and>
     sb_CreationTimestamp sb' = sb_CreationTimestamp sb \<and> sb_Generation sb' = sb_Generation sb \<and>
     sb_DatabaseRef sb' = sb_DatabaseRef sb \<and> sb_Storage sb' = sb_Storage sb \<and> sb_Compression sb' = sb_Compression sb \<and>
     sb_PodAffinity sb' = sb_PodAffinity sb"

lemma recordSource_same: "same_request sb (recordSource env sb sd sc late)"
  "sb_SourcePod (recordSource env sb sd sc late) = sb_SourcePod sb" "sb_CompletedAt (recordSource env sb sd sc late) = sb_CompletedAt sb"
  by (auto simp: recordSource_def Let_def same_request_def split: prod.splits sum.splits)

definition finishedBackup :: "SlapdBackup \<Rightarrow> bool" where
  "finishedBackup sb \<longleftrightarrow> sb_Phase sb = ''Completed'' \<or> sb_Phase sb = ''Failed''"

definition backup_ok :: "SlapdBackup \<Rightarrow> bool" where
  "backup_ok sb \<longleftrightarrow> sb_Phase sb \<in> {[], ''Pending'', ''Running'', ''Completed'', ''Failed''} \<and>
     (sb_Phase sb = ''Running'' \<or> finishedBackup sb \<longrightarrow>
        recorded sb \<and> sb_JobName sb = sb_Name sb @ ''-backup'' \<and> sb_SourcePod sb \<noteq> [] \<and> sb_Path sb \<noteq> []) \<and>
     (finishedBackup sb \<longrightarrow> sb_CompletedAt sb \<noteq> None)"

section \<open>One pass\<close>

text \<open>The status a pass writes, as the whole object, if it writes one.\<close>

definition patched :: "restore_world \<Rightarrow> SlapdBackup \<Rightarrow> restore_world \<Rightarrow> bool" where
  "patched w sb w' \<longleftrightarrow> w_Backups w' = w_Backups w \<or>
     (\<exists>sb'. same_request sb sb' \<and> backup_ok sb' \<and> w_Backups w' = map (\<lambda>x. if sb_Name x = sb_Name sb then sb' else x) (w_Backups w))"

lemma patch_patched:
  assumes "backup_ok sb'" and "same_request sb sb'"
  shows "patched w sb (patchBackupStatus env w sb' c r m)"
proof -
  let ?s = "sb'\<lparr>sb_ObservedGeneration := sb_Generation sb',
    sb_Conditions := setCondition (sb_Conditions sb') \<lparr>cond_Type = ''Complete'', cond_Status = c, cond_Reason = r, cond_Message = m,
      cond_LastTransitionTime = re_Now (be_Api env), cond_ObservedGeneration = sb_Generation sb'\<rparr>\<rparr>"
  have "backup_ok ?s" using assms(1) by (auto simp: backup_ok_def recorded_def finishedBackup_def)
  moreover have "same_request sb ?s" "sb_Name sb' = sb_Name sb" using assms(2) by (simp_all add: same_request_def)
  ultimately show ?thesis by (auto simp: patched_def patchBackupStatus_def put_backup_def Let_def)
qed

lemma patched_simps [simp]: "patched w sb w" "patched (w\<lparr>w_Jobs := js\<rparr>) sb w' = patched w sb w'" "patched w sb (w\<lparr>w_Jobs := js\<rparr>)"
  by (simp_all add: patched_def)

lemma backupObjectKey_nonempty [simp]: "backupObjectKey sb sc sd \<noteq> []"
  by (simp add: backupObjectKey_def Let_def)

lemma observe_patched:
  assumes "observeBackupJob env w sb job key = (w', r)" and "same_request sb0 sb" and "recorded sb" and "sb_SourcePod sb \<noteq> []"
    and "job_Name job = sb_Name sb @ ''-backup''" and "key \<noteq> []"
  shows "patched w sb0 w' \<and> w_Jobs w' = w_Jobs w"
proof -
  have j: "w_Jobs (patchBackupStatus env w s c r m) = w_Jobs w" for s c r m
    by (simp add: patchBackupStatus_def put_backup_def Let_def)
  show ?thesis
    using assms(1) unfolding observeBackupJob_def Let_def
    by (auto simp: setRunning_def setTerminal_def j split: option.splits if_splits sum.splits
        intro!: patch_patched) (use assms(2-6) in \<open>auto simp: backup_ok_def finishedBackup_def recorded_def same_request_def\<close>)
qed

lemma create_patched:
  assumes "createBackupJob env w sb sd sc key = (w', r)" and "same_request sb0 sb" and "recorded sb" and "sb_SourcePod sb \<noteq> []" and "key \<noteq> []"
  shows "patched w sb0 w' \<and>
    (w_Jobs w' = w_Jobs w \<or> (\<exists>img. w_Jobs w' = w_Jobs w @ [buildBackupJob sb sd sc img (re_OperatorImage (be_Api env)) key]))"
proof -
  have j: "w_Jobs (patchBackupStatus env v s c r m) = w_Jobs v" for v s c r m
    by (simp add: patchBackupStatus_def put_backup_def Let_def)
  have ok: "backup_ok (sb\<lparr>sb_StartedAt := t, sb_Phase := ''Running'', sb_JobName := sb_Name sb @ ''-backup'', sb_Path := key\<rparr>)"
    "same_request sb0 (sb\<lparr>sb_StartedAt := t, sb_Phase := ''Running'', sb_JobName := sb_Name sb @ ''-backup'', sb_Path := key\<rparr>)" for t
    using assms(2-5) by (auto simp: backup_ok_def finishedBackup_def recorded_def same_request_def)
  have p: "patched w sb0 (patchBackupStatus env (w\<lparr>w_Jobs := js\<rparr>)
      (sb\<lparr>sb_StartedAt := t, sb_Phase := ''Running'', sb_JobName := sb_Name sb @ ''-backup'', sb_Path := key\<rparr>) c r m)" for js t c r m
    using patch_patched [OF ok] patched_simps(2) by blast
  show ?thesis
    using assms(1) p patch_patched [OF ok]
    unfolding createBackupJob_def Let_def setRunning_def by (auto simp: j split: sum.splits option.splits if_splits)
qed

text \<open>Objects of the API have names.\<close>

definition named_clusters :: "backup_env \<Rightarrow> bool" where
  "named_clusters env \<longleftrightarrow> (\<forall>n sc. be_Cluster env n = Inr sc \<longrightarrow> sc_Name sc \<noteq> [])"

text \<open>The backup a pass is about, and the Job it may create for it.\<close>

definition running_cluster :: "backup_env \<Rightarrow> SlapdDatabase \<Rightarrow> SlapdCluster \<Rightarrow> bool" where
  "running_cluster env sd sc \<longleftrightarrow> (\<exists>sc0. be_Cluster env (sds_ClusterRef (sd_Spec sd)) = Inr sc0 \<and> sc_Name sc = sc_Name sc0 \<and>
     scs_Phase (sc_Status sc0) = ''Running'')"

definition backup_job_for :: "backup_env \<Rightarrow> restore_world \<Rightarrow> string \<Rightarrow> Job \<Rightarrow> bool" where
  "backup_job_for env w name j \<longleftrightarrow> (\<exists>sb sd sc img op. sb \<in> set (w_Backups w) \<and> sb_Name sb = name \<and> \<not> finishedBackup sb \<and>
     sd \<in> set (w_Databases w) \<and> sd_Name sd = sb_DatabaseRef sb \<and> running_cluster env sd sc \<and>
     job_Name j \<notin> set (map job_Name (w_Jobs w)) \<and> (\<exists>sb'. same_request sb sb' \<and> j = buildBackupJob sb' sd sc img op (backupObjectKey sb sc sd)))"

lemma same_request_refl [simp]: "same_request sb sb"
  by (simp add: same_request_def)

lemma k8s_get_in: "k8s_get env q f xs n = Inr x \<Longrightarrow> x \<in> set xs \<and> f x = n"
  by (auto simp: k8s_get_def dest: find_Some_in split: option.splits)

lemma get_job_absent: "get_job env w n = Inl ApiNotFound \<Longrightarrow> n \<notin> set (map job_Name (w_Jobs w))"
  by (auto simp: get_job_def k8s_get_def find_None_iff split: option.splits)

lemma runBackup_pass:
  assumes "runBackup env w sb sd sc = (w', r)" and sb: "sb \<in> set (w_Backups w)" "\<not> finishedBackup sb"
    and sd: "sd \<in> set (w_Databases w)" "sd_Name sd = sb_DatabaseRef sb" and sc: "sc_Name sc \<noteq> []" "running_cluster env sd sc"
  shows "patched w sb w' \<and> (w_Jobs w' = w_Jobs w \<or> (\<exists>j. w_Jobs w' = w_Jobs w @ [j] \<and> backup_job_for env w (sb_Name sb) j))"
proof -
  let ?sb0 = "sb\<lparr>sb_SourcePod := backupSourcePod sc\<rparr>" and ?key = "backupObjectKey sb sc sd"
  define sb1 where "sb1 late = (if shouldRecordSourceCircumstances ?sb0 then recordSource env ?sb0 sd sc late else ?sb0)" for late
  have same: "same_request sb (sb1 late)" for late
    using recordSource_same(1) [of ?sb0 env sd sc late] by (simp add: sb1_def same_request_def)
  have rec: "recorded (sb1 late)" "sb_SourcePod (sb1 late) \<noteq> []" for late
    using recordSource_recorded [of env ?sb0 sd sc late] shouldRecord_recorded [of ?sb0]
    by (auto simp: sb1_def recordSource_same(2) backupSourcePod_def)
  have name: "sb_Name (sb1 late) = sb_Name sb" for late using same [of late] by (simp add: same_request_def)
  show ?thesis
  proof (cases "get_job (be_Api env) w (sb_Name sb @ ''-backup'')")
    case (Inr job)
    then have "job_Name job = sb_Name sb @ ''-backup''" using k8s_get_in unfolding get_job_def by fast
    moreover have "observeBackupJob env w (sb1 True) job ?key = (w', r)"
      using assms(1) Inr by (simp add: runBackup_def Let_def sb1_def)
    ultimately show ?thesis using observe_patched [OF _ same rec _ backupObjectKey_nonempty] name by metis
  next
    case (Inl e)
    show ?thesis
    proof (cases e)
      case ApiNotFound
      then have "createBackupJob env w (sb1 False) sd sc ?key = (w', r)"
        using assms(1) Inl by (simp add: runBackup_def Let_def sb1_def)
      from create_patched [OF this same rec backupObjectKey_nonempty]
      have p: "patched w sb w'" and j: "w_Jobs w' = w_Jobs w \<or>
        (\<exists>img. w_Jobs w' = w_Jobs w @ [buildBackupJob (sb1 False) sd sc img (re_OperatorImage (be_Api env)) ?key])" by blast+
      have "backup_job_for env w (sb_Name sb) (buildBackupJob (sb1 False) sd sc img (re_OperatorImage (be_Api env)) ?key)" for img
      proof -
        have "job_Name (buildBackupJob (sb1 False) sd sc img (re_OperatorImage (be_Api env)) ?key) \<notin> set (map job_Name (w_Jobs w))"
          using get_job_absent Inl ApiNotFound name by (simp add: buildBackupJob_def Let_def)
        then show ?thesis unfolding backup_job_for_def using sb sd sc same by blast
      qed
      then show ?thesis using p j by blast
    next
      case (ApiError m)
      then show ?thesis using assms(1) Inl by (simp add: runBackup_def Let_def)
    qed
  qed
qed

lemma reconcileBackup_pass:
  assumes "reconcileBackup env w name = (w', r)" and named: "named_clusters env"
  shows "(w_Backups w' = w_Backups w \<and> (\<exists>P. w_Jobs w' = filter P (w_Jobs w))) \<or>
    (\<exists>sb. sb \<in> set (w_Backups w) \<and> sb_Name sb = name \<and> \<not> finishedBackup sb \<and> patched w sb w' \<and>
       (w_Jobs w' = w_Jobs w \<or> (\<exists>j. w_Jobs w' = w_Jobs w @ [j] \<and> backup_job_for env w name j)))"
proof (cases "k8s_get (be_Api env) (GetBackup name) sb_Name (w_Backups w) name")
  case (Inl e)
  then show ?thesis using assms(1) by (auto simp: reconcileBackup_def Let_def intro: keeps_same split: api_error.splits)
next
  case (Inr sb)
  note found = k8s_get_in [OF Inr]
  show ?thesis
  proof (cases "finishedBackup sb")
    case True
    then show ?thesis using assms(1) Inr
      by (auto simp: reconcileBackup_def Let_def finishedBackup_def reapJob_def intro: keeps_same split: if_splits option.splits prod.splits)
  next
    case False
    have pend: "patched w sb (setPending env w sb rs m)" "w_Jobs (setPending env w sb rs m) = w_Jobs w" for rs m
      unfolding setPending_def
      by (rule patch_patched) (auto simp: backup_ok_def finishedBackup_def same_request_def patchBackupStatus_def put_backup_def Let_def)
    have ph: "\<not> (sb_Phase sb = ''Completed'' \<or> sb_Phase sb = ''Failed'')" using False by (simp add: finishedBackup_def)
    have "patched w sb w' \<and> (w_Jobs w' = w_Jobs w \<or> (\<exists>j. w_Jobs w' = w_Jobs w @ [j] \<and> backup_job_for env w name j))"
    proof (cases "\<exists>sd sc0. get_database (be_Api env) w (sb_DatabaseRef sb) = Inr sd \<and> be_Cluster env (sds_ClusterRef (sd_Spec sd)) = Inr sc0")
      case True
      then obtain sd sc0 where d: "get_database (be_Api env) w (sb_DatabaseRef sb) = Inr sd" "be_Cluster env (sds_ClusterRef (sd_Spec sd)) = Inr sc0" by blast
      define sc where "sc = snd (resolveMeshWiring (be_Mesh env) sc0 (be_SiteName env))"
      have same: "sc_Name sc = sc_Name sc0" "sc_Status sc = sc_Status sc0"
        by (auto simp: sc_def resolveMeshWiring_def applyMeshWiring_def Let_def split: sum.splits api_error.splits option.splits prod.splits)
      then have n: "sc_Name sc \<noteq> []" using named d(2) by (simp add: named_clusters_def)
      have running: "running_cluster env sd sc" if "scs_Phase (sc_Status sc) = ''Running''"
        using that d(2) same by (simp add: running_cluster_def)
      have sdw: "sd \<in> set (w_Databases w)" "sd_Name sd = sb_DatabaseRef sb" using k8s_get_in d(1) unfolding get_database_def by fast+
      have "(if scs_Phase (sc_Status sc) \<noteq> ''Running'' then (setPending env w sb ''ClusterNotReady'' (Msg ''SlapdCluster not Running'' [MStr (sc_Name sc)]), Inr (10 * Second))
          else if re_OperatorImage (be_Api env) = [] then (setPending env w sb ''OperatorImageUnset'' (Msg ''operator image not configured'' []), Inr (30 * Second))
          else runBackup env w sb sd sc) = (w', r)"
        using assms(1) unfolding reconcileBackup_def Let_def Inr sum.case if_not_P [OF ph] d sc_def by simp
      then show ?thesis using pend runBackup_pass [OF _ _ False sdw n running] found by (auto split: if_splits)
    next
      case False
      then show ?thesis using assms(1) pend unfolding reconcileBackup_def Let_def Inr sum.case if_not_P [OF ph]
        by (auto split: sum.splits api_error.splits)
    qed
    then show ?thesis using found False by blast
  qed
qed

section \<open>Any sequence of passes\<close>

text \<open>
  The namespace over time: a pass over any backup with any answers of the environment; a backup is created, with an empty
  status; backups are deleted; and everything else - databases, restores, Jobs - changes in any way.
\<close>

definition fresh_backup :: "SlapdBackup \<Rightarrow> bool" where
  "fresh_backup sb \<longleftrightarrow> sb_Phase sb = [] \<and> sb_JobName sb = [] \<and> sb_Path sb = [] \<and> sb_Conditions sb = []"

inductive backup_step :: "restore_world \<Rightarrow> restore_world \<Rightarrow> bool" where
  pass: "reconcileBackup env w name = (w', r) \<Longrightarrow> named_clusters env \<Longrightarrow> backup_step w w'"
| create: "fresh_backup sb \<Longrightarrow> sb_Name sb \<notin> set (map sb_Name (w_Backups w)) \<Longrightarrow> backup_step w (w\<lparr>w_Backups := w_Backups w @ [sb]\<rparr>)"
| remove: "backup_step w (w\<lparr>w_Backups := filter P (w_Backups w)\<rparr>)"
| others: "backup_step w (w\<lparr>w_Databases := dbs, w_Restores := srs, w_Jobs := js\<rparr>)"

inductive backup_reachable :: "restore_world \<Rightarrow> bool" where
  start: "w_Backups w = [] \<Longrightarrow> backup_reachable w"
| step: "backup_reachable w \<Longrightarrow> backup_step w w' \<Longrightarrow> backup_reachable w'"

definition backups_ok :: "restore_world \<Rightarrow> bool" where
  "backups_ok w \<longleftrightarrow> distinct (map sb_Name (w_Backups w)) \<and> (\<forall>sb \<in> set (w_Backups w). backup_ok sb)"

lemma patched_names: "patched w sb w' \<Longrightarrow> map sb_Name (w_Backups w') = map sb_Name (w_Backups w)"
  by (auto simp: patched_def same_request_def)

lemma patched_ok: "patched w sb w' \<Longrightarrow> backups_ok w \<Longrightarrow> backups_ok w'"
  using patched_names [of w sb w'] by (auto simp: backups_ok_def patched_def)

lemma patched_others:
  assumes "patched w sb w'" and "sb \<in> set (w_Backups w)" and "distinct (map sb_Name (w_Backups w))" and "b \<in> set (w_Backups w)" and "b \<noteq> sb"
  shows "b \<in> set (w_Backups w')"
proof -
  have "sb_Name b \<noteq> sb_Name sb" using assms(2-5) by (metis distinct_map inj_on_def)
  then show ?thesis using assms(1,4) unfolding patched_def by force
qed

lemma backup_step_ok: "backup_step w w' \<Longrightarrow> backups_ok w \<Longrightarrow> backups_ok w'"
proof (induction rule: backup_step.induct)
  case (pass env w name w' r)
  have "backups_ok w'" if "w_Backups w' = w_Backups w" using that pass.prems by (simp add: backups_ok_def)
  then show ?case using reconcileBackup_pass [OF pass.hyps] patched_ok [OF _ pass.prems] by blast
next
  case (create sb w)
  then show ?case by (auto simp: backups_ok_def backup_ok_def fresh_backup_def finishedBackup_def)
qed (auto simp: backups_ok_def distinct_map_filter)

lemma backup_reachable_ok: "backup_reachable w \<Longrightarrow> backups_ok w"
proof (induction rule: backup_reachable.induct)
  case (start w)
  then show ?case by (simp add: backups_ok_def)
qed (rule backup_step_ok)

section \<open>Properties\<close>

text \<open>
  C10. A backup that ever ran tells what it was taken from, and a finished one is final. Over any interleaving of
  passes with lost status writes, restarts and edits of everything around, every running or finished backup carries the verdict
  on its source's convergence and on its suffix entry, its source pod, its Job and the key of its artifact; and a step leaves a
  finished backup exactly as it is or deletes it.
\<close>

theorem backups_recorded_and_final:
  assumes "backup_reachable w"
  shows "(\<forall>sb \<in> set (w_Backups w). backup_ok sb) \<and>
    (\<forall>w' sb. backup_step w w' \<and> sb \<in> set (w_Backups w) \<and> finishedBackup sb \<longrightarrow>
       sb \<in> set (w_Backups w') \<or> sb_Name sb \<notin> set (map sb_Name (w_Backups w')))"
proof -
  have ok: "backups_ok w" using assms by (rule backup_reachable_ok)
  have "sb \<in> set (w_Backups w') \<or> sb_Name sb \<notin> set (map sb_Name (w_Backups w'))"
    if "backup_step w w'" "sb \<in> set (w_Backups w)" "finishedBackup sb" for w' sb
    using that(1)
  proof cases
    case (pass env name r)
    from reconcileBackup_pass [OF pass] show ?thesis
      using that(2,3) patched_others ok unfolding backups_ok_def by (metis (no_types, lifting))
  next
    case (remove P)
    then show ?thesis using ok that(2) by (fastforce simp: backups_ok_def distinct_map inj_on_def)
  qed (use that in auto)
  then show ?thesis using ok by (auto simp: backups_ok_def)
qed

lemma backup_job_facts:
  "map ctr_Args (job_Containers (buildBackupJob sb sd sc img op key)) = [uploadArgs (sb_Storage sb) key]"
  "map ctr_Env (job_InitContainers (buildBackupJob sb sd sc img op key)) = [[(''SUFFIX'', EnvValue (sds_Suffix (sd_Spec sd)))]]"
  "\<forall>(v, s) \<in> set (job_Volumes (buildBackupJob sb sd sc img op key)). s = EmptyDir \<or> s = PVC (v @ ''-'' @ sc_Name sc @ ''-0'')"
  by (auto simp: buildBackupJob_def Let_def volumesWithAccesslog_def)

text \<open>
  C35. A pass takes a backup only while the cluster its database refers to is stored as running, and at most
  one Job at a time: a pass adds at most one Job, of a name no Job has, for an unfinished backup of its name; the Job dumps the suffix of the
  database from the claims of pod-0, of which it can write no other than the data claim that the reader table needs, and uploads under the key of the backup.
\<close>

theorem one_backup_job:
  assumes "reconcileBackup env w name = (w', r)" and "named_clusters env"
  shows "(\<exists>P. w_Jobs w' = filter P (w_Jobs w)) \<or>
    (\<exists>j sb sd sc img op. w_Jobs w' = w_Jobs w @ [j] \<and> job_Name j \<notin> set (map job_Name (w_Jobs w)) \<and>
       sb \<in> set (w_Backups w) \<and> sb_Name sb = name \<and> \<not> finishedBackup sb \<and> sd \<in> set (w_Databases w) \<and> sd_Name sd = sb_DatabaseRef sb \<and>
       (\<exists>sc0. be_Cluster env (sds_ClusterRef (sd_Spec sd)) = Inr sc0 \<and> sc_Name sc = sc_Name sc0 \<and> scs_Phase (sc_Status sc0) = ''Running'') \<and>
       j = buildBackupJob sb sd sc img op (backupObjectKey sb sc sd) \<and>
       map ctr_Args (job_Containers j) = [uploadArgs (sb_Storage sb) (backupObjectKey sb sc sd)] \<and>
       map ctr_Env (job_InitContainers j) = [[(''SUFFIX'', EnvValue (sds_Suffix (sd_Spec sd)))]] \<and>
       (\<forall>(v, s) \<in> set (job_Volumes j). s = EmptyDir \<or> s = PVC (v @ ''-'' @ sc_Name sc @ ''-0'')))"
proof -
  have built: "buildBackupJob sb' sd sc img op key = buildBackupJob sb sd sc img op key" if "same_request sb sb'" for sb sb' sd sc img op key
    using that by (simp add: buildBackupJob_def same_request_def Let_def PodAffinityEnabled_def)
  consider "\<exists>P. w_Jobs w' = filter P (w_Jobs w)" | j where "w_Jobs w' = w_Jobs w @ [j]" "backup_job_for env w name j"
    using reconcileBackup_pass [OF assms] keeps_same by blast
  then show ?thesis
  proof cases
    case 2
    then obtain sb sd sc img op sb' where f: "sb \<in> set (w_Backups w)" "sb_Name sb = name" "\<not> finishedBackup sb"
      "sd \<in> set (w_Databases w)" "sd_Name sd = sb_DatabaseRef sb" "running_cluster env sd sc"
      "job_Name j \<notin> set (map job_Name (w_Jobs w))" and b: "same_request sb sb'" "j = buildBackupJob sb' sd sc img op (backupObjectKey sb sc sd)"
      unfolding backup_job_for_def by blast
    have j: "j = buildBackupJob sb sd sc img op (backupObjectKey sb sc sd)" using built [OF b(1)] b(2) by simp
    note facts = backup_job_facts [of sb sd sc img op "backupObjectKey sb sc sd", folded j]
    show ?thesis
      by (rule disjI2, rule exI [of _ j], rule exI [of _ sb], rule exI [of _ sd], rule exI [of _ sc], rule exI [of _ img],
          rule exI [of _ op], intro conjI) (rule f f(6) [unfolded running_cluster_def] 2(1) j facts)+
  qed blast
qed

section \<open>The artifact\<close>

lemma newly_put:
  assumes "b \<in> set (w_Backups (patchBackupStatus env w sb c r m))" and "b \<notin> set (w_Backups w)"
  shows "sb_Phase b = sb_Phase sb \<and> sb_Path b = sb_Path sb \<and> sb_Storage b = sb_Storage sb \<and> sb_Name b = sb_Name sb \<and> sb_DatabaseRef b = sb_DatabaseRef sb \<and>
    sb_CreationTimestamp b = sb_CreationTimestamp sb"
  using assms by (auto simp: patchBackupStatus_def put_backup_def Let_def split: if_splits)

lemma completed_by_its_job:
  assumes "runBackup env w sb sd sc = (w', r)" and "b \<in> set (w_Backups w')" and "b \<notin> set (w_Backups w)" and "sb_Phase b = ''Completed''"
  shows "sb_Path b = backupObjectKey b sc sd \<and> sb_Storage b = sb_Storage sb \<and> sb_Name b = sb_Name sb \<and> sb_DatabaseRef b = sb_DatabaseRef sb \<and>
    (\<exists>job. get_job (be_Api env) w (sb_Name b @ ''-backup'') = Inr job \<and> job_complete job)"
proof -
  let ?sb0 = "sb\<lparr>sb_SourcePod := backupSourcePod sc\<rparr>" and ?key = "backupObjectKey sb sc sd"
  define sb1 where "sb1 late = (if shouldRecordSourceCircumstances ?sb0 then recordSource env ?sb0 sd sc late else ?sb0)" for late
  have same: "same_request sb (sb1 late)" for late
    using recordSource_same(1) [of ?sb0 env sd sc late] by (simp add: sb1_def same_request_def)
  show ?thesis
  proof (cases "get_job (be_Api env) w (sb_Name sb @ ''-backup'')")
    case (Inl e)
    have "sb_Phase b = ''Running'' \<or> w_Backups w' = w_Backups w"
      using assms(1-3) Inl newly_put
      by (cases e) (fastforce simp: runBackup_def Let_def createBackupJob_def setRunning_def split: sum.splits option.splits if_splits)+
    then show ?thesis using assms(2-4) by auto
  next
    case (Inr job)
    then have o: "observeBackupJob env w (sb1 True) job ?key = (w', r)" using assms(1) by (simp add: runBackup_def Let_def sb1_def)
    obtain c where c: "find (\<lambda>c. jc_Status c = ConditionTrue \<and> (jc_Type c = ''Complete'' \<or> jc_Type c = ''Failed'')) (job_Conditions job) = Some c"
      and cc: "jc_Type c = ''Complete''"
      using o assms(2-4) newly_put
      by (fastforce simp: observeBackupJob_def Let_def setRunning_def setTerminal_def split: option.splits if_splits)
    have "job_complete job" using c cc by (auto simp: job_complete_def dest!: find_Some_in)
    moreover obtain sb2 rs m where "w' = setTerminal env w sb2 ''Completed'' (job_Name job) ?key rs m" "same_request (sb1 True) sb2"
      using o c cc by (auto simp: observeBackupJob_def Let_def same_request_def split: sum.splits)
    ultimately show ?thesis
      using assms(2,3) newly_put same [of True] Inr unfolding setTerminal_def
      by (fastforce simp: same_request_def backupObjectKey_def)
  qed
qed

lemma distinct_find: "distinct (map f xs) \<Longrightarrow> x \<in> set xs \<Longrightarrow> find (\<lambda>y. f y = f x) xs = Some x"
  by (induction xs) force+

text \<open>
  The key of a backup, written out: the prefix, the cluster its database refers to, the database and the second of its creation.
\<close>

definition artifact_key :: "string \<Rightarrow> SlapdBackup \<Rightarrow> string" where
  "artifact_key cluster b =
     (let path = cluster @ ''/'' @ sb_DatabaseRef b @ ''/'' @ format_stamp (sb_CreationTimestamp b) @ ''.ldif.gz'';
          prefix = trim_char CHR ''/'' (s3_Prefix (sb_Storage b)) in
      if prefix = [] then path else prefix @ ''/'' @ path)"

lemma artifact_key_of: "sd_Name sd = sb_DatabaseRef b \<Longrightarrow> backupObjectKey b sc sd = artifact_key (sc_Name sc) b"
  by (simp add: backupObjectKey_def artifact_key_def Let_def)

lemma artifact_key_same: "same_request b b' \<Longrightarrow> artifact_key c b' = artifact_key c b"
  by (simp add: same_request_def artifact_key_def Let_def)

text \<open>
  The namespace over time as long as no one edits what a backup is of: the API returns a cluster under the name it is asked for,
  every database keeps its cluster (\<open>cl\<close>), a backup is created when neither a backup nor a Job of its name is left, and its spec stays.
  Passes with any other answers, the conditions and the removal of Jobs, Jobs of other names, and databases come and go freely.
\<close>

definition own_names :: "backup_env \<Rightarrow> bool" where
  "own_names env \<longleftrightarrow> named_clusters env \<and> (\<forall>n sc. be_Cluster env n = Inr sc \<longrightarrow> sc_Name sc = n)"

definition backup_jobs :: "restore_world \<Rightarrow> string set" where
  "backup_jobs w = (\<lambda>b. sb_Name b @ ''-backup'') ` set (w_Backups w)"

inductive upload_step :: "(string \<Rightarrow> string) \<Rightarrow> restore_world \<Rightarrow> restore_world \<Rightarrow> bool" for cl where
  pass: "reconcileBackup env w name = (w', r) \<Longrightarrow> own_names env \<Longrightarrow> upload_step cl w w'"
| create: "fresh_backup sb \<Longrightarrow> sb_Name sb \<notin> set (map sb_Name (w_Backups w)) \<Longrightarrow> sb_Name sb @ ''-backup'' \<notin> set (map job_Name (w_Jobs w)) \<Longrightarrow>
     upload_step cl w (w\<lparr>w_Backups := w_Backups w @ [sb]\<rparr>)"
| remove: "upload_step cl w (w\<lparr>w_Backups := filter P (w_Backups w)\<rparr>)"
| jobs_move: "upload_step cl w (w\<lparr>w_Jobs := map (\<lambda>j. j\<lparr>job_Conditions := cs j\<rparr>) (w_Jobs w)\<rparr>)"
| jobs_gone: "upload_step cl w (w\<lparr>w_Jobs := filter P (w_Jobs w)\<rparr>)"
| job_added: "job_Name j \<notin> backup_jobs w \<Longrightarrow> upload_step cl w (w\<lparr>w_Jobs := w_Jobs w @ [j]\<rparr>)"
| others: "\<forall>sd \<in> set dbs. sds_ClusterRef (sd_Spec sd) = cl (sd_Name sd) \<Longrightarrow> upload_step cl w (w\<lparr>w_Databases := dbs, w_Restores := srs\<rparr>)"

inductive upload_reachable :: "(string \<Rightarrow> string) \<Rightarrow> restore_world \<Rightarrow> bool" for cl where
  start: "w_Backups w = [] \<Longrightarrow> \<forall>sd \<in> set (w_Databases w). sds_ClusterRef (sd_Spec sd) = cl (sd_Name sd) \<Longrightarrow> upload_reachable cl w"
| step: "upload_reachable cl w \<Longrightarrow> upload_step cl w w' \<Longrightarrow> upload_reachable cl w'"

definition uploads_to :: "S3StorageSpec \<Rightarrow> string \<Rightarrow> Job \<Rightarrow> bool" where
  "uploads_to st key j \<longleftrightarrow> map ctr_Args (job_Containers j) = [uploadArgs st key]"

definition upload_inv :: "(string \<Rightarrow> string) \<Rightarrow> restore_world \<Rightarrow> bool" where
  "upload_inv cl w \<longleftrightarrow> distinct (map sb_Name (w_Backups w)) \<and>
     (\<forall>sd \<in> set (w_Databases w). sds_ClusterRef (sd_Spec sd) = cl (sd_Name sd)) \<and>
     (\<forall>b \<in> set (w_Backups w). \<forall>j \<in> set (w_Jobs w). job_Name j = sb_Name b @ ''-backup'' \<longrightarrow>
        uploads_to (sb_Storage b) (artifact_key (cl (sb_DatabaseRef b)) b) j)"

lemma patchBackupStatus_databases [simp]: "w_Databases (patchBackupStatus env w sb c r m) = w_Databases w"
  by (simp add: patchBackupStatus_def put_backup_def Let_def)

lemma runBackup_databases: "runBackup env w sb sd sc = (w', r) \<Longrightarrow> w_Databases w' = w_Databases w"
  by (auto simp: runBackup_def createBackupJob_def observeBackupJob_def setRunning_def setTerminal_def Let_def
      split: sum.splits api_error.splits option.splits if_splits)

lemma reconcileBackup_databases: "reconcileBackup env w name = (w', r) \<Longrightarrow> w_Databases w' = w_Databases w"
  by (auto simp: reconcileBackup_def setPending_def reapJob_def Let_def dest: runBackup_databases
      split: sum.splits api_error.splits option.splits if_splits prod.splits)

lemma patched_from:
  assumes "patched w sb w'" and "sb \<in> set (w_Backups w)" and "distinct (map sb_Name (w_Backups w))" and "b' \<in> set (w_Backups w')"
  shows "\<exists>b \<in> set (w_Backups w). same_request b b'"
proof (cases "b' \<in> set (w_Backups w)")
  case False
  then obtain sb' where "same_request sb sb'" "w_Backups w' = map (\<lambda>x. if sb_Name x = sb_Name sb then sb' else x) (w_Backups w)"
    using assms(1,4) unfolding patched_def by auto
  then have "b' = sb'" using assms(4) False by auto
  then show ?thesis using assms(2) \<open>same_request sb sb'\<close> by blast
qed (use same_request_refl in blast)

lemma backup_job_uploads:
  assumes "backup_job_for env w name j" and "own_names env" and "upload_inv cl w" and "b \<in> set (w_Backups w)" and "sb_Name b = name"
  shows "uploads_to (sb_Storage b) (artifact_key (cl (sb_DatabaseRef b)) b) j"
proof -
  obtain sb sd sc img op sb' where f: "sb \<in> set (w_Backups w)" "sb_Name sb = name" "sd \<in> set (w_Databases w)" "sd_Name sd = sb_DatabaseRef sb"
    "running_cluster env sd sc" "same_request sb sb'" "j = buildBackupJob sb' sd sc img op (backupObjectKey sb sc sd)"
    using assms(1) unfolding backup_job_for_def by blast
  have "sb = b" using f(1,2) assms(3-5) by (auto simp: upload_inv_def distinct_map dest: inj_onD)
  moreover have "sc_Name sc = cl (sb_DatabaseRef sb)"
    using f(3-5) assms(2,3) by (auto simp: running_cluster_def own_names_def upload_inv_def)
  ultimately show ?thesis using f(4,6,7) backup_job_facts(1) [of sb' sd sc img op] by (simp add: uploads_to_def artifact_key_of same_request_def)
qed

lemma upload_step_inv: "upload_step cl w w' \<Longrightarrow> upload_inv cl w \<Longrightarrow> upload_inv cl w'"
proof (induction rule: upload_step.induct)
  case (pass env w name w' r)
  have named: "named_clusters env" using pass.hyps(2) by (simp add: own_names_def)
  have d: "w_Databases w' = w_Databases w" using pass.hyps(1) by (rule reconcileBackup_databases)
  consider P where "w_Backups w' = w_Backups w" "w_Jobs w' = filter P (w_Jobs w)"
    | sb where "sb \<in> set (w_Backups w)" "sb_Name sb = name" "patched w sb w'"
        "w_Jobs w' = w_Jobs w \<or> (\<exists>j. w_Jobs w' = w_Jobs w @ [j] \<and> backup_job_for env w name j)"
    using reconcileBackup_pass [OF pass.hyps(1) named] by blast
  then show ?case
  proof cases
    case 1
    then show ?thesis using pass.prems d by (simp add: upload_inv_def)
  next
    case (2 sb)
    note sb = 2(1,2) and p = 2(3) and j = 2(4)
    have dist: "distinct (map sb_Name (w_Backups w))" using pass.prems by (simp add: upload_inv_def)
    have "uploads_to (sb_Storage b') (artifact_key (cl (sb_DatabaseRef b')) b') j"
      if b': "b' \<in> set (w_Backups w')" and jj: "j \<in> set (w_Jobs w')" "job_Name j = sb_Name b' @ ''-backup''" for b' j
    proof -
      obtain b where b: "b \<in> set (w_Backups w)" "same_request b b'" using patched_from [OF p sb(1) dist b'] by blast
      have same: "sb_Name b = sb_Name b'" "sb_Storage b = sb_Storage b'" "sb_DatabaseRef b = sb_DatabaseRef b'"
        using b(2) by (simp_all add: same_request_def)
      have "uploads_to (sb_Storage b) (artifact_key (cl (sb_DatabaseRef b)) b) j"
      proof (cases "j \<in> set (w_Jobs w)")
        case True
        then show ?thesis using pass.prems b(1) jj(2) same(1) by (simp add: upload_inv_def)
      next
        case False
        then have new: "backup_job_for env w name j" using j jj(1) by auto
        then have "job_Name j = name @ ''-backup''"
          by (auto simp: backup_job_for_def buildBackupJob_def same_request_def Let_def)
        then have "sb_Name b = name" using jj(2) same(1) by simp
        then show ?thesis using backup_job_uploads [OF new pass.hyps(2) pass.prems b(1)] by blast
      qed
      then show ?thesis using artifact_key_same [OF b(2)] same by simp
    qed
    then show ?thesis using pass.prems d patched_names [OF p] by (simp add: upload_inv_def)
  qed
next
  case (create sb w)
  then have "job_Name j \<noteq> sb_Name sb @ ''-backup''" if "j \<in> set (w_Jobs w)" for j using that by (metis image_eqI image_set)
  then show ?case using create by (auto simp: upload_inv_def)
next
  case (job_added j w)
  then show ?case by (auto simp: upload_inv_def backup_jobs_def)
qed (auto simp: upload_inv_def distinct_map_filter uploads_to_def)

lemma upload_reachable_inv: "upload_reachable cl w \<Longrightarrow> upload_inv cl w"
proof (induction rule: upload_reachable.induct)
  case (start w)
  then show ?case by (simp add: upload_inv_def)
qed (rule upload_step_inv)

lemma resolve_completed:
  assumes "distinct (map sb_Name (w_Backups w))" and "b \<in> set (w_Backups w)" and "sb_Phase b = ''Completed''" and "sb_Path b \<noteq> []"
    and "sb_Name b \<noteq> []" and "re_Fault api (GetBackup (sb_Name b)) = None"
  shows "resolveSourceObject api w (sb_Name b) None = Inr (sb_Storage b, sb_Path b)"
  using distinct_find [OF assms(1,2)] assms(3-6) by (simp add: resolveSourceObject_def k8s_get_def)

lemma completing_pass:
  assumes "reconcileBackup env w name = (w', r)" and "own_names env" and "b \<in> set (w_Backups w')" and "b \<notin> set (w_Backups w)"
    and "sb_Phase b = ''Completed''"
  shows "\<exists>sd job sc. sd \<in> set (w_Databases w) \<and> sd_Name sd = sb_DatabaseRef b \<and> sc_Name sc = sds_ClusterRef (sd_Spec sd) \<and>
     sb_Name b = name \<and> sb_Path b = backupObjectKey b sc sd \<and> get_job (be_Api env) w (name @ ''-backup'') = Inr job \<and> job_complete job"
proof -
  have pend: "\<not> b \<in> set (w_Backups (setPending env w sb rs m))" for sb rs m
    using newly_put assms(4,5) unfolding setPending_def by fastforce
  obtain sb where sb: "k8s_get (be_Api env) (GetBackup name) sb_Name (w_Backups w) name = Inr sb" "\<not> (sb_Phase sb = ''Completed'' \<or> sb_Phase sb = ''Failed'')"
    using assms(1,3,4) by (cases "k8s_get (be_Api env) (GetBackup name) sb_Name (w_Backups w) name")
      (auto simp: reconcileBackup_def Let_def reapJob_def split: api_error.splits if_splits option.splits prod.splits)
  have found: "sb \<in> set (w_Backups w)" "sb_Name sb = name" using k8s_get_in [OF sb(1)] by simp_all
  obtain sd sc0 where d: "get_database (be_Api env) w (sb_DatabaseRef sb) = Inr sd" "be_Cluster env (sds_ClusterRef (sd_Spec sd)) = Inr sc0"
    using assms(1,3,4) pend unfolding reconcileBackup_def Let_def sb(1) sum.case if_not_P [OF sb(2)]
    by (auto split: sum.splits api_error.splits)
  define sc where "sc = snd (resolveMeshWiring (be_Mesh env) sc0 (be_SiteName env))"
  have "sc_Name sc = sc_Name sc0"
    by (auto simp: sc_def resolveMeshWiring_def applyMeshWiring_def Let_def split: sum.splits api_error.splits option.splits prod.splits)
  then have sc: "sc_Name sc = sds_ClusterRef (sd_Spec sd)" using assms(2) d(2) by (simp add: own_names_def)
  have sd: "sd \<in> set (w_Databases w)" "sd_Name sd = sb_DatabaseRef sb" using k8s_get_in d(1) unfolding get_database_def by fast+
  have run: "runBackup env w sb sd sc = (w', r)"
    using assms(1,3,4) pend unfolding reconcileBackup_def Let_def sb(1) sum.case if_not_P [OF sb(2)] d sc_def [symmetric]
    by (auto split: if_splits)
  from completed_by_its_job [OF run assms(3-5)] obtain job where
    c: "sb_Path b = backupObjectKey b sc sd" "sb_Name b = name" "sb_DatabaseRef b = sb_DatabaseRef sb"
    and job: "get_job (be_Api env) w (name @ ''-backup'') = Inr job" "job_complete job"
    using found(2) by auto
  then show ?thesis using sd sc by (intro exI [of _ sd] exI [of _ job] exI [of _ sc]) simp
qed

text \<open>
  C13. What a restore reads is what the backup wrote. While clusters and databases keep their names and no spec of a backup or
  clusterRef of a database is edited, a pass that completes a backup has found, under the backup's Job name, a Job that completed and whose upload
  container stores the dump in the bucket of the backup at the key built from its prefix, cluster, database and creation time, over the endpoint and region
  of the backup; and as long as this backup exists, a restore that names it resolves to that storage and key, and the Job of every
  read-write pod downloads the object of that bucket and key over the same endpoint and region.
\<close>

theorem restore_reads_the_upload:
  assumes "upload_reachable cl w" and "reconcileBackup env w name = (w', r)" and "own_names env"
    and "b \<in> set (w_Backups w')" and "b \<notin> set (w_Backups w)" and "sb_Phase b = ''Completed''"
  shows "let st = sb_Storage b; key = artifact_key (cl (sb_DatabaseRef b)) b;
       options = (if s3_Endpoint st = [] then [] else [''--endpoint'', s3_Endpoint st]) @
         (if s3_Region st = [] then [] else [''--region'', s3_Region st]) @ (if s3_InsecureTLS st then [''--insecure-tls''] else []) in
     sb_Name b = name \<and>
     (\<exists>job \<in> set (w_Jobs w). job_Name job = name @ ''-backup'' \<and> job_complete job \<and>
        map ctr_Args (job_Containers job) = [[''backup-upload'', ''--bucket'', s3_Bucket st, ''--key'', key,
          ''--file'', ''/staging/dump.ldif.gz'', ''--repl-entry'', ''/staging/replentry.ldif''] @ options]) \<and>
     (\<forall>api w2. upload_reachable cl w2 \<and> b \<in> set (w_Backups w2) \<and> re_Fault api (GetBackup name) = None \<and> name \<noteq> [] \<longrightarrow>
        resolveSourceObject api w2 name None = Inr (st, key)) \<and>
     (rpt_loadData t \<longrightarrow> map ctr_Args (job_InitContainers (buildRestoreJob sc rst sd st key img op t)) =
        [[''restore-download'', ''--bucket'', s3_Bucket st, ''--key'', key, ''--out'', ''/staging/restore.ldif.gz''] @ options])"
proof -
  have inv: "upload_inv cl w" using assms(1) by (rule upload_reachable_inv)
  obtain sd job sc where c: "sd \<in> set (w_Databases w)" "sd_Name sd = sb_DatabaseRef b" "sc_Name sc = sds_ClusterRef (sd_Spec sd)"
    "sb_Name b = name" "sb_Path b = backupObjectKey b sc sd" "get_job (be_Api env) w (name @ ''-backup'') = Inr job" "job_complete job"
    using completing_pass [OF assms(2-6)] by blast
  have "sc_Name sc = cl (sb_DatabaseRef b)" using c(1-3) inv by (simp add: upload_inv_def)
  then have key: "sb_Path b = artifact_key (cl (sb_DatabaseRef b)) b" using c(2,5) by (simp add: artifact_key_of)
  have ne: "sb_Path b \<noteq> []" using c(5) by simp
  have job: "job \<in> set (w_Jobs w)" "job_Name job = name @ ''-backup''" using k8s_get_in c(6) unfolding get_job_def by fast+
  obtain b0 where b0: "b0 \<in> set (w_Backups w)" "same_request b0 b"
  proof -
    have "named_clusters env" using assms(3) by (simp add: own_names_def)
    from reconcileBackup_pass [OF assms(2) this] obtain sb where "sb \<in> set (w_Backups w)" "patched w sb w'" using assms(4,5) by auto
    then show thesis using that patched_from [of w sb w' b] assms(4) inv by (auto simp: upload_inv_def)
  qed
  then have "uploads_to (sb_Storage b0) (artifact_key (cl (sb_DatabaseRef b0)) b0) job"
    using inv job c(4) by (simp add: upload_inv_def same_request_def)
  then have up: "uploads_to (sb_Storage b) (artifact_key (cl (sb_DatabaseRef b)) b) job"
    using artifact_key_same [OF b0(2)] b0(2) by (simp add: same_request_def)
  have later: "resolveSourceObject api w2 name None = Inr (sb_Storage b, artifact_key (cl (sb_DatabaseRef b)) b)"
    if "upload_reachable cl w2" "b \<in> set (w_Backups w2)" "re_Fault api (GetBackup name) = None" "name \<noteq> []" for api w2
  proof -
    have "distinct (map sb_Name (w_Backups w2))" using upload_reachable_inv [OF that(1)] by (simp add: upload_inv_def)
    from resolve_completed [OF this that(2) assms(6) ne] show ?thesis using that(3,4) c(4) key by simp
  qed
  have "map ctr_Args (job_InitContainers (buildRestoreJob sc' rst sd' st key img op t)) = [downloadArgs st key]" if "rpt_loadData t" for sc' sd' st key
    using that by (simp add: buildRestoreJob_def Let_def)
  then show ?thesis using job c(4,7) later up by (auto simp: Let_def uploads_to_def uploadArgs_def downloadArgs_def)
qed

text \<open>Names of the API have no slash.\<close>

lemma slash_split: "CHR ''/'' \<notin> set a \<Longrightarrow> CHR ''/'' \<notin> set a' \<Longrightarrow> a @ CHR ''/'' # x = a' @ CHR ''/'' # x' \<longleftrightarrow> a = a' \<and> x = x'"
proof (induction a arbitrary: a')
  case Nil
  then show ?case by (cases a') auto
next
  case (Cons c a)
  then show ?case by (cases a') auto
qed

text \<open>
  C36. Two backups have one object exactly when they are of one database and were created in one second: under one prefix the keys of two
  backups agree iff cluster, database and creation second do. So backups taken in different seconds never overwrite one
  another, and two created within a second share their artifact, whatever their names.
\<close>

theorem object_key_exact:
  assumes "CHR ''/'' \<notin> set (sc_Name sc @ sc_Name sc' @ sd_Name sd @ sd_Name sd')" and "s3_Prefix (sb_Storage sb) = s3_Prefix (sb_Storage sb')"
    and "four_digit_year (sb_CreationTimestamp sb)" and "four_digit_year (sb_CreationTimestamp sb')"
  shows "backupObjectKey sb sc sd = backupObjectKey sb' sc' sd' \<longleftrightarrow>
    sc_Name sc = sc_Name sc' \<and> sd_Name sd = sd_Name sd' \<and>
    sb_CreationTimestamp sb div 1000000000 = sb_CreationTimestamp sb' div 1000000000"
proof -
  have "backupObjectKey sb sc sd = backupObjectKey sb' sc' sd' \<longleftrightarrow>
      sc_Name sc @ CHR ''/'' # sd_Name sd @ CHR ''/'' # format_stamp (sb_CreationTimestamp sb) @ ''.ldif.gz'' =
      sc_Name sc' @ CHR ''/'' # sd_Name sd' @ CHR ''/'' # format_stamp (sb_CreationTimestamp sb') @ ''.ldif.gz''"
    using assms(2) by (simp add: backupObjectKey_def Let_def)
  also have "\<dots> \<longleftrightarrow> sc_Name sc = sc_Name sc' \<and> sd_Name sd = sd_Name sd' \<and> format_stamp (sb_CreationTimestamp sb) = format_stamp (sb_CreationTimestamp sb')"
    using slash_split assms(1) by simp
  finally show ?thesis using format_stamp_exact [OF assms(3,4)] by simp
qed

section \<open>A concrete namespace\<close>

definition demo_backup :: SlapdBackup where
  "demo_backup = \<lparr>sb_Name = ''x'', sb_Labels = [], sb_CreationTimestamp = 1700000000000000000, sb_Generation = 1, sb_DatabaseRef = ''a'', sb_Storage = demo_storage,
     sb_Compression = ''gzip'', sb_PodAffinity = None, sb_Phase = [], sb_JobName = [], sb_StartedAt = None, sb_CompletedAt = None, sb_Path = [],
     sb_SizeBytes = 0, sb_SourcePod = [], sb_SourceContextCSN = [], sb_ObservedGeneration = 0, sb_Conditions = []\<rparr>"

theorem object_key_exact_witness:
  "backupObjectKey demo_backup base_cluster (base_database ''a'' None) =
     backupObjectKey (demo_backup\<lparr>sb_Name := ''y'', sb_CreationTimestamp := 1700000000999999999\<rparr>) base_cluster (base_database ''a'' None) \<and>
   backupObjectKey demo_backup base_cluster (base_database ''a'' None) \<noteq>
     backupObjectKey (demo_backup\<lparr>sb_CreationTimestamp := 1700000001000000000\<rparr>) base_cluster (base_database ''a'' None)"
proof -
  have y: "four_digit_year 1700000000000000000" "four_digit_year 1700000000999999999" "four_digit_year 1700000001000000000" by code_simp+
  have n: "CHR ''/'' \<notin> set (sc_Name base_cluster @ sc_Name base_cluster @ sd_Name (base_database ''a'' None) @ sd_Name (base_database ''a'' None))" by code_simp
  show ?thesis
    using object_key_exact [OF n, of demo_backup "demo_backup\<lparr>sb_Name := ''y'', sb_CreationTimestamp := 1700000000999999999\<rparr>"]
      object_key_exact [OF n, of demo_backup "demo_backup\<lparr>sb_CreationTimestamp := 1700000001000000000\<rparr>"] y
    by (simp add: demo_backup_def)
qed

text \<open>No LDAP server answers, which stops no backup.\<close>

definition demo_backup_env :: backup_env where
  "demo_backup_env = \<lparr>be_Api = demo_env, be_Cluster = (\<lambda>n. case n of [] \<Rightarrow> Inl ApiNotFound | c # cs \<Rightarrow> Inr ((demo_cluster None)\<lparr>sc_Name := n\<rparr>)), be_Mesh = (\<lambda>ns n. Inl ApiNotFound), be_SiteName = [],
     be_Domain = ''cluster.local'',
     be_Servers = \<lparr>srv_Dial = \<lambda>h a. Some noMsg, srv_Bind = \<lambda>h a d p. Some noMsg, srv_SearchSuffix = \<lambda>h a s. Inl noMsg,
       srv_Read = \<lambda>h a d. Inl noMsg, srv_Write = \<lambda>h q. Some noMsg\<rparr>,
     be_Dsa = (\<lambda>h a s. Inl noMsg), be_CSN = \<lparr>cc_Dial = \<lambda>u t. Some noMsg, cc_Bind = \<lambda>d p. Some noMsg, cc_Search = \<lambda>s. Inl noMsg\<rparr>,
     be_ObjectSize = (\<lambda>cfg k. Inr 5)\<rparr>"

definition demo_backup_world :: restore_world where
  "demo_backup_world = (demo_world [])\<lparr>w_Backups := [demo_backup]\<rparr>"

definition demo_taken :: restore_world where
  "demo_taken = fst (reconcileBackup demo_backup_env demo_backup_world ''x'')"

definition demo_dumped :: restore_world where
  "demo_dumped = demo_taken\<lparr>w_Jobs := map (\<lambda>j. j\<lparr>job_Conditions :=
     [\<lparr>jc_Type = ''Complete'', jc_Status = ConditionTrue, jc_Reason = [], jc_Message = []\<rparr>]\<rparr>) (w_Jobs demo_taken)\<rparr>"

definition demo_completed :: restore_world where
  "demo_completed = fst (reconcileBackup demo_backup_env demo_dumped ''x'')"

lemma demo_named: "named_clusters demo_backup_env" "own_names demo_backup_env"
  by (auto simp: named_clusters_def own_names_def demo_backup_env_def split: list.splits)

lemma demo_passes:
  "reconcileBackup demo_backup_env demo_backup_world ''x'' = (demo_taken, snd (reconcileBackup demo_backup_env demo_backup_world ''x''))"
  "reconcileBackup demo_backup_env demo_dumped ''x'' = (demo_completed, snd (reconcileBackup demo_backup_env demo_dumped ''x''))"
  by (simp_all add: demo_taken_def demo_completed_def)

lemma demo_reachable: "backup_reachable demo_completed"
proof -
  have "backup_reachable (demo_backup_world\<lparr>w_Backups := []\<rparr>)" by (rule backup_reachable.start) simp
  moreover have "backup_step (demo_backup_world\<lparr>w_Backups := []\<rparr>) demo_backup_world"
    using backup_step.create [of demo_backup "demo_backup_world\<lparr>w_Backups := []\<rparr>"] by (simp add: fresh_backup_def demo_backup_def demo_backup_world_def)
  moreover have "backup_step demo_backup_world demo_taken" by (rule backup_step.pass [OF demo_passes(1) demo_named(1)])
  moreover have "backup_step demo_taken demo_dumped"
    using backup_step.others [where w = demo_taken and dbs = "w_Databases demo_taken" and srs = "w_Restores demo_taken"] unfolding demo_dumped_def by simp
  moreover have "backup_step demo_dumped demo_completed" by (rule backup_step.pass [OF demo_passes(2) demo_named(1)])
  ultimately show ?thesis using backup_reachable.step by blast
qed

lemma demo_phases:
  "map sb_Phase (w_Backups demo_completed) = [''Completed'']"
  "map (\<lambda>b. (sb_Name b, sb_Phase b)) (w_Backups demo_dumped) = [(''x'', ''Running'')]"
  by code_simp+

theorem backups_recorded_and_final_witness:
  "map sb_Phase (w_Backups demo_completed) = [''Completed''] \<and> list_all recorded (w_Backups demo_completed)"
  using demo_phases(1) backups_recorded_and_final [OF demo_reachable] by (auto simp: backup_ok_def finishedBackup_def list_all_iff)

theorem one_backup_job_witness:
  "\<exists>j. w_Jobs demo_taken = [j] \<and> job_Name j = ''x-backup'' \<and> (\<exists>st key. map ctr_Args (job_Containers j) = [uploadArgs st key])"
proof -
  have n: "map job_Name (w_Jobs demo_taken) = [''x-backup'']" and e: "w_Jobs demo_backup_world = []" by code_simp+
  have "\<nexists>P. w_Jobs demo_taken = filter P (w_Jobs demo_backup_world)" using n e by auto
  then obtain j sb sc sd where "w_Jobs demo_taken = w_Jobs demo_backup_world @ [j]"
    "map ctr_Args (job_Containers j) = [uploadArgs (sb_Storage sb) (backupObjectKey sb sc sd)]"
    using one_backup_job [OF demo_passes(1) demo_named(1)] by (elim disjE exE conjE) (blast, rule that)
  then obtain j st key where j: "w_Jobs demo_taken = [j]" "map ctr_Args (job_Containers j) = [uploadArgs st key]" using e by auto
  then show ?thesis using n by (intro exI [of _ j] conjI exI [of _ st] exI [of _ key]) simp_all
qed

lemma demo_uploading: "upload_reachable (\<lambda>_. ''slapd'') demo_dumped" "upload_reachable (\<lambda>_. ''slapd'') demo_completed"
proof -
  let ?R = "upload_reachable (\<lambda>_. ''slapd'')" and ?S = "upload_step (\<lambda>_. ''slapd'')"
  have "list_all (\<lambda>sd. sds_ClusterRef (sd_Spec sd) = ''slapd'') (w_Databases demo_backup_world)" by code_simp
  then have "?R (demo_backup_world\<lparr>w_Backups := []\<rparr>)" by (intro upload_reachable.start) (simp_all add: list_all_iff)
  moreover have "?S (demo_backup_world\<lparr>w_Backups := []\<rparr>) demo_backup_world"
    using upload_step.create [of demo_backup "demo_backup_world\<lparr>w_Backups := []\<rparr>"]
    by (simp add: fresh_backup_def demo_backup_def demo_backup_world_def demo_world_def)
  moreover have "?S demo_backup_world demo_taken" by (rule upload_step.pass [OF demo_passes(1) demo_named(2)])
  moreover have "?S demo_taken demo_dumped" unfolding demo_dumped_def by (rule upload_step.jobs_move)
  ultimately show dumped: "?R demo_dumped" using upload_reachable.step by blast
  have "?S demo_dumped demo_completed" by (rule upload_step.pass [OF demo_passes(2) demo_named(2)])
  with dumped show "?R demo_completed" using upload_reachable.step by blast
qed

theorem restore_reads_the_upload_witness:
  "\<exists>b. w_Backups demo_completed = [b] \<and> list_ex job_complete (w_Jobs demo_dumped) \<and>
     resolveSourceObject demo_env demo_completed ''x'' None = Inr (sb_Storage b, artifact_key ''slapd'' b)"
proof -
  obtain b where b: "w_Backups demo_completed = [b]" "sb_Phase b = ''Completed''" using demo_phases(1) by auto
  obtain c where c: "w_Backups demo_dumped = [c]" "sb_Phase c = ''Running''" using demo_phases(2) by auto
  have m: "b \<in> set (w_Backups demo_completed)" "b \<notin> set (w_Backups demo_dumped)" using b c by auto
  note f = restore_reads_the_upload [OF demo_uploading(1) demo_passes(2) demo_named(2) m b(2), unfolded Let_def]
  have "\<exists>job \<in> set (w_Jobs demo_dumped). job_complete job"
    using f [THEN conjunct2, THEN conjunct1] by (elim bexE conjE) (rule bexI)
  moreover have "re_Fault demo_env (GetBackup ''x'') = None" by (simp add: demo_env_def)
  then have "resolveSourceObject demo_env demo_completed ''x'' None = Inr (sb_Storage b, artifact_key ''slapd'' b)"
    using f [THEN conjunct2, THEN conjunct2, THEN conjunct1] demo_uploading(2) m(1) by simp
  ultimately show ?thesis using b(1) by (simp add: list_ex_iff)
qed

end
