(* ===== verification/Scheduled_Backup.thy ===== *)
theory Scheduled_Backup
  imports Backup
begin

text \<open>
  The SlapdScheduledBackup controller, \<open>slapdscheduledbackup_controller.go\<close>. The cron library gives the next instant of a
  schedule after an instant, or the zero time; the reading of durations, the object store's deletion and the clock are
  arguments too, the clock read once in a pass. The state is the schedule as it is stored, the namespace and the artifacts
  that were deleted. The deletions of one pass, whose order Go leaves open, are made in list order.
\<close>

section \<open>Schedules\<close>

record schedule_env =
  se_Api :: restore_env
  se_ParseCron :: "string \<Rightarrow> message + (time \<Rightarrow> time)"
  se_ParseDuration :: "string \<Rightarrow> message + duration"
  se_DeleteObject :: "S3Config \<Rightarrow> string \<Rightarrow> message option"

record schedule_state =
  st_Schedule :: SlapdScheduledBackup
  st_World :: restore_world
  st_Deleted :: "(S3Config \<times> string) list"

definition maxMissedSchedules :: nat where
  "maxMissedSchedules = 100"

text \<open>
  The loop of \<open>dueTime\<close> with the rounds it may still make: it leaves after round \<open>maxMissedSchedules + 1\<close>. The API server keeps the last
  schedule time in whole seconds; the ticks of a cron schedule are whole seconds, so that the tick after an instant is the one after its
  second, and the cut is not modelled.
\<close>

fun dueLoop :: "(time \<Rightarrow> time) \<Rightarrow> time \<Rightarrow> nat \<Rightarrow> time \<Rightarrow> time \<Rightarrow> time" where
  "dueLoop sched now 0 t latest = latest"
| "dueLoop sched now (Suc rounds) t latest = (if t > now then latest else dueLoop sched now rounds (sched t) t)"

definition dueTime :: "SlapdScheduledBackup \<Rightarrow> (time \<Rightarrow> time) \<Rightarrow> time \<Rightarrow> time" where
  "dueTime ssb sched now =
     (if ssb_Immediate ssb \<and> ssb_LastScheduleTime ssb = None then now
      else
        (let earliest = (case ssb_LastScheduleTime ssb of None \<Rightarrow> ssb_CreationTimestamp ssb | Some t \<Rightarrow> t) in
         dueLoop sched now (Suc maxMissedSchedules) (sched earliest) zero_time))"

definition scheduledBackupName :: "SlapdScheduledBackup \<Rightarrow> time \<Rightarrow> string" where
  "scheduledBackupName ssb t =
     (let prefix = (if length (ssb_Name ssb) > 40 then take 40 (ssb_Name ssb) else ssb_Name ssb) in
      prefix @ ''-'' @ itoa (t div 1000000000))"

abbreviation "scheduledBackupLabel \<equiv> ''ldap.chuck-chuck-chuck.net/scheduled-backup''"

text \<open>The backup a schedule creates, with an empty status.\<close>

definition scheduledBackup :: "SlapdScheduledBackup \<Rightarrow> time \<Rightarrow> time \<Rightarrow> SlapdBackup" where
  "scheduledBackup ssb scheduledTime now =
     \<lparr>sb_Name = scheduledBackupName ssb scheduledTime, sb_Labels = [(scheduledBackupLabel, ssb_Name ssb)], sb_CreationTimestamp = now,
      sb_Generation = 1, sb_DatabaseRef = ssb_DatabaseRef ssb, sb_Storage = ssb_Storage ssb, sb_Compression = ssb_Compression ssb,
      sb_PodAffinity = ssb_PodAffinity ssb, sb_Phase = [], sb_JobName = [], sb_StartedAt = None, sb_CompletedAt = None, sb_Path = [],
      sb_SizeBytes = 0, sb_SourcePod = [], sb_SourceContextCSN = [], sb_ObservedGeneration = 0, sb_Conditions = []\<rparr>"

text \<open>A creation that meets a backup of its name is answered by AlreadyExists, which the caller takes for success.\<close>

definition createScheduled :: "restore_env \<Rightarrow> SlapdScheduledBackup \<Rightarrow> time \<Rightarrow> restore_world \<Rightarrow> message + restore_world" where
  "createScheduled api ssb scheduledTime w =
     (let sb = scheduledBackup ssb scheduledTime (re_Now api) in
      case re_Fault api (CreateBackup (sb_Name sb)) of
        Some err \<Rightarrow> if isAlreadyExists err then Inr w else Inl (Msg ''create scheduled SlapdBackup'' [MMsg err])
      | None \<Rightarrow> Inr (if sb_Name sb \<in> set (map sb_Name (w_Backups w)) then w else w\<lparr>w_Backups := w_Backups w @ [sb]\<rparr>))"

section \<open>Retention\<close>

definition backupTime :: "SlapdBackup \<Rightarrow> time" where
  "backupTime sb = (case sb_CompletedAt sb of Some t \<Rightarrow> t | None \<Rightarrow> sb_CreationTimestamp sb)"

definition completedOf :: "SlapdScheduledBackup \<Rightarrow> restore_world \<Rightarrow> SlapdBackup list" where
  "completedOf ssb w = filter (\<lambda>sb. map_of (sb_Labels sb) scheduledBackupLabel = Some (ssb_Name ssb) \<and> sb_Phase sb = ''Completed'') (w_Backups w)"

definition newestFirst :: "SlapdBackup list \<Rightarrow> SlapdBackup list" where
  "newestFirst sbs = sort_key (\<lambda>sb. - backupTime sb) sbs"

definition pruneSet :: "ScheduledBackupRetention \<Rightarrow> duration option \<Rightarrow> time \<Rightarrow> SlapdBackup list \<Rightarrow> SlapdBackup list" where
  "pruneSet ret age now completed =
     (let over = (if ret_MaxCount ret > 0 \<and> int (length completed) > ret_MaxCount ret then drop (nat (ret_MaxCount ret)) completed else []);
          old = (case age of None \<Rightarrow> [] | Some d \<Rightarrow> filter (\<lambda>sb. backupTime sb < time_add now (i64_sub 0 d)) completed) in
      filter (\<lambda>sb. sb_Name sb \<in> set (map sb_Name (over @ old))) completed)"

fun pruneLoop :: "schedule_env \<Rightarrow> SlapdBackup list \<Rightarrow> restore_world \<Rightarrow> (S3Config \<times> string) list \<Rightarrow> restore_world \<times> (S3Config \<times> string) list" where
  "pruneLoop env [] w deleted = (w, deleted)"
| "pruneLoop env (sb # sbs) w deleted =
     (let remove = (\<lambda>ds. if re_Fault (se_Api env) (DeleteBackup (sb_Name sb)) \<noteq> None then pruneLoop env sbs w ds
            else pruneLoop env sbs (w\<lparr>w_Backups := filter (\<lambda>x. sb_Name x \<noteq> sb_Name sb) (w_Backups w)\<rparr>) ds) in
      if sb_Path sb = [] then remove deleted
      else (case s3ConfigFromStorage (se_Api env) (sb_Storage sb) of
          Inl err \<Rightarrow> pruneLoop env sbs w deleted
        | Inr cfg \<Rightarrow>
            (case se_DeleteObject env cfg (sb_Path sb) of
               Some err \<Rightarrow> pruneLoop env sbs w deleted
             | None \<Rightarrow> remove (deleted @ [(cfg, sb_Path sb)]))))"

definition enforceRetention ::
  "schedule_env \<Rightarrow> SlapdScheduledBackup \<Rightarrow> time \<Rightarrow> restore_world \<Rightarrow> (S3Config \<times> string) list
     \<Rightarrow> (restore_world \<times> (S3Config \<times> string) list) \<times> message option" where
  "enforceRetention env ssb now w deleted =
     (let ret = ssb_Retention ssb in
      if ret_MaxCount ret = 0 \<and> ret_MaxAge ret = [] then ((w, deleted), None)
      else (case re_Fault (se_Api env) ListBackups of
          Some err \<Rightarrow> ((w, deleted), Some (Msg ''list scheduled backups'' [MMsg err]))
        | None \<Rightarrow>
            (let completed = newestFirst (completedOf ssb w) in
             if ret_MaxAge ret = [] then (pruneLoop env (pruneSet ret None now completed) w deleted, None)
             else (case se_ParseDuration env (ret_MaxAge ret) of
                 Inl err \<Rightarrow> ((w, deleted), Some (Msg ''invalid retention.maxAge'' [MStr (ret_MaxAge ret), MMsg err]))
               | Inr d \<Rightarrow> (pruneLoop env (pruneSet ret (Some d) now completed) w deleted, None)))))"

section \<open>The pass\<close>

definition patchSchedule :: "schedule_env \<Rightarrow> SlapdScheduledBackup \<Rightarrow> SlapdScheduledBackup \<Rightarrow> ConditionStatus \<Rightarrow> string \<Rightarrow> message \<Rightarrow> SlapdScheduledBackup" where
  "patchSchedule env stored ssb condStatus reason msg =
     (if re_Fault (se_Api env) (ApplyScheduleStatus (ssb_Name ssb)) \<noteq> None then stored
      else ssb\<lparr>ssb_ObservedGeneration := ssb_Generation ssb,
        ssb_Conditions := setCondition (ssb_Conditions ssb)
          \<lparr>cond_Type = ''Active'', cond_Status = condStatus, cond_Reason = reason, cond_Message = msg,
           cond_LastTransitionTime = re_Now (se_Api env), cond_ObservedGeneration = ssb_Generation ssb\<rparr>\<rparr>)"

definition reconcileSchedule :: "schedule_env \<Rightarrow> schedule_state \<Rightarrow> schedule_state \<times> (message + duration)" where
  "reconcileSchedule env s =
     (let ssb = st_Schedule s; now = re_Now (se_Api env) in
      if ssb_Suspend ssb
      then (s\<lparr>st_Schedule := patchSchedule env ssb (ssb\<lparr>ssb_NextScheduleTime := None\<rparr>) ConditionFalse ''Suspended''
              (Msg ''scheduling is suspended via spec.suspend'' [])\<rparr>, Inr 0)
      else (case se_ParseCron env (ssb_Schedule ssb) of
          Inl err \<Rightarrow>
            (s\<lparr>st_Schedule := patchSchedule env ssb ssb ConditionFalse ''InvalidSchedule'' (Msg ''invalid schedule'' [MStr (ssb_Schedule ssb), MMsg err])\<rparr>, Inr 0)
        | Inr sched \<Rightarrow>
            (let due = dueTime ssb sched now in
             case (if due = zero_time then Inr (ssb, st_World s)
                   else (case createScheduled (se_Api env) ssb due (st_World s) of
                       Inl err \<Rightarrow> Inl err
                     | Inr w \<Rightarrow> Inr (ssb\<lparr>ssb_LastScheduleTime := Some due, ssb_LastBackupRef := scheduledBackupName ssb due\<rparr>, w))) of
               Inl err \<Rightarrow> (s, Inl err)
             | Inr (ssb1, w1) \<Rightarrow>
                 (case enforceRetention env ssb1 now w1 (st_Deleted s) of
                    ((w2, deleted), failed) \<Rightarrow>
                      (let nxt = sched now in
                       (\<lparr>st_Schedule = patchSchedule env ssb (ssb1\<lparr>ssb_NextScheduleTime := Some nxt\<rparr>) ConditionTrue ''Scheduled''
                           (Msg ''next backup at'' [MInt nxt]), st_World = w2, st_Deleted = deleted\<rparr>,
                        Inr (time_sub nxt now)))))))"

end
