(* ===== verification/Schedule_Trace.thy ===== *)
theory Schedule_Trace
  imports Scheduled_Backup
begin

text \<open>
  What the schedules of \<open>Scheduled_Backup\<close> promise: which tick is due, which backups retention removes and in what order
  their artifacts go, and that the pruning of a pass has no influence on its scheduling.
\<close>

section \<open>The tick that is due\<close>

lemma ticks_mono:
  fixes sched :: "time \<Rightarrow> time"
  assumes "\<And>t. t < sched t" "i \<le> j"
  shows "(sched ^^ i) t \<le> (sched ^^ j) t"
proof -
  have "(sched ^^ i) t \<le> (sched ^^ (i + k)) t" for k
    by (induction k) (use assms(1) in \<open>auto intro: order.trans less_imp_le\<close>)
  from this [of "j - i"] show ?thesis using assms(2) by simp
qed

lemma dueLoop_exact:
  fixes sched :: "time \<Rightarrow> time"
  assumes inc: "\<And>t. t < sched t"
  shows "m \<le> n \<Longrightarrow> (m = n \<or> (sched ^^ n) e \<le> now) \<Longrightarrow> now < (sched ^^ Suc n) e \<Longrightarrow>
    dueLoop sched now r ((sched ^^ Suc m) e) latest = (if r = 0 \<or> m = n then latest else (sched ^^ min n (m + r)) e)"
proof (induction r arbitrary: m latest)
  case 0
  then show ?case by simp
next
  case (Suc r)
  show ?case
  proof (cases "m = n")
    case True
    then show ?thesis using Suc.prems(3) by simp
  next
    case False
    then have lt: "Suc m \<le> n" and due: "(sched ^^ n) e \<le> now" using Suc.prems by auto
    have t: "\<not> (sched ^^ Suc m) e > now" using ticks_mono [OF inc lt, of e] due by linarith
    have "dueLoop sched now (Suc r) ((sched ^^ Suc m) e) latest = dueLoop sched now r ((sched ^^ Suc (Suc m)) e) ((sched ^^ Suc m) e)"
      using t by simp
    also have "\<dots> = (if r = 0 \<or> Suc m = n then (sched ^^ Suc m) e else (sched ^^ min n (Suc m + r)) e)"
      by (rule Suc.IH) (use lt due Suc.prems(3) in auto)
    also have "\<dots> = (sched ^^ min n (m + Suc r)) e" using lt by (auto simp: min_def not_le)
    finally show ?thesis using False by (simp del: funpow.simps)
  qed
qed

definition scheduled_from :: "SlapdScheduledBackup \<Rightarrow> time" where
  "scheduled_from ssb = (case ssb_LastScheduleTime ssb of None \<Rightarrow> ssb_CreationTimestamp ssb | Some t \<Rightarrow> t)"

text \<open>
  C37. With n ticks of the schedule gone since the last run (or since the creation of the schedule), the controller starts the
  backup of the n-th, the most recent one, as long as n is at most 101, and nothing when n is 0. Beyond 101 missed ticks it
  starts the backup of the 101st, which is not the most recent, although the comments promise the most recent one only.
\<close>

theorem due_time_exact:
  assumes inc: "\<And>t. t < sched t"
    and scheduled: "\<not> (ssb_Immediate ssb \<and> ssb_LastScheduleTime ssb = None)"
    and last: "n = 0 \<or> (sched ^^ n) (scheduled_from ssb) \<le> now"
    and coming: "now < (sched ^^ Suc n) (scheduled_from ssb)"
  shows "dueTime ssb sched now = (if n = 0 then zero_time else (sched ^^ min n 101) (scheduled_from ssb))"
proof -
  have "dueTime ssb sched now = dueLoop sched now 101 ((sched ^^ Suc 0) (scheduled_from ssb)) zero_time"
    unfolding dueTime_def maxMissedSchedules_def scheduled_from_def Let_def using scheduled by auto
  then show ?thesis using dueLoop_exact [OF inc, of 0 n "scheduled_from ssb" now 101 zero_time] last coming by auto
qed

definition demo_schedule :: SlapdScheduledBackup where
  "demo_schedule = \<lparr>ssb_Name = ''nightly'', ssb_CreationTimestamp = 0, ssb_Generation = 1, ssb_DatabaseRef = ''a'', ssb_Schedule = ''0 3 * * *'',
     ssb_Suspend = False, ssb_Immediate = False, ssb_Storage = demo_storage, ssb_Retention = \<lparr>ret_MaxCount = 1, ret_MaxAge = []\<rparr>,
     ssb_Compression = [], ssb_PodAffinity = None, ssb_LastScheduleTime = Some 1000, ssb_NextScheduleTime = None, ssb_LastBackupRef = [],
     ssb_ObservedGeneration = 0, ssb_Conditions = []\<rparr>"

lemma ticks_of_ten: "((\<lambda>t. t + 10) ^^ n) (e :: int) = e + 10 * int n"
  by (induction n) auto

lemma due_time_exact_witness:
  "dueTime demo_schedule (\<lambda>t. t + 10) 3000 = 2010 \<and> dueTime demo_schedule (\<lambda>t. t + 10) 1500 = 1500"
  using due_time_exact [of "\<lambda>t. t + 10" demo_schedule 200 3000] due_time_exact [of "\<lambda>t. t + 10" demo_schedule 50 1500]
  by (simp add: ticks_of_ten demo_schedule_def scheduled_from_def)

section \<open>Retention\<close>

definition schedule_backup :: "SlapdScheduledBackup \<Rightarrow> SlapdBackup \<Rightarrow> bool" where
  "schedule_backup ssb sb \<longleftrightarrow> map_of (sb_Labels sb) scheduledBackupLabel = Some (ssb_Name ssb) \<and> sb_Phase sb = ''Completed''"

definition newer_ones :: "SlapdScheduledBackup \<Rightarrow> restore_world \<Rightarrow> SlapdBackup \<Rightarrow> SlapdBackup list" where
  "newer_ones ssb w sb = filter (\<lambda>x. schedule_backup ssb x \<and> backupTime sb \<le> backupTime x \<and> sb_Name x \<noteq> sb_Name sb) (w_Backups w)"

lemma completedOf_eq: "completedOf ssb w = filter (schedule_backup ssb) (w_Backups w)"
  by (simp add: completedOf_def schedule_backup_def [abs_def])

lemma newestFirst_facts [simp]:
  "set (newestFirst sbs) = set sbs" "length (newestFirst sbs) = length sbs" "mset (newestFirst sbs) = mset sbs"
  by (simp_all add: newestFirst_def)

lemma newestFirst_sorted: "sorted_wrt (\<lambda>a b. backupTime b \<le> backupTime a) (newestFirst sbs)"
proof -
  have "sorted (map (\<lambda>sb. - backupTime sb) (newestFirst sbs))" by (simp add: newestFirst_def)
  then show ?thesis by (simp add: sorted_map)
qed

lemma distinct_map_newestFirst: "distinct (map f (newestFirst sbs)) = distinct (map f sbs)"
proof -
  have "mset (map f (newestFirst sbs)) = mset (map f sbs)" by simp
  then show ?thesis using mset_eq_imp_distinct_iff by blast
qed

text \<open>A backup past the first \<open>k\<close> of the list has at least \<open>k\<close> others that are at least as new.\<close>

lemma dropped_has_newer:
  assumes "sb \<in> set (drop k (newestFirst sbs))" "distinct (map sb_Name sbs)"
  shows "k \<le> length (filter (\<lambda>x. backupTime sb \<le> backupTime x \<and> sb_Name x \<noteq> sb_Name sb) sbs)"
proof -
  let ?l = "newestFirst sbs" and ?P = "\<lambda>x. backupTime sb \<le> backupTime x \<and> sb_Name x \<noteq> sb_Name sb"
  have k: "k \<le> length ?l" using assms(1) by (cases "k \<le> length ?l") auto
  have d: "distinct (map sb_Name (take k ?l @ drop k ?l))" using assms(2) by (simp add: distinct_map_newestFirst)
  have sw: "sorted_wrt (\<lambda>a b. backupTime b \<le> backupTime a) (take k ?l @ drop k ?l)" using newestFirst_sorted by simp
  have "?P x" if "x \<in> set (take k ?l)" for x
  proof -
    have "backupTime sb \<le> backupTime x" using sw that assms(1) by (simp add: sorted_wrt_append del: append_take_drop_id)
    moreover have "sb_Name x \<noteq> sb_Name sb" using d that assms(1) by (auto simp del: append_take_drop_id)
    ultimately show ?thesis by simp
  qed
  then have tk: "filter ?P (take k ?l) = take k ?l" by (simp only: filter_id_conv) blast
  have "filter ?P ?l = filter ?P (take k ?l) @ filter ?P (drop k ?l)"
    by (simp only: filter_append [symmetric] append_take_drop_id)
  then have "length (filter ?P ?l) = length (take k ?l) + length (filter ?P (drop k ?l))" unfolding tk by (metis length_append)
  then have "k \<le> length (filter ?P ?l)" using k by (simp only: length_take min_absorb2)
  moreover have "mset (filter ?P ?l) = mset (filter ?P sbs)" by (simp only: mset_filter newestFirst_facts)
  then have "length (filter ?P ?l) = length (filter ?P sbs)" by (rule mset_eq_length)
  ultimately show ?thesis by (simp only:)
qed

lemma newer_ones_length:
  "length (newer_ones ssb w sb) = length (filter (\<lambda>x. backupTime sb \<le> backupTime x \<and> sb_Name x \<noteq> sb_Name sb) (completedOf ssb w))"
  by (simp add: newer_ones_def completedOf_eq conj_ac)

lemma distinct_completedOf: "distinct (map sb_Name (w_Backups w)) \<Longrightarrow> distinct (map sb_Name (completedOf ssb w))"
  by (simp add: completedOf_eq distinct_map_filter)

lemma in_pruneSet:
  assumes "distinct (map sb_Name completed)"
  shows "sb \<in> set (pruneSet ret age now completed) \<longleftrightarrow> sb \<in> set completed \<and>
    (ret_MaxCount ret > 0 \<and> int (length completed) > ret_MaxCount ret \<and> sb \<in> set (drop (nat (ret_MaxCount ret)) completed) \<or>
     (\<exists>d. age = Some d \<and> backupTime sb < time_add now (i64_sub 0 d)))"
proof -
  let ?over = "if ret_MaxCount ret > 0 \<and> int (length completed) > ret_MaxCount ret then drop (nat (ret_MaxCount ret)) completed else []"
  let ?old = "case age of None \<Rightarrow> [] | Some d \<Rightarrow> filter (\<lambda>sb. backupTime sb < time_add now (i64_sub 0 d)) completed"
  have named: "sb_Name sb \<in> set (map sb_Name xs) \<longleftrightarrow> sb \<in> set xs" if "sb \<in> set completed" "set xs \<subseteq> set completed" for xs
    using assms that by (auto simp: distinct_map dest: inj_onD)
  have "set (?over @ ?old) \<subseteq> set completed" by (auto split: option.splits dest: in_set_dropD)
  then have "sb \<in> set (pruneSet ret age now completed) \<longleftrightarrow> sb \<in> set completed \<and> sb \<in> set (?over @ ?old)"
    unfolding pruneSet_def Let_def set_filter mem_Collect_eq using named by blast
  then show ?thesis by (cases age) auto
qed

definition artifact_gone :: "schedule_env \<Rightarrow> (S3Config \<times> string) list \<Rightarrow> SlapdBackup \<Rightarrow> bool" where
  "artifact_gone env deleted sb \<longleftrightarrow> sb_Path sb = [] \<or>
     (\<exists>cfg. s3ConfigFromStorage (se_Api env) (sb_Storage sb) = Inr cfg \<and> se_DeleteObject env cfg (sb_Path sb) = None \<and>
        (cfg, sb_Path sb) \<in> set deleted)"

lemma artifact_gone_mono: "artifact_gone env ds sb \<Longrightarrow> set ds \<subseteq> set ds' \<Longrightarrow> artifact_gone env ds' sb"
  by (auto simp: artifact_gone_def)

definition pruned_of :: "schedule_env \<Rightarrow> restore_world \<Rightarrow> (S3Config \<times> string) list \<Rightarrow> SlapdBackup list
    \<Rightarrow> restore_world \<Rightarrow> (S3Config \<times> string) list \<Rightarrow> SlapdBackup set \<Rightarrow> bool" where
  "pruned_of env w ds sbs w' ds' gone \<longleftrightarrow> gone \<subseteq> set sbs \<and> set ds \<subseteq> set ds' \<and> Ball gone (artifact_gone env ds') \<and>
     w' = w\<lparr>w_Backups := filter (\<lambda>x. sb_Name x \<notin> sb_Name ` gone) (w_Backups w)\<rparr>"

lemma pruned_of_weaken:
  assumes "pruned_of env w ds0 sbs w' ds' gone" "set ds \<subseteq> set ds0"
  shows "pruned_of env w ds (sb # sbs) w' ds' gone"
  using assms unfolding pruned_of_def by auto

lemma pruned_of_remove:
  assumes "pruned_of env (w\<lparr>w_Backups := filter (\<lambda>x. sb_Name x \<noteq> sb_Name sb) (w_Backups w)\<rparr>) ds0 sbs w' ds' gone"
    "set ds \<subseteq> set ds0" "artifact_gone env ds0 sb"
  shows "pruned_of env w ds (sb # sbs) w' ds' (insert sb gone)"
  using assms artifact_gone_mono [of env ds0 sb ds'] unfolding pruned_of_def by (auto simp: conj_commute)

lemma prune_step:
  assumes keep: "pruneLoop env sbs w ds0 = (w', ds') \<Longrightarrow> \<exists>gone. pruned_of env w ds0 sbs w' ds' gone"
    and gone: "pruneLoop env sbs (w\<lparr>w_Backups := filter (\<lambda>x. sb_Name x \<noteq> sb_Name sb) (w_Backups w)\<rparr>) ds0 = (w', ds') \<Longrightarrow>
      \<exists>gone. pruned_of env (w\<lparr>w_Backups := filter (\<lambda>x. sb_Name x \<noteq> sb_Name sb) (w_Backups w)\<rparr>) ds0 sbs w' ds' gone"
    and ds: "set ds \<subseteq> set ds0" "artifact_gone env ds0 sb"
    and run: "(if re_Fault (se_Api env) (DeleteBackup (sb_Name sb)) \<noteq> None then pruneLoop env sbs w ds0
      else pruneLoop env sbs (w\<lparr>w_Backups := filter (\<lambda>x. sb_Name x \<noteq> sb_Name sb) (w_Backups w)\<rparr>) ds0) = (w', ds')"
  shows "\<exists>gone. pruned_of env w ds (sb # sbs) w' ds' gone"
proof (cases "re_Fault (se_Api env) (DeleteBackup (sb_Name sb)) = None")
  case True
  with run gone obtain g where "pruned_of env (w\<lparr>w_Backups := filter (\<lambda>x. sb_Name x \<noteq> sb_Name sb) (w_Backups w)\<rparr>) ds0 sbs w' ds' g" by auto
  then show ?thesis using pruned_of_remove ds by blast
next
  case False
  with run keep obtain g where "pruned_of env w ds0 sbs w' ds' g" by auto
  then show ?thesis using pruned_of_weaken ds(1) by blast
qed

lemma pruneLoop_pruned:
  "pruneLoop env sbs w ds = (w', ds') \<Longrightarrow> \<exists>gone. pruned_of env w ds sbs w' ds' gone"
proof (induction sbs arbitrary: w ds)
  case Nil
  then have "pruned_of env w ds [] w' ds' {}" by (simp add: pruned_of_def)
  then show ?case by blast
next
  case (Cons sb sbs)
  consider "sb_Path sb = []" | err where "sb_Path sb \<noteq> []" "s3ConfigFromStorage (se_Api env) (sb_Storage sb) = Inl err"
    | cfg err where "sb_Path sb \<noteq> []" "s3ConfigFromStorage (se_Api env) (sb_Storage sb) = Inr cfg" "se_DeleteObject env cfg (sb_Path sb) = Some err"
    | cfg where "sb_Path sb \<noteq> []" "s3ConfigFromStorage (se_Api env) (sb_Storage sb) = Inr cfg" "se_DeleteObject env cfg (sb_Path sb) = None"
    by (cases "s3ConfigFromStorage (se_Api env) (sb_Storage sb)") (auto, metis not_None_eq)
  then show ?case
  proof cases
    case 1
    then show ?thesis using Cons by (intro prune_step [of env sbs w ds]) (auto simp: Let_def artifact_gone_def)
  next
    case 2
    then have "pruneLoop env sbs w ds = (w', ds')" using Cons.prems by simp
    then show ?thesis using Cons.IH pruned_of_weaken [of env w ds sbs w' ds' _ ds sb] by blast
  next
    case 3
    then have "pruneLoop env sbs w ds = (w', ds')" using Cons.prems by simp
    then show ?thesis using Cons.IH pruned_of_weaken [of env w ds sbs w' ds' _ ds sb] by blast
  next
    case 4
    then show ?thesis using Cons by (intro prune_step [of env sbs w "ds @ [(cfg, sb_Path sb)]"]) (auto simp: Let_def artifact_gone_def)
  qed
qed

lemma enforceRetention_cases:
  assumes "enforceRetention env ssb now w ds = ((w', ds'), r)"
  shows "w' = w \<and> ds' = ds \<or>
    (\<exists>age. pruneLoop env (pruneSet (ssb_Retention ssb) age now (newestFirst (completedOf ssb w))) w ds = (w', ds') \<and>
       (\<forall>d. age = Some d \<longrightarrow> ret_MaxAge (ssb_Retention ssb) \<noteq> [] \<and> se_ParseDuration env (ret_MaxAge (ssb_Retention ssb)) = Inr d))"
  using assms unfolding enforceRetention_def Let_def by (force split: if_splits option.splits sum.splits)

text \<open>
  C14. Whatever fails in a pass, the only backups retention removes are completed ones of this schedule that are either older
  than the maximal age or have as many other completed ones at least as new as the maximal count, and a backup whose artifact
  was uploaded is removed only after the deletion of that artifact succeeded.
\<close>

theorem retention_removes_only:
  assumes run: "enforceRetention env ssb now w ds = ((w', ds'), r)"
    and named: "distinct (map sb_Name (w_Backups w))"
    and sb: "sb \<in> set (w_Backups w)" "sb \<notin> set (w_Backups w')"
  shows "schedule_backup ssb sb \<and> artifact_gone env ds' sb \<and>
    (0 < ret_MaxCount (ssb_Retention ssb) \<and> ret_MaxCount (ssb_Retention ssb) \<le> int (length (newer_ones ssb w sb)) \<or>
     (\<exists>d. se_ParseDuration env (ret_MaxAge (ssb_Retention ssb)) = Inr d \<and> backupTime sb < time_add now (i64_sub 0 d)))"
proof -
  let ?completed = "newestFirst (completedOf ssb w)"
  obtain age where loop: "pruneLoop env (pruneSet (ssb_Retention ssb) age now ?completed) w ds = (w', ds')"
    and age: "\<And>d. age = Some d \<Longrightarrow> se_ParseDuration env (ret_MaxAge (ssb_Retention ssb)) = Inr d"
    using enforceRetention_cases [OF run] sb by auto
  obtain gone where gone: "pruned_of env w ds (pruneSet (ssb_Retention ssb) age now ?completed) w' ds' gone"
    using pruneLoop_pruned [OF loop] by blast
  have d: "distinct (map sb_Name ?completed)" using distinct_completedOf [OF named] by (simp add: distinct_map_newestFirst)
  obtain x where x: "x \<in> gone" "sb_Name x = sb_Name sb" using gone sb by (auto simp: pruned_of_def)
  then have set: "x \<in> set (pruneSet (ssb_Retention ssb) age now ?completed)" using gone by (auto simp: pruned_of_def)
  then have "x \<in> set (w_Backups w)" "schedule_backup ssb x" using in_pruneSet [OF d] by (auto simp: completedOf_eq)
  then have eq: "x = sb" using named sb(1) x(2) by (auto simp: distinct_map dest: inj_onD)
  have "artifact_gone env ds' sb" using gone x(1) eq by (auto simp: pruned_of_def)
  moreover have "ret_MaxCount (ssb_Retention ssb) \<le> int (length (newer_ones ssb w sb))"
    if "0 < ret_MaxCount (ssb_Retention ssb)" "sb \<in> set (drop (nat (ret_MaxCount (ssb_Retention ssb))) ?completed)"
    using dropped_has_newer [OF that(2) distinct_completedOf [OF named]] that(1) by (simp add: newer_ones_length)
  ultimately show ?thesis using in_pruneSet [OF d, THEN iffD1, OF set] age \<open>schedule_backup ssb x\<close> eq by auto
qed

text \<open>Two completed backups of one schedule, an artifact each, and a store that deletes.\<close>

definition demo_dump :: "string \<Rightarrow> time \<Rightarrow> SlapdBackup" where
  "demo_dump name t = (scheduledBackup demo_schedule t t)\<lparr>sb_Name := name, sb_Phase := ''Completed'', sb_Path := name\<rparr>"

definition demo_schedule_world :: restore_world where
  "demo_schedule_world = (demo_world [])\<lparr>w_Backups := [demo_dump ''old'' 5, demo_dump ''new'' 9]\<rparr>"

definition demo_schedule_env :: "time \<Rightarrow> bool \<Rightarrow> schedule_env" where
  "demo_schedule_env now up = \<lparr>se_Api = demo_env\<lparr>re_Now := now\<rparr>, se_ParseCron = (\<lambda>_. Inr (\<lambda>t. t + 10)), se_ParseDuration = (\<lambda>_. Inr 6),
     se_DeleteObject = (\<lambda>_ _. if up then None else Some noMsg)\<rparr>"

lemma demo_retention:
  "enforceRetention (demo_schedule_env 2000 True) demo_schedule 2000 demo_schedule_world [] =
     ((demo_schedule_world\<lparr>w_Backups := [demo_dump ''new'' 9]\<rparr>,
       [(\<lparr>cfg_Bucket = ''b'', cfg_Endpoint = [], cfg_Region = [], cfg_InsecureTLS = False, cfg_AccessKeyID = ''v'', cfg_SecretAccessKey = ''v''\<rparr>, ''old'')]), None)"
  by code_simp

lemma demo_distinct: "distinct (map sb_Name (w_Backups demo_schedule_world))"
  by (simp add: demo_schedule_world_def demo_dump_def)

theorem retention_removes_only_witness:
  "demo_dump ''old'' 5 \<in> set (w_Backups demo_schedule_world) \<and>
   newer_ones demo_schedule demo_schedule_world (demo_dump ''old'' 5) = [demo_dump ''new'' 9] \<and>
   schedule_backup demo_schedule (demo_dump ''old'' 5)"
proof -
  have "demo_dump ''old'' 5 \<in> set (w_Backups demo_schedule_world)" by (simp add: demo_schedule_world_def)
  moreover have "demo_dump ''old'' 5 \<notin> set (w_Backups (demo_schedule_world\<lparr>w_Backups := [demo_dump ''new'' 9]\<rparr>))" by code_simp
  moreover have "newer_ones demo_schedule demo_schedule_world (demo_dump ''old'' 5) = [demo_dump ''new'' 9]" by code_simp
  ultimately show ?thesis using retention_removes_only [OF demo_retention demo_distinct] by blast
qed

lemma pruneLoop_all:
  assumes "\<And>sb. sb \<in> set sbs \<Longrightarrow> re_Fault (se_Api env) (DeleteBackup (sb_Name sb)) = None"
    "\<And>sb. sb \<in> set sbs \<Longrightarrow> sb_Path sb \<noteq> [] \<Longrightarrow>
       \<exists>cfg. s3ConfigFromStorage (se_Api env) (sb_Storage sb) = Inr cfg \<and> se_DeleteObject env cfg (sb_Path sb) = None"
  shows "fst (pruneLoop env sbs w ds) = w\<lparr>w_Backups := filter (\<lambda>x. sb_Name x \<notin> sb_Name ` set sbs) (w_Backups w)\<rparr>"
  using assms
proof (induction sbs arbitrary: w ds)
  case (Cons sb sbs)
  let ?w = "w\<lparr>w_Backups := filter (\<lambda>x. sb_Name x \<noteq> sb_Name sb) (w_Backups w)\<rparr>"
  have "\<exists>ds1. pruneLoop env (sb # sbs) w ds = pruneLoop env sbs ?w ds1"
    using Cons.prems(1) [of sb] Cons.prems(2) [of sb] by (cases "sb_Path sb = []") auto
  then obtain ds1 where "pruneLoop env (sb # sbs) w ds = pruneLoop env sbs ?w ds1" by blast
  then show ?case using Cons by (auto simp: conj_commute)
qed simp

text \<open>Everything a pruning needs answers: the list, the deletions of backups and artifacts, the credentials.\<close>

definition prunable :: "schedule_env \<Rightarrow> SlapdScheduledBackup \<Rightarrow> restore_world \<Rightarrow> bool" where
  "prunable env ssb w \<longleftrightarrow> re_Fault (se_Api env) ListBackups = None \<and>
     (\<forall>sb \<in> set (completedOf ssb w). re_Fault (se_Api env) (DeleteBackup (sb_Name sb)) = None \<and>
        (sb_Path sb \<noteq> [] \<longrightarrow> (\<exists>cfg. s3ConfigFromStorage (se_Api env) (sb_Storage sb) = Inr cfg \<and> se_DeleteObject env cfg (sb_Path sb) = None)))"

lemma left_after_prune:
  assumes named: "distinct (map sb_Name (w_Backups w))"
    and prunable: "prunable env ssb w"
  shows "completedOf ssb (fst (pruneLoop env (pruneSet ret age now (newestFirst (completedOf ssb w))) w ds)) =
      filter (\<lambda>sb. sb \<notin> set (pruneSet ret age now (newestFirst (completedOf ssb w)))) (completedOf ssb w)"
proof -
  let ?p = "pruneSet ret age now (newestFirst (completedOf ssb w))"
  have d: "distinct (map sb_Name (newestFirst (completedOf ssb w)))" using distinct_completedOf [OF named] by (simp add: distinct_map_newestFirst)
  have sub: "set ?p \<subseteq> set (completedOf ssb w)" using in_pruneSet [OF d] by auto
  have "sb_Name x \<in> sb_Name ` set ?p \<longleftrightarrow> x \<in> set ?p" if "x \<in> set (completedOf ssb w)" for x
    using distinct_completedOf [OF named, of ssb] that sub by (auto simp: distinct_map dest: inj_onD)
  moreover have "fst (pruneLoop env ?p w ds) = w\<lparr>w_Backups := filter (\<lambda>x. sb_Name x \<notin> sb_Name ` set ?p) (w_Backups w)\<rparr>"
    by (rule pruneLoop_all) (use prunable sub in \<open>auto simp: prunable_def\<close>)
  ultimately show ?thesis by (auto simp: completedOf_eq conj_commute intro!: filter_cong)
qed

lemma kept_bound:
  assumes d: "distinct (map sb_Name (newestFirst sbs))" and count: "0 < ret_MaxCount ret"
  shows "int (length (filter (\<lambda>sb. sb \<notin> set (pruneSet ret age now (newestFirst sbs))) sbs)) \<le> ret_MaxCount ret"
proof (cases "int (length sbs) > ret_MaxCount ret")
  case True
  let ?l = "newestFirst sbs" and ?k = "nat (ret_MaxCount ret)"
  let ?keep = "\<lambda>sb. sb \<notin> set (pruneSet ret age now (newestFirst sbs))"
  have "filter ?keep (drop ?k ?l) = []"
    using in_pruneSet [OF d] True count by (auto simp: filter_empty_conv dest: in_set_dropD)
  moreover have "filter ?keep ?l = filter ?keep (take ?k ?l) @ filter ?keep (drop ?k ?l)"
    by (simp only: filter_append [symmetric] append_take_drop_id)
  ultimately have "length (filter ?keep ?l) \<le> length (take ?k ?l)" by (simp only: append_Nil2 length_filter_le)
  moreover have "length (filter ?keep sbs) = length (filter ?keep ?l)"
    by (rule mset_eq_length) (simp only: mset_filter newestFirst_facts)
  ultimately have "length (filter ?keep sbs) \<le> ?k" by (simp only: length_take)
  then show ?thesis using count by linarith
next
  case False
  then show ?thesis using length_filter_le [of "\<lambda>sb. sb \<notin> set (pruneSet ret age now (newestFirst sbs))" sbs] by linarith
qed

text \<open>
  C38. When everything a pruning asks for answers and the maximal age can be read, the pass leaves no more completed backups of
  the schedule than the maximal count and none that is older than the maximal age.
\<close>

theorem retention_bounds_the_store:
  assumes named: "distinct (map sb_Name (w_Backups w))"
    and prunable: "prunable env ssb w"
    and age: "ret_MaxAge (ssb_Retention ssb) = [] \<or> se_ParseDuration env (ret_MaxAge (ssb_Retention ssb)) = Inr d"
  shows "(0 < ret_MaxCount (ssb_Retention ssb) \<longrightarrow>
      int (length (completedOf ssb (fst (fst (enforceRetention env ssb now w ds))))) \<le> ret_MaxCount (ssb_Retention ssb)) \<and>
    (ret_MaxAge (ssb_Retention ssb) \<noteq> [] \<longrightarrow>
      (\<forall>sb \<in> set (completedOf ssb (fst (fst (enforceRetention env ssb now w ds)))). time_add now (i64_sub 0 d) \<le> backupTime sb))"
proof (cases "ret_MaxCount (ssb_Retention ssb) = 0 \<and> ret_MaxAge (ssb_Retention ssb) = []")
  case False
  let ?age = "if ret_MaxAge (ssb_Retention ssb) = [] then None else Some d"
  let ?p = "pruneSet (ssb_Retention ssb) ?age now (newestFirst (completedOf ssb w))"
  have dist: "distinct (map sb_Name (newestFirst (completedOf ssb w)))" using distinct_completedOf [OF named] by (simp add: distinct_map_newestFirst)
  have "fst (fst (enforceRetention env ssb now w ds)) = fst (pruneLoop env ?p w ds)"
    using False age prunable unfolding enforceRetention_def Let_def prunable_def by auto
  then have "completedOf ssb (fst (fst (enforceRetention env ssb now w ds))) = filter (\<lambda>sb. sb \<notin> set ?p) (completedOf ssb w)"
    using left_after_prune [OF named prunable] by simp
  then show ?thesis using kept_bound [OF dist] in_pruneSet [OF dist] by (auto simp: not_less)
qed simp

theorem retention_bounds_the_store_witness:
  "length (completedOf demo_schedule demo_schedule_world) = 2 \<and>
   length (completedOf demo_schedule (fst (fst (enforceRetention (demo_schedule_env 2000 True) demo_schedule 2000 demo_schedule_world [])))) \<le> 1"
proof -
  have "prunable (demo_schedule_env 2000 True) demo_schedule demo_schedule_world"
    by (auto simp: prunable_def demo_schedule_env_def demo_env_def s3ConfigFromStorage_def)
  moreover have "length (completedOf demo_schedule demo_schedule_world) = 2" by code_simp
  moreover have "ret_MaxAge (ssb_Retention demo_schedule) = []" "ret_MaxCount (ssb_Retention demo_schedule) = 1"
    by (simp_all add: demo_schedule_def)
  ultimately show ?thesis using retention_bounds_the_store [OF demo_distinct, of "demo_schedule_env 2000 True" demo_schedule 0 2000 "[]"] by simp
qed

section \<open>Pruning and scheduling\<close>

text \<open>
  What a pass stores of the schedule and when the next pass comes do not depend on the retention settings' fate: whatever
  the store, the listing or the deletions answer, the backup of the due tick is created and recorded in the same way.
\<close>

theorem pruning_never_blocks:
  assumes "se_ParseCron env' = se_ParseCron env" "re_Now (se_Api env') = re_Now (se_Api env)"
    "\<And>name. re_Fault (se_Api env') (CreateBackup name) = re_Fault (se_Api env) (CreateBackup name)"
    "\<And>name. re_Fault (se_Api env') (ApplyScheduleStatus name) = re_Fault (se_Api env) (ApplyScheduleStatus name)"
  shows "st_Schedule (fst (reconcileSchedule env' s)) = st_Schedule (fst (reconcileSchedule env s)) \<and>
    snd (reconcileSchedule env' s) = snd (reconcileSchedule env s)"
proof -
  have patch: "patchSchedule env' = patchSchedule env" using assms by (intro ext) (simp add: patchSchedule_def)
  have create: "createScheduled (se_Api env') = createScheduled (se_Api env)" using assms by (intro ext) (simp add: createScheduled_def Let_def)
  show ?thesis
    unfolding reconcileSchedule_def Let_def patch create assms
    by (auto split: sum.splits prod.splits if_splits)
qed

definition demo_schedule_state :: schedule_state where
  "demo_schedule_state = \<lparr>st_Schedule = demo_schedule, st_World = demo_schedule_world, st_Deleted = []\<rparr>"

theorem pruning_never_blocks_witness:
  "ssb_LastBackupRef (st_Schedule (fst (reconcileSchedule (demo_schedule_env 1500 False) demo_schedule_state))) = ''nightly-0'' \<and>
   ssb_LastScheduleTime (st_Schedule (fst (reconcileSchedule (demo_schedule_env 1500 False) demo_schedule_state))) = Some 1500 \<and>
   snd (reconcileSchedule (demo_schedule_env 1500 False) demo_schedule_state) = Inr 10"
proof -
  have "ssb_LastBackupRef (st_Schedule (fst (reconcileSchedule (demo_schedule_env 1500 True) demo_schedule_state))) = ''nightly-0'' \<and>
      ssb_LastScheduleTime (st_Schedule (fst (reconcileSchedule (demo_schedule_env 1500 True) demo_schedule_state))) = Some 1500 \<and>
      snd (reconcileSchedule (demo_schedule_env 1500 True) demo_schedule_state) = Inr 10"
    by code_simp
  then show ?thesis
    using pruning_never_blocks [of "demo_schedule_env 1500 False" "demo_schedule_env 1500 True" demo_schedule_state]
    by (simp add: demo_schedule_env_def)
qed

end
