(* ===== verification/Server_Infra.thy ===== *)
theory Server_Infra
  imports Auth_Identity Overlay
begin

text \<open>
  What the cluster controller converges on every pod beside the databases: \<open>slapdcluster_tunables.go\<close> with
  \<open>podinfra.go\<close> and \<open>slapdcluster_monitor.go\<close>, and the server-wide half of \<open>scale_tunables.go\<close>. The steps of a pod are
  independent: each runs whatever the earlier ones answered, and the errors are joined.

  A one-level search of cn=config is the \<open>overlay_search\<close> of the servers, its filter an objectClass or, for a log
  database, the filter's text.
\<close>

section \<open>Independent steps\<close>

fun collectErrors :: "(string \<times> step) list \<Rightarrow> history \<Rightarrow> message list \<times> history" where
  "collectErrors [] h = ([], h)"
| "collectErrors ((name, run) # steps) h =
     (case run h of
        (None, h1) \<Rightarrow> collectErrors steps h1
      | (Some e, h1) \<Rightarrow> (case collectErrors steps h1 of (errs, h2) \<Rightarrow> (Msg name [MMsg e] # errs, h2)))"

definition runConvergenceSteps :: "(string \<times> step) list \<Rightarrow> step" where
  "runConvergenceSteps steps h =
     (case collectErrors steps h of (errs, h') \<Rightarrow> (if errs = [] then None else Some (Msg ''joined'' (map MMsg errs)), h'))"

section \<open>Server-wide tunables\<close>

definition desiredToolThreads :: "SlapdCluster \<Rightarrow> int32" where
  "desiredToolThreads sc = (case spec_ToolThreads (sc_Spec sc) of None \<Rightarrow> 2 | Some n \<Rightarrow> n)"

definition desiredTLSProtocolMin :: "SlapdCluster \<Rightarrow> string" where
  "desiredTLSProtocolMin sc = (case spec_TLSProtocolMin (sc_Spec sc) of None \<Rightarrow> ''3.3'' | Some v \<Rightarrow> trim_space v)"

definition desiredTLSCipherSuite :: "SlapdCluster \<Rightarrow> string \<times> bool" where
  "desiredTLSCipherSuite sc =
     (case spec_TLSCipherSuite (sc_Spec sc) of
        None \<Rightarrow> ([], False)
      | Some c \<Rightarrow> (let v = trim_space c in if v = [] then ([], False) else (v, True)))"

definition desiredPasswordHash :: "SlapdCluster \<Rightarrow> string" where
  "desiredPasswordHash sc = (case spec_PasswordHash (sc_Spec sc) of None \<Rightarrow> ''{SSHA}'' | Some v \<Rightarrow> trim_space v)"

definition tlsTunablesWritable :: "SlapdCluster \<Rightarrow> bool" where
  "tlsTunablesWritable sc = spec_TLSEnabled (sc_Spec sc)"

abbreviation "configDN \<equiv> ''cn=config''"

definition frontendDN :: string where
  "frontendDN = ''olcDatabase={-1}frontend,cn=config''"

definition tunableEntryDN :: "string \<Rightarrow> string" where
  "tunableEntryDN attr = (if attr = ''olcPasswordHash'' then frontendDN else configDN)"

type_synonym globalTunable = "string \<times> string \<times> bool"

definition globalTunables :: "SlapdCluster \<Rightarrow> globalTunable list" where
  "globalTunables sc =
     (let (cipher, writeCipher) = desiredTLSCipherSuite sc in
      [(''olcToolThreads'', itoa (desiredToolThreads sc), True), (''olcPasswordHash'', desiredPasswordHash sc, True)] @
      (if tlsTunablesWritable sc
       then [(''olcTLSProtocolMin'', desiredTLSProtocolMin sc, True), (''olcTLSCipherSuite'', cipher, writeCipher)] else []))"

definition alignGlobal :: "ldap_srv \<Rightarrow> string \<Rightarrow> globalTunable \<Rightarrow> step" where
  "alignGlobal srv addr w =
     (case w of (attr, value, wr) \<Rightarrow>
        let dn = tunableEntryDN attr in
        reading srv addr dn attr (\<lambda>current.
          if \<not> wr
          then (if current = [] then skip
                else wrapErr ''delete'' [MStr attr, MStr dn, MStr addr] (modify1 srv addr dn OpDelete attr []))
          else if length current = 1 \<and> equal_fold (trim_space (hd current)) value then skip
          else wrapErr ''set'' [MStr attr, MStr dn, MStr addr] (modify1 srv addr dn OpReplace attr [value])))"

definition retireGlobal :: "ldap_srv \<Rightarrow> string \<Rightarrow> globalTunable \<Rightarrow> step" where
  "retireGlobal srv addr w =
     (case w of (attr, value, wr) \<Rightarrow>
        reading srv addr configDN attr (\<lambda>stale.
          if stale = [] then skip
          else wrapErr ''delete deprecated'' [MStr attr, MStr addr] (modify1 srv addr configDN OpDelete attr [])))"

definition ensureGlobalTunables :: "ldap_srv \<Rightarrow> string \<Rightarrow> SlapdCluster \<Rightarrow> step" where
  "ensureGlobalTunables srv addr sc =
     (let wants = globalTunables sc;
          moved = filter (\<lambda>(attr, value, wr). tunableEntryDN attr \<noteq> configDN \<and> wr) wants in
      runConvergenceSteps (map (\<lambda>w. (fst w, alignGlobal srv addr w)) wants @
        map (\<lambda>w. (fst w @ ''@cn=config(retire)'', retireGlobal srv addr w)) moved))"

section \<open>The monitor database\<close>

definition monitorDBACL :: string where
  "monitorDBACL = ''to * by dn.children=\"'' @ AuthSuffix @ ''\" read'' @
     '' by dn.children=\"cn=peercred,cn=external,cn=auth\" read'' @ '' by * none''"

record monitorPlan =
  mon_addDB :: bool
  mon_replaceACL :: bool

definition planMonitor :: "string \<Rightarrow> string list \<Rightarrow> monitorPlan" where
  "planMonitor monitorDBDN currentACL =
     (if monitorDBDN = [] then \<lparr>mon_addDB = True, mon_replaceACL = False\<rparr>
      else \<lparr>mon_addDB = False, mon_replaceACL = \<not> aclsMatch currentACL [monitorDBACL]\<rparr>)"

definition monitorDBAddRequest :: "(string \<times> string list) list" where
  "monitorDBAddRequest =
     [(''objectClass'', [''olcDatabaseConfig'', ''olcMonitorConfig'']), (''olcDatabase'', [''monitor'']),
      (''olcRootDN'', [configAdminDN]), (''olcAccess'', [''{0}'' @ monitorDBACL])]"

definition findMonitorDB :: "overlay_search \<Rightarrow> history \<Rightarrow> string \<Rightarrow> message + string \<times> string list" where
  "findMonitorDB ovs h addr =
     (case ovs h addr configDN ''olcMonitorConfig'' of
        Inl e \<Rightarrow> Inl (Msg ''search for the monitor database'' [MMsg e])
      | Inr [] \<Rightarrow> Inr ([], [])
      | Inr ((dn, e) # _) \<Rightarrow> Inr (dn, e ''olcAccess''))"

definition ensureMonitorDatabase :: "ldap_srv \<Rightarrow> overlay_search \<Rightarrow> string \<Rightarrow> step" where
  "ensureMonitorDatabase srv ovs addr h =
     (case findMonitorDB ovs h addr of
        Inl e \<Rightarrow> (Some e, h)
      | Inr (dbDN, acl) \<Rightarrow>
          (let plan = planMonitor dbDN acl;
               add = (\<lambda>h. case guardedAdd srv h addr ''olcDatabase=monitor,cn=config'' monitorDBAddRequest of
                   (None, h') \<Rightarrow> (None, h')
                 | (Some e, h') \<Rightarrow>
                     (case findMonitorDB ovs h' addr of
                        Inr (c # cs, acl') \<Rightarrow> (None, h')
                      | _ \<Rightarrow> (Some (Msg ''add monitor database'' [MStr addr, MMsg e]), h'))) in
           andThen (if mon_addDB plan then add else skip)
             (if mon_replaceACL plan
              then wrapErr ''set olcAccess'' [MStr dbDN, MStr addr] (modify1 srv addr dbDN OpReplace ''olcAccess'' [monitorDBACL])
              else skip) h))"

definition ensureMonitorBeforeDBAdd :: "ldap_srv \<Rightarrow> overlay_search \<Rightarrow> string \<Rightarrow> history \<Rightarrow> history" where
  "ensureMonitorBeforeDBAdd srv ovs addr h = snd (ensureMonitorDatabase srv ovs addr h)"

section \<open>The pods\<close>

definition reconcilePodInfrastructure :: "ldap_srv \<Rightarrow> overlay_search \<Rightarrow> string \<Rightarrow> SlapdCluster \<Rightarrow> step" where
  "reconcilePodInfrastructure srv ovs addr sc =
     runConvergenceSteps
       [(''global tunables'', ensureGlobalTunables srv addr sc), (''monitor database'', ensureMonitorDatabase srv ovs addr),
        (''auth database'', ensureAuthDB srv addr)]"

definition reconcilePodTunables :: "ldap_srv \<Rightarrow> overlay_search \<Rightarrow> string \<Rightarrow> string \<Rightarrow> SlapdCluster \<Rightarrow> step" where
  "reconcilePodTunables srv ovs host configPW sc h =
     (let addr = podAddr host in
      case srv_Dial srv h addr of
        Some err \<Rightarrow> (Some (Msg ''dial'' [MStr addr, MMsg err]), h)
      | None \<Rightarrow>
      case srv_Bind srv h addr configAdminDN configPW of
        Some err \<Rightarrow> (Some (Msg ''bind'' [MStr host, MMsg err]), h)
      | None \<Rightarrow> reconcilePodInfrastructure srv ovs addr sc h)"

text \<open>The pods in order, read-write first; an error is logged and the next pod follows.\<close>

definition reconcileTunables ::
  "ldap_srv \<Rightarrow> overlay_search \<Rightarrow> message + string \<Rightarrow> string \<Rightarrow> SlapdCluster \<Rightarrow> history \<Rightarrow> history" where
  "reconcileTunables srv ovs password domain sc h =
     (case password of
        Inl err \<Rightarrow> h
      | Inr configPW \<Rightarrow> foldl (\<lambda>h (host, ro). snd (reconcilePodTunables srv ovs host configPW sc h)) h (identityTargets sc domain))"

end
