(* ===== verification/Server_Settle.thy ===== *)
theory Server_Settle
  imports Server_Infra
begin

text \<open>
  The server-wide tunables of \<open>Server_Infra\<close> converge independently: an attribute the server refuses stalls neither the other
  attributes nor the databases behind them, and over a server that keeps what it accepts a pass without an error settles
  everything. An attribute of an entry is a cell; a pass is a list of steps on different cells, each under the contract
  \<open>attr_step\<close>.
\<close>

section \<open>Steps on different cells\<close>

type_synonym cell = "string \<times> string \<times> step \<times> (string list \<Rightarrow> bool)"

definition cells_ok :: "ldap_srv \<Rightarrow> string \<Rightarrow> cell list \<Rightarrow> bool" where
  "cells_ok srv addr cs \<longleftrightarrow> distinct (map (\<lambda>(dn, a, f, ok). (dn, a)) cs) \<and> (\<forall>(dn, a, f, ok) \<in> set cs. attr_step srv addr dn a f ok)"

text \<open>A request the server refuses changes no value.\<close>

definition inert :: "ldap_srv \<Rightarrow> string \<Rightarrow> bool" where
  "inert srv addr \<longleftrightarrow> (\<forall>h dn ch dn' a. srv_Write srv h (ModifyReq addr dn ch) \<noteq> None \<longrightarrow>
     value_at srv (h @ [ModifyReq addr dn ch]) addr dn' a = value_at srv h addr dn' a)"

fun pass_cells :: "cell list \<Rightarrow> history \<Rightarrow> history" where
  "pass_cells [] h = h"
| "pass_cells ((dn, a, f, ok) # cs) h = pass_cells cs (snd (f h))"

lemma cells_ok_Cons [simp]:
  "cells_ok srv addr ((dn, a, f, ok) # cs) \<longleftrightarrow>
     (dn, a) \<notin> (\<lambda>(dn, a, f, ok). (dn, a)) ` set cs \<and> attr_step srv addr dn a f ok \<and> cells_ok srv addr cs"
  by (auto simp: cells_ok_def)

lemma step_elsewhere:
  assumes "keeps srv addr" "inert srv addr" "attr_step srv addr dn a f ok" "(dn', a') \<noteq> (dn, a)"
  shows "value_at srv (snd (f h)) addr dn' a' = value_at srv h addr dn' a'"
proof -
  consider "snd (f h) = h" | op vals where "snd (f h) = h @ [ModifyReq addr dn [(op, a, vals)]]"
    using attr_step.writes [OF assms(3), of h] by blast
  then show ?thesis
  proof cases
    case 2
    show ?thesis
    proof (cases "srv_Write srv h (ModifyReq addr dn [(op, a, vals)])")
      case None
      then have "value_at srv (h @ [ModifyReq addr dn [(op, a, vals)]]) addr dn' a' =
          (if dn' = dn then foldl (change a') (value_at srv h addr dn a') [(op, a, vals)] else value_at srv h addr dn' a')"
        using assms(1) unfolding keeps_def by blast
      then show ?thesis using 2 assms(4) by auto
    next
      case (Some e)
      then show ?thesis using 2 assms(2) unfolding inert_def by auto
    qed
  qed simp
qed

lemma cells_elsewhere:
  assumes "keeps srv addr" "inert srv addr"
  shows "cells_ok srv addr cs \<Longrightarrow> (dn, a) \<notin> (\<lambda>(dn, a, f, ok). (dn, a)) ` set cs \<Longrightarrow>
    value_at srv (pass_cells cs h) addr dn a = value_at srv h addr dn a"
proof (induction cs arbitrary: h)
  case (Cons c cs)
  obtain dn' a' f ok where c: "c = (dn', a', f, ok)" by (cases c)
  have "value_at srv (snd (f h)) addr dn a = value_at srv h addr dn a"
    by (rule step_elsewhere [OF assms, of dn' a' f ok]) (use Cons.prems c in auto)
  then show ?case using Cons c by simp
qed simp

text \<open>A step that ends without an error whenever it is reached leaves its cell settled, whatever the other steps answer.\<close>

lemma cell_settles:
  assumes "keeps srv addr" "inert srv addr"
  shows "cells_ok srv addr cs \<Longrightarrow> (dn, a, f, ok) \<in> set cs \<Longrightarrow> (\<And>h. fst (f h) = None) \<Longrightarrow>
    ok (value_at srv (pass_cells cs h) addr dn a)"
proof (induction cs arbitrary: h)
  case (Cons c cs)
  obtain dn' a' f' ok' where c: "c = (dn', a', f', ok')" by (cases c)
  show ?case
  proof (cases "c = (dn, a, f, ok)")
    case True
    then have st: "attr_step srv addr dn a f ok" "cells_ok srv addr cs" "(dn, a) \<notin> (\<lambda>(dn, a, f, ok). (dn, a)) ` set cs"
      using Cons.prems(1) by auto
    have "f h = (None, snd (f h))" using Cons.prems(3) [of h] by (cases "f h") simp
    then have "ok (value_at srv (snd (f h)) addr dn a)" by (rule attr_step.settles [OF st(1) assms(1)])
    then show ?thesis using cells_elsewhere [OF assms st(2,3)] True by simp
  next
    case False
    then show ?thesis using Cons c by auto
  qed
qed simp

section \<open>A run of independent steps\<close>

lemma collectErrors_history: "snd (collectErrors steps h) = foldl (\<lambda>h (n, f). snd (f h)) h steps"
proof (induction steps arbitrary: h)
  case (Cons s steps)
  obtain n f where "s = (n, f)" by (cases s)
  moreover obtain errs h2 where c: "collectErrors steps (snd (f h)) = (errs, h2)" by fastforce
  moreover have "h2 = foldl (\<lambda>h (n, f). snd (f h)) (snd (f h)) steps" using Cons [of "snd (f h)"] c by simp
  ultimately show ?case by (cases "f h") (auto split: option.splits)
qed simp

lemma fold_cells:
  "map snd ss = map (\<lambda>(dn, a, f, ok). f) ds \<Longrightarrow> foldl (\<lambda>h (n, f). snd (f h)) h ss = pass_cells ds h"
  by (induction ds arbitrary: ss h) auto

lemma run_history: "snd (runConvergenceSteps steps h) = foldl (\<lambda>h (n, f). snd (f h)) h steps"
  by (simp add: runConvergenceSteps_def collectErrors_history [symmetric] split: prod.splits)

lemma run_None_Cons:
  "fst (runConvergenceSteps ((n, f) # steps) h) = None \<longleftrightarrow> fst (f h) = None \<and> fst (runConvergenceSteps steps (snd (f h))) = None"
  by (cases "f h"; cases "fst (f h)") (auto simp: runConvergenceSteps_def split: prod.splits if_splits)

lemma run_None_Nil: "runConvergenceSteps [] h = (None, h)"
  by (simp add: runConvergenceSteps_def)

text \<open>A run that ends without an error is a pass of steps that all do.\<close>

lemma run_settles:
  assumes "keeps srv addr" "inert srv addr"
  shows "cells_ok srv addr cs \<Longrightarrow> map snd steps = map (\<lambda>(dn, a, f, ok). f) cs \<Longrightarrow> fst (runConvergenceSteps steps h) = None \<Longrightarrow>
    \<forall>(dn, a, f, ok) \<in> set cs. ok (value_at srv (snd (runConvergenceSteps steps h)) addr dn a)"
proof (induction cs arbitrary: h steps)
  case (Cons c cs)
  obtain dn a f ok where c: "c = (dn, a, f, ok)" by (cases c)
  obtain n rest where steps: "steps = (n, f) # rest" "map snd rest = map (\<lambda>(dn, a, f, ok). f) cs"
    using Cons.prems(2) c by (cases steps) auto
  have st: "attr_step srv addr dn a f ok" "cells_ok srv addr cs" "(dn, a) \<notin> (\<lambda>(dn, a, f, ok). (dn, a)) ` set cs"
    using Cons.prems(1) c by auto
  have none: "f h = (None, snd (f h))" "fst (runConvergenceSteps rest (snd (f h))) = None"
    using Cons.prems(3) steps(1) run_None_Cons [of n f rest h] by (auto simp: prod_eq_iff)
  have after: "snd (runConvergenceSteps steps h) = snd (runConvergenceSteps rest (snd (f h)))" by (simp add: run_history steps(1))
  have "snd (runConvergenceSteps rest (snd (f h))) = pass_cells cs (snd (f h))"
    unfolding run_history by (rule fold_cells [OF steps(2)])
  moreover have "ok (value_at srv (snd (f h)) addr dn a)" using attr_step.settles [OF st(1) assms(1) none(1)] .
  ultimately have "ok (value_at srv (snd (runConvergenceSteps steps h)) addr dn a)"
    using cells_elsewhere [OF assms st(2,3)] after by simp
  moreover have "\<forall>(dn, a, f, ok) \<in> set cs. ok (value_at srv (snd (runConvergenceSteps steps h)) addr dn a)"
    using Cons.IH [OF st(2) steps(2) none(2)] after by simp
  ultimately show ?case using c by simp
qed simp

lemma run_quiet:
  assumes "keeps srv addr"
  shows "cells_ok srv addr cs \<Longrightarrow> map snd steps = map (\<lambda>(dn, a, f, ok). f) cs \<Longrightarrow>
    \<forall>(dn, a, f, ok) \<in> set cs. ok (value_at srv h addr dn a) \<Longrightarrow> runConvergenceSteps steps h = (None, h)"
proof (induction cs arbitrary: steps)
  case (Cons c cs)
  obtain dn a f ok where c: "c = (dn, a, f, ok)" by (cases c)
  obtain n rest where steps: "steps = (n, f) # rest" "map snd rest = map (\<lambda>(dn, a, f, ok). f) cs"
    using Cons.prems(2) c by (cases steps) auto
  have "f h = (None, h)" by (rule attr_step.quiet [of srv addr dn a f ok, OF _ assms]) (use Cons.prems c in auto)
  moreover have "runConvergenceSteps rest h = (None, h)" using Cons c steps by auto
  ultimately show ?case using steps(1) run_None_Cons [of n f rest h] run_history [of steps h] run_history [of rest h]
    by (simp add: prod_eq_iff)
qed (simp add: run_None_Nil)

section \<open>The tunables of a server\<close>

lemma global_not_denied [simp]:
  "\<not> denied ''olcToolThreads''" "\<not> denied ''olcPasswordHash''" "\<not> denied ''olcTLSProtocolMin''" "\<not> denied ''olcTLSCipherSuite''"
  by code_simp+

lemma alignGlobal_step:
  assumes "\<not> denied attr" "\<And>vals. stored attr vals = vals" "trim_space val = val"
  shows "attr_step srv addr (tunableEntryDN attr) attr (alignGlobal srv addr (attr, val, wr)) (tunable_ok val wr)"
proof -
  let ?dn = "tunableEntryDN attr"
  let ?f = "\<lambda>cur. if \<not> wr then wrapErr ''delete'' [MStr attr, MStr ?dn, MStr addr] (modify1 srv addr ?dn OpDelete attr [])
    else wrapErr ''set'' [MStr attr, MStr ?dn, MStr addr] (modify1 srv addr ?dn OpReplace attr [val])"
  have "alignGlobal srv addr (attr, val, wr) = reading srv addr ?dn attr (\<lambda>cur. if tunable_ok val wr cur then skip else ?f cur)"
    by (auto simp: alignGlobal_def tunable_ok_def Let_def intro!: arg_cong [where f = "reading srv addr ?dn attr"])
  moreover have "attr_step srv addr ?dn attr (reading srv addr ?dn attr (\<lambda>cur. if tunable_ok val wr cur then skip else ?f cur))
      (tunable_ok val wr)"
    by (rule reading_step, rule exI [of _ "if wr then OpReplace else OpDelete"], rule exI [of _ "if wr then [val] else []"])
      (use assms in \<open>simp add: tunable_ok_def sends_wrap sends_modify1\<close>)
  ultimately show ?thesis by simp
qed

lemma retireGlobal_step:
  assumes "\<not> denied attr"
  shows "attr_step srv addr configDN attr (retireGlobal srv addr (attr, val, wr)) (\<lambda>v. v = [])"
  unfolding retireGlobal_def prod.case
  by (rule reading_step, rule exI [of _ OpDelete], rule exI [of _ "[]"]) (use assms in \<open>simp add: sends_wrap sends_modify1\<close>)

definition global_cells :: "ldap_srv \<Rightarrow> string \<Rightarrow> SlapdCluster \<Rightarrow> cell list" where
  "global_cells srv addr sc =
     map (\<lambda>(attr, val, wr). (tunableEntryDN attr, attr, alignGlobal srv addr (attr, val, wr), tunable_ok val wr)) (globalTunables sc) @
     [(configDN, ''olcPasswordHash'', retireGlobal srv addr (''olcPasswordHash'', desiredPasswordHash sc, True), \<lambda>v. v = [])]"

lemma entry_DNs [simp]:
  "tunableEntryDN ''olcToolThreads'' = configDN" "tunableEntryDN ''olcPasswordHash'' = frontendDN"
  "tunableEntryDN ''olcTLSProtocolMin'' = configDN" "tunableEntryDN ''olcTLSCipherSuite'' = configDN" "frontendDN \<noteq> configDN"
  by code_simp+

lemma desired_trimmed:
  "trim_space (desiredPasswordHash sc) = desiredPasswordHash sc" "trim_space (desiredTLSProtocolMin sc) = desiredTLSProtocolMin sc"
  "trim_space (fst (desiredTLSCipherSuite sc)) = fst (desiredTLSCipherSuite sc)"
proof -
  have lits: "trim_space ''{SSHA}'' = ''{SSHA}''" "trim_space ''3.3'' = ''3.3''" "trim_space [] = []" by code_simp+
  show "trim_space (desiredPasswordHash sc) = desiredPasswordHash sc"
    using lits(1) unfolding desiredPasswordHash_def by (cases "spec_PasswordHash (sc_Spec sc)") (simp_all only: option.case trim_space_idem)
  show "trim_space (desiredTLSProtocolMin sc) = desiredTLSProtocolMin sc"
    using lits(2) unfolding desiredTLSProtocolMin_def by (cases "spec_TLSProtocolMin (sc_Spec sc)") (simp_all only: option.case trim_space_idem)
  show "trim_space (fst (desiredTLSCipherSuite sc)) = fst (desiredTLSCipherSuite sc)"
    using lits(3) unfolding desiredTLSCipherSuite_def Let_def
    by (cases "spec_TLSCipherSuite (sc_Spec sc)") (simp_all only: option.case fst_conv if_distrib [of fst] if_distrib [of trim_space] trim_space_idem)
qed

lemma globalTunables_split:
  "globalTunables sc = [(''olcToolThreads'', itoa (desiredToolThreads sc), True), (''olcPasswordHash'', desiredPasswordHash sc, True)] @
     (if tlsTunablesWritable sc
      then [(''olcTLSProtocolMin'', desiredTLSProtocolMin sc, True),
            (''olcTLSCipherSuite'', fst (desiredTLSCipherSuite sc), snd (desiredTLSCipherSuite sc))] else [])"
  unfolding globalTunables_def by (simp only: case_prod_beta Let_def)

lemma tunables_all:
  assumes "P (''olcToolThreads'', itoa (desiredToolThreads sc), True)" "P (''olcPasswordHash'', desiredPasswordHash sc, True)"
    "P (''olcTLSProtocolMin'', desiredTLSProtocolMin sc, True)"
    "\<And>w. P (''olcTLSCipherSuite'', fst (desiredTLSCipherSuite sc), w)"
  shows "\<forall>t \<in> set (globalTunables sc). P t"
  unfolding globalTunables_split
  by (simp only: set_append list.set Un_insert_left Un_empty_left ball_simps assms if_distrib [of set] if_True if_False simp_thms split: if_split)

lemma globalTunables_trimmed:
  assumes "(attr, val, wr) \<in> set (globalTunables sc)"
  shows "trim_space val = val" "\<not> denied attr" "stored attr vals = vals"
proof -
  have num: "trim_space (itoa n) = itoa n" for n by (rule no_space_trim [OF no_space_itoa])
  have plain: "stored ''olcToolThreads'' vals = vals" "stored ''olcPasswordHash'' vals = vals" "stored ''olcTLSProtocolMin'' vals = vals"
    "stored ''olcTLSCipherSuite'' vals = vals"
    by (simp_all add: stored_def)
  have "\<forall>t \<in> set (globalTunables sc). (case t of (attr, val, wr) \<Rightarrow> trim_space val = val \<and> \<not> denied attr \<and> stored attr vals = vals)"
    by (rule tunables_all) (simp_all only: prod.case desired_trimmed num global_not_denied plain simp_thms)
  with assms show "trim_space val = val" "\<not> denied attr" "stored attr vals = vals" by blast+
qed

lemma global_cells_ok: "cells_ok srv addr (global_cells srv addr sc)"
proof -
  have "attr_step srv addr (tunableEntryDN attr) attr (alignGlobal srv addr (attr, val, wr)) (tunable_ok val wr)"
    if "(attr, val, wr) \<in> set (globalTunables sc)" for attr val wr
    by (rule alignGlobal_step) (rule globalTunables_trimmed [OF that])+
  moreover have "attr_step srv addr configDN ''olcPasswordHash'' (retireGlobal srv addr (''olcPasswordHash'', desiredPasswordHash sc, True)) (\<lambda>v. v = [])"
    by (rule retireGlobal_step) simp
  ultimately have "\<forall>(dn, a, f, ok) \<in> set (global_cells srv addr sc). attr_step srv addr dn a f ok" by (auto simp: global_cells_def)
  moreover have "distinct (map (\<lambda>(dn, a, f, ok). (dn, a)) (global_cells srv addr sc))"
    by (cases "desiredTLSCipherSuite sc"; cases "tlsTunablesWritable sc") (simp_all add: global_cells_def globalTunables_def)
  ultimately show ?thesis by (simp add: cells_ok_def)
qed

definition global_steps :: "ldap_srv \<Rightarrow> string \<Rightarrow> SlapdCluster \<Rightarrow> (string \<times> step) list" where
  "global_steps srv addr sc =
     (let wants = globalTunables sc; moved = filter (\<lambda>(attr, value, wr). tunableEntryDN attr \<noteq> configDN \<and> wr) wants in
      map (\<lambda>w. (fst w, alignGlobal srv addr w)) wants @ map (\<lambda>w. (fst w @ ''@cn=config(retire)'', retireGlobal srv addr w)) moved)"

lemma ensureGlobalTunables_run: "ensureGlobalTunables srv addr sc = runConvergenceSteps (global_steps srv addr sc)"
  by (simp add: ensureGlobalTunables_def global_steps_def Let_def fun_eq_iff)

lemma steps_are_cells: "map snd (global_steps srv addr sc) = map (\<lambda>(dn, a, f, ok). f) (global_cells srv addr sc)"
  by (simp add: global_steps_def global_cells_def globalTunables_def Let_def split: prod.splits)

lemma pass_is_cells: "snd (ensureGlobalTunables srv addr sc h) = pass_cells (global_cells srv addr sc) h"
  unfolding ensureGlobalTunables_run run_history by (rule fold_cells [OF steps_are_cells])

lemma alignGlobal_accepted:
  assumes "keeps srv addr" "\<not> denied attr"
    and "\<And>h op vals. srv_Write srv h (ModifyReq addr (tunableEntryDN attr) [(op, attr, vals)]) = None"
  shows "fst (alignGlobal srv addr (attr, val, wr) h) = None"
  using assms
  by (simp add: alignGlobal_def Let_def keeps_reading skip_def wrapErr_def guardedModify_def denied_def send_def)

text \<open>
  C17. No refusal stalls anything else on a pod: whatever the server answers to the other requests, a tunable whose own writes
  it accepts has its desired value after the pass, and the monitor and the auth database are converged from there; the pass
  reports an error exactly when one of the three did.
\<close>

theorem one_refusal_stalls_nothing:
  assumes "keeps srv addr" and "inert srv addr" and "(attr, val, wr) \<in> set (globalTunables sc)"
    and "\<And>h op vals. srv_Write srv h (ModifyReq addr (tunableEntryDN attr) [(op, attr, vals)]) = None"
  shows "\<exists>hg hm. snd (ensureGlobalTunables srv addr sc h) = hg \<and> snd (ensureMonitorDatabase srv ovs addr hg) = hm \<and>
    tunable_ok val wr (value_at srv hg addr (tunableEntryDN attr) attr) \<and>
    snd (reconcilePodInfrastructure srv ovs addr sc h) = snd (ensureAuthDB srv addr hm) \<and>
    (fst (reconcilePodInfrastructure srv ovs addr sc h) = None \<longleftrightarrow>
       fst (ensureGlobalTunables srv addr sc h) = None \<and> fst (ensureMonitorDatabase srv ovs addr hg) = None \<and>
       fst (ensureAuthDB srv addr hm) = None)"
proof -
  have cell: "(tunableEntryDN attr, attr, alignGlobal srv addr (attr, val, wr), tunable_ok val wr) \<in> set (global_cells srv addr sc)"
    using assms(3) by (force simp: global_cells_def)
  have "fst (alignGlobal srv addr (attr, val, wr) h) = None" for h
    by (rule alignGlobal_accepted [OF assms(1) globalTunables_trimmed(2) [OF assms(3)] assms(4)])
  then have "tunable_ok val wr (value_at srv (snd (ensureGlobalTunables srv addr sc h)) addr (tunableEntryDN attr) attr)"
    unfolding pass_is_cells by (rule cell_settles [OF assms(1,2) global_cells_ok cell])
  then show ?thesis
    by (simp add: reconcilePodInfrastructure_def run_history run_None_Cons run_None_Nil)
qed

text \<open>
  C40. The server-wide tunables settle: when a pass ends without an error every tunable has its desired value, one the operator
  does not want is gone, the deprecated global copy of the password scheme is gone, and the next pass sends nothing.
\<close>

theorem global_tunables_settle:
  assumes "keeps srv addr" and "inert srv addr" and "ensureGlobalTunables srv addr sc h = (None, h')"
  shows "(\<forall>(attr, val, wr) \<in> set (globalTunables sc). tunable_ok val wr (value_at srv h' addr (tunableEntryDN attr) attr)) \<and>
    value_at srv h' addr configDN ''olcPasswordHash'' = [] \<and>
    ensureGlobalTunables srv addr sc h' = (None, h')"
proof -
  have run: "runConvergenceSteps (global_steps srv addr sc) h = (None, h')" using assms(3) by (simp add: ensureGlobalTunables_run)
  then have n: "fst (runConvergenceSteps (global_steps srv addr sc) h) = None" by simp
  have ok: "\<forall>(dn, a, f, ok) \<in> set (global_cells srv addr sc). ok (value_at srv h' addr dn a)"
    using run_settles [OF assms(1,2) global_cells_ok steps_are_cells n] run by simp
  then have "ensureGlobalTunables srv addr sc h' = (None, h')"
    unfolding ensureGlobalTunables_run by (rule run_quiet [OF assms(1) global_cells_ok steps_are_cells])
  then show ?thesis using ok by (auto simp: global_cells_def)
qed

text \<open>A server that refuses the requests that name one of some attributes, and keeps the others.\<close>

definition refuses :: "string list \<Rightarrow> cfg_request \<Rightarrow> bool" where
  "refuses names q \<longleftrightarrow> list_ex (\<lambda>n. n \<in> set names) (req_names q)"

definition picky_srv :: "string list \<Rightarrow> cfg_store \<Rightarrow> ldap_srv" where
  "picky_srv names init = (store_srv init)\<lparr>
     srv_Read := (\<lambda>h a dn. Inr [foldl (\<lambda>st q. if refuses names q then st else apply_req st q) init h a dn]),
     srv_Write := (\<lambda>h q. if refuses names q then Some (ldapError 53 ''unwilling to perform'') else None)\<rparr>"

lemma picky_keeps: "keeps (picky_srv names init) addr"
  by (simp add: keeps_def picky_srv_def value_at_def)

lemma picky_inert: "inert (picky_srv names init) addr"
  by (simp add: inert_def picky_srv_def value_at_def)

theorem one_refusal_stalls_nothing_witness:
  "let srv = picky_srv [''olcTLSProtocolMin''] (\<lambda>_ _ _. []); h = snd (ensureGlobalTunables srv ''a:1024'' base_cluster []) in
   fst (ensureGlobalTunables srv ''a:1024'' base_cluster []) \<noteq> None \<and>
   tunable_ok ''{SSHA}'' True (value_at srv h ''a:1024'' frontendDN ''olcPasswordHash'')"
proof -
  let ?srv = "picky_srv [''olcTLSProtocolMin''] (\<lambda>_ _ _. [])"
  have m: "(''olcPasswordHash'', ''{SSHA}'', True) \<in> set (globalTunables base_cluster)" by code_simp
  have "srv_Write ?srv h (ModifyReq ''a:1024'' (tunableEntryDN ''olcPasswordHash'') [(op, ''olcPasswordHash'', vals)]) = None" for h op vals
    by (simp add: picky_srv_def refuses_def)
  then have "tunable_ok ''{SSHA}'' True
      (value_at ?srv (snd (ensureGlobalTunables ?srv ''a:1024'' base_cluster [])) ''a:1024'' frontendDN ''olcPasswordHash'')"
    using one_refusal_stalls_nothing [OF picky_keeps picky_inert m, of "[''olcTLSProtocolMin'']" "\<lambda>_ _ _. []" "''a:1024''" "[]" "\<lambda>_ _ _ _. Inr []"] by auto
  moreover have "fst (ensureGlobalTunables ?srv ''a:1024'' base_cluster []) \<noteq> None" by code_simp
  ultimately show ?thesis by (simp add: Let_def)
qed

theorem global_tunables_settle_witness:
  "let srv = picky_srv [] (\<lambda>_ dn attr. if attr = ''olcPasswordHash'' \<and> dn = configDN then [''{SSHA}''] else []);
       h = snd (ensureGlobalTunables srv ''a:1024'' base_cluster []) in
   length h = 4 \<and> ensureGlobalTunables srv ''a:1024'' base_cluster h = (None, h)"
proof -
  let ?srv = "picky_srv [] (\<lambda>_ dn attr. if attr = ''olcPasswordHash'' \<and> dn = configDN then [''{SSHA}''] else [])"
  let ?h = "snd (ensureGlobalTunables ?srv ''a:1024'' base_cluster [])"
  have r: "fst (ensureGlobalTunables ?srv ''a:1024'' base_cluster []) = None" "length ?h = 4" by code_simp+
  then have "ensureGlobalTunables ?srv ''a:1024'' base_cluster [] = (None, ?h)" by (simp add: prod_eq_iff)
  from global_tunables_settle [OF picky_keeps picky_inert this] r(2) show ?thesis by (simp add: Let_def)
qed

end
