(* ===== verification/Spec2Isabelle.thy ===== *)
theory Spec2Isabelle
  imports Syncrepl Mesh_Resolve Csn_Convergence Write_Service Config_Settle Data_Present Sessionlog Accesslog_Purge
    Identity_Gate Restore_Types Backup_Trace Schedule_Trace Server_Settle
begin

text \<open>
  Slaptain is a Kubernetes operator for OpenLDAP. A SlapdCluster is a fleet of slapd pods (read-write
  and read-only StatefulSets), a SlapdDatabase a suffix served on every pod of one cluster, a
  SlapdMesh a set of sites whose clusters replicate with each other; a SlapdBackup is one dump of a
  database in an object store, a SlapdScheduledBackup takes them by a schedule, a SlapdRestore asks for
  one to be loaded. The controllers under
  \<open>src/operator/internal/controller\<close> read these resources, decide, and write cn=config over LDAP, the
  Kubernetes objects of the fleet and the conditions of the resources. This development models the
  decisions with their effects; what is read from outside (the Kubernetes client, the LDAP servers,
  the object store, the clock, the cron library, \<open>time.ParseDuration\<close>) is an argument of the definitions,
  and what a statement needs of it is a hypothesis of that statement.

  \<^bold>\<open>The theories and the code.\<close>

  \<^item> \<open>Go_Prelude\<close>, \<open>Go_Text\<close>, \<open>Go_Time\<close>: int32 and int64 with their wrap-around, durations and instants, decimal
    rendering and \<open>strconv.ParseInt\<close>, \<open>strings\<close> on byte strings, and the civil date of a time stamp.
    \<open>Api_Types\<close>: the resources of \<open>api/v1alpha1\<close> as records, conditions.
  \<^item> \<open>Rid_Coord\<close> (\<open>ridcoord.go\<close>): the replica-ID matrix; encoders and decoder are exact inverses and
    stay in 1..999. The locale \<open>rid_scheme\<close> states the contract its clients use.
    \<open>Rid_Stanza\<close>, \<open>Rid_Segment\<close>, \<open>Peer_Resolve\<close> (\<open>ridstanza.go\<close>, \<open>ridsegment.go\<close>, \<open>ridpeerresolve.go\<close>): the
    judgements and the gate in front of the replication pass.
  \<^item> \<open>Providers\<close> (\<open>providers.go\<close>): pod names and provider addresses. \<open>Mesh_Derive\<close>, \<open>Mesh_Resolve\<close>
    (\<open>mesh_derive.go\<close>, \<open>mesh_resolve.go\<close>): serverID bases and external peers derived from a mesh.
  \<^item> \<open>Csn\<close>, \<open>Csn_Convergence\<close> (\<open>csn.go\<close>, \<open>csn_convergence.go\<close>): the replication verdicts.
  \<^item> \<open>Ldap_Write\<close> (\<open>startup_only_guard.go\<close>): requests to the pods' servers as a history, and the guard in
    front of them. \<open>Syncrepl_Build\<close> and \<open>Syncrepl\<close> (\<open>slapddatabase_controller.go\<close>): the syncrepl stanzas
    and the replication pass over all pods; the locale \<open>pod_writer\<close> is the contract of its two pod loops.
  \<^item> \<open>Purge_Rotation\<close>, \<open>Rotation_Gate\<close>, \<open>Write_Service\<close> (\<open>purgerotation.go\<close>, \<open>rotation_gate.go\<close>,
    \<open>writeservice.go\<close>, \<open>writerotation.go\<close>): the purge grid, the plan resolved from the spec, and the write
    endpoint, with the Service kept by the API server as the state of a step relation.
  \<^item> \<open>Config_Attr\<close>, \<open>Config_Settle\<close>, \<open>Overlay\<close> (\<open>scale_tunables.go\<close>, \<open>slapddatabase_tunables.go\<close>): the converged
    attributes of a database entry, as steps over the history (\<open>step\<close>, \<open>andThen\<close>).
    \<open>Sessionlog\<close> (\<open>startup_config.go\<close>, \<open>startup_config_converged.go\<close>) and \<open>Accesslog_Purge\<close>
    (\<open>accesslog_purge_converged.go\<close>): the overlays whose values depend on the pod.
  \<^item> \<open>Server_Infra\<close>, \<open>Server_Settle\<close> (\<open>slapdcluster_tunables.go\<close>, \<open>slapdcluster_monitor.go\<close>, \<open>podinfra.go\<close>): what the
    cluster controller converges on every pod beside the databases - the global tunables, the monitor and the auth
    database - as a run of independent steps whose errors are collected, each on a cell of its own.
  \<^item> \<open>Seed\<close> (\<open>seed_site.go\<close>, \<open>seed_withhold.go\<close>), \<open>Data_Present\<close> (\<open>data_present.go\<close>, \<open>databasephase.go\<close>,
    \<open>suffixprobe.go\<close>): seeding by the founder site, and whether the data of a database is there.
  \<^item> \<open>Ssha\<close> (password hashes, with SHA-1 and base64 executable), \<open>Auth_Identity\<close> (\<open>authdb.go\<close>,
    \<open>slapdcluster_authdb.go\<close>, \<open>slapddatabase_authdb.go\<close>, \<open>replidentity.go\<close>) and \<open>Identity_Gate\<close>: the identities the
    stanzas bind as, and the step of the database pass that waits for them.
  \<^item> \<open>Image_Ref\<close> (\<open>imageselector.go\<close>), \<open>Backup_Artifact\<close> (\<open>internal/backup/s3.go\<close>), \<open>Restore_Job\<close>, \<open>Restore\<close>
    (\<open>restore_job.go\<close>, \<open>job_reap.go\<close>, \<open>slapdcluster_restore.go\<close>): the restore machine as one pass over the
    namespace. \<open>Restore_Window\<close> holds what one pass promises, \<open>Restore_Fleet\<close> what a window does to its end,
    \<open>Restore_Trace\<close> the step relation of controller, kubelet, Jobs and users with its invariant, \<open>Restore_Types\<close>
    the well-formedness of the objects.
  \<^item> \<open>Backup\<close>, \<open>Backup_Trace\<close> (\<open>slapdbackup_controller.go\<close>, \<open>backup_source.go\<close>, \<open>backup_job.go\<close>) and \<open>Scheduled_Backup\<close>,
    \<open>Schedule_Trace\<close> (\<open>slapdscheduledbackup_controller.go\<close>): the pass of a backup over the same namespace, and
    the schedules with their retention.

  \<^bold>\<open>What is shown.\<close> No two replication links of a pod share a RID, no pass deletes the link of a peer with a name of its
  own by writing a short stanza set, and an accepted configuration is written everywhere; the stanzas wait for the identities
  they bind as, unless the password is empty, and these converge; serverIDs of two sites never
  meet within the layout; a startup-only attribute is never written. The rotation
  gate decides the documented rules, the write endpoint always selects something real, and under the
  feasibility bound the pod it prefers keeps clear of every purge. The tunables settle, of a database and
  of a server, and an attribute a server refuses stalls nothing else. Only the founder seeds, and the loss of data that a stored
  status once recorded is alarmed. A restore destroys last, never runs a Job beside a read-write pod, marks only what was
  loaded, and hands the fleet back when its surroundings play their part; a backup is final and says what it was taken from, a
  restore reads what it uploaded, and retention removes only what is too old or too many.

  \<^bold>\<open>Bounds and hypotheses.\<close> Fleets of at most 2^30 pods, so that the int32 index arithmetic of
  \<open>writeTarget\<close> is exact; instants within 2^62 seconds of the epoch (\<open>sane_time\<close>); a rotation period n*t
  below 2^63 nanoseconds (\<open>rotation_fits\<close>; \<open>interval_wraps\<close> shows what happens beyond it); distinct names of
  external peers where a pass must succeed (\<open>shared_peer_name_short_set\<close> shows what happens
  otherwise); specs and clusterRefs of backups and their databases left alone where a restore reads the upload; a schedule whose next tick is later (\<open>due_time_exact\<close>); years of four digits in an object key. No model uses
  fuel: every loop is a recursion over a list, has a measure, or, for \<open>dueLoop\<close>, counts the rounds the code counts.

  \<^bold>\<open>What is simplified.\<close> A condition message is the name of its format with the values put into it. Log
  lines are left out. The reads of a pass are current. Instants keep their nanoseconds where the API server stores seconds.
  Pointers that every caller has checked are not options.

  \<^bold>\<open>Not modelled.\<close> Building the Kubernetes objects of a cluster (StatefulSets, probes, volumes), the
  schema controller, the slctl commands, the exporter, the metrics and the
  process entry points; the remaining parts of the two large controllers.
\<close>

section \<open>The gate and the pass\<close>

lemma declaredReplicas_le:
  "v_OK (judgeClusterFleet sc l) \<Longrightarrow> Validate l = None \<Longrightarrow> declaredReplicas sc \<le> PodsPerSite l"
  by (auto simp: judgeClusterFleet_OK_iff declaredReplicas_def Validate_None_iff split: if_splits)

lemma inClusterCount_le: "inClusterCount sc \<le> declaredReplicas sc"
  by (simp add: inClusterCount_def declaredReplicas_def)

text \<open>What an accepted segment and fleet give: every coordinate of a pod exists.\<close>

lemma accepted_coordinates:
  assumes "checkSegment l s = None" and "inClusterCount sc \<le> PodsPerSite l" and "peers_ok sc l"
  shows "k \<in> set [0..inClusterCount sc - 1] \<Longrightarrow> Local l s k = Inr (projr (Local l s k))"
    and "p \<in> set (repl_ExternalPeers (sc_Replication sc)) \<Longrightarrow>
      Remote l s (the (peer_SiteIndex p)) = Inr (peerRID l s p)"
proof -
  assume "k \<in> set [0..inClusterCount sc - 1]"
  then have "\<exists>r. Local l s k = Inr r" using assms(1,2) by (simp add: Local_Inr_iff)
  then show "Local l s k = Inr (projr (Local l s k))" by auto
next
  assume "p \<in> set (repl_ExternalPeers (sc_Replication sc))"
  then have "\<exists>r. Remote l s (the (peer_SiteIndex p)) = Inr r"
    using assms(1,3) by (auto simp: Remote_Inr_iff peers_ok_def)
  then show "Remote l s (the (peer_SiteIndex p)) = Inr (peerRID l s p)" by (auto simp: peerRID_def)
qed

lemma podRIDs_issued:
  assumes "checkSegment l s = None" and "inClusterCount sc \<le> PodsPerSite l" and "peers_ok sc l"
  shows "set (podRIDs l s sc i) \<subseteq> rid.issued l s \<and> distinct (podRIDs l s sc i)"
proof
  note loc = accepted_coordinates(1) [OF assms] and rem = accepted_coordinates(2) [OF assms]
  let ?ps = "repl_ExternalPeers (sc_Replication sc)"
  show "set (podRIDs l s sc i) \<subseteq> rid.issued l s"
    using loc rem by (fastforce simp: podRIDs_def localRIDs_def rid.issued_def)
  have "inj_on (\<lambda>k. projr (Local l s k)) (set [0..inClusterCount sc - 1])"
    using loc by (intro inj_onI) (metis rid.loc_inj)
  then have "distinct (localRIDs l s (inClusterCount sc) (Some i))"
    unfolding localRIDs_def by (auto simp: distinct_map inj_on_def)
  moreover have "inj_on (peerRID l s) (set ?ps)"
  proof (rule inj_onI)
    fix p q assume p: "p \<in> set ?ps" and q: "q \<in> set ?ps" and eq: "peerRID l s p = peerRID l s q"
    then have "the (peer_SiteIndex p) = the (peer_SiteIndex q)" using rem rid.rem_inj by metis
    then have "peer_SiteIndex p = peer_SiteIndex q"
      using p q assms(3) by (metis option.sel peers_ok_def)
    then show "p = q" using p q assms(3) by (simp add: peers_ok_def distinct_map inj_on_def)
  qed
  then have "distinct (map (peerRID l s) ?ps)"
    using assms(3) by (auto simp: peers_ok_def distinct_map)
  moreover have "set (localRIDs l s (inClusterCount sc) (Some i)) \<inter> set (map (peerRID l s) ?ps) = {}"
    using loc rem rid.loc_rem by (fastforce simp: localRIDs_def)
  ultimately show "distinct (podRIDs l s sc i)" by (simp add: podRIDs_def)
qed

lemma issued_range: "r \<in> rid.issued l s \<Longrightarrow> 1 \<le> r \<and> r \<le> 999"
proof -
  assume "r \<in> rid.issued l s"
  then obtain c where "Decode l r = Inr c" using rid.issued_segment by blast
  then have "Validate l = None \<and> 1 \<le> r \<and> r \<le> MaxSegments l * SegmentWidth l"
    using Decode_Inl_iff [of l r] by auto
  then show ?thesis using matrix_fits [of l] by auto
qed


definition example_dbs :: "SlapdDatabase list" where
  "example_dbs = [base_database ''a'' (Some 0), base_database ''b'' (Some 1)]"

definition example_gate :: "SlapdCluster \<Rightarrow> SlapdDatabase \<Rightarrow> (int32 \<times> ridSegmentVerdict option) \<times> SlapdDatabase" where
  "example_gate sc sd = reconcileRIDSegment (\<lambda>cs t. filter (\<lambda>c. cond_Type c \<noteq> t) cs) (\<lambda>_. Inr example_dbs) 0 sc sd
     DefaultLayout None"

definition example_peer :: ExternalPeer where
  "example_peer = (base_peer ''east'' (Some 3))\<lparr>peer_URI := ''ldaps://10.0.0.1:1025''\<rparr>"




end
